(* ===== verification/Prelude.thy ===== *)
theory Prelude
  imports Main "HOL-Library.Word"
begin

text \<open>
  Shared vocabulary of the development.

  \<^item> machine integers: Rust's \<open>u64\<close> is \<open>64 word\<close>; \<open>checked_add64\<close> and
    \<open>saturating_add64\<close> are the standard library's operations of these names;
  \<^item> bytes and strings: both \<open>Vec<u8>\<close> and \<open>String\<close> are lists of HOL characters,
    which are exactly the 256 byte values, so \<open>as_bytes\<close> is the identity;
  \<^item> results: \<open>Result<T, E>\<close> is \<open>'e + 'a\<close> with the error on the left, \<open>rbind\<close> is
    the question-mark operator and \<open>rmapM\<close> is \<open>collect::<Result<Vec<_>, _>>\<close>;
  \<^item> big-endian integers and length-prefixed strings, the two encodings from
    which every digest transcript of the program is built, with the cancellation
    laws that make the transcripts injective.
\<close>

named_theorems res_simps \<open>unfolding of results, binds and guards\<close>
named_theorems enc_simps \<open>cancellation laws of the transcript encodings\<close>

named_theorems preserves_intros \<open>invariants kept by composed methods\<close>

type_synonym byte = char
type_synonym bytes = "char list"
type_synonym u64 = "64 word"

section \<open>Results\<close>

definition rbind :: "'e + 'a \<Rightarrow> ('a \<Rightarrow> 'e + 'b) \<Rightarrow> 'e + 'b" where
  "rbind r f = (case r of Inl e \<Rightarrow> Inl e | Inr x \<Rightarrow> f x)"

definition guard :: "bool \<Rightarrow> 'e \<Rightarrow> 'e + unit" where
  "guard b e = (if b then Inr () else Inl e)"

definition is_ok :: "'e + 'a \<Rightarrow> bool" where
  "is_ok r = (case r of Inl _ \<Rightarrow> False | Inr _ \<Rightarrow> True)"

definition ok_or :: "'a option \<Rightarrow> 'e \<Rightarrow> 'e + 'a" where
  "ok_or v e = (case v of None \<Rightarrow> Inl e | Some x \<Rightarrow> Inr x)"

definition map_err :: "('e \<Rightarrow> 'f) \<Rightarrow> 'e + 'a \<Rightarrow> 'f + 'a" where
  "map_err f r = (case r of Inl e \<Rightarrow> Inl (f e) | Inr x \<Rightarrow> Inr x)"

fun rmapM :: "('a \<Rightarrow> 'e + 'b) \<Rightarrow> 'a list \<Rightarrow> 'e + 'b list" where
  "rmapM f [] = Inr []"
| "rmapM f (x # xs) =
     rbind (f x) (\<lambda>y. rbind (rmapM f xs) (\<lambda>ys. Inr (y # ys)))"

fun rforM :: "('a \<Rightarrow> 'e + unit) \<Rightarrow> 'a list \<Rightarrow> 'e + unit" where
  "rforM f [] = Inr ()"
| "rforM f (x # xs) = rbind (f x) (\<lambda>_. rforM f xs)"

fun rfold :: "('a \<Rightarrow> 's \<Rightarrow> 'e + 's) \<Rightarrow> 'a list \<Rightarrow> 's \<Rightarrow> 'e + 's" where
  "rfold f [] s = Inr s"
| "rfold f (x # xs) s = rbind (f x s) (rfold f xs)"

lemma rbind_simps [simp, res_simps]:
  "rbind (Inl e) f = Inl e"
  "rbind (Inr x) f = f x"
  by (simp_all add: rbind_def)

lemma rbind_Inr [res_simps]: "rbind r f = Inr y \<longleftrightarrow> (\<exists>x. r = Inr x \<and> f x = Inr y)"
  by (cases r) simp_all

lemma rbind_Inl [res_simps]:
  "rbind r f = Inl e \<longleftrightarrow> r = Inl e \<or> (\<exists>x. r = Inr x \<and> f x = Inl e)"
  by (cases r) simp_all

lemma guard_iff [simp, res_simps]:
  "guard b e = Inr u \<longleftrightarrow> b"
  "guard b e = Inl e' \<longleftrightarrow> \<not> b \<and> e' = e"
  by (auto simp: guard_def)

lemma guard_simps [simp]: "guard True e = Inr ()" "guard False e = Inl e"
  by (simp_all add: guard_def)

lemma is_ok_simps [simp]: "is_ok (Inr x)" "\<not> is_ok (Inl e)"
  by (simp_all add: is_ok_def)

lemma is_ok_iff: "is_ok r \<longleftrightarrow> (\<exists>x. r = Inr x)"
  by (cases r) simp_all

lemma ok_or_iff [simp, res_simps]:
  "ok_or v e = Inr x \<longleftrightarrow> v = Some x"
  "ok_or v e = Inl e' \<longleftrightarrow> v = None \<and> e' = e"
  by (auto simp: ok_or_def split: option.splits)

lemma ok_or_simps [simp]: "ok_or None e = Inl e" "ok_or (Some x) e = Inr x"
  by (simp_all add: ok_or_def)

lemma map_err_simps [simp]:
  "map_err f (Inl e) = Inl (f e)"
  "map_err f (Inr x) = Inr x"
  by (simp_all add: map_err_def)

lemma map_err_Inr [simp, res_simps]: "map_err f r = Inr x \<longleftrightarrow> r = Inr x"
  by (cases r) simp_all

lemma rmapM_Inr: "rmapM f xs = Inr ys \<longleftrightarrow> list_all2 (\<lambda>x y. f x = Inr y) xs ys"
  by (induction xs arbitrary: ys) (auto simp: rbind_Inr list_all2_Cons1)

lemma rmapM_cong [fundef_cong]:
  assumes "xs = ys" and "\<And>x. x \<in> set ys \<Longrightarrow> f x = g x"
  shows "rmapM f xs = rmapM g ys"
proof -
  have "rmapM f ys = rmapM g ys" using assms(2) by (induction ys) simp_all
  then show ?thesis using assms(1) by simp
qed

lemma rmapM_ok: "(\<And>x. x \<in> set xs \<Longrightarrow> f x = Inr (g x)) \<Longrightarrow> rmapM f xs = Inr (map g xs)"
  by (induction xs) simp_all

lemma rforM_Inr: "rforM f xs = Inr u \<longleftrightarrow> (\<forall>x\<in>set xs. f x = Inr ())"
  by (induction xs) (auto simp: rbind_Inr)

lemma rforM_Inl: "rforM f xs = Inl e \<Longrightarrow> \<exists>x\<in>set xs. f x = Inl e"
  by (induction xs) (auto simp: rbind_Inl)

lemma rfold_append: "rfold f (xs @ ys) s = rbind (rfold f xs s) (rfold f ys)"
proof (induction xs arbitrary: s)
  case (Cons x xs)
  then show ?case by (cases "f x s") simp_all
qed simp

lemma rfold_invariant:
  assumes "rfold f xs s = Inr s'" and "I s"
    and "\<And>x s s'. x \<in> set xs \<Longrightarrow> I s \<Longrightarrow> f x s = Inr s' \<Longrightarrow> I s'"
  shows "I s'"
  using assms by (induction xs arbitrary: s) (auto simp: rbind_Inr)

section \<open>Fallible operations on a state\<close>

text \<open>A method \<open>fn f(&mut self) -> Result<T, E>\<close> is a function from a state to a result
  and a state; the state after an error is the one the method had reached.\<close>

type_synonym ('s, 'e, 'a) action = "'s \<Rightarrow> ('e + 'a) \<times> 's"

definition sret :: "'a \<Rightarrow> ('s, 'e, 'a) action" where
  "sret x s = (Inr x, s)"

definition slift :: "'e + 'a \<Rightarrow> ('s, 'e, 'a) action" where
  "slift r s = (r, s)"

definition sread :: "('s \<Rightarrow> 'e + 'a) \<Rightarrow> ('s, 'e, 'a) action" where
  "sread f s = (f s, s)"

definition sget :: "('s \<Rightarrow> 'a) \<Rightarrow> ('s, 'e, 'a) action" where
  "sget f s = (Inr (f s), s)"

definition smodify :: "('s \<Rightarrow> 's) \<Rightarrow> ('s, 'e, unit) action" where
  "smodify f s = (Inr (), f s)"

definition supdate :: "('s \<Rightarrow> 'e + 's) \<Rightarrow> ('s, 'e, unit) action" where
  "supdate f s = (case f s of Inl e \<Rightarrow> (Inl e, s) | Inr s' \<Rightarrow> (Inr (), s'))"

definition sbind ::
  "('s, 'e, 'a) action \<Rightarrow> ('a \<Rightarrow> ('s, 'e, 'b) action) \<Rightarrow> ('s, 'e, 'b) action" where
  "sbind m f s = (case m s of (Inl e, s') \<Rightarrow> (Inl e, s') | (Inr x, s') \<Rightarrow> f x s')"

fun sfor :: "('a \<Rightarrow> ('s, 'e, unit) action) \<Rightarrow> 'a list \<Rightarrow> ('s, 'e, unit) action" where
  "sfor f [] = sret ()"
| "sfor f (x # xs) = sbind (f x) (\<lambda>_. sfor f xs)"

lemma sret_simps [simp]: "sret x s = (Inr x, s)"
  by (simp add: sret_def)

lemma slift_simps [simp]: "slift (Inr x) s = (Inr x, s)" "slift (Inl e) s = (Inl e, s)"
  by (simp_all add: slift_def)

lemma sread_simps [simp]: "sread f s = (f s, s)"
  by (simp add: sread_def)

lemma sget_simps [simp]: "sget f s = (Inr (f s), s)"
  by (simp add: sget_def)

lemma smodify_simps [simp]: "smodify f s = (Inr (), f s)"
  by (simp add: smodify_def)

lemma supdate_ok [res_simps]: "supdate f s = (Inr u, s') \<longleftrightarrow> f s = Inr s'"
  by (auto simp: supdate_def split: sum.splits)

lemma supdate_simps [simp]:
  "f s = Inr s' \<Longrightarrow> supdate f s = (Inr (), s')"
  "f s = Inl e \<Longrightarrow> supdate f s = (Inl e, s)"
  by (simp_all add: supdate_def)

lemma sbind_ok [res_simps]:
  "sbind m f s = (Inr y, s'') \<longleftrightarrow> (\<exists>x s'. m s = (Inr x, s') \<and> f x s' = (Inr y, s''))"
  by (auto simp: sbind_def split: prod.splits sum.splits)

lemma sbind_err [res_simps]:
  "sbind m f s = (Inl e, s'') \<longleftrightarrow>
     m s = (Inl e, s'') \<or> (\<exists>x s'. m s = (Inr x, s') \<and> f x s' = (Inl e, s''))"
  by (auto simp: sbind_def split: prod.splits sum.splits)

lemma sbind_step [simp]:
  "m s = (Inr x, s') \<Longrightarrow> sbind m f s = f x s'"
  "m s = (Inl e, s') \<Longrightarrow> sbind m f s = (Inl e, s')"
  by (simp_all add: sbind_def)

text \<open>An invariant kept by a method, on success and on error.\<close>

definition preserves :: "('s \<Rightarrow> bool) \<Rightarrow> ('s, 'e, 'a) action \<Rightarrow> bool" where
  "preserves I m \<longleftrightarrow> (\<forall>s r s'. I s \<longrightarrow> m s = (r, s') \<longrightarrow> I s')"

lemma preservesD: "preserves I m \<Longrightarrow> m s = (r, s') \<Longrightarrow> I s \<Longrightarrow> I s'"
  unfolding preserves_def by blast

lemma preservesI: "(\<And>s r s'. I s \<Longrightarrow> m s = (r, s') \<Longrightarrow> I s') \<Longrightarrow> preserves I m"
  unfolding preserves_def by blast

lemma preserves_basic [preserves_intros]:
  "preserves I (sret x)" "preserves I (slift r)" "preserves I (sread f)" "preserves I (sget g)"
  by (auto simp: slift_def intro!: preservesI)

lemma preserves_sbind [preserves_intros]:
  assumes "preserves I m" and "\<And>x. preserves I (f x)"
  shows "preserves I (sbind m f)"
proof (rule preservesI)
  fix s r s'
  assume "I s" and run: "sbind m f s = (r, s')"
  obtain q t where m: "m s = (q, t)" by (cases "m s")
  then have "I t" using assms(1) \<open>I s\<close> preservesD by fast
  with run m show "I s'"
    by (cases q) (auto simp: sbind_def dest: preservesD [OF assms(2)])
qed

lemma preserves_if [preserves_intros]:
  "(b \<Longrightarrow> preserves I m) \<Longrightarrow> (\<not> b \<Longrightarrow> preserves I n) \<Longrightarrow> preserves I (if b then m else n)"
  by simp

lemma preserves_case_list [preserves_intros]:
  "preserves I m \<Longrightarrow> (\<And>x xs. preserves I (f x xs)) \<Longrightarrow>
     preserves I (case l of [] \<Rightarrow> m | x # xs \<Rightarrow> f x xs)"
  by (cases l) simp_all

lemma preserves_sfor [preserves_intros]:
  "(\<And>x. preserves I (f x)) \<Longrightarrow> preserves I (sfor f xs)"
  by (induction xs) (simp_all add: preserves_intros)

lemma preserves_supdate:
  "(\<And>s s'. I s \<Longrightarrow> f s = Inr s' \<Longrightarrow> I s') \<Longrightarrow> preserves I (supdate f)"
  by (rule preservesI) (auto simp: supdate_def split: sum.splits)

lemma preserves_smodify: "(\<And>s. I s \<Longrightarrow> I (f s)) \<Longrightarrow> preserves I (smodify f)"
  by (rule preservesI) auto

section \<open>Machine integers\<close>

definition checked_add64 :: "u64 \<Rightarrow> u64 \<Rightarrow> u64 option" where
  "checked_add64 a b = (if unat a + unat b < 2 ^ 64 then Some (a + b) else None)"

definition saturating_add64 :: "u64 \<Rightarrow> u64 \<Rightarrow> u64" where
  "saturating_add64 a b = (if unat a + unat b < 2 ^ 64 then a + b else - 1)"

definition saturating_sub64 :: "u64 \<Rightarrow> u64 \<Rightarrow> u64" where
  "saturating_sub64 a b = (if b \<le> a then a - b else 0)"

lemma unat_lt64 [simp]: "unat (a :: u64) < 18446744073709551616"
  using unsigned_less [of a] by simp

lemma checked_add64_Some:
  "checked_add64 a b = Some c \<longleftrightarrow> unat a + unat b < 2 ^ 64 \<and> unat c = unat a + unat b"
proof
  assume "checked_add64 a b = Some c"
  then show "unat a + unat b < 2 ^ 64 \<and> unat c = unat a + unat b"
    by (auto simp: checked_add64_def unat_plus_if' split: if_splits)
next
  assume "unat a + unat b < 2 ^ 64 \<and> unat c = unat a + unat b"
  then show "checked_add64 a b = Some c"
    by (simp add: checked_add64_def word_unat_eq_iff unat_plus_if')
qed

lemma checked_add64_increases: "checked_add64 a b = Some c \<Longrightarrow> 0 < b \<Longrightarrow> a < c"
  by (simp add: checked_add64_Some word_less_nat_alt)

lemma checked_add64_ge: "checked_add64 a b = Some c \<Longrightarrow> a \<le> c"
  by (simp add: checked_add64_Some word_le_nat_alt)

lemma unat_saturating_add64:
  "unat (saturating_add64 a b) = min (unat a + unat b) (2 ^ 64 - 1)"
proof (cases "unat a + unat b < 2 ^ 64")
  case True
  then show ?thesis by (simp add: saturating_add64_def unat_plus_if')
next
  case False
  have "unat (- 1 :: u64) = 2 ^ 64 - 1" by (simp add: unsigned_minus_1_eq_mask mask_eq_exp_minus_1)
  with False show ?thesis by (simp add: saturating_add64_def)
qed

section \<open>Big-endian integers\<close>

primrec be_bytes :: "nat \<Rightarrow> nat \<Rightarrow> bytes" where
  "be_bytes 0 n = []"
| "be_bytes (Suc k) n = be_bytes k (n div 256) @ [char_of n]"

abbreviation be64 :: "nat \<Rightarrow> bytes" where
  "be64 n \<equiv> be_bytes 8 n"

definition lp :: "bytes \<Rightarrow> bytes" where
  "lp s = be64 (length s) @ s"

lemma length_be_bytes [simp]: "length (be_bytes k n) = k"
  by (induction k arbitrary: n) simp_all

lemma char_of_nat_eq: "(char_of (m::nat) = (char_of n :: char)) \<longleftrightarrow> m mod 256 = n mod 256"
proof -
  have "(char_of m = (char_of n :: char)) \<longleftrightarrow> of_char (char_of m :: char) = (of_char (char_of n :: char) :: nat)"
    by simp
  then show ?thesis by simp
qed

lemma base256_inject:
  assumes "r < 256" and "t < (256::nat)"
  shows "256 * q + r = 256 * s + t \<longleftrightarrow> q = s \<and> r = t"
proof -
  have "(256 * q + r) div 256 = q" and "(256 * s + t) div 256 = s"
    using assms by simp_all
  then show ?thesis by (metis add_left_cancel)
qed

lemma be_bytes_eq [enc_simps]:
  "be_bytes k m = be_bytes k n \<longleftrightarrow> m mod 256 ^ k = n mod 256 ^ k"
proof (induction k arbitrary: m n)
  case (Suc k)
  have "x mod 256 ^ Suc k = 256 * (x div 256 mod 256 ^ k) + x mod 256" for x :: nat
    by (simp add: mod_mult2_eq [of x 256 "256 ^ k"] mult.commute)
  then have "m mod 256 ^ Suc k = n mod 256 ^ Suc k \<longleftrightarrow>
      m div 256 mod 256 ^ k = n div 256 mod 256 ^ k \<and> m mod 256 = n mod 256"
    using base256_inject [of "m mod 256" "n mod 256"] by simp
  then show ?case using Suc by (simp add: char_of_nat_eq)
qed simp

lemma be64_unat_eq [simp, enc_simps]:
  "be64 (unat (a::u64)) = be64 (unat b) \<longleftrightarrow> a = b"
  by (simp add: be_bytes_eq word_unat_eq_iff)

lemma be64_inject:
  "m < 2 ^ 64 \<Longrightarrow> n < 2 ^ 64 \<Longrightarrow> be64 m = be64 n \<longleftrightarrow> m = n"
  by (simp add: be_bytes_eq)

lemma lp_append_eq [enc_simps]:
  assumes "length s < 2 ^ 64" and "length t < 2 ^ 64"
  shows "lp s @ x = lp t @ y \<longleftrightarrow> s = t \<and> x = y"
proof
  assume eq: "lp s @ x = lp t @ y"
  then have "be64 (length s) = be64 (length t)" and rest: "s @ x = t @ y"
    by (auto simp: lp_def)
  then have "length s = length t" using assms be64_inject by blast
  with rest show "s = t \<and> x = y" by simp
qed simp

lemma lp_eq [enc_simps]:
  assumes "length s < 2 ^ 64" and "length t < 2 ^ 64"
  shows "lp s = lp t \<longleftrightarrow> s = t"
  using lp_append_eq [OF assms, of "[]" "[]"] by simp

end
