(* ===== verification/Vault_Types.thy ===== *)
theory Vault_Types
  imports Prelude
begin

text \<open>
  Identifiers, addresses and errors of the vault (\<open>src/src/vault/mod.rs\<close>), the
  authenticated caller identity (\<open>src/src/vault/protocol/wire.rs\<close>), and the bounded
  caller cache.  Digests are taken by the \<open>sha2\<close>, \<open>hmac\<close> and \<open>base64\<close> crates, which
  are fields of the record \<open>hash_env\<close>; everything hashed is built here as an explicit
  transcript, so that what the program promises of a digest, that different objects
  are hashed from different transcripts, is proved of the program's own code.
\<close>

section \<open>Errors\<close>

datatype NativeAuthorizationError =
    Cancelled
  | Denied
  | UiUnavailable
  | SessionLocked
  | CredentialInvalidated

datatype VaultError =
    EmptyAddress string
  | AddressTooLong string nat
  | InvalidData string
  | Automerge string
  | Crypto
  | Signature
  | Conflict
  | Expired
  | Random string
  | Database string
  | WorkerUnavailable
  | AgentUnreachable string
  | Sealed
  | Replay
  | AuthorizationRequired
  | ApprovalLimited
  | HardwareUnavailable
  | HardwarePolicyUnsupported
  | NativeAuthorization NativeAuthorizationError
  | Protocol string
  | PasswordRejected
  | Protection string

type_synonym 'a vault_result = "VaultError + 'a"

section \<open>External digests and codecs\<close>

record hash_env =
  sha256 :: "bytes \<Rightarrow> bytes"
  hmac_sha256 :: "bytes \<Rightarrow> bytes \<Rightarrow> bytes"
  b64_encode :: "bytes \<Rightarrow> string"
  b64_decode :: "string \<Rightarrow> bytes option"

text \<open>The documented contract of the digest and base64 crates: 32 byte outputs, and
  decoding inverts encoding.\<close>

definition hash_env_ok :: "'z hash_env_scheme \<Rightarrow> bool" where
  "hash_env_ok H \<longleftrightarrow>
     (\<forall>x. length (sha256 H x) = 32) \<and>
     (\<forall>k x. length (hmac_sha256 H k x) = 32) \<and>
     (\<forall>x. b64_decode H (b64_encode H x) = Some x)"

text \<open>A serde codec for one type: \<open>serde_json::to_vec\<close> and \<open>serde_json::from_slice\<close>,
  with the error rendered by \<open>to_string\<close>.\<close>

record 'a json =
  to_vec :: "'a \<Rightarrow> string + bytes"
  from_slice :: "bytes \<Rightarrow> string + 'a"

definition json_ok :: "'a json \<Rightarrow> bool" where
  "json_ok J \<longleftrightarrow> (\<forall>x. \<exists>b. to_vec J x = Inr b \<and> from_slice J b = Inr x)"

lemma json_okE:
  assumes "json_ok J"
  obtains b where "to_vec J x = Inr b" and "from_slice J b = Inr x"
  using assms unfolding json_ok_def by blast

lemma b64_encode_inject:
  "hash_env_ok H \<Longrightarrow> b64_encode H x = b64_encode H y \<longleftrightarrow> x = y"
  unfolding hash_env_ok_def by (metis option.inject)

section \<open>Kinds\<close>

datatype VaultKind = Device | Personal | Team

datatype DocumentKind =
    Authorization
  | LinuxSecretService
  | NetworkManagerWifi
  | LocalKeyring
  | SecretSpecProject
  | SecretSpecProviderCache

definition vault_kind_as_str :: "VaultKind \<Rightarrow> string" where
  "vault_kind_as_str k = (case k of
      Device \<Rightarrow> ''device'' | Personal \<Rightarrow> ''personal'' | Team \<Rightarrow> ''team'')"

definition vault_kind_parse :: "string \<Rightarrow> VaultKind vault_result" where
  "vault_kind_parse v =
     (if v = ''device'' then Inr Device
      else if v = ''personal'' then Inr Personal
      else if v = ''team'' then Inr Team
      else Inl (InvalidData (''unknown vault kind `'' @ v @ ''`'')))"

definition document_kind_as_str :: "DocumentKind \<Rightarrow> string" where
  "document_kind_as_str k = (case k of
      Authorization \<Rightarrow> ''authorization''
    | LinuxSecretService \<Rightarrow> ''linux-secret-service''
    | NetworkManagerWifi \<Rightarrow> ''network-manager-wifi''
    | LocalKeyring \<Rightarrow> ''local-keyring''
    | SecretSpecProject \<Rightarrow> ''secretspec-project''
    | SecretSpecProviderCache \<Rightarrow> ''secretspec-provider-cache'')"

definition document_kind_parse :: "string \<Rightarrow> DocumentKind vault_result" where
  "document_kind_parse v =
     (if v = ''authorization'' then Inr Authorization
      else if v = ''linux-secret-service'' then Inr LinuxSecretService
      else if v = ''network-manager-wifi'' then Inr NetworkManagerWifi
      else if v = ''local-keyring'' then Inr LocalKeyring
      else if v = ''secretspec-project'' then Inr SecretSpecProject
      else if v = ''secretspec-provider-cache'' then Inr SecretSpecProviderCache
      else Inl (InvalidData (''unknown document kind `'' @ v @ ''`'')))"

lemma document_kind_as_str_inject [simp]:
  "document_kind_as_str a = document_kind_as_str b \<longleftrightarrow> a = b"
  by (cases a; cases b) (simp_all add: document_kind_as_str_def)

lemma vault_kind_as_str_inject [simp]:
  "vault_kind_as_str a = vault_kind_as_str b \<longleftrightarrow> a = b"
  by (cases a; cases b) (simp_all add: vault_kind_as_str_def)

lemma document_kind_as_str_short [simp]: "length (document_kind_as_str k) < 2 ^ 64"
  by (cases k) (simp_all add: document_kind_as_str_def)

lemma vault_kind_as_str_short [simp]: "length (vault_kind_as_str k) < 2 ^ 64"
  by (cases k) (simp_all add: vault_kind_as_str_def)

lemma document_kind_parse_as_str [simp]: "document_kind_parse (document_kind_as_str k) = Inr k"
  by (cases k) (simp_all add: document_kind_parse_def document_kind_as_str_def)

lemma document_kind_parse_Inr: "document_kind_parse v = Inr k \<longleftrightarrow> v = document_kind_as_str k"
  by (auto simp: document_kind_parse_def document_kind_as_str_def split: if_splits DocumentKind.splits)

lemma vault_kind_parse_as_str [simp]: "vault_kind_parse (vault_kind_as_str k) = Inr k"
  by (cases k) (simp_all add: vault_kind_parse_def vault_kind_as_str_def)

section \<open>Addresses\<close>

record SecretSpecCoordinates =
  c_item :: string
  c_field :: "string option"
  c_vault :: "string option"
  c_section :: "string option"
  c_version :: "string option"

datatype SecretSpecAddress =
    Convention string string string
  | Native SecretSpecCoordinates

datatype SecretAddress =
    Local string "string option"
  | SecretSpec SecretSpecAddress

definition MAX_ADDRESS_COMPONENT_BYTES :: nat where
  "MAX_ADDRESS_COMPONENT_BYTES = 4096"

definition validate_address_component :: "string \<Rightarrow> string \<Rightarrow> unit vault_result" where
  "validate_address_component component v =
     (if v = [] then Inl (EmptyAddress component)
      else if length v > MAX_ADDRESS_COMPONENT_BYTES
        then Inl (AddressTooLong component MAX_ADDRESS_COMPONENT_BYTES)
      else Inr ())"

fun secret_spec_validate :: "SecretSpecAddress \<Rightarrow> unit vault_result" where
  "secret_spec_validate (Convention project profile key) =
     rbind (validate_address_component ''project'' project) (\<lambda>_.
     rbind (validate_address_component ''profile'' profile) (\<lambda>_.
       validate_address_component ''key'' key))"
| "secret_spec_validate (Native c) =
     rbind (validate_address_component ''item'' (c_item c)) (\<lambda>_.
       rforM (\<lambda>(name, v). case v of
                None \<Rightarrow> Inr ()
              | Some v \<Rightarrow> validate_address_component name v)
         [(''field'', c_field c), (''vault'', c_vault c),
          (''section'', c_section c), (''version'', c_version c)])"

fun secret_spec_project :: "SecretSpecAddress \<Rightarrow> string option" where
  "secret_spec_project (Convention project profile key) = Some project"
| "secret_spec_project (Native c) = None"

fun address_validate :: "SecretAddress \<Rightarrow> unit vault_result" where
  "address_validate (Local item fld) =
     rbind (validate_address_component ''item'' item) (\<lambda>_.
       case fld of None \<Rightarrow> Inr () | Some f \<Rightarrow> validate_address_component ''field'' f)"
| "address_validate (SecretSpec a) = secret_spec_validate a"

definition address_new :: "string \<Rightarrow> string option \<Rightarrow> SecretAddress vault_result" where
  "address_new item fld =
     rbind (address_validate (Local item fld)) (\<lambda>_. Inr (Local item fld))"

definition address_secret_spec :: "SecretSpecAddress \<Rightarrow> SecretAddress vault_result" where
  "address_secret_spec a = rbind (secret_spec_validate a) (\<lambda>_. Inr (SecretSpec a))"

fun as_local :: "SecretAddress \<Rightarrow> (string \<times> string option) option" where
  "as_local (Local item fld) = Some (item, fld)"
| "as_local (SecretSpec a) = None"

fun as_secret_spec :: "SecretAddress \<Rightarrow> SecretSpecAddress option" where
  "as_secret_spec (Local item fld) = None"
| "as_secret_spec (SecretSpec a) = Some a"

definition update_digest_string :: "string \<Rightarrow> bytes" where
  "update_digest_string v = be64 (length v) @ v"

definition update_digest_option :: "string option \<Rightarrow> bytes" where
  "update_digest_option v = (case v of
      Some v \<Rightarrow> [CHR 0x01] @ update_digest_string v
    | None \<Rightarrow> [CHR 0x00])"

fun secret_spec_update_digest :: "SecretSpecAddress \<Rightarrow> bytes" where
  "secret_spec_update_digest (Convention project profile key) =
     [CHR 0x01] @ update_digest_string project @ update_digest_string profile
       @ update_digest_string key"
| "secret_spec_update_digest (Native c) =
     [CHR 0x02] @ update_digest_string (c_item c)
       @ concat (map update_digest_option [c_field c, c_vault c, c_section c, c_version c])"

fun storage_key_transcript :: "SecretAddress \<Rightarrow> bytes" where
  "storage_key_transcript (Local item fld) =
     ''factorseal/secret-address/v1'' @ [CHR 0x00] @
       [CHR 0x01] @ update_digest_string item @ update_digest_option fld"
| "storage_key_transcript (SecretSpec a) =
     ''factorseal/secret-address/v1'' @ [CHR 0x00] @
       [CHR 0x02] @ secret_spec_update_digest a"

definition storage_key :: "'z hash_env_scheme \<Rightarrow> SecretAddress \<Rightarrow> string" where
  "storage_key H a = b64_encode H (sha256 H (storage_key_transcript a))"

section \<open>Caller identity\<close>

datatype CallerPlatform = Android | Ios | Linux | Macos | Windows

record CallerIdentity =
  ci_platform :: CallerPlatform
  ci_user_id :: string
  ci_application_id :: string
  ci_executable_digest :: bytes
  ci_signer_id :: "string option"

definition MAX_IDENTITY_COMPONENT_BYTES :: nat where
  "MAX_IDENTITY_COMPONENT_BYTES = 4 * 1024"

definition CALLER_FINGERPRINT_DOMAIN :: bytes where
  "CALLER_FINGERPRINT_DOMAIN = ''factorseal/caller-identity/v1'' @ [CHR 0x00]"

definition validate_identity_component :: "string \<Rightarrow> string \<Rightarrow> unit vault_result" where
  "validate_identity_component name v =
     (if v = [] \<or> length v > MAX_IDENTITY_COMPONENT_BYTES
      then Inl (Protocol (''caller '' @ name @ '' is empty or too long''))
      else Inr ())"

definition identity_validate :: "CallerIdentity \<Rightarrow> unit vault_result" where
  "identity_validate c =
     rbind (validate_identity_component ''user ID'' (ci_user_id c)) (\<lambda>_.
     rbind (validate_identity_component ''application ID'' (ci_application_id c)) (\<lambda>_.
       case ci_signer_id c of
         None \<Rightarrow> Inr ()
       | Some s \<Rightarrow> validate_identity_component ''signer ID'' s))"

definition identity_new ::
  "CallerPlatform \<Rightarrow> string \<Rightarrow> string \<Rightarrow> bytes \<Rightarrow> string option \<Rightarrow> CallerIdentity vault_result" where
  "identity_new platform user_id application_id executable_digest signer_id =
     (let identity = \<lparr>ci_platform = platform, ci_user_id = user_id,
            ci_application_id = application_id,
            ci_executable_digest = executable_digest, ci_signer_id = signer_id\<rparr>
      in rbind (identity_validate identity) (\<lambda>_. Inr identity))"

definition append_digest_bytes :: "bytes \<Rightarrow> bytes" where
  "append_digest_bytes b = be64 (length b) @ b"

definition platform_code :: "CallerPlatform \<Rightarrow> byte" where
  "platform_code p = (case p of
      Android \<Rightarrow> CHR 0x04 | Ios \<Rightarrow> CHR 0x05 | Linux \<Rightarrow> CHR 0x01
    | Macos \<Rightarrow> CHR 0x02 | Windows \<Rightarrow> CHR 0x03)"

definition fingerprint_transcript :: "CallerIdentity \<Rightarrow> bytes" where
  "fingerprint_transcript c =
     CALLER_FINGERPRINT_DOMAIN @ [platform_code (ci_platform c)]
       @ append_digest_bytes (ci_user_id c)
       @ append_digest_bytes (ci_application_id c)
       @ ci_executable_digest c
       @ (case ci_signer_id c of
            Some s \<Rightarrow> [CHR 0x01] @ append_digest_bytes s
          | None \<Rightarrow> [CHR 0x00])"

definition fingerprint :: "'z hash_env_scheme \<Rightarrow> CallerIdentity \<Rightarrow> bytes" where
  "fingerprint H c = sha256 H (fingerprint_transcript c)"

section \<open>The bounded caller cache\<close>

text \<open>The map of resolved identities.  \<open>create\<close> is the platform adapter's result; the
  mutex is poisoned when a holder panicked.\<close>

definition MAX_CALLER_IDENTITY_CACHE_ENTRIES :: nat where
  "MAX_CALLER_IDENTITY_CACHE_ENTRIES = 256"

definition cache_resolve ::
  "bool \<Rightarrow> string \<Rightarrow> CallerIdentity vault_result \<Rightarrow> (string \<rightharpoonup> CallerIdentity)
     \<Rightarrow> CallerIdentity vault_result \<times> (string \<rightharpoonup> CallerIdentity)" where
  "cache_resolve poisoned key create entries =
     (if poisoned then (Inl WorkerUnavailable, entries)
      else case entries key of
        Some identity \<Rightarrow> (Inr identity, entries)
      | None \<Rightarrow>
          (case create of
             Inl e \<Rightarrow> (Inl e, entries)
           | Inr identity \<Rightarrow>
               (let entries = (if card (dom entries) \<ge> MAX_CALLER_IDENTITY_CACHE_ENTRIES
                               then Map.empty else entries)
                in (Inr identity, entries(key \<mapsto> identity)))))"

section \<open>Validity bounds every component\<close>

lemma validate_address_component_ok [simp]:
  "validate_address_component n v = Inr u \<longleftrightarrow> v \<noteq> [] \<and> length v \<le> 4096"
  by (auto simp: validate_address_component_def MAX_ADDRESS_COMPONENT_BYTES_def)

lemma validate_identity_component_ok [simp]:
  "validate_identity_component n v = Inr u \<longleftrightarrow> v \<noteq> [] \<and> length v \<le> 4096"
  by (auto simp: validate_identity_component_def MAX_IDENTITY_COMPONENT_BYTES_def)

lemma identity_validate_ok:
  "identity_validate c = Inr u \<longleftrightarrow>
     ci_user_id c \<noteq> [] \<and> length (ci_user_id c) \<le> 4096 \<and>
     ci_application_id c \<noteq> [] \<and> length (ci_application_id c) \<le> 4096 \<and>
     (\<forall>s. ci_signer_id c = Some s \<longrightarrow> s \<noteq> [] \<and> length s \<le> 4096)"
  by (auto simp: identity_validate_def rbind_Inr split: option.splits)

definition short_option :: "string option \<Rightarrow> bool" where
  "short_option v = (case v of None \<Rightarrow> True | Some s \<Rightarrow> length s \<le> 4096)"

lemma secret_spec_validate_short:
  "secret_spec_validate (Convention p q k) = Inr u \<Longrightarrow>
     length p \<le> 4096 \<and> length q \<le> 4096 \<and> length k \<le> 4096"
  "secret_spec_validate (Native c) = Inr u \<Longrightarrow>
     length (c_item c) \<le> 4096 \<and> short_option (c_field c) \<and> short_option (c_vault c) \<and>
     short_option (c_section c) \<and> short_option (c_version c)"
  by (auto simp: rbind_Inr short_option_def split: option.splits)

lemma address_validate_short:
  "address_validate (Local i f) = Inr u \<Longrightarrow> length i \<le> 4096 \<and> short_option f"
  by (auto simp: rbind_Inr short_option_def split: option.splits)

section \<open>Transcripts determine what they describe\<close>

lemma update_digest_string_append_eq [enc_simps]:
  "length s \<le> 4096 \<Longrightarrow> length t \<le> 4096 \<Longrightarrow>
     update_digest_string s @ x = update_digest_string t @ y \<longleftrightarrow> s = t \<and> x = y"
  using lp_append_eq [of s t x y] by (simp add: update_digest_string_def lp_def)

lemma update_digest_string_eq [enc_simps]:
  "length s \<le> 4096 \<Longrightarrow> length t \<le> 4096 \<Longrightarrow>
     update_digest_string s = update_digest_string t \<longleftrightarrow> s = t"
  using update_digest_string_append_eq [of s t "[]" "[]"] by simp

lemma append_digest_bytes_append_eq [enc_simps]:
  "length s < 2 ^ 64 \<Longrightarrow> length t < 2 ^ 64 \<Longrightarrow>
     append_digest_bytes s @ x = append_digest_bytes t @ y \<longleftrightarrow> s = t \<and> x = y"
  using lp_append_eq [of s t x y] by (simp add: append_digest_bytes_def lp_def)

lemma append_digest_bytes_eq [enc_simps]:
  "length s < 2 ^ 64 \<Longrightarrow> length t < 2 ^ 64 \<Longrightarrow>
     append_digest_bytes s = append_digest_bytes t \<longleftrightarrow> s = t"
  using append_digest_bytes_append_eq [of s t "[]" "[]"] by simp

lemma update_digest_option_append_eq [enc_simps]:
  "short_option s \<Longrightarrow> short_option t \<Longrightarrow>
     update_digest_option s @ x = update_digest_option t @ y \<longleftrightarrow> s = t \<and> x = y"
  by (auto simp: update_digest_option_def short_option_def enc_simps split: option.splits)

lemma update_digest_option_eq [enc_simps]:
  "short_option s \<Longrightarrow> short_option t \<Longrightarrow>
     update_digest_option s = update_digest_option t \<longleftrightarrow> s = t"
  using update_digest_option_append_eq [of s t "[]" "[]"] by simp

lemma secret_spec_update_digest_eq:
  assumes "secret_spec_validate a = Inr ()" and "secret_spec_validate b = Inr ()"
  shows "secret_spec_update_digest a = secret_spec_update_digest b \<longleftrightarrow> a = b"
proof (cases a; cases b)
  fix c d
  assume "a = Native c" and "b = Native d"
  then show ?thesis
    using assms secret_spec_validate_short(2) [of c] secret_spec_validate_short(2) [of d]
    by (auto simp: enc_simps)
qed (use assms secret_spec_validate_short(1) in \<open>auto simp: enc_simps\<close>)

lemma storage_key_transcript_eq:
  assumes "address_validate a = Inr ()" and "address_validate b = Inr ()"
  shows "storage_key_transcript a = storage_key_transcript b \<longleftrightarrow> a = b"
proof (cases a; cases b)
  fix i f j g
  assume "a = Local i f" and "b = Local j g"
  then show ?thesis
    using assms address_validate_short [of i f] address_validate_short [of j g]
    by (auto simp: enc_simps)
qed (use assms in \<open>auto simp: secret_spec_update_digest_eq\<close>)

lemma platform_code_inject [simp]: "platform_code p = platform_code q \<longleftrightarrow> p = q"
  by (cases p; cases q) (simp_all add: platform_code_def)

lemma fingerprint_transcript_eq:
  assumes "identity_validate a = Inr ()" and "identity_validate b = Inr ()"
    and "length (ci_executable_digest a) = 32" and "length (ci_executable_digest b) = 32"
  shows "fingerprint_transcript a = fingerprint_transcript b \<longleftrightarrow> a = b"
proof
  assume "fingerprint_transcript a = fingerprint_transcript b"
  with assms have "ci_platform a = ci_platform b \<and> ci_user_id a = ci_user_id b \<and>
      ci_application_id a = ci_application_id b \<and>
      ci_executable_digest a = ci_executable_digest b \<and> ci_signer_id a = ci_signer_id b"
    by (auto simp: fingerprint_transcript_def identity_validate_ok enc_simps split: option.splits)
  then show "a = b" by simp
qed simp

lemma cache_resolve_bounded:
  assumes "card (dom m) \<le> 256" and "finite (dom m)"
    and "cache_resolve p k c m = (r, m')"
  shows "card (dom m') \<le> 256 \<and> finite (dom m')"
  using assms
  by (auto simp: cache_resolve_def MAX_CALLER_IDENTITY_CACHE_ENTRIES_def Let_def card_insert_if
      split: if_splits option.splits sum.splits)

end
