(* ===== verification/Lease.thy ===== *)
theory Lease
  imports Vault_Types
begin

text \<open>
  Unseal leases and the replay window (\<open>src/src/vault/protocol/lease.rs\<close>), and the
  request clock (\<open>src/src/vault/protocol/service/time.rs\<close>).  A \<open>Duration\<close> and an
  \<open>Instant\<close> are natural numbers of nanoseconds, a \<open>SystemTime\<close> is an integer number of
  nanoseconds since the epoch, wall-clock seconds are \<open>u64\<close>.  Every reading of a clock
  is an argument.
\<close>

section \<open>Durations and instants of the standard library\<close>

type_synonym duration = nat
type_synonym instant = nat
type_synonym system_time = int

definition NANOS :: nat where
  "NANOS = 1000000000"

definition DURATION_MAX :: duration where
  "DURATION_MAX = (2 ^ 64 - 1) * NANOS + (NANOS - 1)"

definition as_secs :: "duration \<Rightarrow> u64" where
  "as_secs d = word_of_nat (d div NANOS)"

definition from_secs :: "u64 \<Rightarrow> duration" where
  "from_secs s = unat s * NANOS"

definition duration_saturating_add :: "duration \<Rightarrow> duration \<Rightarrow> duration" where
  "duration_saturating_add a b = min (a + b) DURATION_MAX"

text \<open>An \<open>Instant\<close> holds its seconds as a signed 64-bit integer.\<close>

definition instant_checked_add :: "instant \<Rightarrow> duration \<Rightarrow> instant option" where
  "instant_checked_add t d = (if (t + d) div NANOS < 2 ^ 63 then Some (t + d) else None)"

definition system_duration_since :: "system_time \<Rightarrow> system_time \<Rightarrow> duration option" where
  "system_duration_since t earlier = (if earlier \<le> t then Some (nat (t - earlier)) else None)"

section \<open>Unseal leases\<close>

record UnsealLeasePolicy =
  idle_timeout :: duration
  maximum_lifetime :: duration

definition policy_default :: UnsealLeasePolicy where
  "policy_default = \<lparr>idle_timeout = 5 * 60 * NANOS, maximum_lifetime = 8 * 60 * 60 * NANOS\<rparr>"

definition policy_validate :: "UnsealLeasePolicy \<Rightarrow> unit vault_result" where
  "policy_validate p =
     (if idle_timeout p = 0 \<or> maximum_lifetime p = 0 \<or> idle_timeout p > maximum_lifetime p
      then Inl (Protocol ''unseal lease timeouts are invalid'')
      else Inr ())"

record UnsealLease =
  l_idle_timeout :: duration
  idle_deadline :: u64
  absolute_deadline :: u64
  idle_expires_at :: instant
  absolute_expires_at :: instant

abbreviation lease_overflow :: VaultError where
  "lease_overflow \<equiv> Protocol ''unseal lease overflows time''"

definition lease_new_at :: "u64 \<Rightarrow> instant \<Rightarrow> UnsealLeasePolicy \<Rightarrow> UnsealLease vault_result" where
  "lease_new_at now monotonic_now policy =
     rbind (policy_validate policy) (\<lambda>_.
     let idle_timeout_seconds = as_secs (idle_timeout policy) in
     rbind (ok_or (checked_add64 now (as_secs (maximum_lifetime policy))) lease_overflow)
       (\<lambda>absolute_deadline.
     rbind (ok_or (checked_add64 now idle_timeout_seconds) lease_overflow) (\<lambda>idle.
     let idle_deadline = min idle absolute_deadline in
     rbind (ok_or (instant_checked_add monotonic_now (maximum_lifetime policy)) lease_overflow)
       (\<lambda>absolute_expires_at.
     rbind (ok_or (instant_checked_add monotonic_now (idle_timeout policy)) lease_overflow)
       (\<lambda>idle_at.
     let idle_expires_at = min idle_at absolute_expires_at in
     Inr \<lparr>l_idle_timeout = idle_timeout policy, idle_deadline = idle_deadline,
          absolute_deadline = absolute_deadline, idle_expires_at = idle_expires_at,
          absolute_expires_at = absolute_expires_at\<rparr>)))))"

definition lease_is_expired :: "UnsealLease \<Rightarrow> instant \<Rightarrow> bool" where
  "lease_is_expired l monotonic_now \<longleftrightarrow>
     monotonic_now \<ge> idle_expires_at l \<or> monotonic_now \<ge> absolute_expires_at l"

definition lease_expires_at :: "UnsealLease \<Rightarrow> instant" where
  "lease_expires_at l = min (idle_expires_at l) (absolute_expires_at l)"

text \<open>\<open>touch\<close> writes the two idle deadlines one after the other, so a failure of the
  second addition leaves the first one written.\<close>

definition lease_touch :: "u64 \<Rightarrow> instant \<Rightarrow> UnsealLease \<Rightarrow> unit vault_result \<times> UnsealLease" where
  "lease_touch now monotonic_now l =
     (if lease_is_expired l monotonic_now then (Inl Sealed, l)
      else case checked_add64 now (as_secs (l_idle_timeout l)) of
        None \<Rightarrow> (Inl lease_overflow, l)
      | Some idle \<Rightarrow>
          (let l = l\<lparr>idle_deadline := min idle (absolute_deadline l)\<rparr> in
           case instant_checked_add monotonic_now (l_idle_timeout l) of
             None \<Rightarrow> (Inl lease_overflow, l)
           | Some idle_at \<Rightarrow>
               (Inr (), l\<lparr>idle_expires_at := min idle_at (absolute_expires_at l)\<rparr>)))"

fun lease_touches :: "(u64 \<times> instant) list \<Rightarrow> UnsealLease \<Rightarrow> UnsealLease" where
  "lease_touches [] l = l"
| "lease_touches ((now, t) # ts) l = lease_touches ts (snd (lease_touch now t l))"

definition lease_inv :: "UnsealLease \<Rightarrow> bool" where
  "lease_inv l \<longleftrightarrow> idle_deadline l \<le> absolute_deadline l \<and>
     idle_expires_at l \<le> absolute_expires_at l"

lemma lease_expired_iff: "lease_is_expired l t \<longleftrightarrow> lease_expires_at l \<le> t"
  by (auto simp: lease_is_expired_def lease_expires_at_def min_le_iff_disj)

lemma lease_new_at_inv: "lease_new_at now t p = Inr l \<Longrightarrow> lease_inv l"
  by (auto simp: lease_new_at_def lease_inv_def rbind_Inr Let_def)

lemma lease_new_at_absolute:
  "lease_new_at now t p = Inr l \<Longrightarrow>
     absolute_expires_at l = t + maximum_lifetime p \<and>
     idle_expires_at l = t + idle_timeout p \<and> 0 < idle_timeout p"
  by (auto simp: lease_new_at_def rbind_Inr Let_def instant_checked_add_def policy_validate_def
      split: if_splits)

lemma lease_touch_frame:
  "absolute_expires_at (snd (lease_touch now t l)) = absolute_expires_at l"
  "absolute_deadline (snd (lease_touch now t l)) = absolute_deadline l"
  "l_idle_timeout (snd (lease_touch now t l)) = l_idle_timeout l"
  by (auto simp: lease_touch_def Let_def split: option.splits)

lemma lease_touch_inv: "lease_inv l \<Longrightarrow> lease_inv (snd (lease_touch now t l))"
  by (auto simp: lease_touch_def lease_inv_def Let_def split: option.splits)

lemma lease_touch_expired: "lease_is_expired l t \<Longrightarrow> lease_touch now t l = (Inl Sealed, l)"
  by (simp add: lease_touch_def)

lemma lease_touch_ok:
  "lease_touch now t l = (Inr (), l') \<Longrightarrow>
     \<not> lease_is_expired l t \<and>
     idle_expires_at l' = min (t + l_idle_timeout l) (absolute_expires_at l) \<and>
     unat (idle_deadline l') =
       min (unat now + unat (as_secs (l_idle_timeout l))) (unat (absolute_deadline l))"
  by (auto simp: lease_touch_def Let_def instant_checked_add_def checked_add64_Some
      word_le_nat_alt min_def split: if_splits option.splits)

lemma lease_touches_frame:
  "absolute_expires_at (lease_touches ts l) = absolute_expires_at l"
  by (induction ts l rule: lease_touches.induct) (simp_all add: lease_touch_frame)

lemma lease_touches_inv: "lease_inv l \<Longrightarrow> lease_inv (lease_touches ts l)"
  by (induction ts l rule: lease_touches.induct) (simp_all add: lease_touch_inv)

text \<open>Once expired at some instant, a lease stays as it is under any later touches.\<close>

lemma lease_touches_expired:
  "lease_is_expired l t \<Longrightarrow> \<forall>(now, t') \<in> set ts. t \<le> t' \<Longrightarrow> lease_touches ts l = l"
proof (induction ts l rule: lease_touches.induct)
  case (2 now t' ts l)
  then have "lease_is_expired l t'" by (simp add: lease_expired_iff)
  then have "lease_touch now t' l = (Inl Sealed, l)" by (rule lease_touch_expired)
  with 2 show ?case by simp
qed simp

section \<open>The replay window\<close>

type_synonym RequestId = bytes

record ReplayWindow =
  rw_set :: "RequestId set"
  rw_order :: "RequestId list"

definition MAX_REPLAY_IDS :: nat where
  "MAX_REPLAY_IDS = 4096"

definition replay_new :: ReplayWindow where
  "replay_new = \<lparr>rw_set = {}, rw_order = []\<rparr>"

definition replay_consume :: "RequestId \<Rightarrow> ReplayWindow \<Rightarrow> unit vault_result \<times> ReplayWindow" where
  "replay_consume request_id w =
     (if request_id \<in> rw_set w then (Inl Replay, w)
      else
        (let w = \<lparr>rw_set = insert request_id (rw_set w), rw_order = rw_order w @ [request_id]\<rparr> in
         if length (rw_order w) > MAX_REPLAY_IDS then
           (case rw_order w of
              [] \<Rightarrow> (Inr (), w)
            | expired # rest \<Rightarrow>
                (Inr (), \<lparr>rw_set = rw_set w - {expired}, rw_order = rest\<rparr>))
         else (Inr (), w)))"

text \<open>The contract: the window holds the identifiers most recently accepted.  The
  specification keeps every accepted identifier and rejects one among the last
  \<open>MAX_REPLAY_IDS\<close> of them.\<close>

definition recent :: "RequestId list \<Rightarrow> RequestId list" where
  "recent accepted = drop (length accepted - MAX_REPLAY_IDS) accepted"

definition spec_consume :: "RequestId \<Rightarrow> RequestId list \<Rightarrow> unit vault_result \<times> RequestId list" where
  "spec_consume request_id accepted =
     (if request_id \<in> set (recent accepted) then (Inl Replay, accepted)
      else (Inr (), accepted @ [request_id]))"

fun replay_run :: "RequestId list \<Rightarrow> ReplayWindow \<Rightarrow> unit vault_result list \<times> ReplayWindow" where
  "replay_run [] w = ([], w)"
| "replay_run (i # is) w =
     (let (r, w) = replay_consume i w; (rs, w) = replay_run is w in (r # rs, w))"

fun spec_run :: "RequestId list \<Rightarrow> RequestId list \<Rightarrow> unit vault_result list \<times> RequestId list" where
  "spec_run [] a = ([], a)"
| "spec_run (i # is) a =
     (let (r, a) = spec_consume i a; (rs, a) = spec_run is a in (r # rs, a))"

definition replay_refines :: "ReplayWindow \<Rightarrow> RequestId list \<Rightarrow> bool" where
  "replay_refines w accepted \<longleftrightarrow>
     rw_order w = recent accepted \<and> rw_set w = set (recent accepted) \<and> distinct (recent accepted)"

lemma recent_snoc:
  "recent (a @ [i]) =
     (if length (recent a) < MAX_REPLAY_IDS then recent a @ [i] else tl (recent a) @ [i])"
proof (cases "length a < MAX_REPLAY_IDS")
  case False
  then have "Suc (length a) - MAX_REPLAY_IDS = Suc (length a - MAX_REPLAY_IDS)"
    by (simp add: Suc_diff_le)
  with False show ?thesis by (simp add: recent_def drop_Suc tl_drop MAX_REPLAY_IDS_def)
qed (simp add: recent_def)

lemma length_recent: "length (recent a) \<le> MAX_REPLAY_IDS"
  by (simp add: recent_def)

lemma replay_refines_new: "replay_refines replay_new []"
  by (simp add: replay_refines_def replay_new_def recent_def)

lemma replay_consume_refines:
  assumes "replay_refines w a"
  shows "fst (replay_consume i w) = fst (spec_consume i a) \<and>
     replay_refines (snd (replay_consume i w)) (snd (spec_consume i a))"
proof (cases "i \<in> set (recent a)")
  case True
  then show ?thesis using assms by (simp add: replay_refines_def replay_consume_def spec_consume_def)
next
  case False
  show ?thesis
  proof (cases "length (recent a) < MAX_REPLAY_IDS")
    case True
    then show ?thesis using assms False
      by (simp add: replay_refines_def replay_consume_def spec_consume_def recent_snoc Let_def)
  next
    case full: False
    then have "recent a \<noteq> []" by (auto simp: MAX_REPLAY_IDS_def)
    then obtain x xs where "recent a = x # xs" by (cases "recent a") auto
    then show ?thesis using assms False full
      by (auto simp: replay_refines_def replay_consume_def spec_consume_def recent_snoc Let_def)
  qed
qed

lemma replay_run_refines:
  "replay_refines w a \<Longrightarrow>
     fst (replay_run is w) = fst (spec_run is a) \<and>
     replay_refines (snd (replay_run is w)) (snd (spec_run is a))"
proof (induction "is" arbitrary: w a)
  case (Cons i "is")
  from replay_consume_refines [OF Cons.prems] Cons.IH show ?case
    by (auto simp: Let_def split: prod.splits) (metis fst_conv snd_conv)+
qed simp

section \<open>The request clock\<close>

text \<open>A request carries the wall-clock second its transport sampled; it advances with
  the larger of the elapsed monotonic and elapsed system time.\<close>

record RequestTime =
  rt_wall :: u64
  rt_monotonic :: instant
  rt_started :: instant
  rt_system_started :: system_time
  rt_wall_fraction :: duration

definition request_time_new :: "u64 \<Rightarrow> instant \<Rightarrow> system_time \<Rightarrow> instant \<Rightarrow> RequestTime" where
  "request_time_new wall monotonic system_now instant_now =
     \<lparr>rt_wall = wall, rt_monotonic = monotonic, rt_started = instant_now,
      rt_system_started = system_now,
      rt_wall_fraction =
        (case system_duration_since system_now 0 of None \<Rightarrow> 0 | Some d \<Rightarrow> d mod NANOS)\<rparr>"

definition sample_at ::
  "RequestTime \<Rightarrow> instant \<Rightarrow> system_time \<Rightarrow> instant \<Rightarrow> u64 \<times> instant" where
  "sample_at rt monotonic_now system_now fallback_now =
     (let elapsed = monotonic_now - rt_started rt;
          wall_elapsed =
            max (case system_duration_since system_now (rt_system_started rt) of
                   None \<Rightarrow> 0 | Some d \<Rightarrow> d) elapsed
      in (saturating_add64 (rt_wall rt)
            (as_secs (duration_saturating_add wall_elapsed (rt_wall_fraction rt))),
          (case instant_checked_add (rt_monotonic rt) elapsed of
             None \<Rightarrow> fallback_now | Some t \<Rightarrow> t)))"

definition deadline_at :: "RequestTime \<Rightarrow> u64 \<Rightarrow> instant \<Rightarrow> system_time \<Rightarrow> instant" where
  "deadline_at rt wall now system_now =
     (let elapsed =
            max (case system_duration_since system_now (rt_system_started rt) of
                   None \<Rightarrow> 0 | Some d \<Rightarrow> d) (now - rt_started rt);
          remaining =
            from_secs (saturating_sub64 wall (rt_wall rt)) - rt_wall_fraction rt - elapsed
      in (case instant_checked_add now remaining of None \<Rightarrow> now | Some t \<Rightarrow> t))"

definition time_check ::
  "RequestTime \<Rightarrow> instant \<Rightarrow> system_time \<Rightarrow> u64 option \<Rightarrow> unit vault_result" where
  "time_check rt monotonic_now system_now deadline =
     (case deadline of
        None \<Rightarrow> Inr ()
      | Some deadline \<Rightarrow>
          if fst (sample_at rt monotonic_now system_now monotonic_now) \<ge> deadline
          then Inl VaultError.Expired else Inr ())"

definition tighten :: "u64 option \<Rightarrow> u64 option \<Rightarrow> u64 option" where
  "tighten target deadline =
     (case deadline of
        None \<Rightarrow> target
      | Some d \<Rightarrow> Some (case target of None \<Rightarrow> d | Some old \<Rightarrow> min old d))"

lemma elapsed_since:
  "(case system_duration_since t t0 of None \<Rightarrow> 0 | Some d \<Rightarrow> d) = nat (t - t0)"
  by (simp add: system_duration_since_def)

lemma unat_as_secs: "unat (as_secs d) = d div NANOS mod 2 ^ 64"
  by (simp add: as_secs_def unat_of_nat)

lemma as_secs_saturating:
  "unat (as_secs (duration_saturating_add a b)) = min ((a + b) div NANOS) (2 ^ 64 - 1)"
proof (cases "a + b \<le> DURATION_MAX")
  case True
  then have "(a + b) div NANOS \<le> 2 ^ 64 - 1"
    using div_le_mono [OF True, of NANOS] by (simp add: DURATION_MAX_def NANOS_def)
  with True show ?thesis by (simp add: duration_saturating_add_def unat_as_secs)
next
  case False
  then have "2 ^ 64 - 1 \<le> (a + b) div NANOS"
    using div_le_mono [of DURATION_MAX "a + b" NANOS] by (simp add: DURATION_MAX_def NANOS_def)
  with False show ?thesis
    by (simp add: duration_saturating_add_def unat_as_secs DURATION_MAX_def NANOS_def)
qed

lemma sample_at_wall:
  "unat (fst (sample_at rt t s f)) =
     min (unat (rt_wall rt) +
          (max (nat (s - rt_system_started rt)) (t - rt_started rt) + rt_wall_fraction rt) div NANOS)
       (2 ^ 64 - 1)"
proof -
  have sat: "min (a + min b c) c = min (a + b) c" for a b c :: nat by linarith
  show ?thesis
    by (simp only: sample_at_def Let_def unat_saturating_add64 as_secs_saturating
        elapsed_since sat fst_conv)
qed

lemma secs_le_iff: "s \<le> d div NANOS \<longleftrightarrow> s * NANOS \<le> d"
  by (simp add: NANOS_def less_eq_div_iff_mult_less_eq)

lemma time_check_iff:
  "time_check rt t s (Some w) = Inl VaultError.Expired \<longleftrightarrow>
     (unat w - unat (rt_wall rt)) * NANOS
       \<le> max (nat (s - rt_system_started rt)) (t - rt_started rt) + rt_wall_fraction rt"
proof -
  have "unat w \<le> 2 ^ 64 - 1" using unat_lt64 [of w] by (simp del: unat_lt64)
  then have "w \<le> fst (sample_at rt t s t) \<longleftrightarrow> unat w \<le> unat (rt_wall rt) +
      (max (nat (s - rt_system_started rt)) (t - rt_started rt) + rt_wall_fraction rt) div NANOS"
    by (simp add: word_le_nat_alt sample_at_wall)
  also have "\<dots> \<longleftrightarrow> unat w - unat (rt_wall rt) \<le>
      (max (nat (s - rt_system_started rt)) (t - rt_started rt) + rt_wall_fraction rt) div NANOS"
    by linarith
  finally show ?thesis by (simp add: time_check_def secs_le_iff)
qed

lemma time_check_cases: "time_check rt t s d = Inr () \<or> time_check rt t s d = Inl VaultError.Expired"
  by (simp add: time_check_def split: option.splits)

lemma unat_saturating_sub64: "unat (saturating_sub64 a b) = unat a - unat b"
  by (auto simp: saturating_sub64_def unat_sub_if' word_le_nat_alt)

lemma deadline_at_eq:
  assumes "(now + unat w * NANOS) div NANOS < 2 ^ 63"
  shows "deadline_at rt w now s =
     now + ((unat w - unat (rt_wall rt)) * NANOS - rt_wall_fraction rt
            - max (nat (s - rt_system_started rt)) (now - rt_started rt))"
proof -
  define r where "r = (unat w - unat (rt_wall rt)) * NANOS - rt_wall_fraction rt
    - max (nat (s - rt_system_started rt)) (now - rt_started rt)"
  have "r \<le> unat w * NANOS"
    unfolding r_def by (meson diff_le_self le_trans mult_le_mono1)
  then have "(now + r) div NANOS < 2 ^ 63"
    by (intro le_less_trans [OF div_le_mono assms] add_left_mono)
  then have "instant_checked_add now r = Some (now + r)"
    by (simp only: instant_checked_add_def if_True)
  then show ?thesis
    by (simp only: deadline_at_def Let_def from_secs_def unat_saturating_sub64
        elapsed_since r_def [symmetric] option.case)
qed

lemma tighten_le: "tighten t d = Some r \<Longrightarrow>
   (\<forall>x. t = Some x \<longrightarrow> r \<le> x) \<and> (\<forall>x. d = Some x \<longrightarrow> r \<le> x)"
  by (auto simp: tighten_def split: option.splits)

lemma fold_tighten:
  "fold (\<lambda>d t. tighten t d) ds t = Some m \<longleftrightarrow>
     Some m \<in> set (t # ds) \<and> (\<forall>x. Some x \<in> set (t # ds) \<longrightarrow> m \<le> x)"
proof (induction ds arbitrary: t)
  case Nil
  show ?case by (cases t) auto
next
  case (Cons d ds)
  show ?case
    using Cons.IH [of "tighten t d"]
    by (cases t; cases d) (auto simp: tighten_def min_def intro: order_trans split: if_splits)
qed

section \<open>Properties\<close>

text \<open>C37: a lease granted at an instant is expired at every instant from the end of its
  maximum lifetime on, whatever sequence of touches it saw, and a touch at such an
  instant fails with \<open>Sealed\<close> and leaves the lease as it is.\<close>

theorem lease_never_outlives_maximum:
  assumes "lease_new_at now t p = Inr l"
    and "t + maximum_lifetime p \<le> t'"
  shows "lease_is_expired (lease_touches ts l) t' \<and>
     lease_touch now' t' (lease_touches ts l) = (Inl Sealed, lease_touches ts l)"
proof -
  have "absolute_expires_at (lease_touches ts l) \<le> t'"
    using assms lease_new_at_absolute by (simp add: lease_touches_frame)
  then have "lease_is_expired (lease_touches ts l) t'" by (simp add: lease_is_expired_def)
  then show ?thesis by (simp add: lease_touch_expired)
qed

definition sample_lease :: UnsealLease where
  "sample_lease = \<lparr>l_idle_timeout = 300000000000, idle_deadline = 1300,
     absolute_deadline = 29800, idle_expires_at = 300000000007,
     absolute_expires_at = 28800000000007\<rparr>"

lemma lease_never_outlives_maximum_witness:
  "lease_new_at 1000 7 policy_default = Inr sample_lease \<and>
   lease_is_expired (lease_touches [(1100, 100000000007)] sample_lease) 28800000000007"
proof -
  have new: "lease_new_at 1000 7 policy_default = Inr sample_lease"
    by (simp add: lease_new_at_def policy_default_def sample_lease_def NANOS_def
        policy_validate_def checked_add64_def as_secs_def instant_checked_add_def)
  have "7 + maximum_lifetime policy_default \<le> 28800000000007"
    by (simp add: policy_default_def NANOS_def)
  from lease_never_outlives_maximum [OF new this, of "[(1100, 100000000007)]" 0] new
  show ?thesis by simp
qed

text \<open>An expired lease cannot be revived: no touch at that or a later instant changes it.\<close>

lemma expired_lease_stays_expired:
  assumes "lease_is_expired l t" and "\<forall>(now, t') \<in> set ts. t \<le> t'" and "t \<le> t''"
  shows "lease_touches ts l = l \<and> lease_is_expired (lease_touches ts l) t''"
  using assms lease_touches_expired [of l t ts] by (simp add: lease_expired_iff)

text \<open>C38: the replay window implements its contract.  On every sequence of request
  identifiers the code, with its hash set and its queue, answers exactly as the
  specification that remembers all accepted identifiers and refuses those among the last
  4096, and it never holds more than 4096 of them.\<close>

theorem replay_window_refines:
  "fst (replay_run ids replay_new) = fst (spec_run ids []) \<and>
   length (rw_order (snd (replay_run ids replay_new))) \<le> 4096 \<and>
   rw_set (snd (replay_run ids replay_new)) = set (rw_order (snd (replay_run ids replay_new)))"
  using replay_run_refines [OF replay_refines_new, of ids]
    length_recent [of "snd (spec_run ids [])"]
  by (simp add: replay_refines_def MAX_REPLAY_IDS_def)

text \<open>C39: the delivery deadline of a request is exact.  For a request whose clocks have
  not gone back before it asks for its deadline, and as long as system and monotonic
  time then advance together, the deadline check starts to fail precisely at the
  instant \<open>deadline_at\<close> returned.\<close>

theorem deadline_at_exact:
  assumes "rt_started rt \<le> now" and "rt_system_started rt \<le> s"
    and "(now + unat w * NANOS) div NANOS < 2 ^ 63" and "now \<le> t"
  shows "time_check rt t (s + int (t - now)) (Some w) = Inl VaultError.Expired \<longleftrightarrow>
     deadline_at rt w now s \<le> t"
proof -
  have "nat (s + int (t - now) - rt_system_started rt) =
      nat (s - rt_system_started rt) + (t - now)"
    and "t - rt_started rt = (now - rt_started rt) + (t - now)"
    using assms(1,2,4) by linarith+
  then have "max (nat (s + int (t - now) - rt_system_started rt)) (t - rt_started rt) =
      max (nat (s - rt_system_started rt)) (now - rt_started rt) + (t - now)"
    by (simp add: max_add_distrib_left)
  moreover have "x \<le> (e + (t - now)) + f \<longleftrightarrow> now + (x - f - e) \<le> t" for x e f :: nat
    using assms(4) by linarith
  ultimately show ?thesis unfolding time_check_iff deadline_at_eq [OF assms(3)] by simp
qed

definition sample_clock :: RequestTime where
  "sample_clock = request_time_new 100 5 250000000 9"

lemma deadline_at_exact_witness:
  "time_check sample_clock 9750000009 10000000000 (Some 110) = Inl VaultError.Expired \<and>
   deadline_at sample_clock 110 9 250000000 = 9750000009"
proof -
  have d: "deadline_at sample_clock 110 9 250000000 = 9750000009"
    by (simp add: deadline_at_def sample_clock_def request_time_new_def NANOS_def Let_def
        system_duration_since_def from_secs_def unat_saturating_sub64 instant_checked_add_def)
  have "rt_started sample_clock \<le> 9" "rt_system_started sample_clock \<le> 250000000"
    "(9 + unat (110 :: u64) * NANOS) div NANOS < 2 ^ 63"
    by (simp_all add: sample_clock_def request_time_new_def NANOS_def)
  from deadline_at_exact [OF this, of 9750000009] d show ?thesis by simp
qed

text \<open>Setting the system clock back never extends an authorization.  If the check
  against a deadline fails with the system clock at the start of the request, it fails at
  every later monotonic instant for every system time, before or after.\<close>

lemma wall_rollback_never_extends:
  assumes "time_check rt t (rt_system_started rt) (Some w) = Inl VaultError.Expired"
    and "t \<le> t'"
  shows "time_check rt t' s (Some w) = Inl VaultError.Expired"
  using assms unfolding time_check_iff by simp

text \<open>After any sequence of \<open>tighten\<close> calls the cell holds the earliest deadline any of them supplied.\<close>

lemma tighten_keeps_minimum:
  "fold (\<lambda>d cell. tighten cell d) ds None = Some m \<longleftrightarrow>
     Some m \<in> set ds \<and> (\<forall>x. Some x \<in> set ds \<longrightarrow> m \<le> x)"
  by (simp add: fold_tighten)

end
