(* ===== verification/History.thy ===== *)
theory History
  imports Vault_Types
begin

text \<open>
  The change history kept beside every document (\<open>src/src/vault/history.rs\<close>): entries,
  their provenance, the bounded log with its well-formedness check, appending and
  trimming; and the application context a caller declares
  (\<open>src/src/vault/protocol/wire.rs\<close>), which history keeps in shortened form.
\<close>

section \<open>Declared application context\<close>

record VaultApplicationContext =
  ac_project :: "string option"
  ac_profile :: "string option"
  ac_base_dir :: "string option"
  ac_reason :: "string option"
  ac_requested_permission_duration_seconds :: "u64 option"
  ac_declared_launch_chain :: "string list"

definition MAX_APPLICATION_COMPONENT_BYTES :: nat where
  "MAX_APPLICATION_COMPONENT_BYTES = 4 * 1024"

definition MAX_APPLICATION_BASE_DIR_BYTES :: nat where
  "MAX_APPLICATION_BASE_DIR_BYTES = 32 * 1024"

definition MAX_DECLARED_LAUNCH_CHAIN :: nat where
  "MAX_DECLARED_LAUNCH_CHAIN = 4"

text \<open>\<open>Path::is_absolute\<close> on a Unix platform.\<close>

fun is_absolute :: "string \<Rightarrow> bool" where
  "is_absolute [] = False"
| "is_absolute (c # cs) = (c = CHR ''/'')"

definition application_validate :: "VaultApplicationContext \<Rightarrow> unit vault_result" where
  "application_validate a =
     rbind (rforM (\<lambda>(name, v). case v of
               None \<Rightarrow> Inr ()
             | Some v \<Rightarrow>
                 guard (\<not> (v = [] \<or> length v > MAX_APPLICATION_COMPONENT_BYTES))
                   (Protocol (''application '' @ name @ '' is empty or too long'')))
             [(''project'', ac_project a), (''profile'', ac_profile a)]) (\<lambda>_.
     rbind (guard (\<not> (case ac_base_dir a of None \<Rightarrow> False
                     | Some v \<Rightarrow> length v > MAX_APPLICATION_BASE_DIR_BYTES))
              (Protocol ''application base directory is too long'')) (\<lambda>_.
     rbind (guard (\<not> (case ac_base_dir a of None \<Rightarrow> False | Some v \<Rightarrow> \<not> is_absolute v))
              (Protocol ''application base directory must be absolute'')) (\<lambda>_.
     rbind (guard (\<not> (case ac_reason a of None \<Rightarrow> False
                     | Some v \<Rightarrow> length v > MAX_APPLICATION_COMPONENT_BYTES))
              (Protocol ''application reason is too long'')) (\<lambda>_.
     rbind (guard (ac_requested_permission_duration_seconds a \<noteq> Some 0)
              (Protocol ''requested permission duration must be positive'')) (\<lambda>_.
       guard (\<not> (length (ac_declared_launch_chain a) > MAX_DECLARED_LAUNCH_CHAIN \<or>
                 list_ex (\<lambda>v. v = [] \<or> length v > MAX_APPLICATION_COMPONENT_BYTES)
                   (ac_declared_launch_chain a)))
         (Protocol ''declared launch chain is too long or has an empty entry''))))))"

section \<open>Entries\<close>

type_synonym VersionId = bytes
type_synonym DeviceKeyId = bytes

datatype HistoryOperation = Put bool | Delete | Clear | Expire

datatype ServiceReason = PersonalSync | PersonalMigration | GrantStorage | Expiry

record DeclaredApplication =
  da_project :: "string option"
  da_profile :: "string option"
  da_base_dir :: "string option"
  da_reason :: "string option"

record PermissionPrincipal =
  pp_platform :: CallerPlatform
  pp_user_id :: string
  pp_application_id :: string
  pp_executable_digest :: bytes
  pp_signer_id :: "string option"

definition principal_of :: "CallerIdentity \<Rightarrow> PermissionPrincipal" where
  "principal_of c = \<lparr>pp_platform = ci_platform c, pp_user_id = ci_user_id c,
     pp_application_id = ci_application_id c,
     pp_executable_digest = ci_executable_digest c, pp_signer_id = ci_signer_id c\<rparr>"

datatype Provenance =
    Caller PermissionPrincipal "DeclaredApplication option"
  | Service ServiceReason
  | Redacted

definition MAX_DECLARED_FIELD_BYTES :: nat where
  "MAX_DECLARED_FIELD_BYTES = 512"

text \<open>\<open>str::is_char_boundary\<close>: both ends, and every byte that is not a UTF-8
  continuation byte.\<close>

definition is_char_boundary :: "string \<Rightarrow> nat \<Rightarrow> bool" where
  "is_char_boundary v i \<longleftrightarrow> i = 0 \<or> i = length v \<or>
     (i < length v \<and> (let b = (of_char (v ! i) :: nat) in b < 128 \<or> 192 \<le> b))"

fun boundary_below :: "string \<Rightarrow> nat \<Rightarrow> nat" where
  "boundary_below v 0 = 0"
| "boundary_below v (Suc e) = (if is_char_boundary v (Suc e) then Suc e else boundary_below v e)"

definition bounded :: "string \<Rightarrow> string" where
  "bounded v = (if length v \<le> MAX_DECLARED_FIELD_BYTES then v
     else take (boundary_below v MAX_DECLARED_FIELD_BYTES) v)"

definition declared_of :: "VaultApplicationContext \<Rightarrow> DeclaredApplication" where
  "declared_of a = \<lparr>da_project = map_option bounded (ac_project a),
     da_profile = map_option bounded (ac_profile a),
     da_base_dir = map_option bounded (ac_base_dir a),
     da_reason = map_option bounded (ac_reason a)\<rparr>"

definition provenance_caller ::
  "CallerIdentity \<Rightarrow> VaultApplicationContext option \<Rightarrow> Provenance" where
  "provenance_caller c a = Caller (principal_of c) (map_option declared_of a)"

record HistoryEntry =
  he_version :: nat
  he_seq :: u64
  he_at :: u64
  he_operation :: HistoryOperation
  he_address :: SecretAddress
  he_version_id :: "VersionId option"
  he_previous_version_id :: "VersionId option"
  he_evict_at :: "u64 option"
  he_provenance :: Provenance
  he_device_key_id :: DeviceKeyId

record PendingHistory =
  ph_operation :: HistoryOperation
  ph_address :: SecretAddress
  ph_version_id :: "VersionId option"
  ph_previous_version_id :: "VersionId option"
  ph_evict_at :: "u64 option"

definition HISTORY_ENTRY_VERSION :: nat where
  "HISTORY_ENTRY_VERSION = 1"

definition history_entry_new ::
  "u64 \<Rightarrow> u64 \<Rightarrow> PendingHistory \<Rightarrow> Provenance \<Rightarrow> DeviceKeyId \<Rightarrow> HistoryEntry" where
  "history_entry_new seq at pending provenance device_key_id =
     \<lparr>he_version = HISTORY_ENTRY_VERSION, he_seq = seq, he_at = at,
      he_operation = ph_operation pending, he_address = ph_address pending,
      he_version_id = ph_version_id pending,
      he_previous_version_id = ph_previous_version_id pending,
      he_evict_at = ph_evict_at pending, he_provenance = provenance,
      he_device_key_id = device_key_id\<rparr>"

definition is_supported :: "HistoryEntry \<Rightarrow> bool" where
  "is_supported e \<longleftrightarrow> he_version e = HISTORY_ENTRY_VERSION"

section \<open>Retention\<close>

record HistoryRetention =
  max_entries :: nat
  max_bytes :: nat
  record_unchanged :: bool

definition history_retention :: "DocumentKind \<Rightarrow> HistoryRetention" where
  "history_retention k = (case k of
      SecretSpecProject \<Rightarrow>
        \<lparr>max_entries = 2048, max_bytes = 1024 * 1024, record_unchanged = True\<rparr>
    | SecretSpecProviderCache \<Rightarrow>
        \<lparr>max_entries = 64, max_bytes = 64 * 1024, record_unchanged = False\<rparr>
    | _ \<Rightarrow>
        \<lparr>max_entries = 1024, max_bytes = 512 * 1024, record_unchanged = True\<rparr>)"

section \<open>The log\<close>

record HistoryLog =
  hl_version :: nat
  hl_kind :: DocumentKind
  hl_partition :: bytes
  hl_next_seq :: u64
  hl_entries :: "HistoryEntry list"

definition HISTORY_LOG_VERSION :: nat where
  "HISTORY_LOG_VERSION = 1"

definition history_new :: "DocumentKind \<Rightarrow> bytes \<Rightarrow> HistoryLog" where
  "history_new kind part =
     \<lparr>hl_version = HISTORY_LOG_VERSION, hl_kind = kind, hl_partition = part,
      hl_next_seq = 0, hl_entries = []\<rparr>"

text \<open>\<open>windows(2).any(|pair| pair[0].seq >= pair[1].seq)\<close>\<close>

fun windows_unordered :: "HistoryEntry list \<Rightarrow> bool" where
  "windows_unordered (x # y # es) = (he_seq x \<ge> he_seq y \<or> windows_unordered (y # es))"
| "windows_unordered _ = False"

definition history_validate ::
  "DocumentKind \<Rightarrow> bytes option \<Rightarrow> HistoryLog \<Rightarrow> unit vault_result" where
  "history_validate kind expected_partition log =
     rbind (guard (hl_version log = HISTORY_LOG_VERSION)
              (InvalidData ''unsupported secret document history version'')) (\<lambda>_.
     rbind (guard (\<not> (hl_kind log \<noteq> kind \<or>
                     (case expected_partition of None \<Rightarrow> False | Some p \<Rightarrow> hl_partition log \<noteq> p)))
              (InvalidData ''secret document history does not match its document'')) (\<lambda>_.
     rbind (guard (\<not> list_ex (\<lambda>e. \<not> is_supported e) (hl_entries log))
              (InvalidData ''unsupported secret document history entry'')) (\<lambda>_.
       guard (\<not> (windows_unordered (hl_entries log) \<or>
                 (hl_entries log \<noteq> [] \<and> he_seq (last (hl_entries log)) \<ge> hl_next_seq log)))
         (InvalidData ''secret document history is not strictly ordered''))))"

definition history_load ::
  "HistoryLog json \<Rightarrow> bytes \<Rightarrow> DocumentKind \<Rightarrow> bytes option \<Rightarrow> HistoryLog vault_result" where
  "history_load J b kind expected_partition =
     rbind (map_err InvalidData (from_slice J b)) (\<lambda>log.
     rbind (history_validate kind expected_partition log) (\<lambda>_. Inr log))"

definition history_serialize :: "HistoryLog json \<Rightarrow> HistoryLog \<Rightarrow> bytes vault_result" where
  "history_serialize J log = map_err InvalidData (to_vec J log)"

definition from_legacy_document ::
  "DocumentKind \<Rightarrow> bytes \<Rightarrow> u64 \<Rightarrow> HistoryEntry list \<Rightarrow> HistoryLog vault_result" where
  "from_legacy_document kind part next_seq entries =
     (let log = \<lparr>hl_version = HISTORY_LOG_VERSION, hl_kind = kind, hl_partition = part,
                 hl_next_seq = next_seq, hl_entries = entries\<rparr>
      in rbind (history_validate kind (Some part) log) (\<lambda>_. Inr log))"

definition migrate_addresses ::
  "(SecretAddress \<times> SecretAddress) list \<Rightarrow> HistoryLog \<Rightarrow> HistoryLog" where
  "migrate_addresses mappings log = log\<lparr>hl_entries :=
     map (\<lambda>e. case find (\<lambda>(old, _). old = he_address e) mappings of
               None \<Rightarrow> e
             | Some (_, new) \<Rightarrow> e\<lparr>he_address := new\<rparr>) (hl_entries log)\<rparr>"

definition history_push ::
  "u64 \<Rightarrow> Provenance \<Rightarrow> DeviceKeyId \<Rightarrow> PendingHistory \<Rightarrow> HistoryLog \<Rightarrow> HistoryLog vault_result" where
  "history_push at provenance device_key_id pending log =
     (let seq = hl_next_seq log in
      rbind (ok_or (checked_add64 seq 1)
               (InvalidData ''secret document history sequence is exhausted'')) (\<lambda>next.
        Inr (log\<lparr>hl_next_seq := next,
                 hl_entries := hl_entries log
                   @ [history_entry_new seq at pending provenance device_key_id]\<rparr>)))"

function trim_start :: "HistoryRetention \<Rightarrow> nat list \<Rightarrow> nat \<Rightarrow> nat \<Rightarrow> nat" where
  "trim_start r sizes tot start =
     (if start < length sizes \<and> (length sizes - start > max_entries r \<or> tot > max_bytes r)
      then trim_start r sizes (tot - sizes ! start) (start + 1)
      else start)"
  by auto
termination by (relation "measure (\<lambda>(r, sizes, tot, start). length sizes - start)") auto

declare trim_start.simps [simp del]

definition history_record ::
  "HistoryEntry json \<Rightarrow> PendingHistory list \<Rightarrow> u64 \<Rightarrow> Provenance \<Rightarrow> DeviceKeyId
     \<Rightarrow> HistoryLog \<Rightarrow> HistoryLog vault_result" where
  "history_record J pending at provenance device_key_id log =
     rbind (rfold (history_push at provenance device_key_id) pending log) (\<lambda>log.
     let retention = history_retention (hl_kind log) in
     rbind (map_err InvalidData
              (rmapM (\<lambda>e. rbind (to_vec J e) (\<lambda>b. Inr (length b))) (hl_entries log))) (\<lambda>sizes.
     let start = trim_start retention sizes (sum_list sizes) 0 in
       Inr (log\<lparr>hl_entries := drop start (hl_entries log)\<rparr>)))"

section \<open>Well-formed logs\<close>

definition history_wf :: "HistoryLog \<Rightarrow> bool" where
  "history_wf log \<longleftrightarrow> hl_version log = HISTORY_LOG_VERSION \<and>
     (\<forall>e \<in> set (hl_entries log). is_supported e \<and> he_seq e < hl_next_seq log) \<and>
     sorted_wrt (<) (map he_seq (hl_entries log))"

lemma windows_unordered_iff: "\<not> windows_unordered es \<longleftrightarrow> sorted_wrt (<) (map he_seq es)"
proof (induction es rule: windows_unordered.induct)
  case (1 x y es)
  have "sorted_wrt (<) (map he_seq (x # y # es)) \<longleftrightarrow>
      he_seq x < he_seq y \<and> sorted_wrt (<) (map he_seq (y # es))"
    by (simp only: list.map sorted_wrt2 [OF transp_on_less])
  with 1 show ?case by (simp only: windows_unordered.simps de_Morgan_disj not_le)
qed simp_all

lemma sorted_wrt_last_below:
  assumes "sorted_wrt (<) (map f es)" and "es \<noteq> []" and "f (last es) < (n :: 'a :: linorder)"
  shows "\<forall>e \<in> set es. f e < n"
proof
  fix e
  assume "e \<in> set es"
  then have mem: "e \<in> set (butlast es) \<or> e = last es"
    using append_butlast_last_id [OF assms(2)] by (metis in_set_conv_decomp rotate1.simps(2)
        set_ConsD set_rotate1)
  have "sorted_wrt (<) (map f (butlast es @ [last es]))"
    using assms(1,2) by simp
  then have "\<forall>x \<in> set (butlast es). f x < f (last es)"
    by (simp only: map_append sorted_wrt_append) simp
  with mem assms(3) show "f e < n" by (metis less_trans)
qed

lemma history_validate_iff:
  "history_validate kind part log = Inr () \<longleftrightarrow>
     history_wf log \<and> hl_kind log = kind \<and> (\<forall>p. part = Some p \<longrightarrow> hl_partition log = p)"
proof -
  have "sorted_wrt (<) (map he_seq (hl_entries log)) \<Longrightarrow>
      (hl_entries log = [] \<or> he_seq (last (hl_entries log)) < hl_next_seq log) \<longleftrightarrow>
      (\<forall>e \<in> set (hl_entries log). he_seq e < hl_next_seq log)"
    using sorted_wrt_last_below [of he_seq "hl_entries log" "hl_next_seq log"]
      last_in_set [of "hl_entries log"] by (metis empty_iff empty_set)
  then show ?thesis
    by (auto simp: history_validate_def history_wf_def rbind_Inr windows_unordered_iff
        list_ex_iff not_le split: option.splits)
qed

lemma history_new_wf: "history_wf (history_new kind part)"
  by (simp add: history_wf_def history_new_def)

lemma history_push_wf:
  assumes "history_push at pr d p log = Inr log'" and "history_wf log"
  shows "history_wf log' \<and> hl_next_seq log < hl_next_seq log'"
proof -
  from assms(1) have n: "checked_add64 (hl_next_seq log) 1 = Some (hl_next_seq log')"
    and e: "hl_entries log' = hl_entries log @ [history_entry_new (hl_next_seq log) at p pr d]"
    and v: "hl_version log' = hl_version log"
    by (auto simp: history_push_def Let_def rbind_Inr)
  have "hl_next_seq log < hl_next_seq log'" using checked_add64_increases [OF n] by simp
  then show ?thesis using assms(2)
    by (simp add: history_wf_def e v sorted_wrt_append history_entry_new_def is_supported_def)
      (metis less_trans)
qed

lemma history_pushes_wf:
  "rfold (history_push at pr d) ps log = Inr log' \<Longrightarrow> history_wf log \<Longrightarrow> history_wf log'"
  by (erule rfold_invariant) (auto dest: history_push_wf)

text \<open>What a sequence of pushes appends: one entry per change, in order, numbered from
  the next sequence number on.\<close>

definition appended ::
  "u64 \<Rightarrow> Provenance \<Rightarrow> DeviceKeyId \<Rightarrow> PendingHistory list \<Rightarrow> u64 \<Rightarrow> HistoryEntry list" where
  "appended at provenance device_key_id pending seq =
     map (\<lambda>(i, p). history_entry_new (seq + word_of_nat i) at p provenance device_key_id)
       (zip [0..<length pending] pending)"

lemma appended_Cons:
  "appended at pr d (p # ps) seq =
     history_entry_new seq at p pr d # appended at pr d ps (seq + 1)"
proof -
  have "zip [0..<length (p # ps)] (p # ps) =
      (0, p) # map (\<lambda>(i, q). (Suc i, q)) (zip [0..<length ps] ps)"
    by (simp add: map_Suc_upt [symmetric] upt_rec [of 0] zip_map1 del: upt_Suc)
  then show ?thesis
    by (simp add: appended_def case_prod_beta algebra_simps del: upt_Suc)
qed

lemma length_appended [simp]: "length (appended at pr d ps n) = length ps"
  by (simp add: appended_def)

lemma history_pushes_append:
  assumes "rfold (history_push at pr d) ps log = Inr log'"
  shows "hl_entries log' = hl_entries log @ appended at pr d ps (hl_next_seq log) \<and>
     unat (hl_next_seq log') = unat (hl_next_seq log) + length ps \<and>
     hl_kind log' = hl_kind log \<and> hl_partition log' = hl_partition log"
  using assms
proof (induction ps arbitrary: log)
  case Nil
  then show ?case by (simp add: appended_def)
next
  case (Cons p ps)
  from Cons.prems obtain log1 where p1: "history_push at pr d p log = Inr log1"
    and rest: "rfold (history_push at pr d) ps log1 = Inr log'"
    by (auto simp: rbind_Inr)
  from p1 have n: "checked_add64 (hl_next_seq log) 1 = Some (hl_next_seq log1)"
    and e: "hl_entries log1 = hl_entries log @ [history_entry_new (hl_next_seq log) at p pr d]"
    and k: "hl_kind log1 = hl_kind log" "hl_partition log1 = hl_partition log"
    by (auto simp: history_push_def Let_def rbind_Inr)
  from n have "hl_next_seq log1 = hl_next_seq log + 1"
    by (auto simp: checked_add64_def split: if_splits)
  moreover from n have "unat (hl_next_seq log1) = unat (hl_next_seq log) + 1"
    by (simp add: checked_add64_Some)
  ultimately show ?case using Cons.IH [OF rest] e k by (simp add: appended_Cons)
qed

section \<open>Trimming keeps the longest suffix within the retention\<close>

definition fits :: "HistoryRetention \<Rightarrow> nat list \<Rightarrow> bool" where
  "fits r sizes \<longleftrightarrow> length sizes \<le> max_entries r \<and> sum_list sizes \<le> max_bytes r"

lemma trim_start_spec:
  assumes "start \<le> length sizes" and "tot = sum_list (drop start sizes)"
  shows "start \<le> trim_start r sizes tot start \<and>
     trim_start r sizes tot start \<le> length sizes \<and>
     fits r (drop (trim_start r sizes tot start) sizes) \<and>
     (\<forall>i. start \<le> i \<longrightarrow> i < trim_start r sizes tot start \<longrightarrow> \<not> fits r (drop i sizes))"
  using assms
proof (induction r sizes tot start rule: trim_start.induct)
  case (1 r sizes tot start)
  show ?case
  proof (cases "start < length sizes \<and> (length sizes - start > max_entries r \<or> tot > max_bytes r)")
    case True
    then have "drop start sizes = sizes ! start # drop (Suc start) sizes"
      by (simp add: Cons_nth_drop_Suc)
    then have "tot - sizes ! start = sum_list (drop (start + 1) sizes)"
      using 1(3) by simp
    moreover have "\<not> fits r (drop start sizes)" using True 1(3) by (auto simp: fits_def)
    moreover have "trim_start r sizes tot start = trim_start r sizes (tot - sizes ! start) (start + 1)"
      using True by (simp add: trim_start.simps [of r sizes tot start])
    ultimately show ?thesis using 1(1) [OF True] True
      by (metis Suc_eq_plus1 Suc_leI Suc_leD le_eq_less_or_eq)
  next
    case False
    then have "trim_start r sizes tot start = start"
      by (simp only: trim_start.simps [of r sizes tot start] if_False)
    with False 1(2,3) show ?thesis by (auto simp: fits_def)
  qed
qed

definition entry_size :: "HistoryEntry json \<Rightarrow> HistoryEntry \<Rightarrow> nat" where
  "entry_size J e = (case to_vec J e of Inl _ \<Rightarrow> 0 | Inr b \<Rightarrow> length b)"

lemma rmapM_sizes:
  "rmapM (\<lambda>e. rbind (to_vec J e) (\<lambda>b. Inr (length b))) es = Inr sizes \<Longrightarrow>
     sizes = map (entry_size J) es"
  by (induction es arbitrary: sizes) (auto simp: rbind_Inr entry_size_def)

lemma history_record_shape:
  assumes "history_record J ps at pr d log = Inr log'"
  obtains n where
    "hl_entries log' = drop n (hl_entries log @ appended at pr d ps (hl_next_seq log))"
    and "n \<le> length (hl_entries log) + length ps"
    and "unat (hl_next_seq log') = unat (hl_next_seq log) + length ps"
    and "hl_kind log' = hl_kind log" and "hl_partition log' = hl_partition log"
    and "fits (history_retention (hl_kind log)) (map (entry_size J) (hl_entries log'))"
    and "\<forall>i < n. \<not> fits (history_retention (hl_kind log))
           (map (entry_size J) (drop i (hl_entries log @ appended at pr d ps (hl_next_seq log))))"
proof -
  let ?all = "hl_entries log @ appended at pr d ps (hl_next_seq log)"
  let ?r = "history_retention (hl_kind log)"
  from assms obtain log1 sizes where
    push: "rfold (history_push at pr d) ps log = Inr log1" and
    sizes: "rmapM (\<lambda>e. rbind (to_vec J e) (\<lambda>b. Inr (length b))) (hl_entries log1) = Inr sizes" and
    log': "log' = log1\<lparr>hl_entries :=
      drop (trim_start (history_retention (hl_kind log1)) sizes (sum_list sizes) 0) (hl_entries log1)\<rparr>"
    by (auto simp: history_record_def Let_def rbind_Inr)
  note shape = history_pushes_append [OF push]
  have sz: "sizes = map (entry_size J) ?all" using rmapM_sizes [OF sizes] shape by simp
  define n where "n = trim_start ?r sizes (sum_list sizes) 0"
  from trim_start_spec [of 0 sizes "sum_list sizes" ?r]
  have n: "n \<le> length sizes" "fits ?r (drop n sizes)" "\<forall>i < n. \<not> fits ?r (drop i sizes)"
    by (simp_all add: n_def)
  have e: "hl_entries log' = drop n ?all" using shape by (simp add: log' n_def)
  show thesis
  proof (rule that [of n, OF e])
    show "n \<le> length (hl_entries log) + length ps" using n(1) by (simp add: sz)
    show "fits ?r (map (entry_size J) (hl_entries log'))"
      using n(2) by (simp only: e sz drop_map)
    show "\<forall>i < n. \<not> fits ?r (map (entry_size J) (drop i ?all))"
      using n(3) by (simp only: sz drop_map)
  qed (use shape in \<open>simp_all add: log'\<close>)
qed

lemma history_record_wf:
  assumes "history_record J ps at pr d log = Inr log'" and "history_wf log"
  shows "history_wf log'"
proof -
  from assms(1) obtain log1 n where "rfold (history_push at pr d) ps log = Inr log1"
    and log': "log' = log1\<lparr>hl_entries := drop n (hl_entries log1)\<rparr>"
    by (auto simp: history_record_def Let_def rbind_Inr)
  then have "history_wf log1" using history_pushes_wf assms(2) by blast
  then show ?thesis
    by (auto simp: history_wf_def log' drop_map [symmetric] sorted_wrt_drop dest: in_set_dropD)
qed

lemma history_pushes_total:
  assumes "unat (hl_next_seq log) + length ps < 2 ^ 64"
  shows "\<exists>log'. rfold (history_push at pr d) ps log = Inr log'"
  using assms
proof (induction ps arbitrary: log)
  case (Cons p ps)
  then obtain n where n: "checked_add64 (hl_next_seq log) 1 = Some n"
    by (cases "checked_add64 (hl_next_seq log) 1") (auto simp: checked_add64_def split: if_splits)
  then have "unat n = unat (hl_next_seq log) + 1" by (simp add: checked_add64_Some)
  moreover from n obtain log1 where "history_push at pr d p log = Inr log1" "hl_next_seq log1 = n"
    by (simp add: history_push_def)
  ultimately show ?case using Cons by simp
qed simp

lemma history_record_total:
  assumes "\<forall>e. is_ok (to_vec J e)" and "unat (hl_next_seq log) + length ps < 2 ^ 64"
  shows "\<exists>log'. history_record J ps at pr d log = Inr log'"
proof -
  from history_pushes_total [OF assms(2)] obtain log1
    where "rfold (history_push at pr d) ps log = Inr log1" by blast
  moreover have "rbind (to_vec J e) (\<lambda>b. Inr (length b)) = Inr (entry_size J e)" for e
    using assms(1) by (auto simp: entry_size_def is_ok_iff split: sum.splits)
       (metis Inl_Inr_False is_ok_iff sum.exhaust)
  ultimately show ?thesis by (simp add: history_record_def Let_def rmapM_ok [where g = "entry_size J"])
qed

lemma bounded_prefix:
  "\<exists>n. bounded v = take n v \<and> is_char_boundary v n \<and> n \<le> length v \<and> length (bounded v) \<le> 512"
proof (cases "length v \<le> 512")
  case True
  then show ?thesis
    by (intro exI [of _ "length v"])
      (simp add: bounded_def MAX_DECLARED_FIELD_BYTES_def is_char_boundary_def)
next
  case False
  have "boundary_below v e \<le> e \<and> is_char_boundary v (boundary_below v e)" for e
    by (induction e) (auto simp: is_char_boundary_def)
  from this [of 512] show ?thesis using False
    by (intro exI [of _ "boundary_below v 512"])
      (auto simp: bounded_def MAX_DECLARED_FIELD_BYTES_def)
qed

section \<open>Properties\<close>

text \<open>C40: recording the changes of one generation.  As long as sequence numbers remain and
  entries serialize, \<open>record\<close> succeeds on a well-formed log and gives a well-formed log
  whose entries are a suffix of the old entries followed by one entry per change, in
  order and numbered from the old next number on; that suffix is within the retention of
  the document's kind and no longer suffix is; and the next number moves on by the number
  of changes, so trimming never frees a number for reuse.\<close>

theorem history_record_correct:
  assumes "history_wf log" and "\<forall>e. is_ok (to_vec J e)"
    and "unat (hl_next_seq log) + length ps < 2 ^ 64"
  shows "\<exists>log' n. history_record J ps at pr d log = Inr log' \<and> history_wf log' \<and>
     hl_entries log' = drop n (hl_entries log @ appended at pr d ps (hl_next_seq log)) \<and>
     fits (history_retention (hl_kind log)) (map (entry_size J) (hl_entries log')) \<and>
     (\<forall>i < n. \<not> fits (history_retention (hl_kind log))
        (map (entry_size J) (drop i (hl_entries log @ appended at pr d ps (hl_next_seq log))))) \<and>
     unat (hl_next_seq log') = unat (hl_next_seq log) + length ps"
proof -
  from history_record_total [OF assms(2,3)] obtain log'
    where r: "history_record J ps at pr d log = Inr log'" by blast
  from history_record_shape [OF r] history_record_wf [OF r assms(1)] r show ?thesis
    by (metis (no_types, lifting))
qed

definition unit_json :: "'a json" where
  "unit_json = \<lparr>to_vec = (\<lambda>_. Inr ''{}''), from_slice = (\<lambda>_. Inl ''no decoder'')\<rparr>"

lemma history_record_correct_witness:
  "\<exists>log'. history_record unit_json
       [\<lparr>ph_operation = Put True, ph_address = Local ''a'' None, ph_version_id = None,
         ph_previous_version_id = None, ph_evict_at = None\<rparr>] 7 (Service Expiry) ''dev''
       (history_new LocalKeyring ''p'') = Inr log' \<and>
     history_wf log' \<and> unat (hl_next_seq log') = 1"
proof -
  let ?p = "\<lparr>ph_operation = Put True, ph_address = Local ''a'' None, ph_version_id = None,
         ph_previous_version_id = None, ph_evict_at = None\<rparr>"
  have "\<forall>e. is_ok (to_vec unit_json (e :: HistoryEntry))" by (simp add: unit_json_def)
  moreover have "unat (hl_next_seq (history_new LocalKeyring ''p'')) + length [?p] < 2 ^ 64"
    by (simp add: history_new_def)
  ultimately show ?thesis
    using history_record_correct [OF history_new_wf [of LocalKeyring "''p''"],
        of unit_json "[?p]" 7 "Service Expiry" "''dev''"]
    by (auto simp: history_new_def)
qed

text \<open>A log read back from storage is the log written, and only well-formed logs of the
  document asked for are accepted: loading succeeds exactly on bytes that decode to a log
  of the right version, kind and partition whose entries are supported and strictly
  ordered below the next sequence number.\<close>

lemma history_load_correct:
  "history_load J b kind part = Inr log \<longleftrightarrow>
     from_slice J b = Inr log \<and> history_wf log \<and> hl_kind log = kind \<and>
     (case part of None \<Rightarrow> True | Some p \<Rightarrow> hl_partition log = p)"
  by (auto simp: history_load_def rbind_Inr history_validate_iff split: option.splits)

end
