(* ===== verification/Automerge_Api.thy ===== *)
theory Automerge_Api
  imports Vault_Types
begin

text \<open>
  The part of the \<open>automerge\<close> crate the vault calls, as a record of functions over an
  opaque document type, and its documented behaviour.  A document is a root map and
  nested maps; a key of a map holds every concurrently written value, one after a write.
  \<open>commit\<close> closes the open change set and \<open>rollback\<close> undoes it.  A document keeps its
  whole operation history, which \<open>save\<close> writes out: \<open>amc_written\<close> is the set of values
  that history holds.
\<close>

type_synonym ObjId = bytes

datatype ObjType = AmMap | AmList

datatype am_value =
    AmStr string
  | AmUint u64
  | AmBytes bytes
  | AmObject ObjType
  | AmOther bytes

record 'd automerge =
  am_new :: "bytes \<Rightarrow> 'd"
  am_load :: "bytes \<Rightarrow> string + 'd"
  am_save :: "'d \<Rightarrow> bytes \<times> 'd"
  am_set_actor :: "bytes \<Rightarrow> 'd \<Rightarrow> 'd"
  am_get_actor :: "'d \<Rightarrow> bytes"
  am_get_root :: "'d \<Rightarrow> string \<Rightarrow> string + (am_value \<times> ObjId) option"
  am_put_root :: "string \<Rightarrow> am_value \<Rightarrow> 'd \<Rightarrow> string + 'd"
  am_put_map :: "string \<Rightarrow> 'd \<Rightarrow> string + (ObjId \<times> 'd)"
  am_get_all :: "'d \<Rightarrow> ObjId \<Rightarrow> string \<Rightarrow> string + am_value list"
  am_keys :: "'d \<Rightarrow> ObjId \<Rightarrow> string list"
  am_put_in :: "ObjId \<Rightarrow> string \<Rightarrow> am_value \<Rightarrow> 'd \<Rightarrow> string + 'd"
  am_delete_in :: "ObjId \<Rightarrow> string \<Rightarrow> 'd \<Rightarrow> string + 'd"
  am_commit :: "'d \<Rightarrow> 'd"
  am_rollback :: "'d \<Rightarrow> 'd"

record am_content =
  amc_root :: "string \<rightharpoonup> am_value \<times> ObjId"
  amc_maps :: "ObjId \<rightharpoonup> (string \<Rightarrow> am_value list)"
  amc_written :: "am_value set"

record am_view =
  amv_actor :: bytes
  amv_now :: am_content
  amv_base :: am_content

definition empty_content :: am_content where
  "empty_content = \<lparr>amc_root = Map.empty, amc_maps = Map.empty, amc_written = {}\<rparr>"

definition content_put_root :: "string \<Rightarrow> am_value \<Rightarrow> ObjId \<Rightarrow> am_content \<Rightarrow> am_content" where
  "content_put_root k v i c =
     c\<lparr>amc_root := (amc_root c)(k \<mapsto> (v, i)), amc_written := insert v (amc_written c)\<rparr>"

definition content_put_map :: "string \<Rightarrow> ObjId \<Rightarrow> am_content \<Rightarrow> am_content" where
  "content_put_map k i c =
     c\<lparr>amc_root := (amc_root c)(k \<mapsto> (AmObject AmMap, i)),
       amc_maps := (amc_maps c)(i \<mapsto> (\<lambda>_. []))\<rparr>"

definition content_set_in :: "ObjId \<Rightarrow> string \<Rightarrow> am_value list \<Rightarrow> am_content \<Rightarrow> am_content" where
  "content_set_in i k vs c =
     c\<lparr>amc_maps := (amc_maps c)(i \<mapsto> (the (amc_maps c i))(k := vs)),
       amc_written := set vs \<union> amc_written c\<rparr>"

definition automerge_ok :: "'d automerge \<Rightarrow> ('d \<Rightarrow> am_view) \<Rightarrow> bool" where
  "automerge_ok A V \<longleftrightarrow>
     (\<forall>a. V (am_new A a) = \<lparr>amv_actor = a, amv_now = empty_content, amv_base = empty_content\<rparr>) \<and>
     (\<forall>a d. V (am_set_actor A a d) = (V d)\<lparr>amv_actor := a\<rparr>) \<and>
     (\<forall>d. am_get_actor A d = amv_actor (V d)) \<and>
     (\<forall>d k. am_get_root A d k = Inr (amc_root (amv_now (V d)) k)) \<and>
     (\<forall>d k v. \<exists>d' i. am_put_root A k v d = Inr d' \<and>
        V d' = (V d)\<lparr>amv_now := content_put_root k v i (amv_now (V d))\<rparr>) \<and>
     (\<forall>d k. \<exists>d' i. am_put_map A k d = Inr (i, d') \<and> amc_maps (amv_now (V d)) i = None \<and>
        V d' = (V d)\<lparr>amv_now := content_put_map k i (amv_now (V d))\<rparr>) \<and>
     (\<forall>d i m k. amc_maps (amv_now (V d)) i = Some m \<longrightarrow> am_get_all A d i k = Inr (m k)) \<and>
     (\<forall>d i m. amc_maps (amv_now (V d)) i = Some m \<longrightarrow>
        distinct (am_keys A d i) \<and> set (am_keys A d i) = {k. m k \<noteq> []}) \<and>
     (\<forall>d i k v. amc_maps (amv_now (V d)) i \<noteq> None \<longrightarrow>
        (\<exists>d'. am_put_in A i k v d = Inr d' \<and>
           V d' = (V d)\<lparr>amv_now := content_set_in i k [v] (amv_now (V d))\<rparr>)) \<and>
     (\<forall>d i k. amc_maps (amv_now (V d)) i \<noteq> None \<longrightarrow>
        (\<exists>d'. am_delete_in A i k d = Inr d' \<and>
           V d' = (V d)\<lparr>amv_now := content_set_in i k [] (amv_now (V d))\<rparr>)) \<and>
     (\<forall>d. V (am_commit A d) = (V d)\<lparr>amv_base := amv_now (V d)\<rparr>) \<and>
     (\<forall>d. V (am_rollback A d) = (V d)\<lparr>amv_now := amv_base (V d)\<rparr>) \<and>
     (\<forall>d. V (snd (am_save A d)) = (V d)\<lparr>amv_base := amv_now (V d)\<rparr> \<and>
        (\<exists>d'. am_load A (fst (am_save A d)) = Inr d' \<and>
           amv_now (V d') = amv_now (V d) \<and> amv_base (V d') = amv_now (V d)))"

lemma content_simps [simp]:
  "amc_root (content_put_root k v i c) = (amc_root c)(k \<mapsto> (v, i))"
  "amc_maps (content_put_root k v i c) = amc_maps c"
  "amc_written (content_put_root k v i c) = insert v (amc_written c)"
  "amc_root (content_put_map k i c) = (amc_root c)(k \<mapsto> (AmObject AmMap, i))"
  "amc_maps (content_put_map k i c) = (amc_maps c)(i \<mapsto> (\<lambda>_. []))"
  "amc_written (content_put_map k i c) = amc_written c"
  "amc_root (content_set_in i k vs c) = amc_root c"
  "amc_maps (content_set_in i k vs c) = (amc_maps c)(i \<mapsto> (the (amc_maps c i))(k := vs))"
  "amc_written (content_set_in i k vs c) = set vs \<union> amc_written c"
  "amc_root empty_content = Map.empty"
  "amc_maps empty_content = Map.empty"
  "amc_written empty_content = {}"
  by (simp_all add: content_put_root_def content_put_map_def content_set_in_def empty_content_def)

lemma automerge_okD:
  assumes "automerge_ok A V"
  shows "V (am_new A a) = \<lparr>amv_actor = a, amv_now = empty_content, amv_base = empty_content\<rparr>"
    and "V (am_set_actor A a d) = (V d)\<lparr>amv_actor := a\<rparr>"
    and "am_get_actor A d = amv_actor (V d)"
    and "am_get_root A d k = Inr (amc_root (amv_now (V d)) k)"
    and "V (am_commit A d) = (V d)\<lparr>amv_base := amv_now (V d)\<rparr>"
    and "V (am_rollback A d) = (V d)\<lparr>amv_now := amv_base (V d)\<rparr>"
    and "amc_maps (amv_now (V d)) i = Some m \<Longrightarrow> am_get_all A d i k = Inr (m k)"
    and "amc_maps (amv_now (V d)) i = Some m \<Longrightarrow> distinct (am_keys A d i)"
    and "amc_maps (amv_now (V d)) i = Some m \<Longrightarrow> set (am_keys A d i) = {k. m k \<noteq> []}"
    and "V (snd (am_save A d)) = (V d)\<lparr>amv_base := amv_now (V d)\<rparr>"
  using assms by (simp_all add: automerge_ok_def)

lemma automerge_put_root:
  assumes "automerge_ok A V"
  obtains d' i where "am_put_root A k v d = Inr d'"
    and "V d' = (V d)\<lparr>amv_now := content_put_root k v i (amv_now (V d))\<rparr>"
  using assms unfolding automerge_ok_def by meson

lemma automerge_put_map:
  assumes "automerge_ok A V"
  obtains d' i where "am_put_map A k d = Inr (i, d')" and "amc_maps (amv_now (V d)) i = None"
    and "V d' = (V d)\<lparr>amv_now := content_put_map k i (amv_now (V d))\<rparr>"
  using assms unfolding automerge_ok_def by meson

lemma automerge_put_in:
  assumes "automerge_ok A V" and "amc_maps (amv_now (V d)) i = Some m"
  obtains d' where "am_put_in A i k v d = Inr d'"
    and "V d' = (V d)\<lparr>amv_now := content_set_in i k [v] (amv_now (V d))\<rparr>"
  using assms unfolding automerge_ok_def by (metis option.distinct(1))

lemma automerge_delete_in:
  assumes "automerge_ok A V" and "amc_maps (amv_now (V d)) i = Some m"
  obtains d' where "am_delete_in A i k d = Inr d'"
    and "V d' = (V d)\<lparr>amv_now := content_set_in i k [] (amv_now (V d))\<rparr>"
  using assms unfolding automerge_ok_def by (metis option.distinct(1))

lemma automerge_save_load:
  assumes "automerge_ok A V"
  obtains d' where "am_load A (fst (am_save A d)) = Inr d'"
    and "amv_now (V d') = amv_now (V d)" and "amv_base (V d') = amv_now (V d)"
  using assms unfolding automerge_ok_def by meson

end
