(* ===== verification/Document.thy ===== *)
theory Document
  imports Automerge_Api History "HOL-Library.List_Lexorder" "HOL-Library.Char_ord"
begin

text \<open>
  One encrypted document of secret records (\<open>src/src/vault/document.rs\<close>) with the
  personal-item hooks every write passes through (\<open>document/personal.rs\<close>,
  \<open>document/replicas.rs\<close>).  A document wraps an Automerge document; each write runs in
  a change set that is rolled back on error and ends in a projection: a fresh document
  holding the current records only.  The JSON codecs, Automerge, and the replicated
  personal item (\<open>src/src/personal.rs\<close>, \<open>src/src/personal/replica.rs\<close>) are arguments,
  collected in the record \<open>doc_env\<close>.
\<close>

section \<open>Data\<close>

record SecretRecord =
  sr_version :: nat
  sr_address :: SecretAddress
  sr_value :: bytes
  sr_evict_at :: "u64 option"
  sr_version_id :: VersionId
  sr_created_at :: u64
  sr_updated_at :: u64

datatype SecretRead = Missing | Value bytes | Conflict | Expired

record DocumentMutation =
  dm_address_migrations :: "(SecretAddress \<times> SecretAddress) list"
  dm_snapshot :: bytes
  dm_partition :: bytes
  dm_history :: "PendingHistory list"
  dm_next_eviction :: "u64 option"

datatype DocumentOperation =
    Put SecretAddress bytes "u64 option"
  | Delete SecretAddress

record MutationContext =
  mc_now :: u64
  mc_provenance :: Provenance
  mc_device_key_id :: DeviceKeyId

record 'd SecretDocument =
  sd_document :: 'd
  sd_entries :: ObjId
  sd_kind :: DocumentKind
  sd_partition :: bytes
  sd_pending :: "PendingHistory list"

record ReplicaCatalog =
  rc_replicas :: "string \<rightharpoonup> bytes"
  rc_pending :: "string set"

record ('r, 'i) personal_env =
  replica_new :: "string \<Rightarrow> bytes \<Rightarrow> 'r vault_result"
  replica_load :: "string \<Rightarrow> bytes \<Rightarrow> bytes \<Rightarrow> 'r vault_result"
  replica_values :: "'r \<Rightarrow> 'i option list vault_result"
  replica_set :: "'i option \<Rightarrow> 'r \<Rightarrow> 'r vault_result"
  replica_save :: "'r \<Rightarrow> bytes vault_result"
  decode_current :: "bytes \<Rightarrow> 'i option"
  item_id :: "'i \<Rightarrow> string"
  item_title :: "'i \<Rightarrow> string"
  item_kind_label :: "'i \<Rightarrow> string"
  item_username :: "'i \<Rightarrow> string option"
  item_website_host :: "'i \<Rightarrow> string option"
  item_favorite :: "'i \<Rightarrow> bool"
  j_catalog :: "ReplicaCatalog json"

record ('d, 'r, 'i) doc_env = hash_env +
  am :: "'d automerge"
  j_record :: "SecretRecord json"
  j_deadline :: "bytes \<Rightarrow> string + u64 option"
  personal :: "('r, 'i) personal_env"

definition FORMAT_VERSION :: u64 where "FORMAT_VERSION = 3"
definition PERSONAL_FORMAT_VERSION :: u64 where "PERSONAL_FORMAT_VERSION = 6"
definition RECORD_VERSION :: nat where "RECORD_VERSION = 2"

definition PERSONAL_SECRET_NAMESPACE :: bytes where
  "PERSONAL_SECRET_NAMESPACE = ''factorseal/personal-secrets/v1''"

definition descriptor_mismatch :: VaultError where
  "descriptor_mismatch =
     InvalidData ''Automerge document metadata does not match its protected descriptor''"

definition record_bytes :: "am_value \<Rightarrow> bytes vault_result" where
  "record_bytes v = (case v of
      AmBytes b \<Rightarrow> Inr b
    | _ \<Rightarrow> Inl (InvalidData ''secret document record is not bytes''))"

definition validate_record :: "SecretRecord \<Rightarrow> SecretAddress \<Rightarrow> unit vault_result" where
  "validate_record r address =
     guard (\<not> (sr_version r \<noteq> RECORD_VERSION \<or> sr_address r \<noteq> address))
       (InvalidData ''secret document record does not match its authenticated address'')"

definition validate_record_key ::
  "'z hash_env_scheme \<Rightarrow> SecretRecord \<Rightarrow> string \<Rightarrow> unit vault_result" where
  "validate_record_key H r key =
     guard (\<not> (sr_version r \<noteq> RECORD_VERSION \<or> storage_key H (sr_address r) \<noteq> key))
       (InvalidData ''secret document record does not match its authenticated index'')"

definition root_object ::
  "('d, 'r, 'i, 'z) doc_env_scheme \<Rightarrow> 'd \<Rightarrow> string \<Rightarrow> ObjType \<Rightarrow> ObjId vault_result" where
  "root_object E d key expected =
     rbind (map_err Automerge (am_get_root (am E) d key)) (\<lambda>v.
       case v of
         None \<Rightarrow> Inl (InvalidData (''secret document has no `'' @ key @ ''` object''))
       | Some (v, obj) \<Rightarrow>
           if v \<noteq> AmObject expected
           then Inl (InvalidData (''secret document `'' @ key @ ''` value has the wrong type''))
           else Inr obj)"

section \<open>Opening a document\<close>

definition document_new ::
  "('d, 'r, 'i, 'z) doc_env_scheme \<Rightarrow> bytes \<Rightarrow> DocumentKind \<Rightarrow> bytes
     \<Rightarrow> 'd SecretDocument vault_result" where
  "document_new E actor_id kind part =
     (let d = am_new (am E) actor_id in
      rbind (map_err Automerge (am_put_root (am E) ''format'' (AmStr (document_kind_as_str kind)) d)) (\<lambda>d.
      rbind (map_err Automerge (am_put_root (am E) ''format-version''
        (AmUint (if kind = LocalKeyring \<and> part = PERSONAL_SECRET_NAMESPACE
                 then PERSONAL_FORMAT_VERSION else FORMAT_VERSION)) d)) (\<lambda>d.
      rbind (map_err Automerge (am_put_root (am E) ''partition'' (AmBytes part) d)) (\<lambda>d.
      rbind (map_err Automerge (am_put_map (am E) ''entries'' d)) (\<lambda>(entries, d).
        Inr \<lparr>sd_document = d, sd_entries = entries, sd_kind = kind, sd_partition = part,
             sd_pending = []\<rparr>)))))"

definition value_as_str :: "(am_value \<times> ObjId) option \<Rightarrow> string option" where
  "value_as_str v = (case v of Some (AmStr s, _) \<Rightarrow> Some s | _ \<Rightarrow> None)"

definition value_as_u64 :: "(am_value \<times> ObjId) option \<Rightarrow> u64 option" where
  "value_as_u64 v = (case v of Some (AmUint n, _) \<Rightarrow> Some n | _ \<Rightarrow> None)"

definition value_into_bytes :: "(am_value \<times> ObjId) option \<Rightarrow> bytes option" where
  "value_into_bytes v = (case v of Some (AmBytes b, _) \<Rightarrow> Some b | _ \<Rightarrow> None)"

definition document_load ::
  "('d, 'r, 'i, 'z) doc_env_scheme \<Rightarrow> bytes \<Rightarrow> bytes \<Rightarrow> DocumentKind \<Rightarrow> bytes option
     \<Rightarrow> 'd SecretDocument vault_result" where
  "document_load E snapshot actor_id kind expected_partition =
     rbind (map_err Automerge (am_load (am E) snapshot)) (\<lambda>d.
     let d = am_set_actor (am E) actor_id d in
     rbind (map_err Automerge (am_get_root (am E) d ''format'')) (\<lambda>format.
     rbind (map_err Automerge (am_get_root (am E) d ''format-version'')) (\<lambda>version.
     rbind (map_err Automerge (am_get_root (am E) d ''partition'')) (\<lambda>part.
     rbind (ok_or (value_into_bytes part) descriptor_mismatch) (\<lambda>part.
     let version = value_as_u64 version in
     rbind (guard (\<not> (value_as_str format \<noteq> Some (document_kind_as_str kind) \<or>
                     \<not> (version = Some FORMAT_VERSION \<or>
                        (kind = LocalKeyring \<and> part = PERSONAL_SECRET_NAMESPACE \<and>
                         (version = Some 4 \<or> version = Some 5 \<or>
                          version = Some PERSONAL_FORMAT_VERSION))) \<or>
                     (case expected_partition of None \<Rightarrow> False | Some p \<Rightarrow> part \<noteq> p)))
              descriptor_mismatch) (\<lambda>_.
     rbind (root_object E d ''entries'' AmMap) (\<lambda>entries.
       Inr \<lparr>sd_document = d, sd_entries = entries, sd_kind = kind, sd_partition = part,
            sd_pending = []\<rparr>)))))))"

section \<open>Reading\<close>

definition document_records ::
  "('d, 'r, 'i, 'z) doc_env_scheme \<Rightarrow> 'd SecretDocument \<Rightarrow> string \<Rightarrow> SecretRecord list vault_result" where
  "document_records E D key =
     rbind (map_err Automerge (am_get_all (am E) (sd_document D) (sd_entries D) key)) (\<lambda>values.
       rmapM (\<lambda>v. rbind (record_bytes v) (\<lambda>b. map_err InvalidData (from_slice (j_record E) b))) values)"

fun visible_address ::
  "'z hash_env_scheme \<Rightarrow> string \<Rightarrow> SecretRecord list \<Rightarrow> SecretAddress option
     \<Rightarrow> SecretAddress option vault_result" where
  "visible_address H key [] address = Inr address"
| "visible_address H key (r # rs) address =
     rbind (validate_record_key H r key) (\<lambda>_.
       if (case address of None \<Rightarrow> False | Some visible \<Rightarrow> visible \<noteq> sr_address r)
       then Inl VaultError.Conflict
       else visible_address H key rs (Some (sr_address r)))"

definition document_addresses ::
  "('d, 'r, 'i, 'z) doc_env_scheme \<Rightarrow> 'd SecretDocument
     \<Rightarrow> (string \<times> SecretAddress) list vault_result" where
  "document_addresses E D =
     rmapM (\<lambda>key.
       rbind (document_records E D key) (\<lambda>rs.
       rbind (visible_address E key rs None) (\<lambda>address.
       rbind (ok_or address (InvalidData ''secret document entry has no visible record'')) (\<lambda>address.
         Inr (key, address)))))
       (sort (am_keys (am E) (sd_document D) (sd_entries D)))"

section \<open>Personal items\<close>

definition is_personal :: "'d SecretDocument \<Rightarrow> bool" where
  "is_personal D \<longleftrightarrow> sd_kind D = LocalKeyring \<and> sd_partition D = PERSONAL_SECRET_NAMESPACE"

definition MAX_CATALOG_BYTES :: nat where
  "MAX_CATALOG_BYTES = 32 * 1024 * 1024"

definition catalog_load ::
  "('r, 'i) personal_env \<Rightarrow> string \<Rightarrow> bytes \<Rightarrow> ReplicaCatalog \<Rightarrow> 'r option vault_result" where
  "catalog_load P id' actor c =
     (case rc_replicas c id' of
        None \<Rightarrow> Inr None
      | Some b \<Rightarrow> rbind (replica_load P id' b actor) (\<lambda>r. Inr (Some r)))"

definition catalog_store ::
  "('r, 'i) personal_env \<Rightarrow> string \<Rightarrow> 'r \<Rightarrow> bool \<Rightarrow> ReplicaCatalog \<Rightarrow> ReplicaCatalog vault_result" where
  "catalog_store P id' replica pending c =
     rbind (guard (\<not> (rc_replicas c id' = None \<and> card (dom (rc_replicas c)) \<ge> 4096))
              (Protocol ''personal replica catalog is full'')) (\<lambda>_.
     rbind (replica_save P replica) (\<lambda>b.
       Inr \<lparr>rc_replicas = (rc_replicas c)(id' \<mapsto> b),
            rc_pending = (if pending then insert id' (rc_pending c) else rc_pending c)\<rparr>))"

definition personal_replicas ::
  "('d, 'r, 'i, 'z) doc_env_scheme \<Rightarrow> 'd SecretDocument \<Rightarrow> ReplicaCatalog vault_result" where
  "personal_replicas E D =
     rbind (guard (is_personal D) descriptor_mismatch) (\<lambda>_.
     rbind (map_err Automerge (am_get_root (am E) (sd_document D) ''personal-automerge-v1'')) (\<lambda>v.
       case v of
         None \<Rightarrow> Inr \<lparr>rc_replicas = Map.empty, rc_pending = {}\<rparr>
       | Some v \<Rightarrow>
           rbind (ok_or (value_into_bytes (Some v)) descriptor_mismatch) (\<lambda>b.
           rbind (guard (\<not> length b > MAX_CATALOG_BYTES) descriptor_mismatch) (\<lambda>_.
           rbind (map_err (\<lambda>_. descriptor_mismatch) (from_slice (j_catalog (personal E)) b)) (\<lambda>c.
           rbind (guard (\<not> (card (dom (rc_replicas c)) > 4096 \<or>
                           \<not> rc_pending c \<subseteq> dom (rc_replicas c))) descriptor_mismatch) (\<lambda>_.
             Inr c))))))"

definition save_personal_replicas ::
  "('d, 'r, 'i, 'z) doc_env_scheme \<Rightarrow> ReplicaCatalog \<Rightarrow> ('d SecretDocument, VaultError, unit) action" where
  "save_personal_replicas E c =
     sbind (slift (map_err (\<lambda>_. descriptor_mismatch) (to_vec (j_catalog (personal E)) c))) (\<lambda>b.
     sbind (slift (guard (\<not> length b > MAX_CATALOG_BYTES)
                     (Protocol ''personal replica catalog is full''))) (\<lambda>_.
       supdate (\<lambda>D. rbind (map_err Automerge
         (am_put_root (am E) ''personal-automerge-v1'' (AmBytes b) (sd_document D)))
           (\<lambda>d. Inr (D\<lparr>sd_document := d\<rparr>)))))"

definition ensure_personal_unconflicted ::
  "('d, 'r, 'i, 'z) doc_env_scheme \<Rightarrow> SecretAddress \<Rightarrow> 'd SecretDocument \<Rightarrow> unit vault_result" where
  "ensure_personal_unconflicted E address D =
     (if is_personal D then
        (case as_local address of
           None \<Rightarrow> Inr ()
         | Some (id', _) \<Rightarrow>
             rbind (personal_replicas E D) (\<lambda>c.
             rbind (catalog_load (personal E) id' (am_get_actor (am E) (sd_document D)) c) (\<lambda>r.
               case r of
                 None \<Rightarrow> Inr ()
               | Some r \<Rightarrow>
                   rbind (replica_values (personal E) r) (\<lambda>vs.
                     guard (\<not> length vs > 1) VaultError.Conflict))))
      else Inr ())"

definition validate_personal_put ::
  "('d, 'r, 'i, 'z) doc_env_scheme \<Rightarrow> SecretAddress \<Rightarrow> bytes \<Rightarrow> u64 option
     \<Rightarrow> ('d SecretDocument, VaultError, unit) action" where
  "validate_personal_put E address v evict_at =
     sbind (sget is_personal) (\<lambda>p. if \<not> p then sret ()
      else
        sbind (slift (ok_or (decode_current (personal E) v) (Protocol ''invalid personal item''))) (\<lambda>item.
        sbind (slift (guard (\<not> (as_local address \<noteq> Some (item_id (personal E) item, None) \<or>
                                evict_at \<noteq> None))
                 (Protocol ''personal items must be addressed by ID and cannot expire''))) (\<lambda>_.
          supdate (\<lambda>D. rbind (map_err Automerge
            (am_put_root (am E) ''personal-layout'' (AmUint 1) (sd_document D)))
              (\<lambda>d. Inr (D\<lparr>sd_document := d\<rparr>))))))"

definition record_personal_change ::
  "('d, 'r, 'i, 'z) doc_env_scheme \<Rightarrow> SecretAddress \<Rightarrow> bool
     \<Rightarrow> ('d SecretDocument, VaultError, unit) action" where
  "record_personal_change E address deleted =
     sbind (sget is_personal) (\<lambda>p. if \<not> p then sret ()
      else
        sbind (slift (ok_or (as_local address) descriptor_mismatch)) (\<lambda>(id', fld).
        sbind (slift (guard (fld = None) descriptor_mismatch)) (\<lambda>_.
        sbind (sread (personal_replicas E)) (\<lambda>c.
        sbind (sget (\<lambda>D. am_get_actor (am E) (sd_document D))) (\<lambda>actor.
        sbind (slift (catalog_load (personal E) id' actor c)) (\<lambda>loaded.
        sbind (slift (replica_new (personal E) id' actor)) (\<lambda>fresh.
        let replica = (case loaded of None \<Rightarrow> fresh | Some r \<Rightarrow> r) in
        sbind (if deleted then sret None
               else
                 sbind (sread (\<lambda>D. document_records E D (storage_key E address))) (\<lambda>rs.
                 sbind (slift (ok_or (if rs = [] then None else Some (hd rs)) descriptor_mismatch)) (\<lambda>r.
                 sbind (slift (ok_or (decode_current (personal E) (sr_value r)) descriptor_mismatch)) (\<lambda>item.
                   sret (Some item))))) (\<lambda>item.
        sbind (slift (replica_set (personal E) item replica)) (\<lambda>replica.
        sbind (slift (catalog_store (personal E) id' replica True c)) (\<lambda>c.
          save_personal_replicas E c))))))))))"

fun copy_root_scalars ::
  "('d, 'r, 'i, 'z) doc_env_scheme \<Rightarrow> 'd \<Rightarrow> string list \<Rightarrow> 'd \<Rightarrow> 'd vault_result" where
  "copy_root_scalars E src [] d = Inr d"
| "copy_root_scalars E src (key # keys) d =
     rbind (map_err Automerge (am_get_root (am E) src key)) (\<lambda>v.
       case v of
         None \<Rightarrow> copy_root_scalars E src keys d
       | Some (v, _) \<Rightarrow>
           (case v of
              AmObject _ \<Rightarrow> Inl descriptor_mismatch
            | _ \<Rightarrow> rbind (map_err Automerge (am_put_root (am E) key v d)) (copy_root_scalars E src keys)))"

definition project_personal_metadata ::
  "('d, 'r, 'i, 'z) doc_env_scheme \<Rightarrow> 'd SecretDocument \<Rightarrow> 'd SecretDocument
     \<Rightarrow> 'd SecretDocument vault_result" where
  "project_personal_metadata E D projection =
     (if is_personal D then
        rbind (copy_root_scalars E (sd_document D)
                 [''personal-layout'', ''personal-legacy-addresses'',
                  ''personal-automerge-v1'', ''personal-sync-v1''] (sd_document projection))
          (\<lambda>d. Inr (projection\<lparr>sd_document := d\<rparr>))
      else Inr projection)"

section \<open>Looking up a secret\<close>

definition min_deadline :: "u64 option list \<Rightarrow> u64 option" where
  "min_deadline ds = (case List.map_filter (\<lambda>d. d) ds of [] \<Rightarrow> None | x # xs \<Rightarrow> Some (fold min xs x))"

definition expired_by :: "u64 \<Rightarrow> SecretRecord \<Rightarrow> bool" where
  "expired_by now r = (case sr_evict_at r of None \<Rightarrow> False | Some deadline \<Rightarrow> deadline \<le> now)"

definition get_with_deadline ::
  "('d, 'r, 'i, 'z) doc_env_scheme \<Rightarrow> 'd SecretDocument \<Rightarrow> SecretAddress \<Rightarrow> u64
     \<Rightarrow> (SecretRead \<times> u64 option) vault_result" where
  "get_with_deadline E D address now =
     rbind (ensure_personal_unconflicted E address D) (\<lambda>_.
     rbind (document_records E D (storage_key E address)) (\<lambda>rs.
       case rs of
         [] \<Rightarrow> Inr (Missing, None)
       | first # rest \<Rightarrow>
           rbind (rforM (\<lambda>r. validate_record r address) rs) (\<lambda>_.
             if list_ex (expired_by now) rs then Inr (SecretRead.Expired, None)
             else if list_ex (\<lambda>r. sr_value r \<noteq> sr_value first) rest
               then Inr (SecretRead.Conflict, None)
             else Inr (Value (sr_value first), min_deadline (map sr_evict_at rs)))))"

definition document_get ::
  "('d, 'r, 'i, 'z) doc_env_scheme \<Rightarrow> 'd SecretDocument \<Rightarrow> SecretAddress \<Rightarrow> u64 \<Rightarrow> SecretRead vault_result" where
  "document_get E D address now = rbind (get_with_deadline E D address now) (\<lambda>(read, _). Inr read)"

section \<open>Projection\<close>

fun visible_bytes :: "am_value list \<Rightarrow> bytes option \<Rightarrow> bytes option vault_result" where
  "visible_bytes [] visible = Inr visible"
| "visible_bytes (v # vs) visible =
     rbind (record_bytes v) (\<lambda>b.
       if (case visible of None \<Rightarrow> False | Some current \<Rightarrow> current \<noteq> b)
       then Inl VaultError.Conflict
       else visible_bytes vs (Some b))"

definition earliest :: "u64 option \<Rightarrow> u64 option \<Rightarrow> u64 option" where
  "earliest next_eviction deadline =
     (case deadline of
        None \<Rightarrow> next_eviction
      | Some deadline \<Rightarrow>
          Some (case next_eviction of None \<Rightarrow> deadline | Some current \<Rightarrow> min current deadline))"

definition project_key ::
  "('d, 'r, 'i, 'z) doc_env_scheme \<Rightarrow> 'd SecretDocument \<Rightarrow> string
     \<Rightarrow> 'd SecretDocument \<times> u64 option \<Rightarrow> ('d SecretDocument \<times> u64 option) vault_result" where
  "project_key E D key = (\<lambda>(projection, next_eviction).
     rbind (map_err Automerge (am_get_all (am E) (sd_document D) (sd_entries D) key)) (\<lambda>values.
     rbind (visible_bytes values None) (\<lambda>visible.
     rbind (ok_or visible (InvalidData ''secret document entry has no visible record'')) (\<lambda>b.
     rbind (map_err InvalidData (j_deadline E b)) (\<lambda>deadline.
     rbind (map_err Automerge
              (am_put_in (am E) (sd_entries projection) key (AmBytes b) (sd_document projection))) (\<lambda>d.
       Inr (projection\<lparr>sd_document := d\<rparr>, earliest next_eviction deadline)))))))"

definition document_project ::
  "('d, 'r, 'i, 'z) doc_env_scheme \<Rightarrow> 'd SecretDocument \<Rightarrow> ('d SecretDocument \<times> u64 option) vault_result" where
  "document_project E D =
     rbind (document_new E (am_get_actor (am E) (sd_document D)) (sd_kind D) (sd_partition D)) (\<lambda>projection.
     rbind (project_personal_metadata E D projection) (\<lambda>projection.
       rfold (project_key E D) (sort (am_keys (am E) (sd_document D) (sd_entries D)))
         (projection, None)))"

definition finish_mutation ::
  "('d, 'r, 'i, 'z) doc_env_scheme \<Rightarrow> ('d SecretDocument, VaultError, DocumentMutation) action" where
  "finish_mutation E D =
     (case document_project E D of
        Inl e \<Rightarrow> (Inl e, D)
      | Inr (projection, next_eviction) \<Rightarrow>
          (let (snapshot, d) = am_save (am E) (sd_document projection);
               projection = projection\<lparr>sd_document := d\<rparr>
           in (Inr \<lparr>dm_address_migrations = [], dm_snapshot = snapshot,
                    dm_partition = sd_partition projection, dm_history = sd_pending D,
                    dm_next_eviction = next_eviction\<rparr>, projection)))"

section \<open>Mutations\<close>

definition document_mutate ::
  "('d, 'r, 'i, 'z) doc_env_scheme \<Rightarrow> ('d SecretDocument, VaultError, 'a) action
     \<Rightarrow> ('d SecretDocument, VaultError, 'a) action" where
  "document_mutate E operation D =
     (let D = D\<lparr>sd_document := am_commit (am E) (sd_document D)\<rparr> in
      case operation D of
        (Inr x, D) \<Rightarrow> (Inr x, D)
      | (Inl e, D) \<Rightarrow>
          (Inl e, D\<lparr>sd_document := am_rollback (am E) (sd_document D), sd_pending := []\<rparr>))"

definition push_pending :: "PendingHistory \<Rightarrow> ('d SecretDocument, VaultError, unit) action" where
  "push_pending p = smodify (\<lambda>D. D\<lparr>sd_pending := sd_pending D @ [p]\<rparr>)"

definition put_value_uncommitted ::
  "('d, 'r, 'i, 'z) doc_env_scheme \<Rightarrow> VersionId vault_result \<Rightarrow> SecretAddress \<Rightarrow> bytes \<Rightarrow> u64 option
     \<Rightarrow> MutationContext \<Rightarrow> bool \<Rightarrow> ('d SecretDocument, VaultError, unit) action" where
  "put_value_uncommitted E random address v evict_at context record_revision =
     sbind (validate_personal_put E address v evict_at) (\<lambda>_.
     let key = storage_key E address in
     sbind (sread (\<lambda>D. document_records E D key)) (\<lambda>rs.
     let existing = (case rs of [] \<Rightarrow> None | r # _ \<Rightarrow> Some r);
         changed = (case existing of None \<Rightarrow> True
                    | Some r \<Rightarrow> sr_value r \<noteq> v \<or> sr_evict_at r \<noteq> evict_at) in
     sbind (slift (case existing of
              Some r \<Rightarrow> if changed then random else Inr (sr_version_id r)
            | None \<Rightarrow> random)) (\<lambda>version_id.
     let record = \<lparr>sr_version = RECORD_VERSION, sr_address = address, sr_value = v,
                   sr_evict_at = evict_at, sr_version_id = version_id,
                   sr_created_at = (case existing of None \<Rightarrow> mc_now context | Some r \<Rightarrow> sr_created_at r),
                   sr_updated_at = mc_now context\<rparr> in
     sbind (slift (map_err InvalidData (to_vec (j_record E) record))) (\<lambda>b.
     sbind (supdate (\<lambda>D. rbind (map_err Automerge
              (am_put_in (am E) (sd_entries D) key (AmBytes b) (sd_document D)))
                (\<lambda>d. Inr (D\<lparr>sd_document := d\<rparr>)))) (\<lambda>_.
     sbind (if changed \<and> record_revision then record_personal_change E address False else sret ()) (\<lambda>_.
     sbind (sget sd_kind) (\<lambda>kind.
       if changed \<or> record_unchanged (history_retention kind) then
         push_pending \<lparr>ph_operation = HistoryOperation.Put changed, ph_address = address,
           ph_version_id = Some version_id,
           ph_previous_version_id = map_option sr_version_id existing,
           ph_evict_at = evict_at\<rparr>
       else sret ())))))))"

definition put_uncommitted ::
  "('d, 'r, 'i, 'z) doc_env_scheme \<Rightarrow> VersionId vault_result \<Rightarrow> SecretAddress \<Rightarrow> bytes \<Rightarrow> u64 option
     \<Rightarrow> MutationContext \<Rightarrow> ('d SecretDocument, VaultError, unit) action" where
  "put_uncommitted E random address v evict_at context =
     sbind (sread (ensure_personal_unconflicted E address)) (\<lambda>_.
       put_value_uncommitted E random address v evict_at context True)"

definition delete_value_uncommitted ::
  "('d, 'r, 'i, 'z) doc_env_scheme \<Rightarrow> SecretAddress \<Rightarrow> HistoryOperation \<Rightarrow> bool
     \<Rightarrow> ('d SecretDocument, VaultError, bool) action" where
  "delete_value_uncommitted E address operation record_revision =
     (let key = storage_key E address in
      sbind (sread (\<lambda>D. document_records E D key)) (\<lambda>rs.
        case rs of
          [] \<Rightarrow> sret False
        | existing # _ \<Rightarrow>
            sbind (supdate (\<lambda>D. rbind (map_err Automerge
                     (am_delete_in (am E) (sd_entries D) key (sd_document D)))
                       (\<lambda>d. Inr (D\<lparr>sd_document := d\<rparr>)))) (\<lambda>_.
            sbind (if record_revision then record_personal_change E address True else sret ()) (\<lambda>_.
            sbind (push_pending \<lparr>ph_operation = operation, ph_address = address,
                     ph_version_id = None,
                     ph_previous_version_id = Some (sr_version_id existing),
                     ph_evict_at = sr_evict_at existing\<rparr>) (\<lambda>_.
              sret True)))))"

definition delete_uncommitted ::
  "('d, 'r, 'i, 'z) doc_env_scheme \<Rightarrow> SecretAddress \<Rightarrow> HistoryOperation
     \<Rightarrow> ('d SecretDocument, VaultError, bool) action" where
  "delete_uncommitted E address operation =
     sbind (sread (ensure_personal_unconflicted E address)) (\<lambda>_.
       delete_value_uncommitted E address operation True)"

definition document_put ::
  "('d, 'r, 'i, 'z) doc_env_scheme \<Rightarrow> VersionId vault_result \<Rightarrow> SecretAddress \<Rightarrow> bytes \<Rightarrow> u64 option
     \<Rightarrow> MutationContext \<Rightarrow> ('d SecretDocument, VaultError, DocumentMutation) action" where
  "document_put E random address v evict_at context =
     document_mutate E (sbind (put_uncommitted E random address v evict_at context)
       (\<lambda>_. finish_mutation E))"

text \<open>\<open>rng\<close> gives the random identifier drawn for the operation at each position.\<close>

fun apply_operations ::
  "('d, 'r, 'i, 'z) doc_env_scheme \<Rightarrow> (nat \<Rightarrow> VersionId vault_result) \<Rightarrow> MutationContext \<Rightarrow> nat
     \<Rightarrow> DocumentOperation list \<Rightarrow> bool \<Rightarrow> ('d SecretDocument, VaultError, bool) action" where
  "apply_operations E rng context n [] changed = sret changed"
| "apply_operations E rng context n (Put address v evict_at # ops) changed =
     sbind (put_uncommitted E (rng n) address v evict_at context) (\<lambda>_.
       apply_operations E rng context (Suc n) ops True)"
| "apply_operations E rng context n (Delete address # ops) changed =
     sbind (delete_uncommitted E address HistoryOperation.Delete) (\<lambda>removed.
       apply_operations E rng context (Suc n) ops (changed \<or> removed))"

definition document_apply ::
  "('d, 'r, 'i, 'z) doc_env_scheme \<Rightarrow> (nat \<Rightarrow> VersionId vault_result) \<Rightarrow> DocumentOperation list
     \<Rightarrow> MutationContext \<Rightarrow> ('d SecretDocument, VaultError, DocumentMutation option) action" where
  "document_apply E rng operations context =
     document_mutate E (sbind (apply_operations E rng context 0 operations False) (\<lambda>changed.
       if \<not> changed then sret None
       else sbind (finish_mutation E) (\<lambda>m. sret (Some m))))"

definition document_remove ::
  "('d, 'r, 'i, 'z) doc_env_scheme \<Rightarrow> SecretAddress \<Rightarrow> HistoryOperation
     \<Rightarrow> ('d SecretDocument, VaultError, DocumentMutation option) action" where
  "document_remove E address operation =
     document_mutate E (sbind (delete_uncommitted E address operation) (\<lambda>removed.
       if \<not> removed then sret None
       else sbind (finish_mutation E) (\<lambda>m. sret (Some m))))"

definition document_delete ::
  "('d, 'r, 'i, 'z) doc_env_scheme \<Rightarrow> SecretAddress
     \<Rightarrow> ('d SecretDocument, VaultError, DocumentMutation option) action" where
  "document_delete E address = document_remove E address HistoryOperation.Delete"

definition document_expire ::
  "('d, 'r, 'i, 'z) doc_env_scheme \<Rightarrow> SecretAddress
     \<Rightarrow> ('d SecretDocument, VaultError, DocumentMutation option) action" where
  "document_expire E address = document_remove E address HistoryOperation.Expire"

text \<open>The inner loop of the sweep stops at the first expired record of a key.\<close>

fun first_expired ::
  "'z hash_env_scheme \<Rightarrow> string \<Rightarrow> u64 \<Rightarrow> SecretRecord list \<Rightarrow> SecretAddress option vault_result" where
  "first_expired H key now [] = Inr None"
| "first_expired H key now (r # rs) =
     rbind (validate_record_key H r key) (\<lambda>_.
       if expired_by now r then Inr (Some (sr_address r)) else first_expired H key now rs)"

definition purge_expired ::
  "('d, 'r, 'i, 'z) doc_env_scheme \<Rightarrow> u64
     \<Rightarrow> ('d SecretDocument, VaultError, DocumentMutation option) action" where
  "purge_expired E now =
     document_mutate E
       (sbind (sread (\<lambda>D. rmapM (\<lambda>key. rbind (document_records E D key) (first_expired E key now))
                 (am_keys (am E) (sd_document D) (sd_entries D)))) (\<lambda>found.
        let expired = List.map_filter (\<lambda>a. a) found in
        if expired = [] then sret None
        else
          sbind (sfor (\<lambda>address. sbind (delete_uncommitted E address HistoryOperation.Expire)
                   (\<lambda>_. sret ())) expired) (\<lambda>_.
          sbind (finish_mutation E) (\<lambda>m. sret (Some m)))))"

definition document_clear ::
  "('d, 'r, 'i, 'z) doc_env_scheme
     \<Rightarrow> ('d SecretDocument, VaultError, (nat \<times> DocumentMutation) option) action" where
  "document_clear E =
     document_mutate E
       (sbind (sread (\<lambda>D. Inr (am_keys (am E) (sd_document D) (sd_entries D)))) (\<lambda>keys.
        if keys = [] then sret None
        else
          sbind (sfor (\<lambda>key. sbind (sread (\<lambda>D. document_records E D key)) (\<lambda>rs.
                    case rs of
                      [] \<Rightarrow> sret ()
                    | r # _ \<Rightarrow> sbind (delete_uncommitted E (sr_address r) HistoryOperation.Clear)
                                (\<lambda>_. sret ()))) keys) (\<lambda>_.
          sbind (finish_mutation E) (\<lambda>m. sret (Some (length keys, m))))))"

end
