(* ===== verification/Document_Laws.thy ===== *)
theory Document_Laws
  imports Document Lease
begin

text \<open>
  Correctness of the document component.  First, for every document, that a rejected
  mutation is rolled back completely.  Then, for ordinary documents (all but the
  personal-item document), that each operation refines the obvious operation on a map
  from storage keys to records: \<open>doc_map\<close> is the abstraction, \<open>doc_inv\<close> the invariant,
  \<open>committed\<close> what a successful mutation hands to the store.
\<close>

section \<open>Rejected writes leave nothing behind\<close>

text \<open>What every step inside a change set leaves alone: the committed state and the
  identity of the document.\<close>

definition same_base :: "('d \<Rightarrow> am_view) \<Rightarrow> 'd SecretDocument \<Rightarrow> 'd SecretDocument \<Rightarrow> bool" where
  "same_base V D D' \<longleftrightarrow> amv_base (V (sd_document D')) = amv_base (V (sd_document D)) \<and>
     amv_actor (V (sd_document D')) = amv_actor (V (sd_document D)) \<and>
     amc_maps (amv_now (V (sd_document D'))) (sd_entries D) \<noteq> None \<and>
     sd_entries D' = sd_entries D \<and> sd_kind D' = sd_kind D \<and> sd_partition D' = sd_partition D"

lemma same_base_put_root:
  assumes "automerge_ok (am E) V"
  shows "preserves (same_base V D0) (supdate (\<lambda>D.
    rbind (map_err Automerge (am_put_root (am E) k v (sd_document D))) (\<lambda>d. Inr (D\<lparr>sd_document := d\<rparr>))))"
proof (rule preserves_supdate)
  fix D D'
  assume base: "same_base V D0 D"
    and put: "rbind (map_err Automerge (am_put_root (am E) k v (sd_document D)))
      (\<lambda>d. Inr (D\<lparr>sd_document := d\<rparr>)) = Inr D'"
  obtain d' i where "am_put_root (am E) k v (sd_document D) = Inr d'"
    "V d' = (V (sd_document D))\<lparr>amv_now := content_put_root k v i (amv_now (V (sd_document D)))\<rparr>"
    by (rule automerge_put_root [OF assms])
  with base put show "same_base V D0 D'" by (auto simp: same_base_def)
qed

lemma same_base_put_in:
  assumes "automerge_ok (am E) V"
  shows "preserves (same_base V D0) (supdate (\<lambda>D.
    rbind (map_err Automerge (am_put_in (am E) (sd_entries D) k v (sd_document D)))
      (\<lambda>d. Inr (D\<lparr>sd_document := d\<rparr>))))"
proof (rule preserves_supdate)
  fix D D'
  assume base: "same_base V D0 D"
    and put: "rbind (map_err Automerge (am_put_in (am E) (sd_entries D) k v (sd_document D)))
      (\<lambda>d. Inr (D\<lparr>sd_document := d\<rparr>)) = Inr D'"
  from base obtain m where m: "amc_maps (amv_now (V (sd_document D))) (sd_entries D) = Some m"
    by (auto simp: same_base_def)
  obtain d' where "am_put_in (am E) (sd_entries D) k v (sd_document D) = Inr d'"
    "V d' = (V (sd_document D))\<lparr>amv_now :=
       content_set_in (sd_entries D) k [v] (amv_now (V (sd_document D)))\<rparr>"
    by (rule automerge_put_in [OF assms m])
  with base put show "same_base V D0 D'" by (auto simp: same_base_def)
qed

lemma same_base_delete_in:
  assumes "automerge_ok (am E) V"
  shows "preserves (same_base V D0) (supdate (\<lambda>D.
    rbind (map_err Automerge (am_delete_in (am E) (sd_entries D) k (sd_document D)))
      (\<lambda>d. Inr (D\<lparr>sd_document := d\<rparr>))))"
proof (rule preserves_supdate)
  fix D D'
  assume base: "same_base V D0 D"
    and del: "rbind (map_err Automerge (am_delete_in (am E) (sd_entries D) k (sd_document D)))
      (\<lambda>d. Inr (D\<lparr>sd_document := d\<rparr>)) = Inr D'"
  from base obtain m where m: "amc_maps (amv_now (V (sd_document D))) (sd_entries D) = Some m"
    by (auto simp: same_base_def)
  obtain d' where "am_delete_in (am E) (sd_entries D) k (sd_document D) = Inr d'"
    "V d' = (V (sd_document D))\<lparr>amv_now :=
       content_set_in (sd_entries D) k [] (amv_now (V (sd_document D)))\<rparr>"
    by (rule automerge_delete_in [OF assms m])
  with base del show "same_base V D0 D'" by (auto simp: same_base_def)
qed

lemma same_base_push: "preserves (same_base V D0) (push_pending p)"
  unfolding push_pending_def by (rule preserves_smodify) (simp add: same_base_def)

lemmas same_base_steps =
  same_base_put_root same_base_put_in same_base_delete_in same_base_push

lemma same_base_save_replicas:
  "automerge_ok (am E) V \<Longrightarrow> preserves (same_base V D0) (save_personal_replicas E c)"
  unfolding save_personal_replicas_def by (intro preserves_intros same_base_steps)

lemma same_base_validate_personal_put:
  "automerge_ok (am E) V \<Longrightarrow> preserves (same_base V D0) (validate_personal_put E a v e)"
  unfolding validate_personal_put_def by (intro preserves_intros same_base_steps)

lemma same_base_record_personal_change:
  "automerge_ok (am E) V \<Longrightarrow> preserves (same_base V D0) (record_personal_change E a del)"
  unfolding record_personal_change_def Let_def case_prod_beta
  by (intro preserves_intros same_base_save_replicas)

lemma same_base_put_uncommitted:
  "automerge_ok (am E) V \<Longrightarrow> preserves (same_base V D0) (put_uncommitted E rnd a v e ctx)"
  unfolding put_uncommitted_def put_value_uncommitted_def Let_def
  by (intro preserves_intros same_base_steps same_base_validate_personal_put
      same_base_record_personal_change)

lemma same_base_delete_uncommitted:
  "automerge_ok (am E) V \<Longrightarrow> preserves (same_base V D0) (delete_uncommitted E a op)"
  unfolding delete_uncommitted_def delete_value_uncommitted_def Let_def
  by (intro preserves_intros same_base_steps same_base_record_personal_change)

lemma same_base_apply_operations:
  "automerge_ok (am E) V \<Longrightarrow> preserves (same_base V D0) (apply_operations E rng ctx n ops ch)"
  by (induction E rng ctx n ops ch rule: apply_operations.induct)
    (auto intro!: preserves_intros same_base_put_uncommitted same_base_delete_uncommitted)

lemma finish_mutation_err: "finish_mutation E D = (Inl e, D') \<Longrightarrow> D' = D"
  by (auto simp: finish_mutation_def Let_def split: sum.splits prod.splits)

text \<open>A change set ended by an error: it ran steps that keep the committed state, and a
  failing projection changes nothing.\<close>

definition failing_clean ::
  "('d \<Rightarrow> am_view) \<Rightarrow> 'd SecretDocument \<Rightarrow> ('d SecretDocument, VaultError, 'a) action \<Rightarrow> bool" where
  "failing_clean V D0 m \<longleftrightarrow>
     (\<forall>D e D'. same_base V D0 D \<longrightarrow> m D = (Inl e, D') \<longrightarrow> same_base V D0 D')"

lemma failing_clean_finish: "failing_clean V D0 (finish_mutation E)"
  unfolding failing_clean_def using finish_mutation_err by metis

lemma failing_clean_preserves: "preserves (same_base V D0) m \<Longrightarrow> failing_clean V D0 m"
  unfolding failing_clean_def using preservesD by fast

lemma failing_clean_sbind:
  assumes "preserves (same_base V D0) m" and "\<And>x. failing_clean V D0 (f x)"
  shows "failing_clean V D0 (sbind m f)"
  unfolding failing_clean_def
proof (intro allI impI)
  fix D e D'
  assume base: "same_base V D0 D" and run: "sbind m f D = (Inl e, D')"
  obtain r D1 where m: "m D = (r, D1)" by (cases "m D")
  then have "same_base V D0 D1" using assms(1) base preservesD by fast
  with run m show "same_base V D0 D'"
    using assms(2) by (cases r) (auto simp: sbind_def failing_clean_def)
qed

lemma failing_clean_finish_then:
  "failing_clean V D0 (sbind (finish_mutation E) (\<lambda>m. sret (g m)))"
  unfolding failing_clean_def
  by (auto simp: sbind_err dest: finish_mutation_err)

lemma failing_clean_if:
  "failing_clean V D0 m \<Longrightarrow> failing_clean V D0 n \<Longrightarrow> failing_clean V D0 (if b then m else n)"
  by simp

lemmas failing_clean_intros =
  failing_clean_finish failing_clean_finish_then failing_clean_sbind failing_clean_if

lemma document_mutate_err:
  assumes am: "automerge_ok (am E) V"
    and clean: "\<And>D0. failing_clean V D0 m"
    and map: "amc_maps (amv_now (V (sd_document D))) (sd_entries D) \<noteq> None"
    and err: "document_mutate E m D = (Inl e, D')"
  shows "V (sd_document D') =
       (V (sd_document D))\<lparr>amv_base := amv_now (V (sd_document D))\<rparr> \<and>
     sd_pending D' = [] \<and> sd_entries D' = sd_entries D \<and> sd_kind D' = sd_kind D \<and>
     sd_partition D' = sd_partition D"
proof -
  let ?D = "D\<lparr>sd_document := am_commit (am E) (sd_document D)\<rparr>"
  from err obtain D1 where run: "m ?D = (Inl e, D1)"
    and D': "D' = D1\<lparr>sd_document := am_rollback (am E) (sd_document D1), sd_pending := []\<rparr>"
    by (auto simp: document_mutate_def Let_def split: prod.splits sum.splits)
  have "same_base V ?D ?D" using map by (auto simp: same_base_def automerge_okD(5) [OF am])
  with clean run have "same_base V ?D D1" unfolding failing_clean_def by blast
  then show ?thesis
    by (auto simp: same_base_def D' automerge_okD [OF am])
qed

lemma document_put_clean:
  "automerge_ok (am E) V \<Longrightarrow> failing_clean V D0
     (sbind (put_uncommitted E rnd a v e ctx) (\<lambda>_. finish_mutation E))"
  by (intro failing_clean_intros same_base_put_uncommitted)

lemma document_apply_clean:
  "automerge_ok (am E) V \<Longrightarrow> failing_clean V D0
     (sbind (apply_operations E rng ctx 0 ops False) (\<lambda>changed.
       if \<not> changed then sret None else sbind (finish_mutation E) (\<lambda>m. sret (Some m))))"
  by (intro failing_clean_intros same_base_apply_operations failing_clean_preserves preserves_intros)

lemma document_remove_clean:
  "automerge_ok (am E) V \<Longrightarrow> failing_clean V D0
     (sbind (delete_uncommitted E a op) (\<lambda>removed.
       if \<not> removed then sret None else sbind (finish_mutation E) (\<lambda>m. sret (Some m))))"
  by (intro failing_clean_intros same_base_delete_uncommitted failing_clean_preserves preserves_intros)

section \<open>Ordinary documents as maps of records\<close>

definition doc_env_ok :: "('d, 'r, 'i, 'z) doc_env_scheme \<Rightarrow> ('d \<Rightarrow> am_view) \<Rightarrow> bool" where
  "doc_env_ok E V \<longleftrightarrow> automerge_ok (am E) V \<and> json_ok (j_record E) \<and>
     (\<forall>b r. from_slice (j_record E) b = Inr r \<longrightarrow> j_deadline E b = Inr (sr_evict_at r))"

definition entry_ok :: "('d, 'r, 'i, 'z) doc_env_scheme \<Rightarrow> string \<Rightarrow> am_value list \<Rightarrow> bool" where
  "entry_ok E k vs \<longleftrightarrow> vs = [] \<or>
     (\<exists>b r. vs = [AmBytes b] \<and> from_slice (j_record E) b = Inr r \<and>
        sr_version r = RECORD_VERSION \<and> storage_key E (sr_address r) = k)"

abbreviation doc_content :: "('d \<Rightarrow> am_view) \<Rightarrow> 'd SecretDocument \<Rightarrow> am_content" where
  "doc_content V D \<equiv> amv_now (V (sd_document D))"

definition descriptor_ok :: "am_content \<Rightarrow> 'd SecretDocument \<Rightarrow> bool" where
  "descriptor_ok c D \<longleftrightarrow>
     value_as_str (amc_root c ''format'') = Some (document_kind_as_str (sd_kind D)) \<and>
     value_as_u64 (amc_root c ''format-version'') = Some FORMAT_VERSION \<and>
     value_into_bytes (amc_root c ''partition'') = Some (sd_partition D) \<and>
     amc_root c ''entries'' = Some (AmObject AmMap, sd_entries D)"

definition doc_inv ::
  "('d, 'r, 'i, 'z) doc_env_scheme \<Rightarrow> ('d \<Rightarrow> am_view) \<Rightarrow> 'd SecretDocument \<Rightarrow> bool" where
  "doc_inv E V D \<longleftrightarrow> \<not> is_personal D \<and> descriptor_ok (doc_content V D) D \<and>
     (\<exists>m. amc_maps (doc_content V D) (sd_entries D) = Some m \<and> (\<forall>k. entry_ok E k (m k)))"

definition decode_entry :: "('d, 'r, 'i, 'z) doc_env_scheme \<Rightarrow> am_value list \<Rightarrow> SecretRecord option" where
  "decode_entry E vs = (case vs of
      [AmBytes b] \<Rightarrow> (case from_slice (j_record E) b of Inr r \<Rightarrow> Some r | Inl _ \<Rightarrow> None)
    | _ \<Rightarrow> None)"

definition doc_map ::
  "('d, 'r, 'i, 'z) doc_env_scheme \<Rightarrow> ('d \<Rightarrow> am_view) \<Rightarrow> 'd SecretDocument
     \<Rightarrow> string \<rightharpoonup> SecretRecord" where
  "doc_map E V D k = decode_entry E (the (amc_maps (doc_content V D) (sd_entries D)) k)"

lemma doc_invE:
  assumes "doc_inv E V D"
  obtains m where "\<not> is_personal D" and "descriptor_ok (doc_content V D) D"
    and "amc_maps (doc_content V D) (sd_entries D) = Some m" and "\<And>k. entry_ok E k (m k)"
    and "\<And>k. doc_map E V D k = decode_entry E (m k)"
  using assms by (auto simp: doc_inv_def doc_map_def)

lemma entry_ok_cases:
  assumes "entry_ok E k vs"
  obtains (none) "vs = []" "decode_entry E vs = None"
  | (one) b r where "vs = [AmBytes b]" "from_slice (j_record E) b = Inr r"
      "sr_version r = RECORD_VERSION" "storage_key E (sr_address r) = k"
      "decode_entry E vs = Some r"
  using assms by (auto simp: entry_ok_def decode_entry_def)

lemma doc_map_key:
  assumes "doc_inv E V D" and "doc_map E V D k = Some r"
  shows "sr_version r = RECORD_VERSION \<and> storage_key E (sr_address r) = k"
proof -
  obtain m where "entry_ok E k (m k)" and "doc_map E V D k = decode_entry E (m k)"
    using assms(1) by (rule doc_invE) blast
  with assms(2) show ?thesis by (auto elim: entry_ok_cases)
qed

lemma document_records_eq:
  assumes "doc_env_ok E V" and "doc_inv E V D"
  shows "document_records E D k = Inr (case doc_map E V D k of None \<Rightarrow> [] | Some r \<Rightarrow> [r])"
proof -
  from assms(1) have am: "automerge_ok (am E) V" by (simp add: doc_env_ok_def)
  obtain m where m: "amc_maps (doc_content V D) (sd_entries D) = Some m"
    and ok: "entry_ok E k (m k)" and dm: "doc_map E V D k = decode_entry E (m k)"
    using assms(2) by (rule doc_invE) blast
  have "am_get_all (am E) (sd_document D) (sd_entries D) k = Inr (m k)"
    by (rule automerge_okD(7) [OF am m])
  with ok dm show ?thesis
    by (cases rule: entry_ok_cases) (auto simp: document_records_def record_bytes_def)
qed

definition spec_get ::
  "(string \<rightharpoonup> SecretRecord) \<Rightarrow> string \<Rightarrow> SecretAddress \<Rightarrow> u64 \<Rightarrow> (SecretRead \<times> u64 option) vault_result" where
  "spec_get m key a now = (case m key of
      None \<Rightarrow> Inr (Missing, None)
    | Some r \<Rightarrow>
        if sr_address r \<noteq> a
        then Inl (InvalidData ''secret document record does not match its authenticated address'')
        else if expired_by now r then Inr (SecretRead.Expired, None)
        else Inr (Value (sr_value r), sr_evict_at r))"

lemma ensure_unconflicted_ordinary:
  "\<not> is_personal D \<Longrightarrow> ensure_personal_unconflicted E a D = Inr ()"
  by (simp add: ensure_personal_unconflicted_def)

lemma record_personal_change_ordinary:
  "\<not> is_personal D \<Longrightarrow> record_personal_change E a del D = (Inr (), D)"
  by (simp add: record_personal_change_def)

lemma validate_personal_put_ordinary:
  "\<not> is_personal D \<Longrightarrow> validate_personal_put E a v e D = (Inr (), D)"
  by (simp add: validate_personal_put_def)

lemmas ordinary =
  ensure_unconflicted_ordinary record_personal_change_ordinary validate_personal_put_ordinary

lemma get_with_deadline_eq:
  assumes "doc_env_ok E V" and "doc_inv E V D"
  shows "get_with_deadline E D a now = spec_get (doc_map E V D) (storage_key E a) a now"
proof -
  have np: "\<not> is_personal D" using assms(2) by (auto elim: doc_invE)
  show ?thesis
  proof (cases "doc_map E V D (storage_key E a)")
    case None
    then show ?thesis using np
      by (simp add: get_with_deadline_def ordinary document_records_eq [OF assms]
          spec_get_def)
  next
    case (Some r)
    then have "sr_version r = RECORD_VERSION" using doc_map_key [OF assms(2)] by blast
    then show ?thesis using np Some
      by (cases "sr_evict_at r")
        (auto simp: get_with_deadline_def ordinary document_records_eq [OF assms]
          spec_get_def validate_record_def min_deadline_def List.map_filter_def)
  qed
qed

definition put_changed :: "SecretRecord option \<Rightarrow> bytes \<Rightarrow> u64 option \<Rightarrow> bool" where
  "put_changed existing v e = (case existing of None \<Rightarrow> True | Some r \<Rightarrow> sr_value r \<noteq> v \<or> sr_evict_at r \<noteq> e)"

definition put_version ::
  "SecretRecord option \<Rightarrow> VersionId vault_result \<Rightarrow> bytes \<Rightarrow> u64 option \<Rightarrow> VersionId vault_result" where
  "put_version existing rnd v e = (case existing of
      Some r \<Rightarrow> if put_changed existing v e then rnd else Inr (sr_version_id r)
    | None \<Rightarrow> rnd)"

definition put_record ::
  "SecretRecord option \<Rightarrow> VersionId \<Rightarrow> SecretAddress \<Rightarrow> bytes \<Rightarrow> u64 option \<Rightarrow> u64 \<Rightarrow> SecretRecord" where
  "put_record existing vid a v e now =
     \<lparr>sr_version = RECORD_VERSION, sr_address = a, sr_value = v, sr_evict_at = e,
      sr_version_id = vid,
      sr_created_at = (case existing of None \<Rightarrow> now | Some r \<Rightarrow> sr_created_at r),
      sr_updated_at = now\<rparr>"

definition put_history ::
  "DocumentKind \<Rightarrow> SecretRecord option \<Rightarrow> VersionId \<Rightarrow> SecretAddress \<Rightarrow> bytes \<Rightarrow> u64 option
     \<Rightarrow> PendingHistory list" where
  "put_history kind existing vid a v e =
     (if put_changed existing v e \<or> record_unchanged (history_retention kind) then
        [\<lparr>ph_operation = HistoryOperation.Put (put_changed existing v e), ph_address = a,
          ph_version_id = Some vid, ph_previous_version_id = map_option sr_version_id existing,
          ph_evict_at = e\<rparr>]
      else [])"

lemma doc_inv_set_in:
  assumes inv: "doc_inv E V D" and ok: "entry_ok E k vs"
    and V': "V d' = (V (sd_document D))\<lparr>amv_now := content_set_in (sd_entries D) k vs (doc_content V D)\<rparr>"
  shows "doc_inv E V (D\<lparr>sd_document := d'\<rparr>)"
    and "doc_map E V (D\<lparr>sd_document := d'\<rparr>) = (doc_map E V D)(k := decode_entry E vs)"
proof -
  obtain m where m: "\<not> is_personal D" "descriptor_ok (doc_content V D) D"
    "amc_maps (doc_content V D) (sd_entries D) = Some m" "\<And>k. entry_ok E k (m k)"
    using inv by (rule doc_invE) blast
  show "doc_inv E V (D\<lparr>sd_document := d'\<rparr>)"
    using m ok by (auto simp: doc_inv_def V' is_personal_def descriptor_ok_def)
  show "doc_map E V (D\<lparr>sd_document := d'\<rparr>) = (doc_map E V D)(k := decode_entry E vs)"
    using m by (auto simp: doc_map_def V')
qed

lemma doc_inv_pending: "doc_inv E V (D\<lparr>sd_pending := p\<rparr>) \<longleftrightarrow> doc_inv E V D"
  "doc_map E V (D\<lparr>sd_pending := p\<rparr>) = doc_map E V D"
  by (auto simp: doc_inv_def doc_map_def is_personal_def descriptor_ok_def)

lemma put_uncommitted_eq:
  assumes env: "doc_env_ok E V" and inv: "doc_inv E V D"
    and old: "old = doc_map E V D (storage_key E a)"
  shows "case put_version old rnd v e of
     Inl err \<Rightarrow> put_uncommitted E rnd a v e ctx D = (Inl err, D)
   | Inr vid \<Rightarrow> (\<exists>D'. put_uncommitted E rnd a v e ctx D = (Inr (), D') \<and> doc_inv E V D' \<and>
       doc_map E V D' = (doc_map E V D)(storage_key E a \<mapsto> put_record old vid a v e (mc_now ctx)) \<and>
       sd_pending D' = sd_pending D @ put_history (sd_kind D) old vid a v e \<and>
       sd_kind D' = sd_kind D \<and> sd_partition D' = sd_partition D)"
proof -
  have am: "automerge_ok (am E) V" and js: "json_ok (j_record E)"
    using env by (simp_all add: doc_env_ok_def)
  obtain m where m: "\<not> is_personal D" "amc_maps (doc_content V D) (sd_entries D) = Some m"
    using inv by (rule doc_invE) blast
  have recs: "document_records E D (storage_key E a) = Inr (case old of None \<Rightarrow> [] | Some r \<Rightarrow> [r])"
    using document_records_eq [OF env inv] old by simp
  show ?thesis
  proof (cases "put_version old rnd v e")
    case (Inl err)
    then show ?thesis using m(1) recs
      by (cases old)
        (auto simp: put_uncommitted_def put_value_uncommitted_def ordinary Let_def put_version_def
          put_changed_def split: if_splits)
  next
    case (Inr vid)
    let ?r = "put_record old vid a v e (mc_now ctx)"
    obtain b where b: "to_vec (j_record E) ?r = Inr b" "from_slice (j_record E) b = Inr ?r"
      using js by (rule json_okE)
    obtain d' where d': "am_put_in (am E) (sd_entries D) (storage_key E a) (AmBytes b) (sd_document D) = Inr d'"
      "V d' = (V (sd_document D))\<lparr>amv_now :=
         content_set_in (sd_entries D) (storage_key E a) [AmBytes b] (doc_content V D)\<rparr>"
      by (rule automerge_put_in [OF am m(2)])
    have ok: "entry_ok E (storage_key E a) [AmBytes b]"
      using b(2) by (simp add: entry_ok_def put_record_def)
    note set_in = doc_inv_set_in [OF inv ok d'(2)]
    have dec: "decode_entry E [AmBytes b] = Some ?r" using b(2) by (simp add: decode_entry_def)
    let ?D = "D\<lparr>sd_document := d'\<rparr>"
    have np: "\<not> is_personal ?D" using m(1) by (simp add: is_personal_def)
    show ?thesis using m(1) recs Inr b d' set_in dec np
      by (cases old)
        (auto simp: put_uncommitted_def put_value_uncommitted_def ordinary Let_def put_version_def
          put_changed_def put_record_def put_history_def push_pending_def doc_inv_pending
          split: if_splits)
  qed
qed

lemma doc_inv_ordinary: "doc_inv E V D \<Longrightarrow> \<not> is_personal D"
  by (simp add: doc_inv_def)

definition delete_history :: "SecretRecord \<Rightarrow> SecretAddress \<Rightarrow> HistoryOperation \<Rightarrow> PendingHistory" where
  "delete_history r a op = \<lparr>ph_operation = op, ph_address = a, ph_version_id = None,
     ph_previous_version_id = Some (sr_version_id r), ph_evict_at = sr_evict_at r\<rparr>"

lemma delete_uncommitted_missing:
  assumes env: "doc_env_ok E V" and inv: "doc_inv E V D"
    and none: "doc_map E V D (storage_key E a) = None"
  shows "delete_uncommitted E a op D = (Inr False, D)"
  using assms document_records_eq [OF env inv, of "storage_key E a"] doc_inv_ordinary [OF inv]
  by (simp add: delete_uncommitted_def delete_value_uncommitted_def ordinary Let_def)

lemma delete_uncommitted_found:
  assumes env: "doc_env_ok E V" and inv: "doc_inv E V D"
    and found: "doc_map E V D (storage_key E a) = Some r"
  shows "\<exists>D'. delete_uncommitted E a op D = (Inr True, D') \<and> doc_inv E V D' \<and>
     doc_map E V D' = (doc_map E V D)(storage_key E a := None) \<and>
     sd_pending D' = sd_pending D @ [delete_history r a op] \<and>
     sd_kind D' = sd_kind D \<and> sd_partition D' = sd_partition D"
proof -
  have am: "automerge_ok (am E) V" using env by (simp add: doc_env_ok_def)
  obtain m where m: "\<not> is_personal D" "amc_maps (doc_content V D) (sd_entries D) = Some m"
    using inv by (rule doc_invE) blast
  have recs: "document_records E D (storage_key E a) = Inr [r]"
    using document_records_eq [OF env inv] found by simp
  obtain d' where d': "am_delete_in (am E) (sd_entries D) (storage_key E a) (sd_document D) = Inr d'"
    "V d' = (V (sd_document D))\<lparr>amv_now :=
       content_set_in (sd_entries D) (storage_key E a) [] (doc_content V D)\<rparr>"
    by (rule automerge_delete_in [OF am m(2)])
  have ok: "entry_ok E (storage_key E a) []" by (simp add: entry_ok_def)
  note set_in = doc_inv_set_in [OF inv ok d'(2)]
  have "\<not> is_personal (D\<lparr>sd_document := d'\<rparr>)" using m(1) by (simp add: is_personal_def)
  then show ?thesis using m(1) recs d' set_in
    by (simp add: delete_uncommitted_def delete_value_uncommitted_def ordinary Let_def
        push_pending_def doc_inv_pending delete_history_def decode_entry_def)
qed

section \<open>The projection keeps exactly the current records\<close>

definition next_deadline :: "(string \<rightharpoonup> SecretRecord) \<Rightarrow> string list \<Rightarrow> u64 option \<Rightarrow> u64 option" where
  "next_deadline m ks ne = fold (\<lambda>k ne. earliest ne (Option.bind (m k) sr_evict_at)) ks ne"

lemma project_key_eq:
  assumes env: "doc_env_ok E V" and inv: "doc_inv E V D"
    and k: "amc_maps (doc_content V D) (sd_entries D) = Some m" "m k \<noteq> []"
    and P: "amc_maps (doc_content V P) (sd_entries P) = Some mp"
  shows "\<exists>d'. project_key E D k (P, ne) =
       Inr (P\<lparr>sd_document := d'\<rparr>, earliest ne (Option.bind (doc_map E V D k) sr_evict_at)) \<and>
     V d' = (V (sd_document P))\<lparr>amv_now := content_set_in (sd_entries P) k (m k) (doc_content V P)\<rparr>"
proof -
  have am: "automerge_ok (am E) V" using env by (simp add: doc_env_ok_def)
  have "entry_ok E k (m k)" and dm: "doc_map E V D k = decode_entry E (m k)"
    using inv k(1) by (auto simp: doc_inv_def doc_map_def)
  then obtain b r where b: "m k = [AmBytes b]" "from_slice (j_record E) b = Inr r"
    "decode_entry E (m k) = Some r"
    using k(2) by (auto elim: entry_ok_cases)
  have dl: "j_deadline E b = Inr (sr_evict_at r)" using env b(2) by (simp add: doc_env_ok_def)
  obtain d' where d': "am_put_in (am E) (sd_entries P) k (AmBytes b) (sd_document P) = Inr d'"
    "V d' = (V (sd_document P))\<lparr>amv_now := content_set_in (sd_entries P) k [AmBytes b] (doc_content V P)\<rparr>"
    by (rule automerge_put_in [OF am P])
  have "am_get_all (am E) (sd_document D) (sd_entries D) k = Inr (m k)"
    by (rule automerge_okD(7) [OF am k(1)])
  then show ?thesis using b dl d' dm
    by (intro exI [of _ d']) (simp add: project_key_def record_bytes_def)
qed

lemma project_keys_eq:
  assumes env: "doc_env_ok E V" and inv: "doc_inv E V D"
    and m: "amc_maps (doc_content V D) (sd_entries D) = Some m"
  shows "(\<forall>k \<in> set ks. m k \<noteq> []) \<Longrightarrow>
     amc_maps (doc_content V P) (sd_entries P) = Some mp \<Longrightarrow>
     \<exists>d'. rfold (project_key E D) ks (P, ne) =
         Inr (P\<lparr>sd_document := d'\<rparr>, next_deadline (doc_map E V D) ks ne) \<and>
       amv_actor (V d') = amv_actor (V (sd_document P)) \<and>
       amc_root (amv_now (V d')) = amc_root (doc_content V P) \<and>
       amc_maps (amv_now (V d')) (sd_entries P) = Some (\<lambda>k. if k \<in> set ks then m k else mp k) \<and>
       amc_written (amv_now (V d')) = amc_written (doc_content V P) \<union> (\<Union>k \<in> set ks. set (m k))"
proof (induction ks arbitrary: P mp ne)
  case Nil
  show ?case by (intro exI [of _ "sd_document P"]) (use Nil in \<open>simp add: next_deadline_def\<close>)
next
  case (Cons k ks)
  have "m k \<noteq> []" using Cons.prems(1) by simp
  from project_key_eq [OF env inv m this Cons.prems(2)] obtain d1 where
    step: "project_key E D k (P, ne) =
       Inr (P\<lparr>sd_document := d1\<rparr>, earliest ne (Option.bind (doc_map E V D k) sr_evict_at))"
    and V1: "V d1 = (V (sd_document P))\<lparr>amv_now := content_set_in (sd_entries P) k (m k) (doc_content V P)\<rparr>"
    by blast
  let ?P = "P\<lparr>sd_document := d1\<rparr>"
  have P1: "amc_maps (doc_content V ?P) (sd_entries ?P) = Some (mp(k := m k))"
    using Cons.prems(2) by (simp add: V1)
  have "\<forall>k \<in> set ks. m k \<noteq> []" using Cons.prems(1) by simp
  from Cons.IH [OF this P1, of "earliest ne (Option.bind (doc_map E V D k) sr_evict_at)"]
  obtain d' where run: "rfold (project_key E D) ks
      (?P, earliest ne (Option.bind (doc_map E V D k) sr_evict_at)) =
      Inr (?P\<lparr>sd_document := d'\<rparr>, next_deadline (doc_map E V D) (k # ks) ne)"
    and d': "amv_actor (V d') = amv_actor (V d1)" "amc_root (amv_now (V d')) = amc_root (amv_now (V d1))"
      "amc_maps (amv_now (V d')) (sd_entries P) =
         Some (\<lambda>j. if j \<in> set ks then m j else (mp(k := m k)) j)"
      "amc_written (amv_now (V d')) = amc_written (amv_now (V d1)) \<union> (\<Union>k \<in> set ks. set (m k))"
    by (auto simp: next_deadline_def)
  have "(\<lambda>j. if j \<in> set ks then m j else (mp(k := m k)) j) =
      (\<lambda>j. if j \<in> set (k # ks) then m j else mp j)"
    by auto
  then show ?case using step run d' by (intro exI [of _ d']) (auto simp: V1)
qed

lemma document_new_eq:
  assumes am: "automerge_ok (am E) V"
  shows "\<exists>P. document_new E actor kind part = Inr P \<and>
     amc_maps (doc_content V P) (sd_entries P) = Some (\<lambda>_. []) \<and>
     amv_actor (V (sd_document P)) = actor \<and>
     sd_kind P = kind \<and> sd_partition P = part \<and> sd_pending P = [] \<and>
     (\<not> is_personal P \<longrightarrow> descriptor_ok (doc_content V P) P \<and>
       amc_written (doc_content V P) =
         {AmStr (document_kind_as_str kind), AmUint FORMAT_VERSION, AmBytes part})"
proof -
  let ?v = "if kind = LocalKeyring \<and> part = PERSONAL_SECRET_NAMESPACE
    then PERSONAL_FORMAT_VERSION else FORMAT_VERSION"
  obtain d1 i1 where 1: "am_put_root (am E) ''format'' (AmStr (document_kind_as_str kind)) (am_new (am E) actor) = Inr d1"
    "V d1 = (V (am_new (am E) actor))\<lparr>amv_now := content_put_root ''format'' (AmStr (document_kind_as_str kind)) i1
       (amv_now (V (am_new (am E) actor)))\<rparr>"
    by (rule automerge_put_root [OF am])
  obtain d2 i2 where 2: "am_put_root (am E) ''format-version'' (AmUint ?v) d1 = Inr d2"
    "V d2 = (V d1)\<lparr>amv_now := content_put_root ''format-version'' (AmUint ?v) i2 (amv_now (V d1))\<rparr>"
    by (rule automerge_put_root [OF am])
  obtain d3 i3 where 3: "am_put_root (am E) ''partition'' (AmBytes part) d2 = Inr d3"
    "V d3 = (V d2)\<lparr>amv_now := content_put_root ''partition'' (AmBytes part) i3 (amv_now (V d2))\<rparr>"
    by (rule automerge_put_root [OF am])
  obtain d4 i4 where 4: "am_put_map (am E) ''entries'' d3 = Inr (i4, d4)"
    "V d4 = (V d3)\<lparr>amv_now := content_put_map ''entries'' i4 (amv_now (V d3))\<rparr>"
    by (rule automerge_put_map [OF am])
  let ?P = "\<lparr>sd_document = d4, sd_entries = i4, sd_kind = kind, sd_partition = part, sd_pending = []\<rparr>"
  have "document_new E actor kind part = Inr ?P"
    using 1(1) 2(1) 3(1) 4(1) by (simp add: document_new_def)
  then show ?thesis
    by (intro exI [of _ ?P])
      (auto simp: 1(2) 2(2) 3(2) 4(2) automerge_okD(1) [OF am] is_personal_def descriptor_ok_def
        value_as_str_def value_as_u64_def value_into_bytes_def)
qed

lemma document_project_eq:
  assumes env: "doc_env_ok E V" and inv: "doc_inv E V D"
    and m: "amc_maps (doc_content V D) (sd_entries D) = Some m"
  shows "\<exists>P ks. document_project E D = Inr (P, next_deadline (doc_map E V D) ks None) \<and>
     set ks = {k. m k \<noteq> []} \<and> amc_maps (doc_content V P) (sd_entries P) = Some m \<and>
     \<not> is_personal P \<and> descriptor_ok (doc_content V P) P \<and> sd_pending P = [] \<and>
     sd_kind P = sd_kind D \<and> sd_partition P = sd_partition D \<and>
     amc_written (doc_content V P) =
       {AmStr (document_kind_as_str (sd_kind D)), AmUint FORMAT_VERSION, AmBytes (sd_partition D)} \<union>
       (\<Union>k. set (m k))"
proof -
  have am: "automerge_ok (am E) V" using env by (simp add: doc_env_ok_def)
  let ?ks = "sort (am_keys (am E) (sd_document D) (sd_entries D))"
  have ks: "set ?ks = {k. m k \<noteq> []}" using automerge_okD(9) [OF am m] by simp
  have np: "\<not> is_personal D" by (rule doc_inv_ordinary [OF inv])
  obtain P0 where new: "document_new E (am_get_actor (am E) (sd_document D)) (sd_kind D) (sd_partition D) = Inr P0"
    and P0: "amc_maps (doc_content V P0) (sd_entries P0) = Some (\<lambda>_. [])"
      "sd_kind P0 = sd_kind D" "sd_partition P0 = sd_partition D" "sd_pending P0 = []"
    and desc: "\<not> is_personal P0 \<longrightarrow> descriptor_ok (doc_content V P0) P0 \<and> amc_written (doc_content V P0) =
      {AmStr (document_kind_as_str (sd_kind D)), AmUint FORMAT_VERSION, AmBytes (sd_partition D)}"
    using document_new_eq [OF am, of "am_get_actor (am E) (sd_document D)" "sd_kind D" "sd_partition D"]
    by blast
  have np0: "\<not> is_personal P0" using np P0 by (simp add: is_personal_def)
  have "\<forall>k \<in> set ?ks. m k \<noteq> []" using ks by blast
  from project_keys_eq [OF env inv m this P0(1), of None] obtain d' where
    run: "rfold (project_key E D) ?ks (P0, None) =
       Inr (P0\<lparr>sd_document := d'\<rparr>, next_deadline (doc_map E V D) ?ks None)"
    and d': "amc_root (amv_now (V d')) = amc_root (doc_content V P0)"
      "amc_maps (amv_now (V d')) (sd_entries P0) = Some (\<lambda>k. if k \<in> set ?ks then m k else [])"
      "amc_written (amv_now (V d')) = amc_written (doc_content V P0) \<union> (\<Union>k \<in> set ?ks. set (m k))"
    by blast
  have "(\<lambda>k. if k \<in> set ?ks then m k else []) = m" using ks by auto
  moreover have "(\<Union>k \<in> set ?ks. set (m k)) = (\<Union>k. set (m k))" using ks by fastforce
  moreover have "document_project E D =
      Inr (P0\<lparr>sd_document := d'\<rparr>, next_deadline (doc_map E V D) ?ks None)"
    using new run np by (simp add: document_project_def project_personal_metadata_def)
  ultimately show ?thesis using ks np0 desc P0 d'
    by (intro exI [of _ "P0\<lparr>sd_document := d'\<rparr>"] exI [of _ ?ks])
      (auto simp: is_personal_def descriptor_ok_def)
qed

lemma doc_map_dom:
  assumes "doc_inv E V D" and "amc_maps (doc_content V D) (sd_entries D) = Some m"
  shows "dom (doc_map E V D) = {k. m k \<noteq> []}"
proof -
  have ok: "entry_ok E k (m k)" and "doc_map E V D k = decode_entry E (m k)" for k
    using assms by (auto simp: doc_inv_def doc_map_def)
  moreover have "decode_entry E (m k) = None \<longleftrightarrow> m k = []" for k
    using ok [of k] by (auto simp: entry_ok_def decode_entry_def)
  ultimately show ?thesis by (simp add: dom_def)
qed

lemma finish_mutation_eq:
  assumes env: "doc_env_ok E V" and inv: "doc_inv E V D"
  shows "\<exists>M D' ks d. finish_mutation E D = (Inr M, D') \<and> doc_inv E V D' \<and>
     doc_map E V D' = doc_map E V D \<and> sd_pending D' = [] \<and>
     sd_kind D' = sd_kind D \<and> sd_partition D' = sd_partition D \<and>
     dm_history M = sd_pending D \<and> dm_partition M = sd_partition D \<and>
     dm_address_migrations M = [] \<and>
     set ks = dom (doc_map E V D) \<and> dm_next_eviction M = next_deadline (doc_map E V D) ks None \<and>
     dm_snapshot M = fst (am_save (am E) d) \<and> amv_now (V d) = doc_content V D' \<and>
     amc_written (doc_content V D') =
       {AmStr (document_kind_as_str (sd_kind D)), AmUint FORMAT_VERSION, AmBytes (sd_partition D)} \<union>
       {v. \<exists>k. v \<in> set (the (amc_maps (doc_content V D') (sd_entries D')) k)}"
proof -
  have am: "automerge_ok (am E) V" using env by (simp add: doc_env_ok_def)
  obtain m where m: "amc_maps (doc_content V D) (sd_entries D) = Some m" "\<And>k. entry_ok E k (m k)"
    "\<And>k. doc_map E V D k = decode_entry E (m k)"
    using inv by (rule doc_invE) blast
  from document_project_eq [OF env inv m(1)] obtain P ks where
    run: "document_project E D = Inr (P, next_deadline (doc_map E V D) ks None)"
    and ks: "set ks = {k. m k \<noteq> []}"
    and P: "amc_maps (doc_content V P) (sd_entries P) = Some m" "\<not> is_personal P"
      "descriptor_ok (doc_content V P) P" "sd_pending P = []"
      "sd_kind P = sd_kind D" "sd_partition P = sd_partition D"
      "amc_written (doc_content V P) =
       {AmStr (document_kind_as_str (sd_kind D)), AmUint FORMAT_VERSION, AmBytes (sd_partition D)} \<union>
       (\<Union>k. set (m k))"
    by blast
  obtain b d where save: "am_save (am E) (sd_document P) = (b, d)" by fastforce
  have Vd: "amv_now (V d) = doc_content V P"
    using automerge_okD(10) [OF am, of "sd_document P"] save by simp
  let ?D = "P\<lparr>sd_document := d\<rparr>"
  let ?M = "\<lparr>dm_address_migrations = [], dm_snapshot = b, dm_partition = sd_partition P,
    dm_history = sd_pending D, dm_next_eviction = next_deadline (doc_map E V D) ks None\<rparr>"
  have "finish_mutation E D = (Inr ?M, ?D)" using run save by (simp add: finish_mutation_def)
  moreover have "doc_inv E V ?D"
    using P m(2) Vd by (auto simp: doc_inv_def is_personal_def descriptor_ok_def)
  moreover have "doc_map E V ?D = doc_map E V D"
    using P(1) m(3) Vd by (simp add: doc_map_def fun_eq_iff)
  ultimately show ?thesis
    using P Vd save ks doc_map_dom [OF inv m(1)] m(1)
    by (intro exI [of _ ?M] exI [of _ ?D] exI [of _ ks] exI [of _ "sd_document P"]) auto
qed

section \<open>Whole mutations\<close>

definition is_next_eviction :: "(string \<rightharpoonup> SecretRecord) \<Rightarrow> u64 option \<Rightarrow> bool" where
  "is_next_eviction m ne \<longleftrightarrow> (\<forall>d. ne = Some d \<longleftrightarrow>
     (\<exists>k r. m k = Some r \<and> sr_evict_at r = Some d) \<and>
     (\<forall>k r d'. m k = Some r \<longrightarrow> sr_evict_at r = Some d' \<longrightarrow> d \<le> d'))"

lemma earliest_tighten: "earliest = tighten"
  by (simp add: fun_eq_iff earliest_def tighten_def)

lemma next_deadline_min:
  assumes "set ks = dom m"
  shows "is_next_eviction m (next_deadline m ks None)"
proof -
  have fold: "next_deadline m ks None =
      fold (\<lambda>d t. tighten t d) (map (\<lambda>k. Option.bind (m k) sr_evict_at) ks) None"
    by (simp add: next_deadline_def fold_map o_def earliest_tighten)
  have mem: "Some x \<in> set (map (\<lambda>k. Option.bind (m k) sr_evict_at) ks) \<longleftrightarrow>
      (\<exists>k r. m k = Some r \<and> sr_evict_at r = Some x)" for x
    using assms by (fastforce simp: image_iff bind_eq_Some_conv dom_def)
  show ?thesis unfolding is_next_eviction_def fold fold_tighten using mem by auto
qed

text \<open>What a successful mutation hands to the store: the snapshot of a fresh document
  whose records are the given ones, whose history holds no other record, with the
  earliest deadline of its records.\<close>

definition committed ::
  "('d, 'r, 'i, 'z) doc_env_scheme \<Rightarrow> ('d \<Rightarrow> am_view) \<Rightarrow> 'd SecretDocument \<Rightarrow> DocumentMutation
     \<Rightarrow> 'd SecretDocument \<Rightarrow> (string \<rightharpoonup> SecretRecord) \<Rightarrow> bool" where
  "committed E V D M D' m \<longleftrightarrow> doc_inv E V D' \<and> doc_map E V D' = m \<and> sd_pending D' = [] \<and>
     sd_kind D' = sd_kind D \<and> sd_partition D' = sd_partition D \<and>
     dm_partition M = sd_partition D \<and> dm_address_migrations M = [] \<and>
     is_next_eviction m (dm_next_eviction M) \<and>
     (\<exists>d. dm_snapshot M = fst (am_save (am E) d) \<and> amv_now (V d) = doc_content V D') \<and>
     amc_written (doc_content V D') =
       {AmStr (document_kind_as_str (sd_kind D)), AmUint FORMAT_VERSION, AmBytes (sd_partition D)} \<union>
       {v. \<exists>k. v \<in> set (the (amc_maps (doc_content V D') (sd_entries D')) k)}"

lemma finish_mutation_committed:
  assumes env: "doc_env_ok E V" and inv: "doc_inv E V D"
  shows "\<exists>M D'. finish_mutation E D = (Inr M, D') \<and> committed E V D M D' (doc_map E V D) \<and>
     dm_history M = sd_pending D"
proof -
  from finish_mutation_eq [OF assms] obtain M D' ks d where
    "finish_mutation E D = (Inr M, D')" "dm_history M = sd_pending D"
    and ks: "set ks = dom (doc_map E V D)" "dm_next_eviction M = next_deadline (doc_map E V D) ks None"
    and rest: "doc_inv E V D'" "doc_map E V D' = doc_map E V D" "sd_pending D' = []"
      "sd_kind D' = sd_kind D" "sd_partition D' = sd_partition D"
      "dm_partition M = sd_partition D" "dm_address_migrations M = []"
      "dm_snapshot M = fst (am_save (am E) d)" "amv_now (V d) = doc_content V D'"
      "amc_written (doc_content V D') =
       {AmStr (document_kind_as_str (sd_kind D)), AmUint FORMAT_VERSION, AmBytes (sd_partition D)} \<union>
       {v. \<exists>k. v \<in> set (the (amc_maps (doc_content V D') (sd_entries D')) k)}"
    by (elim exE conjE) blast
  moreover have "is_next_eviction (doc_map E V D) (dm_next_eviction M)"
    unfolding ks(2) by (rule next_deadline_min [OF ks(1)])
  ultimately show ?thesis unfolding committed_def
    by (intro exI [of _ M] exI [of _ D']) (intro conjI exI [of _ d]; assumption)
qed

lemma doc_inv_commit:
  assumes "automerge_ok (am E) V"
  shows "doc_inv E V (D\<lparr>sd_document := am_commit (am E) (sd_document D)\<rparr>) \<longleftrightarrow> doc_inv E V D"
    and "doc_map E V (D\<lparr>sd_document := am_commit (am E) (sd_document D)\<rparr>) = doc_map E V D"
  by (auto simp: doc_inv_def doc_map_def automerge_okD(5) [OF assms] is_personal_def descriptor_ok_def)

fun spec_apply ::
  "('d, 'r, 'i, 'z) doc_env_scheme \<Rightarrow> (nat \<Rightarrow> VersionId vault_result) \<Rightarrow> MutationContext \<Rightarrow> DocumentKind \<Rightarrow> nat
     \<Rightarrow> DocumentOperation list \<Rightarrow> (string \<rightharpoonup> SecretRecord) \<times> PendingHistory list \<times> bool
     \<Rightarrow> ((string \<rightharpoonup> SecretRecord) \<times> PendingHistory list \<times> bool) vault_result" where
  "spec_apply E rng ctx kind n [] s = Inr s"
| "spec_apply E rng ctx kind n (Put a v e # ops) (m, p, ch) =
     (let key = storage_key E a in
      rbind (put_version (m key) (rng n) v e) (\<lambda>vid.
        spec_apply E rng ctx kind (Suc n) ops
          (m(key \<mapsto> put_record (m key) vid a v e (mc_now ctx)),
           p @ put_history kind (m key) vid a v e, True)))"
| "spec_apply E rng ctx kind n (Delete a # ops) (m, p, ch) =
     (let key = storage_key E a in
      case m key of
        None \<Rightarrow> spec_apply E rng ctx kind (Suc n) ops (m, p, ch)
      | Some r \<Rightarrow> spec_apply E rng ctx kind (Suc n) ops
          (m(key := None), p @ [delete_history r a HistoryOperation.Delete], True))"

lemma apply_operations_refines:
  assumes env: "doc_env_ok E V"
  shows "doc_inv E V D \<Longrightarrow>
    (case spec_apply E rng ctx (sd_kind D) n ops (doc_map E V D, sd_pending D, ch) of
       Inl err \<Rightarrow> \<exists>D'. apply_operations E rng ctx n ops ch D = (Inl err, D')
     | Inr (m', p', ch') \<Rightarrow> \<exists>D'. apply_operations E rng ctx n ops ch D = (Inr ch', D') \<and>
         doc_inv E V D' \<and> doc_map E V D' = m' \<and> sd_pending D' = p' \<and>
         sd_kind D' = sd_kind D \<and> sd_partition D' = sd_partition D)"
proof (induction ops arbitrary: n ch D)
  case Nil
  then show ?case by simp
next
  case (Cons op ops)
  show ?case
  proof (cases op)
    case (Put a v e)
    let ?old = "doc_map E V D (storage_key E a)"
    note put = put_uncommitted_eq [OF env Cons.prems refl, where a = a and rnd = "rng n" and v = v
        and e = e and ctx = ctx]
    show ?thesis
    proof (cases "put_version ?old (rng n) v e")
      case (Inl err)
      then show ?thesis using put Put by (auto simp: Let_def)
    next
      case (Inr vid)
      with put obtain D1 where step: "put_uncommitted E (rng n) a v e ctx D = (Inr (), D1)"
        and D1: "doc_inv E V D1"
          "doc_map E V D1 = (doc_map E V D)(storage_key E a \<mapsto> put_record ?old vid a v e (mc_now ctx))"
          "sd_pending D1 = sd_pending D @ put_history (sd_kind D) ?old vid a v e"
          "sd_kind D1 = sd_kind D" "sd_partition D1 = sd_partition D"
        by auto
      have run: "apply_operations E rng ctx n (op # ops) ch D = apply_operations E rng ctx (Suc n) ops True D1"
        using step Put by simp
      have spec: "spec_apply E rng ctx (sd_kind D) n (op # ops) (doc_map E V D, sd_pending D, ch) =
          spec_apply E rng ctx (sd_kind D) (Suc n) ops (doc_map E V D1, sd_pending D1, True)"
        using D1(2,3) Inr Put by (simp add: Let_def)
      show ?thesis
        using Cons.IH [OF D1(1), of "Suc n" True] unfolding run spec D1(4,5) by assumption
    qed
  next
    case (Delete a)
    show ?thesis
    proof (cases "doc_map E V D (storage_key E a)")
      case None
      have run: "apply_operations E rng ctx n (op # ops) ch D = apply_operations E rng ctx (Suc n) ops ch D"
        using delete_uncommitted_missing [OF env Cons.prems None, of HistoryOperation.Delete] Delete
        by (simp add: sbind_def)
      have spec: "spec_apply E rng ctx (sd_kind D) n (op # ops) (doc_map E V D, sd_pending D, ch) =
          spec_apply E rng ctx (sd_kind D) (Suc n) ops (doc_map E V D, sd_pending D, ch)"
        using None Delete by (simp add: Let_def)
      show ?thesis
        using Cons.IH [OF Cons.prems, of "Suc n" ch] unfolding run spec by assumption
    next
      case (Some r)
      from delete_uncommitted_found [OF env Cons.prems Some, of HistoryOperation.Delete] obtain D1
        where step: "delete_uncommitted E a HistoryOperation.Delete D = (Inr True, D1)"
        and D1: "doc_inv E V D1" "doc_map E V D1 = (doc_map E V D)(storage_key E a := None)"
          "sd_pending D1 = sd_pending D @ [delete_history r a HistoryOperation.Delete]"
          "sd_kind D1 = sd_kind D" "sd_partition D1 = sd_partition D"
        by blast
      have run: "apply_operations E rng ctx n (op # ops) ch D = apply_operations E rng ctx (Suc n) ops True D1"
        using step Delete by (simp add: sbind_def)
      have spec: "spec_apply E rng ctx (sd_kind D) n (op # ops) (doc_map E V D, sd_pending D, ch) =
          spec_apply E rng ctx (sd_kind D) (Suc n) ops (doc_map E V D1, sd_pending D1, True)"
        using D1(2,3) Some Delete by (simp add: Let_def)
      show ?thesis
        using Cons.IH [OF D1(1), of "Suc n" True] unfolding run spec D1(4,5) by assumption
    qed
  qed
qed

lemma document_put_eq:
  assumes env: "doc_env_ok E V" and inv: "doc_inv E V D" and fresh: "sd_pending D = []"
    and old: "old = doc_map E V D (storage_key E a)"
  shows "case put_version old rnd v e of
     Inl err \<Rightarrow> (\<exists>D'. document_put E rnd a v e ctx D = (Inl err, D'))
   | Inr vid \<Rightarrow> (\<exists>M D'. document_put E rnd a v e ctx D = (Inr M, D') \<and>
       committed E V D M D'
         ((doc_map E V D)(storage_key E a \<mapsto> put_record old vid a v e (mc_now ctx))) \<and>
       dm_history M = put_history (sd_kind D) old vid a v e)"
proof -
  have am: "automerge_ok (am E) V" using env by (simp add: doc_env_ok_def)
  let ?D = "D\<lparr>sd_document := am_commit (am E) (sd_document D)\<rparr>"
  have inv': "doc_inv E V ?D" and map': "doc_map E V ?D = doc_map E V D"
    using inv doc_inv_commit [OF am] by auto
  note put = put_uncommitted_eq [OF env inv' refl, where a = a and rnd = rnd and v = v
      and e = e and ctx = ctx, unfolded map', folded old]
  show ?thesis
  proof (cases "put_version old rnd v e")
    case (Inl err)
    with put have "put_uncommitted E rnd a v e ctx ?D = (Inl err, ?D)" by simp
    then have "sbind (put_uncommitted E rnd a v e ctx) (\<lambda>_. finish_mutation E) ?D = (Inl err, ?D)"
      by simp
    with Inl show ?thesis by (simp add: document_put_def document_mutate_def)
  next
    case (Inr vid)
    with put obtain D1 where step: "put_uncommitted E rnd a v e ctx ?D = (Inr (), D1)"
      and D1: "doc_inv E V D1"
        "doc_map E V D1 = (doc_map E V D)(storage_key E a \<mapsto> put_record old vid a v e (mc_now ctx))"
        "sd_pending D1 = put_history (sd_kind D) old vid a v e"
        "sd_kind D1 = sd_kind D" "sd_partition D1 = sd_partition D"
      using fresh by auto
    from finish_mutation_committed [OF env D1(1)] obtain M D' where
      fin: "finish_mutation E D1 = (Inr M, D')" "committed E V D1 M D' (doc_map E V D1)"
      "dm_history M = sd_pending D1" by blast
    have "sbind (put_uncommitted E rnd a v e ctx) (\<lambda>_. finish_mutation E) ?D = (Inr M, D')"
      using step fin(1) by simp
    then have "document_put E rnd a v e ctx D = (Inr M, D')"
      by (simp add: document_put_def document_mutate_def)
    moreover have "committed E V D M D' (doc_map E V D1)"
      using fin(2) D1(4,5) by (simp add: committed_def)
    ultimately show ?thesis using Inr fin(3) D1(2,3) by simp
  qed
qed

lemma document_apply_eq:
  assumes env: "doc_env_ok E V" and inv: "doc_inv E V D" and fresh: "sd_pending D = []"
  shows "case spec_apply E rng ctx (sd_kind D) 0 ops (doc_map E V D, [], False) of
     Inl err \<Rightarrow> (\<exists>D'. document_apply E rng ops ctx D = (Inl err, D'))
   | Inr (m', p', False) \<Rightarrow> (\<exists>D'. document_apply E rng ops ctx D = (Inr None, D') \<and> doc_inv E V D' \<and> doc_map E V D' = m')
   | Inr (m', p', True) \<Rightarrow> (\<exists>M D'. document_apply E rng ops ctx D = (Inr (Some M), D') \<and>
       committed E V D M D' m' \<and> dm_history M = p')"
proof -
  have am: "automerge_ok (am E) V" using env by (simp add: doc_env_ok_def)
  let ?D = "D\<lparr>sd_document := am_commit (am E) (sd_document D)\<rparr>"
  let ?op = "sbind (apply_operations E rng ctx 0 ops False) (\<lambda>changed.
       if \<not> changed then sret None else sbind (finish_mutation E) (\<lambda>m. sret (Some m)))"
  have inv': "doc_inv E V ?D" and map': "doc_map E V ?D = doc_map E V D"
    using inv doc_inv_commit [OF am] by auto
  note app = apply_operations_refines [OF env inv', where rng = rng and ctx = ctx and n = 0
      and ops = ops and ch = False, unfolded map']
  show ?thesis
  proof (cases "spec_apply E rng ctx (sd_kind D) 0 ops (doc_map E V D, [], False)")
    case (Inl err)
    with app fresh obtain D1 where "apply_operations E rng ctx 0 ops False ?D = (Inl err, D1)" by auto
    then have "?op ?D = (Inl err, D1)" by simp
    with Inl show ?thesis by (simp add: document_apply_def document_mutate_def)
  next
    case (Inr s)
    obtain m' p' ch where s: "s = (m', p', ch)" by (cases s)
    with app fresh Inr obtain D1 where
      step: "apply_operations E rng ctx 0 ops False ?D = (Inr ch, D1)"
      and D1: "doc_inv E V D1" "doc_map E V D1 = m'" "sd_pending D1 = p'"
        "sd_kind D1 = sd_kind D" "sd_partition D1 = sd_partition D"
      by auto
    show ?thesis
    proof (cases ch)
      case False
      then have "?op ?D = (Inr None, D1)" using step by (simp add: sbind_def)
      with Inr s False D1 show ?thesis by (simp add: document_apply_def document_mutate_def)
    next
      case True
      from finish_mutation_committed [OF env D1(1)] obtain M D' where
        fin: "finish_mutation E D1 = (Inr M, D')" "committed E V D1 M D' (doc_map E V D1)"
        "dm_history M = sd_pending D1" by blast
      have "?op ?D = (Inr (Some M), D')" using step fin(1) True by (simp add: sbind_def)
      then have "document_apply E rng ops ctx D = (Inr (Some M), D')"
        by (simp add: document_apply_def document_mutate_def)
      moreover have "committed E V D M D' m'" using fin(2) D1 by (simp add: committed_def)
      ultimately show ?thesis using Inr s True fin(3) D1(3) by simp
    qed
  qed
qed

lemma document_remove_eq:
  assumes env: "doc_env_ok E V" and inv: "doc_inv E V D" and fresh: "sd_pending D = []"
  shows "case doc_map E V D (storage_key E a) of
     None \<Rightarrow> (\<exists>D'. document_remove E a op D = (Inr None, D') \<and> doc_inv E V D' \<and>
       doc_map E V D' = doc_map E V D)
   | Some r \<Rightarrow> (\<exists>M D'. document_remove E a op D = (Inr (Some M), D') \<and>
       committed E V D M D' ((doc_map E V D)(storage_key E a := None)) \<and>
       dm_history M = [delete_history r a op])"
proof -
  have am: "automerge_ok (am E) V" using env by (simp add: doc_env_ok_def)
  let ?D = "D\<lparr>sd_document := am_commit (am E) (sd_document D)\<rparr>"
  let ?op = "sbind (delete_uncommitted E a op) (\<lambda>removed.
       if \<not> removed then sret None else sbind (finish_mutation E) (\<lambda>m. sret (Some m)))"
  have inv': "doc_inv E V ?D" and map': "doc_map E V ?D = doc_map E V D"
    using inv doc_inv_commit [OF am] by auto
  show ?thesis
  proof (cases "doc_map E V D (storage_key E a)")
    case None
    then have "delete_uncommitted E a op ?D = (Inr False, ?D)"
      using delete_uncommitted_missing [OF env inv'] map' by simp
    then have "?op ?D = (Inr None, ?D)" by (simp add: sbind_def)
    with None inv' map' show ?thesis by (simp add: document_remove_def document_mutate_def)
  next
    case (Some r)
    with delete_uncommitted_found [OF env inv', of a r op] map' fresh obtain D1 where
      step: "delete_uncommitted E a op ?D = (Inr True, D1)"
      and D1: "doc_inv E V D1" "doc_map E V D1 = (doc_map E V D)(storage_key E a := None)"
        "sd_pending D1 = [delete_history r a op]" "sd_kind D1 = sd_kind D"
        "sd_partition D1 = sd_partition D"
      by auto
    from finish_mutation_committed [OF env D1(1)] obtain M D' where
      fin: "finish_mutation E D1 = (Inr M, D')" "committed E V D1 M D' (doc_map E V D1)"
      "dm_history M = sd_pending D1" by blast
    have "?op ?D = (Inr (Some M), D')" using step fin(1) by (simp add: sbind_def)
    moreover have "committed E V D M D' (doc_map E V D1)"
      using fin(2) D1(4,5) by (simp add: committed_def)
    ultimately show ?thesis using Some fin(3) D1(2,3)
      by (simp add: document_remove_def document_mutate_def)
  qed
qed

text \<open>Removing a list of records, each by its own address.\<close>

lemma delete_all_eq:
  assumes env: "doc_env_ok E V"
  shows "doc_inv E V D \<Longrightarrow> (\<forall>k \<in> set ks. doc_map E V D k = Some (f k)) \<Longrightarrow> distinct ks \<Longrightarrow>
     \<exists>D'. sfor (\<lambda>a. sbind (delete_uncommitted E a op) (\<lambda>_. sret ())) (map (\<lambda>k. sr_address (f k)) ks) D =
         (Inr (), D') \<and> doc_inv E V D' \<and>
       doc_map E V D' = (\<lambda>k. if k \<in> set ks then None else doc_map E V D k) \<and>
       sd_pending D' = sd_pending D @ map (\<lambda>k. delete_history (f k) (sr_address (f k)) op) ks \<and>
       sd_kind D' = sd_kind D \<and> sd_partition D' = sd_partition D"
proof (induction ks arbitrary: D)
  case (Cons k ks)
  then have k: "doc_map E V D k = Some (f k)" by simp
  then have key: "storage_key E (sr_address (f k)) = k"
    using doc_map_key [OF Cons.prems(1)] by blast
  with delete_uncommitted_found [OF env Cons.prems(1), of "sr_address (f k)" "f k" op] k
  obtain D1 where step: "delete_uncommitted E (sr_address (f k)) op D = (Inr True, D1)"
    and D1: "doc_inv E V D1" "doc_map E V D1 = (doc_map E V D)(k := None)"
      "sd_pending D1 = sd_pending D @ [delete_history (f k) (sr_address (f k)) op]"
      "sd_kind D1 = sd_kind D" "sd_partition D1 = sd_partition D"
    by auto
  have "\<forall>j \<in> set ks. doc_map E V D1 j = Some (f j)" "distinct ks"
    using Cons.prems(2,3) D1(2) by auto
  from Cons.IH [OF D1(1) this] obtain D' where
    rest: "sfor (\<lambda>a. sbind (delete_uncommitted E a op) (\<lambda>_. sret ())) (map (\<lambda>k. sr_address (f k)) ks) D1 = (Inr (), D')"
    and D': "doc_inv E V D'" "doc_map E V D' = (\<lambda>k. if k \<in> set ks then None else doc_map E V D1 k)"
      "sd_pending D' = sd_pending D1 @ map (\<lambda>k. delete_history (f k) (sr_address (f k)) op) ks"
      "sd_kind D' = sd_kind D1" "sd_partition D' = sd_partition D1"
    by blast
  have "sfor (\<lambda>a. sbind (delete_uncommitted E a op) (\<lambda>_. sret ())) (map (\<lambda>k. sr_address (f k)) (k # ks)) D = (Inr (), D')"
    using step rest by (simp add: sbind_def)
  moreover have "doc_map E V D' = (\<lambda>j. if j \<in> set (k # ks) then None else doc_map E V D j)"
    unfolding D'(2) D1(2) by auto
  ultimately show ?case using D' D1
    by (intro exI [of _ D'] conjI) (simp_all only: append_assoc append_Cons append_Nil list.map)
qed simp

lemma doc_keys:
  assumes env: "doc_env_ok E V" and inv: "doc_inv E V D"
  shows "distinct (am_keys (am E) (sd_document D) (sd_entries D)) \<and>
     set (am_keys (am E) (sd_document D) (sd_entries D)) = dom (doc_map E V D)"
proof -
  have am: "automerge_ok (am E) V" using env by (simp add: doc_env_ok_def)
  obtain m where m: "amc_maps (doc_content V D) (sd_entries D) = Some m"
    using inv by (rule doc_invE)
  show ?thesis using automerge_okD(8,9) [OF am m] doc_map_dom [OF inv m] by simp
qed

definition expired_keys :: "(string \<rightharpoonup> SecretRecord) \<Rightarrow> u64 \<Rightarrow> string set" where
  "expired_keys m now = {k. \<exists>r. m k = Some r \<and> expired_by now r}"

lemma purge_expired_eq:
  assumes env: "doc_env_ok E V" and inv: "doc_inv E V D" and fresh: "sd_pending D = []"
  shows "if expired_keys (doc_map E V D) now = {} then
       (\<exists>D'. purge_expired E now D = (Inr None, D') \<and> doc_inv E V D' \<and> doc_map E V D' = doc_map E V D)
     else \<exists>M D'. purge_expired E now D = (Inr (Some M), D') \<and>
       committed E V D M D' (doc_map E V D |` (- expired_keys (doc_map E V D) now)) \<and>
       (\<exists>ks. set ks = expired_keys (doc_map E V D) now \<and> distinct ks \<and>
         dm_history M = map (\<lambda>k. delete_history (the (doc_map E V D k))
            (sr_address (the (doc_map E V D k))) Expire) ks)"
proof -
  have am: "automerge_ok (am E) V" using env by (simp add: doc_env_ok_def)
  let ?D = "D\<lparr>sd_document := am_commit (am E) (sd_document D)\<rparr>"
  let ?m = "doc_map E V D"
  let ?f = "\<lambda>k. the (?m k)"
  have inv': "doc_inv E V ?D" and map': "doc_map E V ?D = ?m"
    using inv doc_inv_commit [OF am] by auto
  define keys where "keys = am_keys (am E) (am_commit (am E) (sd_document D)) (sd_entries D)"
  have keys: "distinct keys" "set keys = dom ?m"
    using doc_keys [OF env inv'] map' by (simp_all add: keys_def)
  define ks where "ks = filter (\<lambda>k. expired_by now (?f k)) keys"
  have ks: "set ks = expired_keys ?m now" "distinct ks" "\<forall>k \<in> set ks. ?m k = Some (?f k)"
    using keys by (auto simp: ks_def expired_keys_def)
  have first: "rbind (document_records E ?D k) (first_expired E k now) =
      Inr (if expired_by now (?f k) then Some (sr_address (?f k)) else None)" if "k \<in> set keys" for k
  proof -
    from that keys(2) obtain r where r: "?m k = Some r" by auto
    then have "validate_record_key E r k = Inr ()"
      using doc_map_key [OF inv r] by (simp add: validate_record_key_def)
    then show ?thesis using r document_records_eq [OF env inv'] map' by simp
  qed
  have found: "rmapM (\<lambda>key. rbind (document_records E ?D key) (first_expired E key now)) keys =
      Inr (map (\<lambda>k. if expired_by now (?f k) then Some (sr_address (?f k)) else None) keys)"
    by (rule rmapM_ok) (rule first)
  have expired: "List.map_filter (\<lambda>a. a)
      (map (\<lambda>k. if expired_by now (?f k) then Some (sr_address (?f k)) else None) keys) =
      map (\<lambda>k. sr_address (?f k)) ks"
    unfolding ks_def by (induction keys) (auto simp: List.map_filter_def)
  let ?rest = "\<lambda>expired. sbind (sfor (\<lambda>a. sbind (delete_uncommitted E a Expire) (\<lambda>_. sret ())) expired)
     (\<lambda>_. sbind (finish_mutation E) (\<lambda>m. sret (Some m)))"
  have run: "purge_expired E now D = document_mutate E (\<lambda>D. if ks = [] then sret None D
      else ?rest (map (\<lambda>k. sr_address (?f k)) ks) D) D"
    using found expired
    by (simp add: purge_expired_def document_mutate_def Let_def keys_def [symmetric] sbind_def)
  show ?thesis
  proof (cases "ks = []")
    case True
    then show ?thesis using run ks(1) inv' map' by (simp add: document_mutate_def)
  next
    case False
    have "\<forall>k \<in> set ks. doc_map E V ?D k = Some (?f k)" using ks(3) map' by simp
    from delete_all_eq [OF env inv' this ks(2), of Expire, unfolded map'] obtain D1 where
      del: "sfor (\<lambda>a. sbind (delete_uncommitted E a Expire) (\<lambda>_. sret ())) (map (\<lambda>k. sr_address (?f k)) ks) ?D = (Inr (), D1)"
      and D1: "doc_inv E V D1" "doc_map E V D1 = (\<lambda>k. if k \<in> set ks then None else ?m k)"
        "sd_pending D1 = map (\<lambda>k. delete_history (?f k) (sr_address (?f k)) Expire) ks"
        "sd_kind D1 = sd_kind D" "sd_partition D1 = sd_partition D"
      using fresh map' by auto
    from finish_mutation_committed [OF env D1(1)] obtain M D' where
      fin: "finish_mutation E D1 = (Inr M, D')" "committed E V D1 M D' (doc_map E V D1)"
      "dm_history M = sd_pending D1" by blast
    have "purge_expired E now D = (Inr (Some M), D')"
      using run False del fin(1) by (simp add: document_mutate_def sbind_def)
    moreover have "doc_map E V D1 = ?m |` (- expired_keys ?m now)"
      using D1(2) ks(1) by (auto simp: restrict_map_def fun_eq_iff)
    moreover have "committed E V D M D' (doc_map E V D1)"
      using fin(2) D1(4,5) by (simp add: committed_def)
    moreover have "expired_keys ?m now \<noteq> {}" using False ks(1) by auto
    ultimately show ?thesis using fin(3) D1(3) ks(1,2) by auto
  qed
qed

lemma clear_all_eq:
  assumes env: "doc_env_ok E V"
  shows "doc_inv E V D \<Longrightarrow> (\<forall>k \<in> set ks. doc_map E V D k = Some (f k)) \<Longrightarrow> distinct ks \<Longrightarrow>
     sfor (\<lambda>key. sbind (sread (\<lambda>D. document_records E D key)) (\<lambda>rs.
         case rs of [] \<Rightarrow> sret ()
         | r # _ \<Rightarrow> sbind (delete_uncommitted E (sr_address r) op) (\<lambda>_. sret ()))) ks D =
     sfor (\<lambda>a. sbind (delete_uncommitted E a op) (\<lambda>_. sret ())) (map (\<lambda>k. sr_address (f k)) ks) D"
proof (induction ks arbitrary: D)
  case (Cons k ks)
  then have k: "doc_map E V D k = Some (f k)" by simp
  then have key: "storage_key E (sr_address (f k)) = k"
    using doc_map_key [OF Cons.prems(1)] by blast
  with delete_uncommitted_found [OF env Cons.prems(1), of "sr_address (f k)" "f k" op] k
  obtain D1 where step: "delete_uncommitted E (sr_address (f k)) op D = (Inr True, D1)"
    and D1: "doc_inv E V D1" "doc_map E V D1 = (doc_map E V D)(k := None)"
    by auto
  have "\<forall>j \<in> set ks. doc_map E V D1 j = Some (f j)" "distinct ks"
    using Cons.prems(2,3) D1(2) by auto
  from Cons.IH [OF D1(1) this] show ?case
    using step k document_records_eq [OF env Cons.prems(1), of k] by (simp add: sbind_def)
qed simp

lemma document_clear_eq:
  assumes env: "doc_env_ok E V" and inv: "doc_inv E V D" and fresh: "sd_pending D = []"
  shows "if doc_map E V D = Map.empty then
       (\<exists>D'. document_clear E D = (Inr None, D') \<and> doc_inv E V D' \<and> doc_map E V D' = Map.empty)
     else \<exists>M D'. document_clear E D = (Inr (Some (card (dom (doc_map E V D)), M)), D') \<and>
       committed E V D M D' Map.empty \<and>
       (\<exists>ks. set ks = dom (doc_map E V D) \<and> distinct ks \<and>
         dm_history M = map (\<lambda>k. delete_history (the (doc_map E V D k))
            (sr_address (the (doc_map E V D k))) Clear) ks)"
proof -
  have am: "automerge_ok (am E) V" using env by (simp add: doc_env_ok_def)
  let ?D = "D\<lparr>sd_document := am_commit (am E) (sd_document D)\<rparr>"
  let ?m = "doc_map E V D"
  let ?f = "\<lambda>k. the (?m k)"
  have inv': "doc_inv E V ?D" and map': "doc_map E V ?D = ?m"
    using inv doc_inv_commit [OF am] by auto
  define keys where "keys = am_keys (am E) (am_commit (am E) (sd_document D)) (sd_entries D)"
  have keys: "distinct keys" "set keys = dom ?m"
    using doc_keys [OF env inv'] map' by (simp_all add: keys_def)
  show ?thesis
  proof (cases "keys = []")
    case True
    then have "?m = Map.empty" using keys(2) by (metis dom_eq_empty_conv list.set(1))
    with True show ?thesis using inv' map'
      by (simp add: document_clear_def document_mutate_def keys_def [symmetric] sbind_def)
  next
    case False
    then have ne: "?m \<noteq> Map.empty" using keys(2) by auto
    have all: "\<forall>k \<in> set keys. doc_map E V ?D k = Some (?f k)" using keys(2) map' by auto
    from delete_all_eq [OF env inv' all keys(1), of Clear, unfolded map'] obtain D1 where
      del: "sfor (\<lambda>a. sbind (delete_uncommitted E a Clear) (\<lambda>_. sret ())) (map (\<lambda>k. sr_address (?f k)) keys) ?D = (Inr (), D1)"
      and D1: "doc_inv E V D1" "doc_map E V D1 = (\<lambda>k. if k \<in> set keys then None else ?m k)"
        "sd_pending D1 = map (\<lambda>k. delete_history (?f k) (sr_address (?f k)) Clear) keys"
        "sd_kind D1 = sd_kind D" "sd_partition D1 = sd_partition D"
      using fresh by auto
    from finish_mutation_committed [OF env D1(1)] obtain M D' where
      fin: "finish_mutation E D1 = (Inr M, D')" "committed E V D1 M D' (doc_map E V D1)"
      "dm_history M = sd_pending D1" by blast
    have "document_clear E D = (Inr (Some (length keys, M)), D')"
      using False del fin(1) clear_all_eq [OF env inv' all keys(1), of Clear]
      by (simp add: document_clear_def document_mutate_def keys_def [symmetric] sbind_def)
    moreover have "doc_map E V D1 = Map.empty" using D1(2) keys(2) by (auto simp: fun_eq_iff)
    moreover have "committed E V D M D' (doc_map E V D1)"
      using fin(2) D1(4,5) by (simp add: committed_def)
    moreover have "card (dom ?m) = length keys" using keys distinct_card by metis
    ultimately show ?thesis using ne fin(3) D1(3) keys by auto
  qed
qed

lemma document_load_committed:
  assumes env: "doc_env_ok E V" and com: "committed E V D M D' m"
  shows "\<exists>L. document_load E (dm_snapshot M) actor (sd_kind D) (Some (sd_partition D)) = Inr L \<and>
     doc_inv E V L \<and> doc_map E V L = m \<and> sd_pending L = [] \<and>
     sd_kind L = sd_kind D \<and> sd_partition L = sd_partition D \<and>
     doc_content V L = doc_content V D' \<and> sd_entries L = sd_entries D'"
proof -
  have am: "automerge_ok (am E) V" using env by (simp add: doc_env_ok_def)
  from com obtain d where snap: "dm_snapshot M = fst (am_save (am E) d)"
    and now: "amv_now (V d) = doc_content V D'" and inv: "doc_inv E V D'" and map: "doc_map E V D' = m"
    and kind: "sd_kind D' = sd_kind D" "sd_partition D' = sd_partition D"
    by (auto simp: committed_def)
  obtain d' where d': "am_load (am E) (dm_snapshot M) = Inr d'" "amv_now (V d') = doc_content V D'"
    using automerge_save_load [OF am, of d] snap now by metis
  let ?d = "am_set_actor (am E) actor d'"
  have now': "amv_now (V ?d) = doc_content V D'" using d'(2) by (simp add: automerge_okD(2) [OF am])
  obtain mm where desc: "descriptor_ok (doc_content V D') D'" and np: "\<not> is_personal D'"
    and mm: "amc_maps (doc_content V D') (sd_entries D') = Some mm" "\<And>k. entry_ok E k (mm k)"
    using inv by (rule doc_invE) blast
  let ?L = "\<lparr>sd_document = ?d, sd_entries = sd_entries D', sd_kind = sd_kind D,
    sd_partition = sd_partition D, sd_pending = []\<rparr>"
  have "document_load E (dm_snapshot M) actor (sd_kind D) (Some (sd_partition D)) = Inr ?L"
    using d'(1) desc kind now'
    by (simp add: document_load_def automerge_okD(4) [OF am] descriptor_ok_def root_object_def Let_def)
  moreover have "doc_inv E V ?L"
    using desc np mm now' kind by (auto simp: doc_inv_def is_personal_def descriptor_ok_def)
  moreover have "doc_map E V ?L = m" using map now' by (auto simp: doc_map_def fun_eq_iff)
  moreover have "doc_content V ?L = doc_content V D'" using now' by simp
  ultimately show ?thesis by (intro exI [of _ ?L]) simp
qed

end
