(* ===== verification/Reference_Env.thy ===== *)
theory Reference_Env
  imports Document_Laws "HOL-Library.Countable"
begin

text \<open>
  A concrete instance of the external crates the document component calls.  It shows that
  the contracts assumed of Automerge, the JSON codecs and the digests can hold together,
  and it is the instance at which the properties are applied to concrete inputs.  An
  Automerge document is an association list per object; saving numbers its content.
\<close>


instance ObjType :: countable by countable_datatype
instance am_value :: countable by countable_datatype

instance SecretSpecCoordinates_ext :: (countable) countable
proof (rule countable_classI)
  fix x y :: "'a SecretSpecCoordinates_scheme"
  let ?f = "\<lambda>c :: 'a SecretSpecCoordinates_scheme. to_nat
    (c_item c, c_field c, c_vault c, c_section c, c_version c, SecretSpecCoordinates.more c)"
  assume "?f x = ?f y"
  then show "x = y" by simp
qed

instance SecretSpecAddress :: countable by countable_datatype
instance SecretAddress :: countable by countable_datatype

type_synonym cmap = "(string \<times> am_value list) list"
type_synonym ccontent = "(string \<times> am_value \<times> ObjId) list \<times> (ObjId \<times> cmap) list \<times> am_value list"
type_synonym cdoc = "bytes \<times> ccontent \<times> ccontent"

definition unary :: "nat \<Rightarrow> bytes" where "unary n = replicate n (CHR 0x00)"

definition cmap_get :: "cmap \<Rightarrow> string \<Rightarrow> am_value list" where
  "cmap_get m k = (case map_of m k of None \<Rightarrow> [] | Some vs \<Rightarrow> vs)"

definition ccontent_view :: "ccontent \<Rightarrow> am_content" where
  "ccontent_view c = (case c of (root, maps, written) \<Rightarrow>
     \<lparr>amc_root = map_of root, amc_maps = (\<lambda>i. map_option cmap_get (map_of maps i)),
      amc_written = set written\<rparr>)"

definition cdoc_view :: "cdoc \<Rightarrow> am_view" where
  "cdoc_view d = (case d of (actor, now, base) \<Rightarrow>
     \<lparr>amv_actor = actor, amv_now = ccontent_view now, amv_base = ccontent_view base\<rparr>)"

definition cset_in :: "ObjId \<Rightarrow> string \<Rightarrow> am_value list \<Rightarrow> cdoc \<Rightarrow> string + cdoc" where
  "cset_in i k vs d = (case d of (actor, (root, maps, written), base) \<Rightarrow>
     (case map_of maps i of
        None \<Rightarrow> Inl ''no such object''
      | Some m \<Rightarrow> Inr (actor, (root, (i, (k, vs) # m) # maps, vs @ written), base)))"

definition reference_automerge :: "cdoc automerge" where
  "reference_automerge = \<lparr>
     am_new = (\<lambda>a. (a, ([], [], []), ([], [], []))),
     am_load = (\<lambda>b. let c = from_nat (length b) in Inr ([], c, c)),
     am_save = (\<lambda>(a, c, base). (unary (to_nat c), (a, c, c))),
     am_set_actor = (\<lambda>a (_, d). (a, d)),
     am_get_actor = fst,
     am_get_root = (\<lambda>(_, (root, _, _), _) k. Inr (map_of root k)),
     am_put_root = (\<lambda>k v (a, (root, maps, written), base).
        Inr (a, ((k, v, []) # root, maps, v # written), base)),
     am_put_map = (\<lambda>k (a, (root, maps, written), base).
        let i = unary (Suc (sum_list (map (length \<circ> fst) maps)))
        in Inr (i, (a, ((k, AmObject AmMap, i) # root, (i, []) # maps, written), base))),
     am_get_all = (\<lambda>(_, (_, maps, _), _) i k.
        case map_of maps i of None \<Rightarrow> Inl ''no such object'' | Some m \<Rightarrow> Inr (cmap_get m k)),
     am_keys = (\<lambda>(_, (_, maps, _), _) i.
        case map_of maps i of None \<Rightarrow> []
        | Some m \<Rightarrow> filter (\<lambda>k. cmap_get m k \<noteq> []) (remdups (map fst m))),
     am_put_in = (\<lambda>i k v. cset_in i k [v]),
     am_delete_in = (\<lambda>i k. cset_in i k []),
     am_commit = (\<lambda>(a, c, _). (a, c, c)),
     am_rollback = (\<lambda>(a, _, c). (a, c, c))\<rparr>"

lemma cmap_get_keys: "cmap_get m k \<noteq> [] \<Longrightarrow> k \<in> fst ` set m"
  by (auto simp: cmap_get_def split: option.splits dest: map_of_SomeD intro: rev_image_eqI)

lemma object_bound: "p \<in> set maps \<Longrightarrow> length (fst p) \<le> sum_list (map (length \<circ> fst) maps)"
  by (induction maps) auto

lemma fresh_object: "map_of maps (unary (Suc (sum_list (map (length \<circ> fst) maps)))) = None"
proof (rule ccontr)
  assume "map_of maps (unary (Suc (sum_list (map (length \<circ> fst) maps)))) \<noteq> None"
  then obtain v where "(unary (Suc (sum_list (map (length \<circ> fst) maps))), v) \<in> set maps"
    by (auto dest: map_of_SomeD)
  from object_bound [OF this] show False by (simp add: unary_def)
qed

lemma reference_automerge_ok: "automerge_ok reference_automerge cdoc_view"
  unfolding automerge_ok_def
proof (intro conjI allI impI)
  fix d i m
  assume "amc_maps (amv_now (cdoc_view d)) i = Some m"
  then show "distinct (am_keys reference_automerge d i)"
    and "set (am_keys reference_automerge d i) = {k. m k \<noteq> []}"
    by (auto simp: reference_automerge_def cdoc_view_def ccontent_view_def cmap_get_keys
        split: prod.splits option.splits)
next
  fix d i m k
  assume "amc_maps (amv_now (cdoc_view d)) i = Some m"
  then show "am_get_all reference_automerge d i k = Inr (m k)"
    by (auto simp: reference_automerge_def cdoc_view_def ccontent_view_def
        split: prod.splits option.splits)
next
  fix d k
  show "\<exists>d' i. am_put_map reference_automerge k d = Inr (i, d') \<and>
      amc_maps (amv_now (cdoc_view d)) i = None \<and>
      cdoc_view d' = (cdoc_view d)\<lparr>amv_now := content_put_map k i (amv_now (cdoc_view d))\<rparr>"
    by (cases d) (auto simp: reference_automerge_def cdoc_view_def ccontent_view_def Let_def
        fresh_object content_put_map_def cmap_get_def fun_eq_iff)
next
  fix d
  show "cdoc_view (snd (am_save reference_automerge d)) =
      (cdoc_view d)\<lparr>amv_base := amv_now (cdoc_view d)\<rparr>"
    by (cases d) (auto simp: reference_automerge_def cdoc_view_def)
  show "\<exists>d'. am_load reference_automerge (fst (am_save reference_automerge d)) = Inr d' \<and>
      amv_now (cdoc_view d') = amv_now (cdoc_view d) \<and> amv_base (cdoc_view d') = amv_now (cdoc_view d)"
    by (cases d) (auto simp: reference_automerge_def cdoc_view_def unary_def Let_def)
qed (auto simp: reference_automerge_def cdoc_view_def ccontent_view_def empty_content_def
      content_put_root_def content_set_in_def cset_in_def cmap_get_def fun_eq_iff
      split: prod.splits option.splits)

definition record_tuple where
  "record_tuple r = (sr_version r, sr_address r, sr_value r, sr_evict_at r, sr_version_id r,
     sr_created_at r, sr_updated_at r)"

definition tuple_record where
  "tuple_record t = (case t of (a, b, c, d, e, f, g) \<Rightarrow>
     \<lparr>sr_version = a, sr_address = b, sr_value = c, sr_evict_at = d, sr_version_id = e,
      sr_created_at = f, sr_updated_at = g\<rparr>)"

definition nat_json :: "('a \<Rightarrow> 'b :: countable) \<Rightarrow> ('b \<Rightarrow> 'a) \<Rightarrow> 'a json" where
  "nat_json f g = \<lparr>to_vec = (\<lambda>x. Inr (unary (to_nat (f x)))),
     from_slice = (\<lambda>b. Inr (g (from_nat (length b))))\<rparr>"

lemma nat_json_ok: "(\<And>x. g (f x) = x) \<Longrightarrow> json_ok (nat_json f g)"
  by (simp add: json_ok_def nat_json_def unary_def)

definition reference_personal :: "(unit, unit) personal_env" where
  "reference_personal = \<lparr>replica_new = (\<lambda>_ _. Inl Crypto), replica_load = (\<lambda>_ _ _. Inl Crypto),
     replica_values = (\<lambda>_. Inl Crypto), replica_set = (\<lambda>_ _. Inl Crypto),
     replica_save = (\<lambda>_. Inl Crypto), decode_current = (\<lambda>_. None), item_id = (\<lambda>_. []),
     item_title = (\<lambda>_. []), item_kind_label = (\<lambda>_. []), item_username = (\<lambda>_. None),
     item_website_host = (\<lambda>_. None), item_favorite = (\<lambda>_. False),
     j_catalog = \<lparr>to_vec = (\<lambda>_. Inl ''''), from_slice = (\<lambda>_. Inl '''')\<rparr>\<rparr>"

definition reference_env :: "(cdoc, unit, unit) doc_env" where
  "reference_env = \<lparr>sha256 = (\<lambda>b. take 32 (rev b @ replicate 32 (CHR 0x00))),
     hmac_sha256 = (\<lambda>k b. take 32 (rev b @ replicate 32 (CHR 0x00))),
     b64_encode = (\<lambda>b. b), b64_decode = Some, am = reference_automerge,
     j_record = nat_json record_tuple tuple_record,
     j_deadline = (\<lambda>b. Inr (sr_evict_at (tuple_record (from_nat (length b))))),
     personal = reference_personal\<rparr>"

lemma reference_env_ok: "doc_env_ok reference_env cdoc_view" "hash_env_ok reference_env"
proof -
  have "tuple_record (record_tuple r) = r" for r by (simp add: tuple_record_def record_tuple_def)
  then show "doc_env_ok reference_env cdoc_view"
    by (auto simp: doc_env_ok_def reference_env_def reference_automerge_ok nat_json_ok)
      (simp_all add: nat_json_def)
  show "hash_env_ok reference_env" by (simp add: hash_env_ok_def reference_env_def min_def)
qed
end
