(* ===== verification/Document_Properties.thy ===== *)
theory Document_Properties
  imports Reference_Env
begin

text \<open>
  The properties of one document, each with an application to the reference instance of
  the external crates.
\<close>

section \<open>The history of a projected document\<close>


section \<open>Rejected batches\<close>

text \<open>C30: a rejected batch leaves nothing behind, in any document, the personal one
  included.  If any operation of a batch fails, or the projection fails, the document has
  exactly the content, identity and empty history queue it had before, so no part of a
  rejected write rides along with the next one.\<close>

theorem rejected_batch_rolls_back:
  assumes "automerge_ok (am E) V"
    and "amc_maps (doc_content V D) (sd_entries D) \<noteq> None"
    and "document_apply E rng ops ctx D = (Inl e, D')"
  shows "doc_content V D' = doc_content V D \<and> sd_pending D' = [] \<and>
     sd_entries D' = sd_entries D \<and> sd_kind D' = sd_kind D \<and> sd_partition D' = sd_partition D"
  using document_mutate_err [OF assms(1) document_apply_clean [OF assms(1)] assms(2)
      assms(3) [unfolded document_apply_def]]
  by simp

definition sample_document :: "cdoc SecretDocument" where
  "sample_document = \<lparr>
     sd_document = ([], (
       [(''entries'', AmObject AmMap, unary 1), (''partition'', AmBytes ''p'', []),
        (''format-version'', AmUint 3, []), (''format'', AmStr ''local-keyring'', [])],
       [(unary 1, [])], [AmBytes ''p'', AmUint 3, AmStr ''local-keyring'']), ([], [], [])),
     sd_entries = unary 1, sd_kind = LocalKeyring, sd_partition = ''p'', sd_pending = []\<rparr>"

definition sample_context :: MutationContext where
  "sample_context = \<lparr>mc_now = 100, mc_provenance = Service GrantStorage, mc_device_key_id = ''dev''\<rparr>"

lemma sample_document_new:
  "document_new reference_env [] LocalKeyring ''p'' = Inr sample_document"
  by (simp add: document_new_def reference_env_def reference_automerge_def sample_document_def
      PERSONAL_SECRET_NAMESPACE_def FORMAT_VERSION_def document_kind_as_str_def unary_def Let_def)

lemma sample_document_inv:
  "doc_inv reference_env cdoc_view sample_document"
  "doc_map reference_env cdoc_view sample_document = Map.empty"
  by (auto simp: doc_inv_def doc_map_def is_personal_def descriptor_ok_def sample_document_def
      cdoc_view_def ccontent_view_def PERSONAL_SECRET_NAMESPACE_def entry_ok_def decode_entry_def
      value_as_str_def value_as_u64_def value_into_bytes_def document_kind_as_str_def
      FORMAT_VERSION_def cmap_get_def fun_eq_iff)

lemma sample_document_simps:
  "sd_kind sample_document = LocalKeyring" "sd_pending sample_document = []"
  "sd_partition sample_document = ''p''"
  by (simp_all add: sample_document_def)

abbreviation failing_rng :: "nat \<Rightarrow> VersionId vault_result" where
  "failing_rng n \<equiv> (if n = 0 then Inr ''0123456789abcdef'' else Inl (Random ''no entropy''))"

lemma rejected_batch_rolls_back_witness:
  "\<exists>D'. document_apply reference_env failing_rng
      [Put (Local ''a'' None) ''one'' None, Put (Local ''b'' None) ''two'' None]
      sample_context sample_document = (Inl (Random ''no entropy''), D') \<and>
    doc_content cdoc_view D' = doc_content cdoc_view sample_document"
proof -
  let ?ops = "[Put (Local ''a'' None) ''one'' None, Put (Local ''b'' None) ''two'' None]"
  have spec: "spec_apply reference_env failing_rng sample_context LocalKeyring 0 ?ops
      (Map.empty, [], False) = Inl (Random ''no entropy'')"
    by (simp add: put_version_def put_changed_def put_record_def Let_def)
  from document_apply_eq [OF reference_env_ok(1) sample_document_inv(1) sample_document_simps(2),
      where rng = failing_rng and ctx = sample_context and ops = ?ops,
      unfolded sample_document_simps sample_document_inv(2) spec sum.case]
  obtain D' where run: "document_apply reference_env failing_rng ?ops sample_context sample_document =
      (Inl (Random ''no entropy''), D')"
    by blast
  have am: "automerge_ok (am reference_env) cdoc_view"
    using reference_env_ok(1) by (simp add: doc_env_ok_def)
  have "amc_maps (doc_content cdoc_view sample_document) (sd_entries sample_document) \<noteq> None"
    using sample_document_inv(1) by (auto simp: doc_inv_def)
  from rejected_batch_rolls_back [OF am this run] run show ?thesis by blast
qed

text \<open>C29: a batch refines its specification on maps.  Applying an ordered batch of puts and
  deletes to an ordinary document does what \<open>spec_apply\<close> does to the map from storage keys
  to records: it fails with the same error, or changes nothing when every operation was a
  delete of a missing address, or produces a fresh document with the resulting records,
  its earliest deadline, and the history entries of exactly the operations applied, in
  order.\<close>

theorem batch_refines_map:
  assumes "doc_env_ok E V" and "doc_inv E V D" and "sd_pending D = []"
  shows "case spec_apply E rng ctx (sd_kind D) 0 ops (doc_map E V D, [], False) of
     Inl err \<Rightarrow> \<exists>D'. document_apply E rng ops ctx D = (Inl err, D')
   | Inr (m', p', changed) \<Rightarrow>
       if changed then
         \<exists>M D'. document_apply E rng ops ctx D = (Inr (Some M), D') \<and>
           doc_inv E V D' \<and> doc_map E V D' = m' \<and> dm_history M = p' \<and>
           is_next_eviction m' (dm_next_eviction M)
       else \<exists>D'. document_apply E rng ops ctx D = (Inr None, D') \<and>
           doc_inv E V D' \<and> doc_map E V D' = m'"
proof -
  from document_apply_eq [OF assms, where rng = rng and ctx = ctx and ops = ops] show ?thesis
    by (auto simp: committed_def split: sum.splits bool.splits)
qed

text \<open>C31: reading back what was written.  After a successful put, the snapshot handed to the
  store can be loaded by any actor, and reading the address there gives the value until
  its deadline and \<open>Expired\<close> from the deadline on.\<close>

theorem put_then_load_then_get:
  assumes env: "doc_env_ok E V" and "doc_inv E V D" and "sd_pending D = []"
    and put: "document_put E rnd a v e ctx D = (Inr M, D')"
  shows "\<exists>L. document_load E (dm_snapshot M) actor (sd_kind D) (Some (sd_partition D)) = Inr L \<and>
     get_with_deadline E L a now =
       Inr (if \<exists>d. e = Some d \<and> d \<le> now then (SecretRead.Expired, None) else (Value v, e))"
proof -
  note eq = document_put_eq [OF assms(1-3) refl, where a = a and rnd = rnd and v = v
      and e = e and ctx = ctx]
  let ?old = "doc_map E V D (storage_key E a)"
  obtain vid where com: "committed E V D M D'
      ((doc_map E V D)(storage_key E a \<mapsto> put_record ?old vid a v e (mc_now ctx)))"
    using eq put by (cases "put_version ?old rnd v e") auto
  from document_load_committed [OF env com, of actor] obtain L where
    L: "document_load E (dm_snapshot M) actor (sd_kind D) (Some (sd_partition D)) = Inr L"
      "doc_inv E V L" "doc_map E V L (storage_key E a) = Some (put_record ?old vid a v e (mc_now ctx))"
    by auto
  then show ?thesis
    by (intro exI [of _ L])
      (auto simp: get_with_deadline_eq [OF env L(2)] spec_get_def put_record_def expired_by_def
        split: option.splits)
qed


text \<open>The eviction sweep is exact.  It removes the records whose deadline has passed and
  no others, queues one \<open>Expire\<close> entry for each, reports nothing to do exactly when no
  record has expired, and the next deadline it reports is the earliest one left.\<close>

lemma purge_removes_exactly_expired:
  assumes "doc_env_ok E V" and "doc_inv E V D" and "sd_pending D = []"
  shows "case purge_expired E now D of
      (Inl e, D') \<Rightarrow> False
    | (Inr None, D') \<Rightarrow> expired_keys (doc_map E V D) now = {} \<and> doc_map E V D' = doc_map E V D
    | (Inr (Some M), D') \<Rightarrow>
        doc_map E V D' = doc_map E V D |` (- expired_keys (doc_map E V D) now) \<and>
        length (dm_history M) = card (expired_keys (doc_map E V D) now) \<and>
        is_next_eviction (doc_map E V D') (dm_next_eviction M)"
proof (cases "expired_keys (doc_map E V D) now = {}")
  case True
  with purge_expired_eq [OF assms, of now] show ?thesis by auto
next
  case False
  with purge_expired_eq [OF assms, of now] obtain M D' ks where
    run: "purge_expired E now D = (Inr (Some M), D')"
    and com: "committed E V D M D' (doc_map E V D |` (- expired_keys (doc_map E V D) now))"
    and ks: "set ks = expired_keys (doc_map E V D) now" "distinct ks"
    and hist: "dm_history M = map (\<lambda>k. delete_history (the (doc_map E V D k))
            (sr_address (the (doc_map E V D k))) Expire) ks"
    by auto
  have "length (dm_history M) = card (expired_keys (doc_map E V D) now)"
    using hist ks distinct_card [of ks] by simp
  with run com show ?thesis by (simp add: committed_def)
qed

section \<open>Concrete applications\<close>

abbreviation sample_rng :: "nat \<Rightarrow> VersionId vault_result" where
  "sample_rng n \<equiv> Inr ''0123456789abcdef''"

lemma batch_refines_map_witness:
  "\<exists>M D'. document_apply reference_env sample_rng [Put (Local ''a'' None) ''one'' (Some 500)]
      sample_context sample_document = (Inr (Some M), D') \<and>
    is_next_eviction (doc_map reference_env cdoc_view D') (dm_next_eviction M)"
  using batch_refines_map [OF reference_env_ok(1) sample_document_inv(1) sample_document_simps(2),
      where rng = sample_rng and ctx = sample_context and ops = "[Put (Local ''a'' None) ''one'' (Some 500)]"]
  by (auto simp: sample_document_inv(2) sample_document_simps put_version_def put_changed_def Let_def)

lemma sample_put:
  "\<exists>M D'. document_put reference_env (Inr ''0123456789abcdef'') (Local ''a'' None) ''one'' (Some 500)
      sample_context sample_document = (Inr M, D')"
  using document_put_eq [OF reference_env_ok(1) sample_document_inv(1) sample_document_simps(2) refl,
      where rnd = "Inr ''0123456789abcdef''" and a = "Local ''a'' None" and v = "''one''"
      and e = "Some 500" and ctx = sample_context]
  by (auto simp: sample_document_inv(2) put_version_def)

lemma put_then_load_then_get_witness:
  "\<exists>(M :: DocumentMutation) L. get_with_deadline reference_env L (Local ''a'' None) 499 = Inr (Value ''one'', Some 500) \<and>
     document_load reference_env (dm_snapshot M) ''other'' LocalKeyring (Some ''p'') = Inr L"
proof -
  from sample_put obtain M D' where put: "document_put reference_env (Inr ''0123456789abcdef'')
      (Local ''a'' None) ''one'' (Some 500) sample_context sample_document = (Inr M, D')"
    by blast
  from put_then_load_then_get [OF reference_env_ok(1) sample_document_inv(1)
      sample_document_simps(2) put, of "''other''" 499]
  obtain L where "document_load reference_env (dm_snapshot M) ''other'' LocalKeyring (Some ''p'') = Inr L"
    "get_with_deadline reference_env L (Local ''a'' None) 499 = Inr (Value ''one'', Some 500)"
    by (auto simp: sample_document_simps)
  then show ?thesis by blast
qed


end
