(* ===== verification/Sealing.thy ===== *)
theory Sealing
  imports Vault_Types
begin

text \<open>
  Symmetric protection of stored data: the provider boundary (\<open>src/src/crypto.rs\<close>), keys
  wrapped under the installation root (\<open>src/src/vault/keys.rs\<close>), and the encrypted
  snapshot of a document with its history (\<open>src/src/vault/envelope.rs\<close>).  AES-256-GCM is
  the \<open>aes_gcm\<close> crate, the record \<open>aead\<close>; nonces are drawn by the caller and passed as
  the result of \<open>getrandom::fill\<close>.  Locked-memory allocation is taken to succeed.
\<close>

section \<open>The provider boundary\<close>

datatype EncryptionAlgorithm = Aes256Gcm

definition encryption_code :: "EncryptionAlgorithm \<Rightarrow> nat" where
  "encryption_code a = (case a of Aes256Gcm \<Rightarrow> 1)"

record aead =
  aead_seal :: "bytes \<Rightarrow> bytes \<Rightarrow> bytes \<Rightarrow> bytes \<Rightarrow> bytes option"
  aead_open :: "bytes \<Rightarrow> bytes \<Rightarrow> bytes \<Rightarrow> bytes \<Rightarrow> bytes option"

text \<open>The documented contract of the AEAD, with arguments key, nonce, associated data and
  message: what was sealed opens under the same key, nonce and associated data, and the
  ciphertext is the message plus a 16 byte tag.\<close>

definition aead_ok :: "aead \<Rightarrow> bool" where
  "aead_ok A \<longleftrightarrow> (\<forall>k n a p c. aead_seal A k n a p = Some c \<longrightarrow>
     aead_open A k n a c = Some p \<and> length c = length p + 16)"

definition KEY_BYTES :: nat where "KEY_BYTES = 32"
definition NONCE_BYTES :: nat where "NONCE_BYTES = 12"

datatype CryptoError = Authentication | RandomFailure string

datatype AuthenticationError = AuthenticationError

record EncryptedPayload =
  ep_algorithm :: EncryptionAlgorithm
  ep_nonce :: bytes
  ep_ciphertext :: bytes

definition crypto_encrypt ::
  "aead \<Rightarrow> string + bytes \<Rightarrow> bytes \<Rightarrow> bytes \<Rightarrow> bytes \<Rightarrow> CryptoError + EncryptedPayload" where
  "crypto_encrypt A drawn key aad plaintext =
     rbind (map_err RandomFailure drawn) (\<lambda>nonce.
     rbind (ok_or (aead_seal A key nonce aad plaintext) Authentication) (\<lambda>ciphertext.
     Inr \<lparr>ep_algorithm = Aes256Gcm, ep_nonce = nonce, ep_ciphertext = ciphertext\<rparr>))"

definition provider_for :: "EncryptionAlgorithm \<Rightarrow> AuthenticationError + unit" where
  "provider_for a = guard (a = Aes256Gcm) AuthenticationError"

definition crypto_decrypt ::
  "aead \<Rightarrow> EncryptionAlgorithm \<Rightarrow> bytes \<Rightarrow> bytes \<Rightarrow> bytes \<Rightarrow> bytes \<Rightarrow> AuthenticationError + bytes" where
  "crypto_decrypt A algorithm key nonce aad ciphertext =
     rbind (provider_for algorithm) (\<lambda>_.
     ok_or (aead_open A key nonce aad ciphertext) AuthenticationError)"

definition decrypt_key ::
  "aead \<Rightarrow> EncryptionAlgorithm \<Rightarrow> bytes \<Rightarrow> bytes \<Rightarrow> bytes \<Rightarrow> bytes \<Rightarrow> AuthenticationError + bytes" where
  "decrypt_key A algorithm key nonce aad ciphertext =
     rbind (guard (\<not> (algorithm \<noteq> Aes256Gcm \<or> length ciphertext \<noteq> KEY_BYTES + 16))
       AuthenticationError) (\<lambda>_.
     ok_or (aead_open A key nonce aad ciphertext) AuthenticationError)"

section \<open>Wrapped keys\<close>

definition DOCUMENT_KEY_DOMAIN :: bytes where
  "DOCUMENT_KEY_DOMAIN = ''factorseal/document-key/v1'' @ [CHR 0x00]"

definition INDEX_KEY_DOMAIN :: bytes where
  "INDEX_KEY_DOMAIN = ''factorseal/index-key/v1'' @ [CHR 0x00]"

record WrappedKey =
  wk_algorithm :: EncryptionAlgorithm
  wk_nonce :: bytes
  wk_ciphertext :: bytes

definition wrapped_validate :: "WrappedKey \<Rightarrow> unit vault_result" where
  "wrapped_validate w =
     guard (\<not> (wk_algorithm w \<noteq> Aes256Gcm \<or> length (wk_ciphertext w) \<noteq> KEY_BYTES + 16))
       (Protection ''wrapped key structure is invalid'')"

definition derive_index_key :: "'z hash_env_scheme \<Rightarrow> bytes \<Rightarrow> bytes \<Rightarrow> bytes \<Rightarrow> bytes" where
  "derive_index_key H root_key installation_id device_vault_id =
     hmac_sha256 H root_key (INDEX_KEY_DOMAIN @ installation_id @ device_vault_id)"

definition wrap_key ::
  "aead \<Rightarrow> string + bytes \<Rightarrow> bytes \<Rightarrow> bytes \<Rightarrow> bytes \<Rightarrow> WrappedKey vault_result" where
  "wrap_key A drawn root_key aad plaintext =
     rbind (map_err (\<lambda>_. Crypto) (crypto_encrypt A drawn root_key aad plaintext)) (\<lambda>encrypted.
     Inr \<lparr>wk_algorithm = ep_algorithm encrypted, wk_nonce = ep_nonce encrypted,
          wk_ciphertext = ep_ciphertext encrypted\<rparr>)"

definition unwrap_key ::
  "aead \<Rightarrow> bytes \<Rightarrow> bytes \<Rightarrow> WrappedKey \<Rightarrow> string \<Rightarrow> bytes vault_result" where
  "unwrap_key A root_key aad wrapped label =
     rbind (wrapped_validate wrapped) (\<lambda>_.
     rbind (map_err (\<lambda>_. Protection (''cannot authenticate '' @ label))
       (decrypt_key A (wk_algorithm wrapped) root_key (wk_nonce wrapped) aad (wk_ciphertext wrapped)))
       (\<lambda>plaintext.
     rbind (guard (length plaintext = KEY_BYTES) (Protection (''invalid '' @ label @ '' length''))) (\<lambda>_.
     Inr plaintext)))"

definition document_key_aad ::
  "bytes \<Rightarrow> bytes \<Rightarrow> bytes \<Rightarrow> DocumentKind \<Rightarrow> u64 \<Rightarrow> bytes" where
  "document_key_aad installation_id vault_id document_id kind epoch =
     DOCUMENT_KEY_DOMAIN @ installation_id @ vault_id @ document_id @
     lp (document_kind_as_str kind) @ be64 (unat epoch)"

definition generate_document_key ::
  "aead \<Rightarrow> string + bytes \<Rightarrow> string + bytes \<Rightarrow> bytes \<Rightarrow> bytes \<Rightarrow> bytes \<Rightarrow> bytes \<Rightarrow> DocumentKind \<Rightarrow> u64
     \<Rightarrow> (bytes \<times> WrappedKey) vault_result" where
  "generate_document_key A drawn_key drawn_nonce root_key installation_id vault_id document_id kind epoch =
     rbind (map_err Random drawn_key) (\<lambda>key.
     rbind (wrap_key A drawn_nonce root_key
       (document_key_aad installation_id vault_id document_id kind epoch) key) (\<lambda>wrapped.
     Inr (key, wrapped)))"

definition unwrap_document_key ::
  "aead \<Rightarrow> bytes \<Rightarrow> bytes \<Rightarrow> bytes \<Rightarrow> bytes \<Rightarrow> DocumentKind \<Rightarrow> u64 \<Rightarrow> WrappedKey \<Rightarrow> bytes vault_result" where
  "unwrap_document_key A root_key installation_id vault_id document_id kind epoch wrapped =
     unwrap_key A root_key (document_key_aad installation_id vault_id document_id kind epoch)
       wrapped ''document data-encryption key''"

section \<open>Encrypted snapshots\<close>

definition ENVELOPE_VERSION :: nat where "ENVELOPE_VERSION = 7"

definition SNAPSHOT_DOMAIN :: bytes where
  "SNAPSHOT_DOMAIN = ''factorseal/encrypted-snapshot/v7'' @ [CHR 0x00]"

datatype SnapshotPart = Records | History

definition part_code :: "SnapshotPart \<Rightarrow> nat" where
  "part_code p = (case p of Records \<Rightarrow> 0 | History \<Rightarrow> 1)"

record EnvelopeContext =
  ec_vault_id :: bytes
  ec_document_id :: bytes
  ec_scope :: DocumentKind
  ec_device_key_id :: bytes
  ec_generation :: u64
  ec_key_epoch :: u64

record EncryptedSnapshot =
  es_version :: nat
  es_algorithm :: EncryptionAlgorithm
  es_vault_id :: bytes
  es_document_id :: bytes
  es_scope :: DocumentKind
  es_device_key_id :: bytes
  es_generation :: u64
  es_key_epoch :: u64
  es_nonce :: bytes
  es_ciphertext :: bytes
  es_history_nonce :: bytes
  es_history_ciphertext :: bytes

definition snapshot_header :: "EnvelopeContext \<Rightarrow> EncryptionAlgorithm \<Rightarrow> SnapshotPart \<Rightarrow> bytes" where
  "snapshot_header c algorithm part =
     SNAPSHOT_DOMAIN @ [char_of ENVELOPE_VERSION, char_of (part_code part),
       char_of (encryption_code algorithm)] @
     ec_vault_id c @ ec_document_id c @ lp (document_kind_as_str (ec_scope c)) @
     ec_device_key_id c @ be64 (unat (ec_generation c)) @ be64 (unat (ec_key_epoch c))"

definition envelope_context :: "EncryptedSnapshot \<Rightarrow> EnvelopeContext" where
  "envelope_context e =
     \<lparr>ec_vault_id = es_vault_id e, ec_document_id = es_document_id e, ec_scope = es_scope e,
      ec_device_key_id = es_device_key_id e, ec_generation = es_generation e,
      ec_key_epoch = es_key_epoch e\<rparr>"

definition envelope_decrypt ::
  "aead \<Rightarrow> EncryptedSnapshot \<Rightarrow> SnapshotPart \<Rightarrow> bytes \<Rightarrow> bytes vault_result" where
  "envelope_decrypt A e part data_key =
     rbind (guard (es_version e = ENVELOPE_VERSION) Signature) (\<lambda>_.
     let (nonce, ciphertext) = (case part of
           Records \<Rightarrow> (es_nonce e, es_ciphertext e)
         | History \<Rightarrow> (es_history_nonce e, es_history_ciphertext e));
         aad = snapshot_header (envelope_context e) (es_algorithm e) part in
     map_err (\<lambda>_. Crypto) (crypto_decrypt A (es_algorithm e) data_key nonce aad ciphertext))"

definition encrypt_snapshot ::
  "aead \<Rightarrow> string + bytes \<Rightarrow> string + bytes \<Rightarrow> EnvelopeContext \<Rightarrow> bytes \<Rightarrow> bytes \<Rightarrow> bytes
     \<Rightarrow> EncryptedSnapshot vault_result" where
  "encrypt_snapshot A drawn_records drawn_history c records history data_key =
     rbind (map_err (\<lambda>_. Crypto)
       (crypto_encrypt A drawn_records data_key (snapshot_header c Aes256Gcm Records) records))
       (\<lambda>encrypted_records.
     rbind (map_err (\<lambda>_. Crypto)
       (crypto_encrypt A drawn_history data_key (snapshot_header c Aes256Gcm History) history))
       (\<lambda>encrypted_history.
     Inr \<lparr>es_version = ENVELOPE_VERSION, es_algorithm = Aes256Gcm, es_vault_id = ec_vault_id c,
          es_document_id = ec_document_id c, es_scope = ec_scope c,
          es_device_key_id = ec_device_key_id c, es_generation = ec_generation c,
          es_key_epoch = ec_key_epoch c, es_nonce = ep_nonce encrypted_records,
          es_ciphertext = ep_ciphertext encrypted_records,
          es_history_nonce = ep_nonce encrypted_history,
          es_history_ciphertext = ep_ciphertext encrypted_history\<rparr>))"

definition decrypt_snapshot :: "aead \<Rightarrow> EncryptedSnapshot \<Rightarrow> bytes \<Rightarrow> bytes vault_result" where
  "decrypt_snapshot A e data_key = envelope_decrypt A e Records data_key"

definition decrypt_history :: "aead \<Rightarrow> EncryptedSnapshot \<Rightarrow> bytes \<Rightarrow> bytes vault_result" where
  "decrypt_history A e data_key = envelope_decrypt A e History data_key"

section \<open>Round trips\<close>

lemma aead_okD:
  assumes "aead_ok A" and "aead_seal A k n a p = Some c"
  shows "aead_open A k n a c = Some p \<and> length c = length p + 16"
  using assms unfolding aead_ok_def by blast

lemma crypto_encrypt_Inr [res_simps]:
  "crypto_encrypt A drawn key aad p = Inr e \<longleftrightarrow>
     (\<exists>n c. drawn = Inr n \<and> aead_seal A key n aad p = Some c \<and>
       e = \<lparr>ep_algorithm = Aes256Gcm, ep_nonce = n, ep_ciphertext = c\<rparr>)"
  by (cases drawn) (auto simp: crypto_encrypt_def res_simps)

lemma wrap_key_Inr [res_simps]:
  "wrap_key A drawn root aad p = Inr w \<longleftrightarrow>
     (\<exists>n c. drawn = Inr n \<and> aead_seal A root n aad p = Some c \<and>
       w = \<lparr>wk_algorithm = Aes256Gcm, wk_nonce = n, wk_ciphertext = c\<rparr>)"
  by (auto simp: wrap_key_def res_simps)

lemma unwrap_wrap_key:
  assumes "aead_ok A" and "wrap_key A drawn root aad p = Inr w" and "length p = KEY_BYTES"
  shows "unwrap_key A root aad w label = Inr p"
  using assms by (auto simp: wrap_key_Inr unwrap_key_def wrapped_validate_def decrypt_key_def
      dest!: aead_okD [OF assms(1)])

lemma unwrap_generated_key:
  assumes "aead_ok A" and "length (projr dk) = KEY_BYTES"
    and "generate_document_key A dk dn root inst vault doc kind epoch = Inr (key, w)"
  shows "unwrap_document_key A root inst vault doc kind epoch w = Inr key" "dk = Inr key"
proof -
  from assms(3) have drawn: "dk = Inr key"
    and w: "wrap_key A dn root (document_key_aad inst vault doc kind epoch) key = Inr w"
    by (cases dk; auto simp: generate_document_key_def res_simps)+
  show "dk = Inr key" by (fact drawn)
  show "unwrap_document_key A root inst vault doc kind epoch w = Inr key"
    unfolding unwrap_document_key_def by (rule unwrap_wrap_key [OF assms(1) w]) (use assms(2) drawn in simp)
qed

lemma encrypt_snapshot_Inr:
  "encrypt_snapshot A dr dh c records history key = Inr e \<longleftrightarrow>
     (\<exists>nr cr nh ch. dr = Inr nr \<and> dh = Inr nh \<and>
       aead_seal A key nr (snapshot_header c Aes256Gcm Records) records = Some cr \<and>
       aead_seal A key nh (snapshot_header c Aes256Gcm History) history = Some ch \<and>
       e = \<lparr>es_version = ENVELOPE_VERSION, es_algorithm = Aes256Gcm, es_vault_id = ec_vault_id c,
          es_document_id = ec_document_id c, es_scope = ec_scope c,
          es_device_key_id = ec_device_key_id c, es_generation = ec_generation c,
          es_key_epoch = ec_key_epoch c, es_nonce = nr, es_ciphertext = cr,
          es_history_nonce = nh, es_history_ciphertext = ch\<rparr>)"
  by (auto simp: encrypt_snapshot_def res_simps)

lemma envelope_context_encrypted:
  assumes "encrypt_snapshot A dr dh c records history key = Inr e"
  shows "envelope_context e = c"
  using assms by (auto simp: encrypt_snapshot_Inr envelope_context_def)

lemma decrypt_encrypted:
  assumes "aead_ok A" and "encrypt_snapshot A dr dh c records history key = Inr e"
  shows "decrypt_snapshot A e key = Inr records" "decrypt_history A e key = Inr history"
  using assms(2)
  by (cases c; auto simp: encrypt_snapshot_Inr decrypt_snapshot_def decrypt_history_def
      envelope_decrypt_def envelope_context_def crypto_decrypt_def provider_for_def
      dest!: aead_okD [OF assms(1)])+

section \<open>Associated data\<close>

definition envelope_wf :: "EnvelopeContext \<Rightarrow> bool" where
  "envelope_wf c \<longleftrightarrow> length (ec_vault_id c) = 16 \<and> length (ec_document_id c) = 32 \<and>
     length (ec_device_key_id c) = 32"

lemma lp_kind_eq [simp]:
  "lp (document_kind_as_str k) @ x = lp (document_kind_as_str k') @ y \<longleftrightarrow> k = k' \<and> x = y"
  "lp (document_kind_as_str k) = lp (document_kind_as_str k') \<longleftrightarrow> k = k'"
  by (simp_all only: lp_append_eq [OF document_kind_as_str_short document_kind_as_str_short]
      lp_eq [OF document_kind_as_str_short document_kind_as_str_short] document_kind_as_str_inject)

lemma part_code_eq [simp]: "part_code p mod 256 = part_code q mod 256 \<longleftrightarrow> p = q"
  by (cases p; cases q) (simp_all add: part_code_def)

lemma snapshot_header_eq:
  assumes "envelope_wf c" and "envelope_wf c'"
  shows "snapshot_header c a p = snapshot_header c' a' p' \<longleftrightarrow> c = c' \<and> p = p'"
  using assms by (cases c; cases c'; cases a; cases a')
    (auto simp: snapshot_header_def envelope_wf_def)

lemma document_key_aad_eq:
  assumes "length i = 16" "length i' = 16" "length v = 16" "length v' = 16"
    and "length d = 32" "length d' = 32"
  shows "document_key_aad i v d k n = document_key_aad i' v' d' k' n' \<longleftrightarrow>
    i = i' \<and> v = v' \<and> d = d' \<and> k = k' \<and> n = n'"
  using assms by (auto simp: document_key_aad_def)

end
