(* ===== verification/Manifest.thy ===== *)
theory Manifest
  imports Sealing
begin

text \<open>
  What the store signs and hashes: the commit chain of older vaults
  (\<open>src/src/vault/store/chain.rs\<close>), the head of each current document and the one signed
  manifest over all of them (\<open>src/src/vault/store/manifest.rs\<close>), and the payload of a
  signed permission (\<open>src/src/vault/signature.rs\<close>).  Signing and verification under the
  device key (ML-DSA-65) are the record \<open>signing\<close>.  The lemmas show that every object is
  hashed or signed from a transcript that determines it, so that two different objects
  with one identifier exhibit a SHA-256 collision.
\<close>

section \<open>Signing\<close>

datatype SignatureAlgorithm = MlDsa65

definition signature_code :: "SignatureAlgorithm \<Rightarrow> nat" where
  "signature_code a = (case a of MlDsa65 \<Rightarrow> 2)"

definition CURRENT_SIGNATURE_ALGORITHM :: SignatureAlgorithm where
  "CURRENT_SIGNATURE_ALGORITHM = MlDsa65"

record signing =
  sign_bytes :: "bytes \<Rightarrow> bytes vault_result"
  verify_bytes :: "bytes \<Rightarrow> bytes \<Rightarrow> bool"

text \<open>The documented contract of the device key: a signature it produced verifies.\<close>

definition signing_ok :: "signing \<Rightarrow> bool" where
  "signing_ok S \<longleftrightarrow> (\<forall>p s. sign_bytes S p = Inr s \<longrightarrow> verify_bytes S p s)"

definition verify_signature ::
  "signing \<Rightarrow> SignatureAlgorithm \<Rightarrow> bytes \<Rightarrow> bytes \<Rightarrow> unit vault_result" where
  "verify_signature S algorithm payload sig =
     (case algorithm of MlDsa65 \<Rightarrow> guard (verify_bytes S payload sig) Signature)"

definition PERMISSION_SIGNATURE_DOMAIN :: bytes where
  "PERMISSION_SIGNATURE_DOMAIN = ''factorseal/permission/v1'' @ [CHR 0x00]"

definition permission_payload :: "string \<Rightarrow> bytes \<Rightarrow> u64 option \<Rightarrow> bool \<Rightarrow> bytes" where
  "permission_payload ident challenge duration_seconds single_use =
     PERMISSION_SIGNATURE_DOMAIN @ lp ident @ challenge @
     (if single_use then [char_of (2::nat)]
      else case duration_seconds of
        Some duration \<Rightarrow> char_of (1::nat) # be64 (unat duration)
      | None \<Rightarrow> [char_of (0::nat)])"

section \<open>The commit chain of older vaults\<close>

definition COMMIT_VERSION :: nat where "COMMIT_VERSION = 6"

definition COMMIT_DOMAIN :: bytes where
  "COMMIT_DOMAIN = ''factorseal/protected-commit/v6'' @ [CHR 0x00]"

definition COMMIT_SIGNATURE_DOMAIN :: bytes where
  "COMMIT_SIGNATURE_DOMAIN = ''factorseal/protected-commit-signature/v6'' @ [CHR 0x00]"

record CommitContents =
  cc_previous_commit_id :: "bytes option"
  cc_vault_id :: bytes
  cc_document_id :: bytes
  cc_scope :: DocumentKind
  cc_generation :: u64
  cc_key_epoch :: u64
  cc_wrapped_key_digest :: bytes
  cc_snapshot_digest :: bytes
  cc_next_eviction :: "u64 option"
  cc_device_key_id :: bytes

record ProtectedCommit = CommitContents +
  pc_version :: nat
  pc_signature_algorithm :: SignatureAlgorithm
  pc_commit_id :: bytes
  pc_signature :: bytes

definition digest :: "'z hash_env_scheme \<Rightarrow> bytes \<Rightarrow> bytes" where
  "digest H b = sha256 H b"

definition commit_transcript :: "SignatureAlgorithm \<Rightarrow> CommitContents \<Rightarrow> bytes" where
  "commit_transcript algorithm c =
     COMMIT_DOMAIN @ [char_of COMMIT_VERSION, char_of (signature_code algorithm)] @
     (case cc_previous_commit_id c of Some previous \<Rightarrow> char_of (1::nat) # previous
      | None \<Rightarrow> [char_of (0::nat)]) @
     cc_vault_id c @ cc_document_id c @ lp (document_kind_as_str (cc_scope c)) @
     be64 (unat (cc_generation c)) @ be64 (unat (cc_key_epoch c)) @
     cc_wrapped_key_digest c @ cc_snapshot_digest c @
     (case cc_next_eviction c of Some deadline \<Rightarrow> char_of (1::nat) # be64 (unat deadline)
      | None \<Rightarrow> [char_of (0::nat)]) @
     cc_device_key_id c"

definition commit_signature_payload :: "bytes \<Rightarrow> bytes" where
  "commit_signature_payload commit_id = COMMIT_SIGNATURE_DOMAIN @ commit_id"

definition protected_commit_new ::
  "'z hash_env_scheme \<Rightarrow> signing \<Rightarrow> CommitContents \<Rightarrow> ProtectedCommit vault_result" where
  "protected_commit_new H S contents =
     (let commit_id = digest H (commit_transcript CURRENT_SIGNATURE_ALGORITHM contents) in
      rbind (sign_bytes S (commit_signature_payload commit_id)) (\<lambda>sig.
      Inr (CommitContents.extend contents (ProtectedCommit.fields COMMIT_VERSION
        CURRENT_SIGNATURE_ALGORITHM commit_id sig))))"

definition protected_commit_verify ::
  "'z hash_env_scheme \<Rightarrow> signing \<Rightarrow> ProtectedCommit \<Rightarrow> bytes \<Rightarrow> bytes \<Rightarrow> unit vault_result" where
  "protected_commit_verify H S c expected_commit_id expected_device_key_id =
     rbind (guard (\<not> (pc_version c \<noteq> COMMIT_VERSION \<or> pc_commit_id c \<noteq> expected_commit_id \<or>
       cc_device_key_id c \<noteq> expected_device_key_id)) Signature) (\<lambda>_.
     rbind (guard (digest H (commit_transcript (pc_signature_algorithm c) (CommitContents.truncate c)) = pc_commit_id c)
       Signature) (\<lambda>_.
     verify_signature S (pc_signature_algorithm c) (commit_signature_payload (pc_commit_id c))
       (pc_signature c)))"

section \<open>Current heads and the signed manifest\<close>

definition CURRENT_SCHEMA_VERSION :: nat where "CURRENT_SCHEMA_VERSION = 6"

definition HEAD_DOMAIN :: bytes where
  "HEAD_DOMAIN = ''factorseal/current-document-head/v1'' @ [CHR 0x00]"

definition INVENTORY_DOMAIN :: bytes where
  "INVENTORY_DOMAIN = ''factorseal/current-document-inventory/v1'' @ [CHR 0x00]"

definition MANIFEST_DOMAIN :: bytes where
  "MANIFEST_DOMAIN = ''factorseal/current-state-manifest/v1'' @ [CHR 0x00]"

definition SIGNATURE_DOMAIN :: bytes where
  "SIGNATURE_DOMAIN = ''factorseal/current-state-signature/v1'' @ [CHR 0x00]"

record CurrentHead =
  ch_head_id :: bytes
  ch_vault_id :: bytes
  ch_document_id :: bytes
  ch_scope :: DocumentKind
  ch_generation :: u64
  ch_key_epoch :: u64
  ch_wrapped_key_digest :: bytes
  ch_snapshot_digest :: bytes
  ch_next_eviction :: "u64 option"
  ch_device_key_id :: bytes

definition head_transcript :: "CurrentHead \<Rightarrow> bytes" where
  "head_transcript h =
     HEAD_DOMAIN @ ch_vault_id h @ ch_document_id h @
     lp (document_kind_as_str (ch_scope h)) @
     be64 (unat (ch_generation h)) @ be64 (unat (ch_key_epoch h)) @
     ch_wrapped_key_digest h @ ch_snapshot_digest h @
     [char_of (of_bool (ch_next_eviction h \<noteq> None) :: nat)] @
     be64 (unat (case ch_next_eviction h of Some t \<Rightarrow> t | None \<Rightarrow> 0)) @
     ch_device_key_id h"

definition calculate_id :: "'z hash_env_scheme \<Rightarrow> CurrentHead \<Rightarrow> bytes" where
  "calculate_id H h = sha256 H (head_transcript h)"

definition current_head_new :: "'z hash_env_scheme \<Rightarrow> CommitContents \<Rightarrow> CurrentHead" where
  "current_head_new H c =
     (let head = \<lparr>ch_head_id = replicate 32 (CHR 0x00), ch_vault_id = cc_vault_id c,
        ch_document_id = cc_document_id c, ch_scope = cc_scope c, ch_generation = cc_generation c,
        ch_key_epoch = cc_key_epoch c, ch_wrapped_key_digest = cc_wrapped_key_digest c,
        ch_snapshot_digest = cc_snapshot_digest c, ch_next_eviction = cc_next_eviction c,
        ch_device_key_id = cc_device_key_id c\<rparr>
      in head\<lparr>ch_head_id := calculate_id H head\<rparr>)"

definition head_verify :: "'z hash_env_scheme \<Rightarrow> CurrentHead \<Rightarrow> bytes \<Rightarrow> unit vault_result" where
  "head_verify H h expected =
     guard (\<not> (ch_head_id h \<noteq> expected \<or> calculate_id H h \<noteq> expected)) Signature"

definition inventory_transcript :: "(bytes \<times> bytes) list \<Rightarrow> bytes" where
  "inventory_transcript heads = INVENTORY_DOMAIN @ concat (map (\<lambda>(document, head). document @ head) heads)"

definition inventory_digest :: "'z hash_env_scheme \<Rightarrow> (bytes \<times> bytes) list \<Rightarrow> bytes" where
  "inventory_digest H heads = sha256 H (inventory_transcript heads)"

record StateManifest =
  sm_version :: nat
  sm_signature_algorithm :: SignatureAlgorithm
  sm_vault_id :: bytes
  sm_device_key_id :: bytes
  sm_document_count :: u64
  sm_inventory_digest :: bytes
  sm_repack_pending :: bool
  sm_manifest_id :: bytes
  sm_signature :: bytes

definition manifest_transcript :: "StateManifest \<Rightarrow> bytes" where
  "manifest_transcript m =
     MANIFEST_DOMAIN @ be_bytes 4 (sm_version m) @ [char_of (signature_code (sm_signature_algorithm m))] @
     sm_vault_id m @ sm_device_key_id m @ be64 (unat (sm_document_count m)) @
     sm_inventory_digest m @ [char_of (of_bool (sm_repack_pending m) :: nat)]"

definition manifest_signature_payload :: "StateManifest \<Rightarrow> bytes" where
  "manifest_signature_payload m = SIGNATURE_DOMAIN @ sm_manifest_id m"

definition manifest_new ::
  "'z hash_env_scheme \<Rightarrow> signing \<Rightarrow> bytes \<Rightarrow> bytes \<Rightarrow> u64 \<Rightarrow> bytes \<Rightarrow> bool \<Rightarrow> StateManifest vault_result" where
  "manifest_new H S vault_id device_key_id document_count inventory repack_pending =
     (let m = \<lparr>sm_version = CURRENT_SCHEMA_VERSION, sm_signature_algorithm = CURRENT_SIGNATURE_ALGORITHM,
        sm_vault_id = vault_id, sm_device_key_id = device_key_id, sm_document_count = document_count,
        sm_inventory_digest = inventory, sm_repack_pending = repack_pending,
        sm_manifest_id = replicate 32 (CHR 0x00), sm_signature = []\<rparr>;
          m = m\<lparr>sm_manifest_id := digest H (manifest_transcript m)\<rparr>
      in rbind (sign_bytes S (manifest_signature_payload m)) (\<lambda>sig. Inr (m\<lparr>sm_signature := sig\<rparr>)))"

definition manifest_verify ::
  "'z hash_env_scheme \<Rightarrow> signing \<Rightarrow> StateManifest \<Rightarrow> bytes \<Rightarrow> bytes \<Rightarrow> unit vault_result" where
  "manifest_verify H S m vault_id device_key_id =
     rbind (guard (\<not> (sm_version m \<noteq> CURRENT_SCHEMA_VERSION \<or> sm_vault_id m \<noteq> vault_id \<or>
       sm_device_key_id m \<noteq> device_key_id \<or> digest H (manifest_transcript m) \<noteq> sm_manifest_id m))
       Signature) (\<lambda>_.
     verify_signature S (sm_signature_algorithm m) (manifest_signature_payload m) (sm_signature m))"

section \<open>Transcripts determine what they describe\<close>

definition collision :: "'z hash_env_scheme \<Rightarrow> bytes \<Rightarrow> bytes \<Rightarrow> bool" where
  "collision H x y \<longleftrightarrow> x \<noteq> y \<and> sha256 H x = sha256 H y"

definition contents_wf :: "CommitContents \<Rightarrow> bool" where
  "contents_wf c \<longleftrightarrow> (\<forall>p. cc_previous_commit_id c = Some p \<longrightarrow> length p = 32) \<and>
     length (cc_vault_id c) = 16 \<and> length (cc_document_id c) = 32 \<and>
     length (cc_wrapped_key_digest c) = 32 \<and> length (cc_snapshot_digest c) = 32 \<and>
     length (cc_device_key_id c) = 32"

definition head_wf :: "CurrentHead \<Rightarrow> bool" where
  "head_wf h \<longleftrightarrow> length (ch_vault_id h) = 16 \<and> length (ch_document_id h) = 32 \<and>
     length (ch_wrapped_key_digest h) = 32 \<and> length (ch_snapshot_digest h) = 32 \<and>
     length (ch_device_key_id h) = 32"

definition manifest_wf :: "StateManifest \<Rightarrow> bool" where
  "manifest_wf m \<longleftrightarrow> sm_version m < 2 ^ 32 \<and> length (sm_vault_id m) = 16 \<and>
     length (sm_device_key_id m) = 32 \<and> length (sm_inventory_digest m) = 32"

lemma option_tag_append_eq:
  assumes "\<forall>x. a = Some x \<longrightarrow> length x = n" and "\<forall>x. b = Some x \<longrightarrow> length x = n"
  shows "(case a of Some x \<Rightarrow> char_of (1::nat) # x | None \<Rightarrow> [char_of (0::nat)]) @ u =
         (case b of Some x \<Rightarrow> char_of (1::nat) # x | None \<Rightarrow> [char_of (0::nat)]) @ v \<longleftrightarrow>
         a = b \<and> u = v"
  using assms by (cases a; cases b) auto

lemma deadline_tag_append_eq:
  "(case a of Some t \<Rightarrow> char_of (1::nat) # be64 (unat (t::u64)) | None \<Rightarrow> [char_of (0::nat)]) @ u =
   (case b of Some t \<Rightarrow> char_of (1::nat) # be64 (unat t) | None \<Rightarrow> [char_of (0::nat)]) @ v \<longleftrightarrow>
     a = b \<and> u = v"
  by (cases a; cases b) auto

lemma commit_transcript_eq:
  assumes "contents_wf c" and "contents_wf c'"
  shows "commit_transcript a c = commit_transcript a' c' \<longleftrightarrow> c = c'"
proof -
  obtain p v d s g e w n t k where c: "c = \<lparr>cc_previous_commit_id = p, cc_vault_id = v,
      cc_document_id = d, cc_scope = s, cc_generation = g, cc_key_epoch = e,
      cc_wrapped_key_digest = w, cc_snapshot_digest = n, cc_next_eviction = t, cc_device_key_id = k\<rparr>"
    by (cases c)
  obtain p' v' d' s' g' e' w' n' t' k' where c': "c' = \<lparr>cc_previous_commit_id = p', cc_vault_id = v',
      cc_document_id = d', cc_scope = s', cc_generation = g', cc_key_epoch = e',
      cc_wrapped_key_digest = w', cc_snapshot_digest = n', cc_next_eviction = t', cc_device_key_id = k'\<rparr>"
    by (cases c')
  have "a = a'" by (cases a; cases a') simp
  with assms show ?thesis unfolding c c'
    by (auto simp: commit_transcript_def contents_wf_def option_tag_append_eq [of p 32 p']
        deadline_tag_append_eq)
qed

lemma head_transcript_eq:
  assumes "head_wf h" and "head_wf h'"
  shows "head_transcript h = head_transcript h' \<longleftrightarrow> h\<lparr>ch_head_id := i\<rparr> = h'\<lparr>ch_head_id := i\<rparr>"
  using assms by (cases h; cases h') (auto simp: head_transcript_def head_wf_def split: option.splits)

lemma signature_code_eq [simp]: "signature_code a mod 256 = signature_code b mod 256 \<longleftrightarrow> a = b"
  by (cases a; cases b) simp

lemma manifest_transcript_eq:
  assumes "manifest_wf m" and "manifest_wf m'"
  shows "manifest_transcript m = manifest_transcript m' \<longleftrightarrow>
    m\<lparr>sm_manifest_id := i, sm_signature := s\<rparr> = m'\<lparr>sm_manifest_id := i, sm_signature := s\<rparr>"
  using assms by (cases m; cases m') (auto simp: manifest_transcript_def manifest_wf_def be_bytes_eq [of 4])

lemma inventory_transcript_eq:
  assumes "\<forall>(d, h) \<in> set xs \<union> set ys. length d = 32 \<and> length h = 32"
  shows "inventory_transcript xs = inventory_transcript ys \<longleftrightarrow> xs = ys"
proof -
  have "concat (map (\<lambda>(d, h). d @ h) xs) = concat (map (\<lambda>(d, h). d @ h) ys) \<Longrightarrow> xs = ys"
    using assms
  proof (induction xs arbitrary: ys)
    case Nil
    then show ?case by (cases ys) auto
  next
    case (Cons x xs)
    then show ?case by (cases ys) auto
  qed
  then show ?thesis by (auto simp: inventory_transcript_def)
qed

lemma permission_payload_eq:
  assumes "length i < 2 ^ 64" "length i' < 2 ^ 64" "length c = 32" "length c' = 32"
  shows "permission_payload i c d b = permission_payload i' c' d' b' \<longleftrightarrow>
    i = i' \<and> c = c' \<and> b = b' \<and> (\<not> b \<longrightarrow> d = d')"
  using assms(3,4) unfolding permission_payload_def
  by (auto simp: lp_append_eq [OF assms(1,2)] split: if_splits option.splits)

lemma verify_signature_ok [res_simps]:
  "verify_signature S a p s = Inr u \<longleftrightarrow> verify_bytes S p s"
  by (cases a) (simp add: verify_signature_def guard_iff)

lemma protected_commit_roundtrip:
  assumes "signing_ok S" and "protected_commit_new H S c = Inr p"
  shows "protected_commit_verify H S p (pc_commit_id p) (cc_device_key_id c) = Inr ()"
  using assms by (cases c) (auto simp: protected_commit_new_def protected_commit_verify_def Let_def
      res_simps CommitContents.defs ProtectedCommit.defs signing_ok_def)

lemma manifest_new_Inr:
  assumes "manifest_new H S v k n i r = Inr m"
  shows "sm_vault_id m = v \<and> sm_device_key_id m = k \<and> sm_document_count m = n \<and>
    sm_inventory_digest m = i \<and> sm_repack_pending m = r"
  using assms by (auto simp: manifest_new_def Let_def res_simps)

lemma manifest_roundtrip:
  assumes "signing_ok S" and "manifest_new H S v k n i r = Inr m"
  shows "manifest_verify H S m v k = Inr ()"
  using assms by (auto simp: manifest_new_def manifest_verify_def Let_def res_simps signing_ok_def
      manifest_transcript_def manifest_signature_payload_def)

lemma current_head_new_verify: "head_verify H (current_head_new H c) (ch_head_id (current_head_new H c)) = Inr ()"
  by (simp add: head_verify_def current_head_new_def calculate_id_def head_transcript_def Let_def)

lemma head_verify_unique:
  assumes "head_verify H h i = Inr u" and "head_verify H h' i = Inr u'" and "head_wf h" and "head_wf h'"
  shows "h = h' \<or> collision H (head_transcript h) (head_transcript h')"
  using assms head_transcript_eq [OF assms(3,4), of i]
  by (cases h; cases h'; auto simp: head_verify_def calculate_id_def collision_def guard_iff)

end
