(* ===== verification/Secret_Service_Data.thy ===== *)
theory Secret_Service_Data
  imports Document "HOL-Library.Finite_Map"
begin

text \<open>
  The index of desktop keyring items (\<open>src/src/vault/secret_service_data.rs\<close>), the project
  a keyring item belongs to, the display summary of a personal item
  (\<open>src/src/vault/document/personal.rs\<close>), and the value-free metadata of one vault entry
  (\<open>src/src/vault/protocol/wire.rs\<close>).
\<close>

section \<open>The index\<close>

definition SECRET_SERVICE_NAMESPACE :: bytes where
  "SECRET_SERVICE_NAMESPACE = ''factorseal/secret-service/v1''"

definition INDEX_ITEM :: string where "INDEX_ITEM = ''secret-service-index''"

record IndexItem =
  ii_id :: string
  ii_label :: string
  ii_attributes :: "(string, string) fmap"
  ii_content_type :: string
  ii_created :: u64
  ii_modified :: u64

record Index =
  ix_version :: nat
  ix_items :: "IndexItem list"

definition index_default :: Index where
  "index_default = \<lparr>ix_version = 1, ix_items = []\<rparr>"

definition is_ascii_hexdigit :: "char \<Rightarrow> bool" where
  "is_ascii_hexdigit c \<longleftrightarrow> (let b = (of_char c :: nat) in
     48 \<le> b \<and> b \<le> 57 \<or> 65 \<le> b \<and> b \<le> 70 \<or> 97 \<le> b \<and> b \<le> 102)"

definition item_validate :: "IndexItem \<Rightarrow> unit vault_result" where
  "item_validate item =
     guard (\<not> (length (ii_id item) \<noteq> 32 \<or> \<not> list_all is_ascii_hexdigit (ii_id item)))
       (InvalidData ''invalid Secret Service item ID'')"

fun validate_items :: "IndexItem list \<Rightarrow> string fset \<Rightarrow> unit vault_result" where
  "validate_items [] ids = Inr ()"
| "validate_items (item # items) ids =
     rbind (item_validate item) (\<lambda>_.
     rbind (guard (ii_id item |\<notin>| ids) (InvalidData ''duplicate Secret Service item ID'')) (\<lambda>_.
     validate_items items (finsert (ii_id item) ids)))"

definition index_decode :: "Index json \<Rightarrow> bytes option \<Rightarrow> Index vault_result" where
  "index_decode J b =
     rbind (case b of
         None \<Rightarrow> Inr index_default
       | Some b \<Rightarrow> map_err (\<lambda>e. InvalidData (''invalid Secret Service index: '' @ e)) (from_slice J b)) (\<lambda>index.
     rbind (guard (\<not> (ix_version index \<noteq> 1 \<or> 100000 < length (ix_items index)))
       (InvalidData ''unsupported Secret Service index'')) (\<lambda>_.
     rbind (validate_items (ix_items index) {||}) (\<lambda>_.
     Inr index)))"

definition item_address :: "IndexItem \<Rightarrow> SecretAddress vault_result" where
  "item_address item = address_new (''item/'' @ ii_id item) None"

text \<open>An item of a portable backup: metadata and value in one record.  \<open>lock\<close> is the
  allocation of locked memory for a number of bytes.\<close>

record PortableItem =
  pi_version :: nat
  pi_item :: IndexItem
  pi_value :: bytes

definition portable_new :: "IndexItem \<Rightarrow> bytes \<Rightarrow> PortableItem" where
  "portable_new item v = \<lparr>pi_version = 1, pi_item = item, pi_value = v\<rparr>"

definition portable_encode ::
  "(nat \<Rightarrow> unit vault_result) \<Rightarrow> PortableItem json \<Rightarrow> PortableItem \<Rightarrow> bytes vault_result" where
  "portable_encode lock J p =
     rbind (map_err InvalidData (to_vec J p)) (\<lambda>b. rbind (lock (length b)) (\<lambda>_. Inr b))"

definition portable_decode :: "PortableItem json \<Rightarrow> bytes \<Rightarrow> SecretAddress \<Rightarrow> PortableItem vault_result" where
  "portable_decode J b address =
     rbind (map_err InvalidData (from_slice J b)) (\<lambda>p.
     rbind (item_validate (pi_item p)) (\<lambda>_.
     rbind (if pi_version p \<noteq> 1 then Inl (InvalidData ''invalid portable Secret Service item'')
            else rbind (item_address (pi_item p)) (\<lambda>own.
              guard (own = address) (InvalidData ''invalid portable Secret Service item''))) (\<lambda>_.
     Inr p)))"

section \<open>Projects of keyring items\<close>

text \<open>What naming a service uses of other packages: hexadecimal text and the JSON of a map.\<close>

record naming =
  hex_encode :: "bytes \<Rightarrow> string"
  attributes_json :: "(string \<times> string) list \<Rightarrow> bytes"

definition service_target :: "'z hash_env_scheme \<Rightarrow> naming \<Rightarrow> (string, string) fmap \<Rightarrow> string" where
  "service_target H N attributes =
     (case fmlookup attributes ''service'' of
        Some service \<Rightarrow>
          if service \<noteq> '''' then ''service/'' @ service
          else ''attributes/'' @ hex_encode N (sha256 H (attributes_json N
            (map (\<lambda>k. (k, the (fmlookup attributes k))) (sorted_list_of_fset (fmdom attributes)))))
      | None \<Rightarrow> ''attributes/'' @ hex_encode N (sha256 H (attributes_json N
            (map (\<lambda>k. (k, the (fmlookup attributes k))) (sorted_list_of_fset (fmdom attributes))))))"

text \<open>\<open>str::splitn\<close> and \<open>str::strip_prefix\<close>.\<close>

fun splitn :: "nat \<Rightarrow> char \<Rightarrow> string \<Rightarrow> string list" where
  "splitn 0 c s = []"
| "splitn (Suc 0) c s = [s]"
| "splitn (Suc (Suc n)) c s = (case dropWhile (\<lambda>x. x \<noteq> c) s of
     [] \<Rightarrow> [s] | _ # rest \<Rightarrow> takeWhile (\<lambda>x. x \<noteq> c) s # splitn (Suc n) c rest)"

definition strip_prefix :: "string \<Rightarrow> string \<Rightarrow> string option" where
  "strip_prefix p s = (if take (length p) s = p then Some (drop (length p) s) else None)"

definition access_project :: "string \<Rightarrow> string \<times> string option" where
  "access_project service =
     (let parts = splitn 4 (CHR ''/'') (case strip_prefix ''service/'' service of None \<Rightarrow> service | Some s \<Rightarrow> s) in
      if length parts = 4 \<and> parts ! 0 = ''secretspec'' \<and> parts ! 1 \<noteq> '''' \<and> parts ! 2 \<noteq> ''''
      then (''secretspec/'' @ parts ! 1, Some (parts ! 2))
      else (service, None))"

section \<open>Summaries of personal items\<close>

record PersonalSummary =
  su_title :: string
  su_kind :: string
  su_username :: "string option"
  su_website :: "string option"
  su_updated_at :: u64
  su_favorite :: bool

definition display_text :: "string \<Rightarrow> string" where
  "display_text v = take (boundary_below v (min (length v) 1024)) v"

definition personal_summary ::
  "('d, 'r, 'i, 'z) doc_env_scheme \<Rightarrow> 'd SecretDocument \<Rightarrow> SecretAddress \<Rightarrow> PersonalSummary option vault_result" where
  "personal_summary E D address =
     (if \<not> is_personal D then Inr None
      else rbind (document_records E D (storage_key E address)) (\<lambda>records.
        case records of
          [] \<Rightarrow> Inr None
        | first # _ \<Rightarrow>
            rbind (ok_or (decode_current (personal E) (sr_value first)) (InvalidData ''invalid personal item'')) (\<lambda>item.
            Inr (Some \<lparr>su_title = display_text (item_title (personal E) item),
              su_kind = item_kind_label (personal E) item,
              su_username = map_option display_text (item_username (personal E) item),
              su_website = item_website_host (personal E) item,
              su_updated_at = foldl max (sr_updated_at first) (map sr_updated_at (tl records)),
              su_favorite = item_favorite (personal E) item\<rparr>))))"

section \<open>Entry metadata\<close>

text \<open>Value-free coordinates of one entry of a user-facing document.\<close>

record VaultEntryMetadata =
  vm_access_project :: "string option"
  vm_display_name :: "string option"
  vm_display_type :: "string option"
  vm_display_username :: "string option"
  vm_display_website :: "string option"
  vm_updated_at :: "u64 option"
  vm_favorite :: bool
  vm_document_kind :: DocumentKind
  vm_partition :: bytes
  vm_address :: SecretAddress

end
