(* ===== verification/Store.thy ===== *)
theory Store
  imports Manifest Secret_Service_Data
begin

text \<open>
  The encrypted store (\<open>src/src/vault/store/worker.rs\<close> and \<open>store/worker/mutation.rs\<close>,
  \<open>state.rs\<close>, \<open>integrity.rs\<close>, with the column readers of \<open>store/database.rs\<close>).  The
  database is one finite map per table of the schema, with the columns typed as the schema
  declares them; \<open>i64\<close> columns are 64-bit words read as signed.  A transaction works on
  the tables and is undone on error.  Every SQL statement may fail, as the oracle
  \<open>db_fault\<close> says, and a commit that reports failure may or may not have reached the disk
  (\<open>commit_fault\<close>).  Random bytes come from the oracle \<open>entropy\<close>.  The \<open>vaults\<close> table,
  which a current store only references, is left out.
\<close>

type_synonym i64 = "64 word"

section \<open>The environment of a worker\<close>

text \<open>Device metadata, unsealed keys, codecs and oracles a \<open>StoreWorker\<close> is opened with.\<close>

record ('d, 'r, 'i) store_env = "('d, 'r, 'i) doc_env" +
  installation_id :: bytes
  device_vault_id :: bytes
  device_key_id :: bytes
  actor_id :: bytes
  root_key :: bytes
  index_key :: bytes
  cipher :: aead
  signer :: signing
  j_wrapped :: "WrappedKey json"
  j_envelope :: "EncryptedSnapshot json"
  j_head :: "CurrentHead json"
  j_manifest :: "StateManifest json"
  j_log :: "HistoryLog json"
  j_entry :: "HistoryEntry json"
  j_index :: "Index json"
  names :: naming
  entropy :: "nat \<Rightarrow> nat \<Rightarrow> string + bytes"
  db_fault :: "nat \<Rightarrow> string option"
  commit_fault :: "nat \<Rightarrow> (string \<times> bool) option"
  checkpoint_rows :: "nat \<Rightarrow> i64 list"

section \<open>Tables\<close>

record SqlDocument =
  sq_vault_id :: bytes
  sq_document_kind :: string
  sq_generation :: i64
  sq_key_epoch :: i64
  sq_wrapped_dek :: bytes
  sq_current_commit_id :: bytes
  sq_next_eviction :: "i64 option"

record Db =
  db_documents :: "(bytes, SqlDocument) fmap"
  db_snapshots :: "(bytes \<times> i64, bytes) fmap"
  db_heads :: "(bytes, bytes \<times> bytes) fmap"
  db_meta :: "(string, bytes) fmap"

definition array_from_blob :: "nat \<Rightarrow> bytes \<Rightarrow> string \<Rightarrow> bytes vault_result" where
  "array_from_blob n b name =
     (if length b = n then Inr b else Inl (InvalidData (name @ '' has the wrong size'')))"

definition to_i64 :: "u64 \<Rightarrow> i64 vault_result" where
  "to_i64 v = (if 0 \<le> sint v then Inr v else Inl (InvalidData ''integer exceeds database range''))"

definition from_i64 :: "i64 \<Rightarrow> string \<Rightarrow> u64 vault_result" where
  "from_i64 v name = (if 0 \<le> sint v then Inr v else Inl (InvalidData (name @ '' is negative'')))"

definition row_deadline :: "i64 option \<Rightarrow> u64 option vault_result" where
  "row_deadline v = (case v of None \<Rightarrow> Inr None
     | Some v \<Rightarrow> rbind (from_i64 v ''eviction deadline'') (\<lambda>t. Inr (Some t)))"

section \<open>Worker state\<close>

record DocumentRow =
  dr_vault_id :: bytes
  dr_document_id :: bytes
  dr_scope :: DocumentKind
  dr_generation :: u64
  dr_key_epoch :: u64
  dr_wrapped_key_digest :: bytes
  dr_current_commit_id :: bytes
  dr_next_eviction :: "u64 option"

record VerifiedDocument =
  vd_row :: DocumentRow
  vd_snapshot_digest :: bytes
  vd_snapshot_bytes :: u64

record VerifiedStoreState =
  vs_head :: "bytes option"
  vs_documents :: "(bytes, VerifiedDocument) fmap"
  vs_manifest_digest :: "bytes option"

record StoreWorker =
  sw_db :: Db
  sw_verified :: VerifiedStoreState
  sw_io :: nat
  sw_rng :: nat

record DocumentHead =
  dh_current_commit_id :: bytes
  dh_generation :: u64
  dh_key_epoch :: u64
  dh_wrapped_dek :: bytes
  dh_envelope :: EncryptedSnapshot
  dh_data_key :: bytes

record 'd LoadedDocument =
  ld_document :: "'d SecretDocument"
  ld_head :: DocumentHead

type_synonym 'a store_action = "(StoreWorker, VaultError, 'a) action"

text \<open>One SQL statement, one commit, one draw of random bytes.\<close>

definition statement :: "('d, 'r, 'i, 'z) store_env_scheme \<Rightarrow> unit store_action" where
  "statement E w =
     ((case db_fault E (sw_io w) of Some e \<Rightarrow> Inl (Database e) | None \<Rightarrow> Inr ()),
      w\<lparr>sw_io := Suc (sw_io w)\<rparr>)"

definition query :: "('d, 'r, 'i, 'z) store_env_scheme \<Rightarrow> (Db \<Rightarrow> 'a) \<Rightarrow> 'a store_action" where
  "query E f = sbind (statement E) (\<lambda>_. sget (\<lambda>w. f (sw_db w)))"

definition update :: "('d, 'r, 'i, 'z) store_env_scheme \<Rightarrow> (Db \<Rightarrow> Db) \<Rightarrow> unit store_action" where
  "update E f = sbind (statement E) (\<lambda>_. smodify (\<lambda>w. w\<lparr>sw_db := f (sw_db w)\<rparr>))"

definition commit_or_undo ::
  "('d, 'r, 'i, 'z) store_env_scheme \<Rightarrow> Db \<Rightarrow> unit store_action" where
  "commit_or_undo E before w =
     (let w' = w\<lparr>sw_io := Suc (sw_io w)\<rparr> in
      case commit_fault E (sw_io w) of
        None \<Rightarrow> (Inr (), w')
      | Some (e, reached) \<Rightarrow> (Inl (Database e), if reached then w' else w'\<lparr>sw_db := before\<rparr>))"

definition transaction ::
  "('d, 'r, 'i, 'z) store_env_scheme \<Rightarrow> 'a store_action \<Rightarrow> 'a store_action" where
  "transaction E body =
     sbind (statement E) (\<lambda>_. sbind (sget sw_db) (\<lambda>before.
     sbind (\<lambda>w. case body w of (Inl e, w') \<Rightarrow> (Inl e, w'\<lparr>sw_db := before\<rparr>) | (Inr x, w') \<Rightarrow> (Inr x, w'))
       (\<lambda>x. sbind (commit_or_undo E before) (\<lambda>_. sret x))))"

definition draw :: "('d, 'r, 'i, 'z) store_env_scheme \<Rightarrow> nat \<Rightarrow> (string + bytes) store_action" where
  "draw E n w = (Inr (entropy E (sw_rng w) n), w\<lparr>sw_rng := Suc (sw_rng w)\<rparr>)"

section \<open>The anchor of the current state\<close>

definition MAX_MANIFEST_BYTES :: nat where "MAX_MANIFEST_BYTES = 32 * 1024"

definition current_commit_head ::
  "('d, 'r, 'i, 'z) store_env_scheme \<Rightarrow> bytes option store_action" where
  "current_commit_head E =
     sbind (query E (\<lambda>db. fmlookup (db_meta db) ''current-commit-head'')) (\<lambda>v.
     case v of
       None \<Rightarrow> sret None
     | Some b \<Rightarrow> slift (rbind (array_from_blob 32 b ''current commit head'') (\<lambda>b. Inr (Some b))))"

definition read_manifest ::
  "('d, 'r, 'i, 'z) store_env_scheme \<Rightarrow> (StateManifest \<times> bytes) store_action" where
  "read_manifest E =
     sbind (query E (\<lambda>db. fmlookup (db_meta db) ''current-state-manifest'')) (\<lambda>v.
     slift (rbind (ok_or v (InvalidData ''current-state manifest is missing'')) (\<lambda>b.
       rbind (guard (length b \<le> MAX_MANIFEST_BYTES)
         (InvalidData ''current-state manifest is too large'')) (\<lambda>_.
       rbind (map_err InvalidData (from_slice (j_manifest E) b)) (\<lambda>m. Inr (m, b))))))"

definition verify_state_anchor :: "('d, 'r, 'i, 'z) store_env_scheme \<Rightarrow> unit store_action" where
  "verify_state_anchor E =
     sbind (read_manifest E) (\<lambda>(_, b).
     sbind (sget (vs_manifest_digest \<circ> sw_verified)) (\<lambda>manifest_digest.
     if Some (digest E b) \<noteq> manifest_digest then slift (Inl Signature)
     else sbind (current_commit_head E) (\<lambda>head.
       sread (\<lambda>w. guard (head = vs_head (sw_verified w)) Signature))))"

section \<open>Rows and inventory\<close>

text \<open>The columns of a \<open>documents\<close> row after its two identifiers.\<close>

definition row_columns ::
  "('d, 'r, 'i, 'z) store_env_scheme \<Rightarrow> bytes \<Rightarrow> bytes \<Rightarrow> SqlDocument \<Rightarrow> DocumentRow vault_result" where
  "row_columns E vault_id document_id r =
     rbind (document_kind_parse (sq_document_kind r)) (\<lambda>scope.
     rbind (from_i64 (sq_generation r) ''document generation'') (\<lambda>generation.
     rbind (from_i64 (sq_key_epoch r) ''document key epoch'') (\<lambda>key_epoch.
     rbind (array_from_blob 32 (sq_current_commit_id r) ''document commit ID'') (\<lambda>current_commit_id.
     rbind (row_deadline (sq_next_eviction r)) (\<lambda>next_eviction.
     Inr \<lparr>dr_vault_id = vault_id, dr_document_id = document_id, dr_scope = scope,
          dr_generation = generation, dr_key_epoch = key_epoch,
          dr_wrapped_key_digest = digest E (sq_wrapped_dek r),
          dr_current_commit_id = current_commit_id, dr_next_eviction = next_eviction\<rparr>)))))"

definition document_rows ::
  "('d, 'r, 'i, 'z) store_env_scheme \<Rightarrow> DocumentRow list store_action" where
  "document_rows E =
     sbind (query E db_documents) (\<lambda>documents.
     slift (rmapM (\<lambda>ident. let r = the (fmlookup documents ident) in
         rbind (array_from_blob 16 (sq_vault_id r) ''vault ID'') (\<lambda>vault_id.
         rbind (array_from_blob 32 ident ''document ID'') (\<lambda>document_id.
         row_columns E vault_id document_id r)))
       (sorted_list_of_fset (fmdom documents))))"

definition verify_inventory ::
  "('d, 'r, 'i, 'z) store_env_scheme \<Rightarrow> VerifiedStoreState \<Rightarrow> unit store_action" where
  "verify_inventory E verified =
     sbind (current_commit_head E) (\<lambda>head.
     if head \<noteq> vs_head verified then slift (Inl Signature)
     else sbind (document_rows E) (\<lambda>rows.
       if length rows \<noteq> fcard (fmdom (vs_documents verified))
       then slift (Inl (InvalidData ''protected document inventory changed''))
       else slift (rforM (\<lambda>row. guard (map_option vd_row (fmlookup (vs_documents verified)
              (dr_document_id row)) = Some row)
            (InvalidData ''document is not at its newest protected commit or signed metadata changed''))
          rows)))"

definition verify_current_row_sets :: "('d, 'r, 'i, 'z) store_env_scheme \<Rightarrow> unit store_action" where
  "verify_current_row_sets E =
     sbind (sget (\<lambda>w. fcard (fmdom (vs_documents (sw_verified w))))) (\<lambda>expected.
     sbind (query E (\<lambda>db. fcard (fmdom (db_heads db)))) (\<lambda>heads.
     if heads \<noteq> expected then slift (Inl (InvalidData ''current-state row inventory changed''))
     else sbind (query E (\<lambda>db. fcard (fmdom (db_snapshots db)))) (\<lambda>snapshots.
     if snapshots \<noteq> expected then slift (Inl (InvalidData ''current-state row inventory changed''))
     else sbind (query E (\<lambda>db. fcard (ffilter (\<lambda>(document_id, generation).
            map_option sq_generation (fmlookup (db_documents db) document_id) \<noteq> Some generation)
          (fmdom (db_snapshots db))))) (\<lambda>stray.
       slift (guard (stray = 0) Signature)))))"

definition verify_live_inventory :: "('d, 'r, 'i, 'z) store_env_scheme \<Rightarrow> unit store_action" where
  "verify_live_inventory E =
     sbind (verify_state_anchor E) (\<lambda>_.
     sbind (sget sw_verified) (\<lambda>verified.
     sbind (verify_inventory E verified) (\<lambda>_.
     verify_current_row_sets E)))"

definition checkpoint :: "('d, 'r, 'i, 'z) store_env_scheme \<Rightarrow> unit store_action" where
  "checkpoint E =
     sbind (sget sw_io) (\<lambda>n.
     sbind (statement E) (\<lambda>_.
     slift (case checkpoint_rows E n of
         [] \<Rightarrow> Inl (Database ''checkpoint returned no status'')
       | busy # rest \<Rightarrow>
           rbind (guard (busy = 0) (Database ''vault checkpoint is busy; cleanup incomplete'')) (\<lambda>_.
           guard (rest = []) (Database ''invalid checkpoint status'')))))"

section \<open>Loading\<close>

definition verify_snapshot_against_head ::
  "('d, 'r, 'i, 'z) store_env_scheme \<Rightarrow> bytes \<Rightarrow> bytes \<Rightarrow> u64 \<Rightarrow> u64 \<Rightarrow> bytes \<Rightarrow> unit store_action" where
  "verify_snapshot_against_head E head_id document_id generation key_epoch envelope =
     sbind (sread (\<lambda>w. ok_or (fmlookup (vs_documents (sw_verified w)) document_id) Signature)) (\<lambda>trusted.
     if dr_current_commit_id (vd_row trusted) \<noteq> head_id \<or> dr_generation (vd_row trusted) \<noteq> generation \<or>
        dr_key_epoch (vd_row trusted) \<noteq> key_epoch \<or> vd_snapshot_digest trusted \<noteq> digest E envelope
     then slift (Inl Signature)
     else sbind (query E (\<lambda>db. case fmlookup (db_heads db) document_id of
            Some (h, r) \<Rightarrow> if h = head_id then Some r else None | None \<Rightarrow> None)) (\<lambda>b.
       slift (rbind (ok_or b (InvalidData ''document head is missing'')) (\<lambda>b.
         rbind (map_err InvalidData (from_slice (j_head E) b)) (\<lambda>head.
         head_verify E head (dr_current_commit_id (vd_row trusted)))))))"

definition load_head ::
  "('d, 'r, 'i, 'z) store_env_scheme \<Rightarrow> bytes \<Rightarrow> DocumentKind \<Rightarrow> DocumentHead option store_action" where
  "load_head E document_id expected_scope =
     sbind (verify_state_anchor E) (\<lambda>_.
     sbind (query E (\<lambda>db. fmlookup (db_documents db) document_id)) (\<lambda>row.
     case row of
       None \<Rightarrow>
         sread (\<lambda>w. rbind (guard (document_id |\<notin>| fmdom (vs_documents (sw_verified w)))
           (InvalidData ''protected document is missing'')) (\<lambda>_. Inr None))
     | Some r \<Rightarrow>
         sbind (slift (rbind (array_from_blob 16 (sq_vault_id r) ''vault ID'') (\<lambda>vault_id.
           row_columns E vault_id document_id r))) (\<lambda>actual.
         sbind (sread (\<lambda>w. guard (map_option vd_row (fmlookup (vs_documents (sw_verified w)) document_id) =
           Some actual) Signature)) (\<lambda>_.
         sbind (slift (map_err InvalidData (from_slice (j_wrapped E) (sq_wrapped_dek r)))) (\<lambda>wrapped.
         sbind (slift (guard (\<not> (dr_vault_id actual \<noteq> device_vault_id E \<or> dr_scope actual \<noteq> expected_scope))
           (InvalidData ''document vault or kind does not match requested operation''))) (\<lambda>_.
         sbind (slift (unwrap_document_key (cipher E) (root_key E) (installation_id E)
           (dr_vault_id actual) document_id (dr_scope actual) (dr_key_epoch actual) wrapped)) (\<lambda>data_key.
         sbind (slift (to_i64 (dr_generation actual))) (\<lambda>generation.
         sbind (query E (\<lambda>db. fmlookup (db_snapshots db) (document_id, generation))) (\<lambda>found.
         sbind (slift (ok_or found (InvalidData ''document has no current snapshot''))) (\<lambda>envelope_bytes.
         sbind (slift (map_err InvalidData (from_slice (j_envelope E) envelope_bytes))) (\<lambda>envelope.
         sbind (slift (guard (\<not> (es_vault_id envelope \<noteq> dr_vault_id actual \<or>
             es_document_id envelope \<noteq> document_id \<or> es_scope envelope \<noteq> dr_scope actual \<or>
             es_device_key_id envelope \<noteq> device_key_id E \<or>
             es_generation envelope \<noteq> dr_generation actual \<or>
             es_key_epoch envelope \<noteq> dr_key_epoch actual))
           (InvalidData ''snapshot metadata does not match document row''))) (\<lambda>_.
         sbind (verify_snapshot_against_head E (dr_current_commit_id actual) document_id
           (dr_generation actual) (dr_key_epoch actual) envelope_bytes) (\<lambda>_.
         sret (Some \<lparr>dh_current_commit_id = dr_current_commit_id actual,
           dh_generation = dr_generation actual, dh_key_epoch = dr_key_epoch actual,
           dh_wrapped_dek = sq_wrapped_dek r, dh_envelope = envelope, dh_data_key = data_key\<rparr>))))))))))))))"

definition load_document ::
  "('d, 'r, 'i, 'z) store_env_scheme \<Rightarrow> bytes \<Rightarrow> DocumentKind \<Rightarrow> bytes option
     \<Rightarrow> 'd LoadedDocument option store_action" where
  "load_document E document_id expected_scope expected_partition =
     sbind (load_head E document_id expected_scope) (\<lambda>found.
     case found of
       None \<Rightarrow> sret None
     | Some head \<Rightarrow>
         slift (rbind (decrypt_snapshot (cipher E) (dh_envelope head) (dh_data_key head)) (\<lambda>snapshot.
           rbind (document_load E snapshot (actor_id E) expected_scope expected_partition) (\<lambda>document.
           Inr (Some \<lparr>ld_document = document, ld_head = head\<rparr>)))))"

definition load_history ::
  "('d, 'r, 'i, 'z) store_env_scheme \<Rightarrow> bytes \<Rightarrow> DocumentKind \<Rightarrow> bytes option
     \<Rightarrow> HistoryLog option store_action" where
  "load_history E document_id expected_scope expected_partition =
     sbind (load_head E document_id expected_scope) (\<lambda>found.
     case found of
       None \<Rightarrow> sret None
     | Some head \<Rightarrow>
         slift (rbind (decrypt_history (cipher E) (dh_envelope head) (dh_data_key head)) (\<lambda>b.
           rbind (history_load (j_log E) b expected_scope expected_partition) (\<lambda>log. Inr (Some log)))))"

section \<open>Committing\<close>

record PreparedCommit =
  pr_vault_id :: bytes
  pr_document_id :: bytes
  pr_scope :: DocumentKind
  pr_expected :: "DocumentHead option"
  pr_generation :: u64
  pr_key_epoch :: u64
  pr_wrapped_dek :: bytes
  pr_snapshot_envelope :: bytes
  pr_current_head :: CurrentHead
  pr_head_record :: bytes
  pr_next_eviction :: "u64 option"

definition carried_history ::
  "('d, 'r, 'i, 'z) store_env_scheme \<Rightarrow> DocumentKind \<Rightarrow> DocumentHead option \<Rightarrow> DocumentMutation
     \<Rightarrow> MutationContext \<Rightarrow> bytes vault_result" where
  "carried_history E scope current mutation context =
     rbind (case current of
         Some head \<Rightarrow> rbind (decrypt_history (cipher E) (dh_envelope head) (dh_data_key head)) (\<lambda>b.
           history_load (j_log E) b scope (Some (dm_partition mutation)))
       | None \<Rightarrow> Inr (history_new scope (dm_partition mutation))) (\<lambda>history.
     rbind (history_record (j_entry E) (dm_history mutation) (mc_now context) (mc_provenance context)
       (mc_device_key_id context) (migrate_addresses (dm_address_migrations mutation) history)) (\<lambda>history.
     history_serialize (j_log E) history))"

definition prepare_commit ::
  "('d, 'r, 'i, 'z) store_env_scheme \<Rightarrow> bytes \<Rightarrow> DocumentKind \<Rightarrow> DocumentHead option
     \<Rightarrow> DocumentMutation \<Rightarrow> MutationContext \<Rightarrow> PreparedCommit store_action" where
  "prepare_commit E document_id scope current mutation context =
     (let (generation, key_epoch) = (case current of
            Some head \<Rightarrow> (saturating_add64 (dh_generation head) 1, saturating_add64 (dh_key_epoch head) 1)
          | None \<Rightarrow> (1, 1)) in
      sbind (slift (guard (\<not> (generation = - 1 \<or> key_epoch = - 1))
        (InvalidData ''document generation is exhausted''))) (\<lambda>_.
      sbind (slift (carried_history E scope current mutation context)) (\<lambda>history_bytes.
      sbind (draw E KEY_BYTES) (\<lambda>drawn_key.
      sbind (draw E NONCE_BYTES) (\<lambda>drawn_nonce.
      sbind (slift (generate_document_key (cipher E) drawn_key drawn_nonce (root_key E)
        (installation_id E) (device_vault_id E) document_id scope key_epoch)) (\<lambda>(data_key, wrapped).
      sbind (slift (map_err InvalidData (to_vec (j_wrapped E) wrapped))) (\<lambda>wrapped_dek.
      sbind (draw E NONCE_BYTES) (\<lambda>drawn_records.
      sbind (draw E NONCE_BYTES) (\<lambda>drawn_history.
      sbind (slift (encrypt_snapshot (cipher E) drawn_records drawn_history
        \<lparr>ec_vault_id = device_vault_id E, ec_document_id = document_id, ec_scope = scope,
         ec_device_key_id = device_key_id E, ec_generation = generation, ec_key_epoch = key_epoch\<rparr>
        (dm_snapshot mutation) history_bytes data_key)) (\<lambda>envelope.
      sbind (slift (map_err InvalidData (to_vec (j_envelope E) envelope))) (\<lambda>snapshot_bytes.
      let current_head = current_head_new E
        \<lparr>cc_previous_commit_id = None, cc_vault_id = device_vault_id E, cc_document_id = document_id,
         cc_scope = scope, cc_generation = generation, cc_key_epoch = key_epoch,
         cc_wrapped_key_digest = digest E wrapped_dek, cc_snapshot_digest = digest E snapshot_bytes,
         cc_next_eviction = dm_next_eviction mutation, cc_device_key_id = device_key_id E\<rparr> in
      sbind (slift (map_err InvalidData (to_vec (j_head E) current_head))) (\<lambda>head_bytes.
      sret \<lparr>pr_vault_id = device_vault_id E, pr_document_id = document_id, pr_scope = scope,
        pr_expected = current, pr_generation = generation, pr_key_epoch = key_epoch,
        pr_wrapped_dek = wrapped_dek, pr_snapshot_envelope = snapshot_bytes,
        pr_current_head = current_head, pr_head_record = head_bytes,
        pr_next_eviction = dm_next_eviction mutation\<rparr>))))))))))))"

definition persist_document_head ::
  "('d, 'r, 'i, 'z) store_env_scheme \<Rightarrow> PreparedCommit \<Rightarrow> unit store_action" where
  "persist_document_head E p =
     sbind (slift (case pr_next_eviction p of None \<Rightarrow> Inr None
       | Some t \<Rightarrow> rbind (to_i64 t) (\<lambda>t. Inr (Some t)))) (\<lambda>next_eviction.
     sbind (slift (to_i64 (pr_generation p))) (\<lambda>generation.
     sbind (slift (to_i64 (pr_key_epoch p))) (\<lambda>key_epoch.
     let row = \<lparr>sq_vault_id = pr_vault_id p, sq_document_kind = document_kind_as_str (pr_scope p),
       sq_generation = generation, sq_key_epoch = key_epoch, sq_wrapped_dek = pr_wrapped_dek p,
       sq_current_commit_id = ch_head_id (pr_current_head p), sq_next_eviction = next_eviction\<rparr> in
     case pr_expected p of
       Some expected \<Rightarrow>
         sbind (slift (to_i64 (dh_generation expected))) (\<lambda>old_generation.
         sbind (slift (to_i64 (dh_key_epoch expected))) (\<lambda>old_key_epoch.
         sbind (query E (\<lambda>db. case fmlookup (db_documents db) (pr_document_id p) of
             None \<Rightarrow> False
           | Some r \<Rightarrow> sq_vault_id r = pr_vault_id p \<and> sq_generation r = old_generation \<and>
               sq_document_kind r = document_kind_as_str (pr_scope p) \<and>
               sq_wrapped_dek r = dh_wrapped_dek expected \<and>
               sq_current_commit_id r = dh_current_commit_id expected \<and>
               sq_key_epoch r = old_key_epoch)) (\<lambda>updated.
         if updated
         then smodify (\<lambda>w. w\<lparr>sw_db := (sw_db w)\<lparr>db_documents :=
                fmupd (pr_document_id p) row (db_documents (sw_db w))\<rparr>\<rparr>)
         else slift (Inl (Database ''document generation or wrapped key changed concurrently'')))))
     | None \<Rightarrow>
         sbind (query E (\<lambda>db. pr_document_id p |\<in>| fmdom (db_documents db))) (\<lambda>duplicate.
         if duplicate then slift (Inl (Database ''UNIQUE constraint failed''))
         else smodify (\<lambda>w. w\<lparr>sw_db := (sw_db w)\<lparr>db_documents :=
                fmupd (pr_document_id p) row (db_documents (sw_db w))\<rparr>\<rparr>)))))"

definition persist_snapshot ::
  "('d, 'r, 'i, 'z) store_env_scheme \<Rightarrow> bytes \<Rightarrow> u64 \<Rightarrow> bytes \<Rightarrow> unit store_action" where
  "persist_snapshot E document_id generation envelope =
     sbind (update E (\<lambda>db. db\<lparr>db_snapshots := fmfilter (\<lambda>k. fst k \<noteq> document_id) (db_snapshots db)\<rparr>)) (\<lambda>_.
     sbind (slift (to_i64 generation)) (\<lambda>generation.
     update E (\<lambda>db. db\<lparr>db_snapshots := fmupd (document_id, generation) envelope (db_snapshots db)\<rparr>)))"

definition persist_head_record ::
  "('d, 'r, 'i, 'z) store_env_scheme \<Rightarrow> bytes \<Rightarrow> CurrentHead \<Rightarrow> bytes \<Rightarrow> unit store_action" where
  "persist_head_record E document_id current_head head_record =
     update E (\<lambda>db. db\<lparr>db_heads :=
       fmupd document_id (ch_head_id current_head, head_record) (db_heads db)\<rparr>)"

definition inventory_list :: "(bytes, VerifiedDocument) fmap \<Rightarrow> (bytes \<times> bytes) list" where
  "inventory_list documents = map (\<lambda>ident. (ident,
     dr_current_commit_id (vd_row (the (fmlookup documents ident))))) (sorted_list_of_fset (fmdom documents))"

definition sign_manifest ::
  "('d, 'r, 'i, 'z) store_env_scheme \<Rightarrow> (bytes, VerifiedDocument) fmap \<Rightarrow> bool
     \<Rightarrow> StateManifest vault_result" where
  "sign_manifest E documents repack_pending =
     manifest_new E (signer E) (device_vault_id E) (device_key_id E)
       (word_of_nat (fcard (fmdom documents))) (inventory_digest E (inventory_list documents)) repack_pending"

definition persist_manifest ::
  "('d, 'r, 'i, 'z) store_env_scheme \<Rightarrow> StateManifest \<Rightarrow> bytes store_action" where
  "persist_manifest E manifest =
     sbind (slift (map_err InvalidData (to_vec (j_manifest E) manifest))) (\<lambda>b.
     sbind (update E (\<lambda>db. db\<lparr>db_meta := fmupd ''current-state-manifest'' b (db_meta db)\<rparr>)) (\<lambda>_.
     sbind (update E (\<lambda>db. db\<lparr>db_meta := fmupd ''current-commit-head'' (sm_manifest_id manifest) (db_meta db)\<rparr>)) (\<lambda>_.
     sret (digest E b))))"

definition verified_document_new :: "CurrentHead \<Rightarrow> u64 \<Rightarrow> VerifiedDocument" where
  "verified_document_new head snapshot_bytes =
     \<lparr>vd_row = \<lparr>dr_vault_id = ch_vault_id head, dr_document_id = ch_document_id head,
        dr_scope = ch_scope head, dr_generation = ch_generation head,
        dr_key_epoch = ch_key_epoch head, dr_wrapped_key_digest = ch_wrapped_key_digest head,
        dr_current_commit_id = ch_head_id head, dr_next_eviction = ch_next_eviction head\<rparr>,
      vd_snapshot_digest = ch_snapshot_digest head, vd_snapshot_bytes = snapshot_bytes\<rparr>"

definition persist_commit ::
  "('d, 'r, 'i, 'z) store_env_scheme \<Rightarrow> PreparedCommit \<Rightarrow> unit store_action" where
  "persist_commit E p =
     sbind (transaction E
       (sbind (verify_live_inventory E) (\<lambda>_.
        sbind (persist_document_head E p) (\<lambda>_.
        sbind (persist_snapshot E (pr_document_id p) (pr_generation p) (pr_snapshot_envelope p)) (\<lambda>_.
        sbind (persist_head_record E (pr_document_id p) (pr_current_head p) (pr_head_record p)) (\<lambda>_.
        sbind (sget (\<lambda>w. fmupd (pr_document_id p) (verified_document_new (pr_current_head p)
            (word_of_nat (length (pr_snapshot_envelope p)))) (vs_documents (sw_verified w)))) (\<lambda>next_documents.
        sbind (slift (sign_manifest E next_documents False)) (\<lambda>manifest.
        sbind (persist_manifest E manifest) (\<lambda>fingerprint.
        sret (manifest, fingerprint, next_documents))))))))))
     (\<lambda>(manifest, fingerprint, next_documents).
       smodify (\<lambda>w. w\<lparr>sw_verified := \<lparr>vs_head = Some (sm_manifest_id manifest),
         vs_documents = next_documents, vs_manifest_digest = Some fingerprint\<rparr>\<rparr>))"

definition commit_mutation ::
  "('d, 'r, 'i, 'z) store_env_scheme \<Rightarrow> bytes \<Rightarrow> DocumentKind \<Rightarrow> DocumentHead option
     \<Rightarrow> DocumentMutation \<Rightarrow> MutationContext \<Rightarrow> unit store_action" where
  "commit_mutation E document_id scope current mutation context =
     sbind (prepare_commit E document_id scope current mutation context) (\<lambda>prepared.
     sbind (persist_commit E prepared) (\<lambda>_.
     checkpoint E))"

end
