(* ===== verification/Store_Worker.thy ===== *)
theory Store_Worker
  imports Store "HOL-Library.Product_Lexorder"
begin

text \<open>
  The operations of the store thread (\<open>src/src/vault/store/worker.rs\<close>), the full
  verification a store passes when it is opened (\<open>store/worker/state.rs\<close>), and the
  command loop with its seal flag and lease deadline.  Clock readings are arguments, one
  for each place the code reads the clock.
\<close>

section \<open>Document operations\<close>

definition DOCUMENT_ID_DOMAIN :: bytes where
  "DOCUMENT_ID_DOMAIN = ''factorseal/document-id/v3'' @ [CHR 0x00]"

definition document_id_transcript :: "bytes \<Rightarrow> DocumentKind \<Rightarrow> bytes \<Rightarrow> bytes" where
  "document_id_transcript vault_id kind part =
     DOCUMENT_ID_DOMAIN @ vault_id @ lp (document_kind_as_str kind) @ lp part"

definition document_id :: "('d, 'r, 'i, 'z) store_env_scheme \<Rightarrow> DocumentKind \<Rightarrow> bytes \<Rightarrow> bytes" where
  "document_id E kind part =
     hmac_sha256 E (index_key E) (document_id_transcript (device_vault_id E) kind part)"

definition EXPIRY :: Provenance where "EXPIRY = Service Expiry"

definition context_of :: "('d, 'r, 'i, 'z) store_env_scheme \<Rightarrow> Provenance \<Rightarrow> u64 \<Rightarrow> MutationContext" where
  "context_of E provenance now =
     \<lparr>mc_now = now, mc_provenance = provenance, mc_device_key_id = device_key_id E\<rparr>"

record StoredSecret =
  ss_value :: bytes
  ss_expires_at :: "u64 option"

text \<open>The random version identifiers the operations of one batch draw.\<close>

definition VERSION_ID_BYTES :: nat where "VERSION_ID_BYTES = 16"

definition version_ids ::
  "('d, 'r, 'i, 'z) store_env_scheme \<Rightarrow> nat \<Rightarrow> (nat \<Rightarrow> VersionId vault_result) store_action" where
  "version_ids E n w =
     (Inr (\<lambda>i. map_err Random (entropy E (sw_rng w + i) VERSION_ID_BYTES)), w\<lparr>sw_rng := sw_rng w + n\<rparr>)"

definition store_get ::
  "('d, 'r, 'i, 'z) store_env_scheme \<Rightarrow> bytes \<Rightarrow> DocumentKind \<Rightarrow> bytes \<Rightarrow> SecretAddress \<Rightarrow> u64
     \<Rightarrow> StoredSecret option store_action" where
  "store_get E ident scope part address now =
     sbind (load_document E ident scope (Some part)) (\<lambda>loaded.
     case loaded of
       None \<Rightarrow> sret None
     | Some l \<Rightarrow>
         sbind (slift (get_with_deadline E (ld_document l) address now)) (\<lambda>(read, expires_at).
         case read of
           Missing \<Rightarrow> sret None
         | Value v \<Rightarrow> sret (Some \<lparr>ss_value = v, ss_expires_at = expires_at\<rparr>)
         | SecretRead.Conflict \<Rightarrow> slift (Inl VaultError.Conflict)
         | SecretRead.Expired \<Rightarrow>
             sbind (slift (fst (document_expire E address (ld_document l)))) (\<lambda>mutation.
             sbind (slift (ok_or mutation (InvalidData ''expired secret disappeared during deletion''))) (\<lambda>mutation.
             sbind (commit_mutation E ident scope (Some (ld_head l)) mutation (context_of E EXPIRY now)) (\<lambda>_.
             sret None)))))"

definition store_get_many ::
  "('d, 'r, 'i, 'z) store_env_scheme \<Rightarrow> bytes \<Rightarrow> DocumentKind \<Rightarrow> bytes \<Rightarrow> SecretAddress list \<Rightarrow> u64
     \<Rightarrow> bytes option list store_action" where
  "store_get_many E ident scope part addresses now =
     sbind (load_document E ident scope (Some part)) (\<lambda>loaded.
     case loaded of
       None \<Rightarrow> sret (map (\<lambda>_. None) addresses)
     | Some l \<Rightarrow> slift (rmapM (\<lambda>address.
           rbind (document_get E (ld_document l) address now) (\<lambda>read.
           case read of
             Value v \<Rightarrow> Inr (Some v)
           | Missing \<Rightarrow> Inr None
           | SecretRead.Expired \<Rightarrow> Inr None
           | SecretRead.Conflict \<Rightarrow> Inl VaultError.Conflict)) addresses))"

definition store_put ::
  "('d, 'r, 'i, 'z) store_env_scheme \<Rightarrow> bytes \<Rightarrow> DocumentKind \<Rightarrow> bytes \<Rightarrow> SecretAddress \<Rightarrow> bytes
     \<Rightarrow> u64 option \<Rightarrow> MutationContext \<Rightarrow> unit store_action" where
  "store_put E ident scope part address v evict_at context =
     sbind (load_document E ident scope (Some part)) (\<lambda>loaded.
     sbind (slift (case loaded of
         Some l \<Rightarrow> Inr (ld_document l, Some (ld_head l))
       | None \<Rightarrow> rbind (document_new E (actor_id E) scope part) (\<lambda>d. Inr (d, None)))) (\<lambda>(document, head).
     sbind (version_ids E 1) (\<lambda>rng.
     sbind (slift (fst (document_put E (rng 0) address v evict_at context document))) (\<lambda>mutation.
     commit_mutation E ident scope head mutation context))))"

definition is_put :: "DocumentOperation \<Rightarrow> bool" where
  "is_put operation = (case operation of Put _ _ _ \<Rightarrow> True | Delete _ \<Rightarrow> False)"

definition store_mutate ::
  "('d, 'r, 'i, 'z) store_env_scheme \<Rightarrow> bytes \<Rightarrow> DocumentKind \<Rightarrow> bytes \<Rightarrow> DocumentOperation list
     \<Rightarrow> MutationContext \<Rightarrow> unit store_action" where
  "store_mutate E ident scope part operations context =
     sbind (load_document E ident scope (Some part)) (\<lambda>loaded.
     sbind (slift (case loaded of
         Some l \<Rightarrow> Inr (Some (ld_document l, Some (ld_head l)))
       | None \<Rightarrow>
           if list_ex is_put operations
           then rbind (document_new E (actor_id E) scope part) (\<lambda>d. Inr (Some (d, None)))
           else Inr None)) (\<lambda>target.
     case target of
       None \<Rightarrow> sret ()
     | Some (document, head) \<Rightarrow>
         sbind (version_ids E (length operations)) (\<lambda>rng.
         sbind (slift (fst (document_apply E rng operations context document))) (\<lambda>mutation.
         case mutation of
           None \<Rightarrow> sret ()
         | Some mutation \<Rightarrow> commit_mutation E ident scope head mutation context))))"

definition store_delete ::
  "('d, 'r, 'i, 'z) store_env_scheme \<Rightarrow> bytes \<Rightarrow> DocumentKind \<Rightarrow> bytes \<Rightarrow> SecretAddress
     \<Rightarrow> MutationContext \<Rightarrow> bool store_action" where
  "store_delete E ident scope part address context =
     sbind (load_document E ident scope (Some part)) (\<lambda>loaded.
     case loaded of
       None \<Rightarrow> sret False
     | Some l \<Rightarrow>
         sbind (slift (fst (document_delete E address (ld_document l)))) (\<lambda>mutation.
         case mutation of
           None \<Rightarrow> sret False
         | Some mutation \<Rightarrow>
             sbind (commit_mutation E ident scope (Some (ld_head l)) mutation context) (\<lambda>_.
             sret True)))"

definition store_clear ::
  "('d, 'r, 'i, 'z) store_env_scheme \<Rightarrow> bytes \<Rightarrow> DocumentKind \<Rightarrow> bytes \<Rightarrow> MutationContext
     \<Rightarrow> nat store_action" where
  "store_clear E ident scope part context =
     sbind (load_document E ident scope (Some part)) (\<lambda>loaded.
     case loaded of
       None \<Rightarrow> sret 0
     | Some l \<Rightarrow>
         sbind (slift (fst (document_clear E (ld_document l)))) (\<lambda>cleared.
         case cleared of
           None \<Rightarrow> sret 0
         | Some (count, mutation) \<Rightarrow>
             sbind (commit_mutation E ident scope (Some (ld_head l)) mutation context) (\<lambda>_.
             sret count)))"

definition purge_document ::
  "('d, 'r, 'i, 'z) store_env_scheme \<Rightarrow> u64 \<Rightarrow> bytes \<times> DocumentKind \<Rightarrow> bool store_action" where
  "purge_document E now due = (case due of (ident, kind) \<Rightarrow>
     sbind (load_document E ident kind None) (\<lambda>loaded.
     case loaded of
       None \<Rightarrow> sret False
     | Some l \<Rightarrow>
         sbind (slift (fst (purge_expired E now (ld_document l)))) (\<lambda>mutation.
         case mutation of
           None \<Rightarrow> sret False
         | Some mutation \<Rightarrow>
             sbind (commit_mutation E ident kind (Some (ld_head l)) mutation (context_of E EXPIRY now))
               (\<lambda>_. sret True))))"

fun purge_documents ::
  "('d, 'r, 'i, 'z) store_env_scheme \<Rightarrow> u64 \<Rightarrow> (bytes \<times> DocumentKind) list \<Rightarrow> nat \<Rightarrow> nat store_action" where
  "purge_documents E now [] changed = sret changed"
| "purge_documents E now (due # rest) changed =
     sbind (purge_document E now due) (\<lambda>purged.
     purge_documents E now rest (if purged then changed + 1 else changed))"

definition due_documents :: "u64 \<Rightarrow> (bytes, VerifiedDocument) fmap \<Rightarrow> (bytes \<times> DocumentKind) list" where
  "due_documents now documents =
     map (\<lambda>d. (dr_document_id (vd_row d), dr_scope (vd_row d)))
       (filter (\<lambda>d. case dr_next_eviction (vd_row d) of None \<Rightarrow> False | Some deadline \<Rightarrow> deadline \<le> now)
         (map (\<lambda>ident. the (fmlookup documents ident)) (sorted_list_of_fset (fmdom documents))))"

definition store_purge_expired ::
  "('d, 'r, 'i, 'z) store_env_scheme \<Rightarrow> u64 \<Rightarrow> nat store_action" where
  "store_purge_expired E now =
     sbind (verify_live_inventory E) (\<lambda>_.
     sbind (sget (\<lambda>w. due_documents now (vs_documents (sw_verified w)))) (\<lambda>due.
     purge_documents E now due 0))"

section \<open>Listing\<close>

record 'a StorePage =
  pg_items :: "'a list"
  pg_next_cursor :: "string option"

definition paginate :: "(string \<times> 'a) list \<Rightarrow> string option \<Rightarrow> nat \<Rightarrow> 'a StorePage" where
  "paginate entries cursor limit =
     (let page = take (limit + 1) (filter (\<lambda>(key, _). case cursor of None \<Rightarrow> True | Some c \<Rightarrow> key > c) entries);
          has_more = length page > limit;
          page = (if has_more then butlast page else page)
      in \<lparr>pg_items = map snd page,
          pg_next_cursor = (if has_more then Some (fst (last page)) else None)\<rparr>)"

record HistoryPage =
  hp_items :: "HistoryEntry list"
  hp_next_before_seq :: "u64 option"

definition history_page ::
  "HistoryLog \<Rightarrow> SecretAddress option \<Rightarrow> u64 option \<Rightarrow> nat \<Rightarrow> HistoryPage" where
  "history_page log address before_seq limit =
     (let entries = filter (\<lambda>e. case before_seq of None \<Rightarrow> True | Some b \<Rightarrow> he_seq e < b)
            (filter (\<lambda>e. case address of None \<Rightarrow> True | Some a \<Rightarrow> he_address e = a) (hl_entries log));
          entries = rev (sort_key he_seq entries);
          has_more = length entries > limit;
          entries = take limit entries
      in \<lparr>hp_items = entries,
          hp_next_before_seq = (if has_more \<and> entries \<noteq> [] then Some (he_seq (last entries)) else None)\<rparr>)"

definition list_history ::
  "('d, 'r, 'i, 'z) store_env_scheme \<Rightarrow> bytes \<Rightarrow> DocumentKind \<Rightarrow> bytes \<Rightarrow> SecretAddress option
     \<Rightarrow> u64 option \<Rightarrow> nat \<Rightarrow> HistoryPage store_action" where
  "list_history E ident scope part address before_seq limit =
     sbind (load_history E ident scope (Some part)) (\<lambda>log.
     sret (case log of
         None \<Rightarrow> \<lparr>hp_items = [], hp_next_before_seq = None\<rparr>
       | Some log \<Rightarrow> history_page log address before_seq limit))"

text \<open>\<open>String::from_utf8\<close> on the partition of a project document.\<close>

fun utf8_valid :: "nat list \<Rightarrow> bool" where
  "utf8_valid [] \<longleftrightarrow> True"
| "utf8_valid (a # bs) \<longleftrightarrow>
     (if a < 0x80 then utf8_valid bs
      else case bs of
        [] \<Rightarrow> False
      | b # cs \<Rightarrow>
          if 0xC2 \<le> a \<and> a \<le> 0xDF then 0x80 \<le> b \<and> b \<le> 0xBF \<and> utf8_valid cs
          else (case cs of
            [] \<Rightarrow> False
          | c # ds \<Rightarrow>
              if 0xE0 \<le> a \<and> a \<le> 0xEF then
                (if a = 0xE0 then 0xA0 else 0x80) \<le> b \<and> b \<le> (if a = 0xED then 0x9F else 0xBF) \<and>
                0x80 \<le> c \<and> c \<le> 0xBF \<and> utf8_valid ds
              else (case ds of
                [] \<Rightarrow> False
              | d # es \<Rightarrow>
                  0xF0 \<le> a \<and> a \<le> 0xF4 \<and>
                  (if a = 0xF0 then 0x90 else 0x80) \<le> b \<and> b \<le> (if a = 0xF4 then 0x8F else 0xBF) \<and>
                  0x80 \<le> c \<and> c \<le> 0xBF \<and> 0x80 \<le> d \<and> d \<le> 0xBF \<and> utf8_valid es)))"

definition from_utf8 :: "bytes \<Rightarrow> string option" where
  "from_utf8 b = (if utf8_valid (map of_char b) then Some b else None)"

definition secret_spec_convention :: "string \<Rightarrow> string \<Rightarrow> string \<Rightarrow> SecretSpecAddress vault_result" where
  "secret_spec_convention project profile key =
     (let address = Convention project profile key in
      rbind (secret_spec_validate address) (\<lambda>_. Inr address))"

text \<open>A listing first removes what has expired from the document it lists.\<close>

definition purge_loaded ::
  "('d, 'r, 'i, 'z) store_env_scheme \<Rightarrow> u64 \<Rightarrow> bytes \<Rightarrow> DocumentKind \<Rightarrow> 'd LoadedDocument
     \<Rightarrow> 'd SecretDocument store_action" where
  "purge_loaded E now ident kind l =
     (let (purged, document) = purge_expired E now (ld_document l) in
      sbind (slift purged) (\<lambda>mutation.
      case mutation of
        None \<Rightarrow> sret document
      | Some mutation \<Rightarrow>
          sbind (commit_mutation E ident kind (Some (ld_head l)) mutation (context_of E EXPIRY now))
            (\<lambda>_. sret document)))"

definition list_project ::
  "('d, 'r, 'i, 'z) store_env_scheme \<Rightarrow> u64 \<Rightarrow> bytes \<Rightarrow> string option store_action" where
  "list_project E now ident =
     sbind (load_document E ident SecretSpecProject None) (\<lambda>loaded.
     case loaded of
       None \<Rightarrow> sret None
     | Some l \<Rightarrow>
         sbind (slift (ok_or (from_utf8 (sd_partition (ld_document l)))
           (InvalidData ''project document partition is not UTF-8''))) (\<lambda>project.
         sbind (slift (secret_spec_convention project ''default'' ''validation'')) (\<lambda>_.
         sbind (purge_loaded E now ident SecretSpecProject l) (\<lambda>document.
         slift (rbind (document_addresses E document) (\<lambda>addresses.
           Inr (if addresses = [] then None else Some project)))))))"

fun list_each :: "('a \<Rightarrow> 'b option store_action) \<Rightarrow> 'a list \<Rightarrow> 'b list store_action" where
  "list_each f [] = sret []"
| "list_each f (x # xs) =
     sbind (f x) (\<lambda>y. sbind (list_each f xs) (\<lambda>ys.
     sret (case y of None \<Rightarrow> ys | Some y \<Rightarrow> y # ys)))"

definition list_projects ::
  "('d, 'r, 'i, 'z) store_env_scheme \<Rightarrow> string option \<Rightarrow> nat \<Rightarrow> u64 \<Rightarrow> string StorePage store_action" where
  "list_projects E cursor limit now =
     sbind (verify_live_inventory E) (\<lambda>_.
     sbind (sget (\<lambda>w. let documents = vs_documents (sw_verified w) in
       map (dr_document_id \<circ> vd_row) (filter (\<lambda>d. dr_scope (vd_row d) = SecretSpecProject)
         (map (\<lambda>ident. the (fmlookup documents ident)) (sorted_list_of_fset (fmdom documents)))))) (\<lambda>idents.
     sbind (list_each (list_project E now) idents) (\<lambda>projects.
     let projects = sort_key fst (map (\<lambda>p. (p, p)) projects) in
     slift (rbind (guard (distinct_adj (map fst projects))
         (InvalidData ''duplicate durable project partitions'')) (\<lambda>_.
       Inr (paginate projects cursor limit))))))"

definition project_address ::
  "string \<Rightarrow> string \<times> SecretAddress \<Rightarrow> (string \<times> SecretSpecAddress) vault_result" where
  "project_address project entry = (case entry of (key, address) \<Rightarrow>
     rbind (ok_or (as_secret_spec address)
       (InvalidData ''durable project document contains a local address'')) (\<lambda>address.
     rbind (guard (case secret_spec_project address of None \<Rightarrow> True | Some p \<Rightarrow> p = project)
       (InvalidData ''durable project address belongs to another project'')) (\<lambda>_.
     Inr (key, address))))"

definition list_project_addresses ::
  "('d, 'r, 'i, 'z) store_env_scheme \<Rightarrow> string \<Rightarrow> string option \<Rightarrow> nat \<Rightarrow> u64
     \<Rightarrow> SecretSpecAddress StorePage store_action" where
  "list_project_addresses E project cursor limit now =
     (let ident = document_id E SecretSpecProject project in
      sbind (load_document E ident SecretSpecProject (Some project)) (\<lambda>loaded.
      case loaded of
        None \<Rightarrow> sret \<lparr>pg_items = [], pg_next_cursor = None\<rparr>
      | Some l \<Rightarrow>
          sbind (purge_loaded E now ident SecretSpecProject l) (\<lambda>document.
          slift (rbind (document_addresses E document) (\<lambda>entries.
            rbind (rmapM (project_address project) entries) (\<lambda>addresses.
            Inr (paginate addresses cursor limit)))))))"

text \<open>The names and projects the desktop keyring gives its items.\<close>

definition keyring_items ::
  "('d, 'r, 'i, 'z) store_env_scheme \<Rightarrow> u64 \<Rightarrow> DocumentKind \<Rightarrow> 'd SecretDocument
     \<Rightarrow> (string \<rightharpoonup> string \<times> string) vault_result" where
  "keyring_items E now kind document =
     (if \<not> (kind = LinuxSecretService \<and> sd_partition document = SECRET_SERVICE_NAMESPACE) then Inr Map.empty
      else rbind (address_new INDEX_ITEM None) (\<lambda>index_address.
        rbind (document_get E document index_address now) (\<lambda>read.
        rbind (index_decode (j_index E) (case read of Value v \<Rightarrow> Some v | _ \<Rightarrow> None)) (\<lambda>index.
        Inr (foldl (\<lambda>found item. found(''item/'' @ ii_id item \<mapsto>
            (ii_label item, fst (access_project (service_target E (names E) (ii_attributes item))))))
          Map.empty (ix_items index))))))"

definition hidden_entry :: "DocumentKind \<Rightarrow> SecretAddress \<Rightarrow> bool" where
  "hidden_entry kind address \<longleftrightarrow>
     (kind = NetworkManagerWifi \<and> (case as_local address of
        None \<Rightarrow> False | Some (_, fld) \<Rightarrow> fld = Some ''connection-name'')) \<or>
     (kind = LinuxSecretService \<and> as_local address = Some (INDEX_ITEM, None))"

definition VAULT_ENTRY_CURSOR_DOMAIN :: bytes where
  "VAULT_ENTRY_CURSOR_DOMAIN = ''factorseal/vault-entry-cursor/v1'' @ [CHR 0x00]"

definition vault_entry_cursor ::
  "('d, 'r, 'i, 'z) store_env_scheme \<Rightarrow> DocumentKind \<Rightarrow> bytes \<Rightarrow> string \<Rightarrow> string" where
  "vault_entry_cursor E kind ident key =
     b64_encode E (hmac_sha256 E (index_key E)
       (VAULT_ENTRY_CURSOR_DOMAIN @ document_kind_as_str kind @ ident @ key))"

definition wifi_name ::
  "('d, 'r, 'i, 'z) store_env_scheme \<Rightarrow> u64 \<Rightarrow> DocumentKind \<Rightarrow> 'd SecretDocument \<Rightarrow> SecretAddress
     \<Rightarrow> string option \<Rightarrow> string option vault_result" where
  "wifi_name E now kind document address display_name =
     (case as_local address of
        Some (uuid, _) \<Rightarrow>
          if kind = NetworkManagerWifi
          then rbind (address_new uuid (Some ''connection-name'')) (\<lambda>name.
            rbind (document_get E document name now) (\<lambda>read.
            Inr (case read of Value v \<Rightarrow> from_utf8 v | _ \<Rightarrow> display_name)))
          else Inr display_name
      | None \<Rightarrow> Inr display_name)"

definition vault_entry ::
  "('d, 'r, 'i, 'z) store_env_scheme \<Rightarrow> u64 \<Rightarrow> bytes \<Rightarrow> DocumentKind \<Rightarrow> 'd SecretDocument
     \<Rightarrow> (string \<rightharpoonup> string \<times> string) \<Rightarrow> string \<times> SecretAddress \<Rightarrow> (string \<times> VaultEntryMetadata) vault_result" where
  "vault_entry E now ident kind document items entry = (case entry of (key, address) \<Rightarrow>
     rbind (personal_summary E document address) (\<lambda>summary.
     rbind (wifi_name E now kind document address (map_option su_title summary)) (\<lambda>display_name.
     let known = (case as_local address of Some (item, None) \<Rightarrow> items item | _ \<Rightarrow> None) in
     Inr (vault_entry_cursor E kind ident key,
       \<lparr>vm_access_project = map_option snd known,
        vm_display_name = (case known of Some (label, _) \<Rightarrow> Some label | None \<Rightarrow> display_name),
        vm_display_type = map_option su_kind summary,
        vm_display_username = (case summary of None \<Rightarrow> None | Some s \<Rightarrow> su_username s),
        vm_display_website = (case summary of None \<Rightarrow> None | Some s \<Rightarrow> su_website s),
        vm_updated_at = map_option su_updated_at summary,
        vm_favorite = (case summary of None \<Rightarrow> False | Some s \<Rightarrow> su_favorite s),
        vm_document_kind = kind, vm_partition = sd_partition document, vm_address = address\<rparr>))))"

definition list_vault_document ::
  "('d, 'r, 'i, 'z) store_env_scheme \<Rightarrow> u64 \<Rightarrow> bytes \<times> DocumentKind
     \<Rightarrow> (string \<times> VaultEntryMetadata) list option store_action" where
  "list_vault_document E now listed = (case listed of (ident, kind) \<Rightarrow>
     sbind (load_document E ident kind None) (\<lambda>loaded.
     case loaded of
       None \<Rightarrow> sret None
     | Some l \<Rightarrow>
         sbind (purge_loaded E now ident kind l) (\<lambda>document.
         slift (rbind (keyring_items E now kind document) (\<lambda>items.
           rbind (document_addresses E document) (\<lambda>addresses.
           rbind (rmapM (vault_entry E now ident kind document items)
             (filter (\<lambda>(_, address). \<not> hidden_entry kind address) addresses)) (\<lambda>entries.
           Inr (Some entries))))))))"

definition list_vault_entries ::
  "('d, 'r, 'i, 'z) store_env_scheme \<Rightarrow> string option \<Rightarrow> nat \<Rightarrow> u64 \<Rightarrow> VaultEntryMetadata StorePage store_action" where
  "list_vault_entries E cursor limit now =
     sbind (verify_live_inventory E) (\<lambda>_.
     sbind (sget (\<lambda>w. let documents = vs_documents (sw_verified w) in
       map (\<lambda>d. (dr_document_id (vd_row d), dr_scope (vd_row d)))
         (filter (\<lambda>d. dr_scope (vd_row d) \<noteq> Authorization)
           (map (\<lambda>ident. the (fmlookup documents ident)) (sorted_list_of_fset (fmdom documents)))))) (\<lambda>documents.
     sbind (list_each (list_vault_document E now) documents) (\<lambda>entries.
     let entries = sort_key fst (concat entries) in
     slift (rbind (guard (distinct_adj (map fst entries))
         (InvalidData ''duplicate vault inventory cursors'')) (\<lambda>_.
       Inr (paginate entries cursor limit))))))"

section \<open>Verification at startup\<close>

text \<open>The rows of \<open>document_heads\<close> in the order of their identifiers.\<close>

fun read_heads ::
  "('d, 'r, 'i, 'z) store_env_scheme \<Rightarrow> StateManifest \<Rightarrow> (bytes \<times> bytes \<times> bytes) list
     \<Rightarrow> (bytes, VerifiedDocument) fmap \<Rightarrow> (bytes, VerifiedDocument) fmap vault_result" where
  "read_heads E manifest [] documents = Inr documents"
| "read_heads E manifest ((ident, head_id, head_bytes) # rows) documents =
     rbind (guard (fcard (fmdom documents) < unat (sm_document_count manifest)) Signature) (\<lambda>_.
     rbind (array_from_blob 32 ident ''document ID'') (\<lambda>ident.
     rbind (array_from_blob 32 head_id ''document head ID'') (\<lambda>head_id.
     rbind (map_err InvalidData (from_slice (j_head E) head_bytes)) (\<lambda>head.
     rbind (head_verify E head head_id) (\<lambda>_.
     rbind (guard (\<not> (ch_document_id head \<noteq> ident \<or> ch_vault_id head \<noteq> device_vault_id E \<or>
       ch_device_key_id head \<noteq> device_key_id E)) Signature) (\<lambda>_.
     rbind (guard (ident |\<notin>| fmdom documents) Signature) (\<lambda>_.
     read_heads E manifest rows (fmupd ident (verified_document_new head 0) documents))))))))"

definition head_rows :: "Db \<Rightarrow> (bytes \<times> bytes \<times> bytes) list" where
  "head_rows db = map (\<lambda>ident. (ident, the (fmlookup (db_heads db) ident)))
     (sorted_list_of_fset (fmdom (db_heads db)))"

definition read_current_heads ::
  "('d, 'r, 'i, 'z) store_env_scheme \<Rightarrow> StateManifest \<Rightarrow> (bytes, VerifiedDocument) fmap store_action" where
  "read_current_heads E manifest =
     sbind (query E head_rows) (\<lambda>rows.
     sbind (slift (read_heads E manifest rows fmempty)) (\<lambda>documents.
     slift (rbind (guard (\<not> (fcard (fmdom documents) \<noteq> unat (sm_document_count manifest) \<or>
         inventory_digest E (inventory_list documents) \<noteq> sm_inventory_digest manifest)) Signature) (\<lambda>_.
       Inr documents))))"

fun read_payloads ::
  "('d, 'r, 'i, 'z) store_env_scheme \<Rightarrow> ((bytes \<times> i64) \<times> bytes) list \<Rightarrow> bytes fset
     \<Rightarrow> (bytes, VerifiedDocument) fmap \<Rightarrow> (bytes fset \<times> (bytes, VerifiedDocument) fmap) vault_result" where
  "read_payloads E [] seen documents = Inr (seen, documents)"
| "read_payloads E (((ident, generation), envelope) # rows) seen documents =
     rbind (array_from_blob 32 ident ''document ID'') (\<lambda>ident.
     rbind (ok_or (fmlookup documents ident) Signature) (\<lambda>document.
     rbind (from_i64 generation ''snapshot generation'') (\<lambda>generation.
     rbind (guard (\<not> (ident |\<in>| seen \<or> generation \<noteq> dr_generation (vd_row document) \<or>
       digest E envelope \<noteq> vd_snapshot_digest document)) Signature) (\<lambda>_.
     read_payloads E rows (finsert ident seen)
       (fmupd ident (document\<lparr>vd_snapshot_bytes := word_of_nat (length envelope)\<rparr>) documents)))))"

definition payload_rows :: "Db \<Rightarrow> ((bytes \<times> i64) \<times> bytes) list" where
  "payload_rows db = map (\<lambda>k. (k, the (fmlookup (db_snapshots db) k)))
     (sorted_list_of_fset (fmdom (db_snapshots db)))"

definition verify_current_payloads ::
  "('d, 'r, 'i, 'z) store_env_scheme \<Rightarrow> VerifiedStoreState \<Rightarrow> VerifiedStoreState store_action" where
  "verify_current_payloads E verified =
     sbind (query E payload_rows) (\<lambda>rows.
     slift (rbind (read_payloads E rows {||} (vs_documents verified)) (\<lambda>(seen, documents).
       rbind (guard (fcard seen = fcard (fmdom documents)) (InvalidData ''current snapshot is missing'')) (\<lambda>_.
       Inr (verified\<lparr>vs_documents := documents\<rparr>)))))"

definition verify_current_state ::
  "('d, 'r, 'i, 'z) store_env_scheme \<Rightarrow> VerifiedStoreState store_action" where
  "verify_current_state E =
     transaction E
       (sbind (read_manifest E) (\<lambda>(manifest, b).
        sbind (slift (manifest_verify E (signer E) manifest (device_vault_id E) (device_key_id E))) (\<lambda>_.
        sbind (current_commit_head E) (\<lambda>head.
        if head \<noteq> Some (sm_manifest_id manifest) then slift (Inl Signature)
        else sbind (read_current_heads E manifest) (\<lambda>documents.
          sbind (verify_current_payloads E \<lparr>vs_head = Some (sm_manifest_id manifest),
            vs_documents = documents, vs_manifest_digest = Some (digest E b)\<rparr>) (\<lambda>verified.
          sbind (verify_inventory E verified) (\<lambda>_.
          sret verified)))))))"

section \<open>The command loop\<close>

record WorkerStatus =
  ws_sealed :: bool
  ws_deadline :: "nat option"
  ws_shutdown_complete :: bool

definition worker_is_sealed :: "nat \<Rightarrow> WorkerStatus \<Rightarrow> bool \<times> WorkerStatus" where
  "worker_is_sealed now s =
     (let s = (if (case ws_deadline s of None \<Rightarrow> False | Some deadline \<Rightarrow> deadline \<le> now)
               then s\<lparr>ws_sealed := True\<rparr> else s)
      in (ws_sealed s, s))"

definition set_deadline :: "nat \<Rightarrow> nat \<Rightarrow> (WorkerStatus, VaultError, unit) action" where
  "set_deadline now deadline s =
     (if ws_sealed s \<or> (case ws_deadline s of None \<Rightarrow> False | Some old \<Rightarrow> old \<le> now)
      then (Inl Sealed, s\<lparr>ws_sealed := True\<rparr>)
      else (Inr (), s\<lparr>ws_deadline := Some deadline\<rparr>))"

definition request_shutdown :: "WorkerStatus \<Rightarrow> WorkerStatus" where
  "request_shutdown s = s\<lparr>ws_sealed := True\<rparr>"

datatype Command =
    Get DocumentKind bytes SecretAddress u64
  | GetMany DocumentKind bytes "SecretAddress list" u64
  | PutSecret DocumentKind bytes SecretAddress bytes "u64 option" Provenance u64
  | Mutate DocumentKind bytes "DocumentOperation list" Provenance u64
  | DeleteSecret DocumentKind bytes SecretAddress Provenance u64
  | PurgeExpired u64
  | ClearDocument DocumentKind bytes Provenance u64
  | ListHistory DocumentKind bytes "SecretAddress option" "u64 option" nat
  | ListProjects "string option" nat u64
  | ListProjectAddresses string "string option" nat u64
  | ListVaultEntries "string option" nat u64
  | ExportRevision
  | Shutdown

datatype Reply =
    Secret "StoredSecret option"
  | Values "bytes option list"
  | Done
  | Removed bool
  | Count nat
  | Entries HistoryPage
  | Projects "string StorePage"
  | Addresses "SecretSpecAddress StorePage"
  | VaultEntries "VaultEntryMetadata StorePage"
  | Revision "bytes option"

fun execute_command ::
  "('d, 'r, 'i, 'z) store_env_scheme \<Rightarrow> Command \<Rightarrow> Reply store_action option" where
  "execute_command E (Get scope part address now) =
     Some (sbind (store_get E (document_id E scope part) scope part address now) (\<lambda>v. sret (Secret v)))"
| "execute_command E (GetMany scope part addresses now) =
     Some (sbind (store_get_many E (document_id E scope part) scope part addresses now) (\<lambda>v. sret (Values v)))"
| "execute_command E (PutSecret scope part address v evict_at provenance now) =
     Some (sbind (store_put E (document_id E scope part) scope part address v evict_at
       (context_of E provenance now)) (\<lambda>_. sret Done))"
| "execute_command E (Mutate scope part operations provenance now) =
     Some (sbind (store_mutate E (document_id E scope part) scope part operations
       (context_of E provenance now)) (\<lambda>_. sret Done))"
| "execute_command E (DeleteSecret scope part address provenance now) =
     Some (sbind (store_delete E (document_id E scope part) scope part address
       (context_of E provenance now)) (\<lambda>r. sret (Removed r)))"
| "execute_command E (PurgeExpired now) =
     Some (sbind (store_purge_expired E now) (\<lambda>n. sret (Count n)))"
| "execute_command E (ClearDocument scope part provenance now) =
     Some (sbind (store_clear E (document_id E scope part) scope part
       (context_of E provenance now)) (\<lambda>n. sret (Count n)))"
| "execute_command E (ListHistory scope part address before_seq limit) =
     Some (sbind (list_history E (document_id E scope part) scope part address before_seq limit)
       (\<lambda>p. sret (Entries p)))"
| "execute_command E (ListProjects cursor limit now) =
     Some (sbind (list_projects E cursor limit now) (\<lambda>p. sret (Projects p)))"
| "execute_command E (ListProjectAddresses project cursor limit now) =
     Some (sbind (list_project_addresses E project cursor limit now) (\<lambda>p. sret (Addresses p)))"
| "execute_command E (ListVaultEntries cursor limit now) =
     Some (sbind (list_vault_entries E cursor limit now) (\<lambda>p. sret (VaultEntries p)))"
| "execute_command E ExportRevision =
     Some (sbind (verify_live_inventory E) (\<lambda>_. sget (\<lambda>w. Revision (vs_head (sw_verified w)))))"
| "execute_command E Shutdown = None"

definition fatal_result :: "'a vault_result \<Rightarrow> bool" where
  "fatal_result result = (case result of
      Inl Signature \<Rightarrow> True
    | Inl Crypto \<Rightarrow> True
    | Inl (InvalidData _) \<Rightarrow> True
    | Inl (Database _) \<Rightarrow> True
    | Inl (Automerge _) \<Rightarrow> True
    | _ \<Rightarrow> False)"

definition send_result :: "nat \<Rightarrow> 'a vault_result \<Rightarrow> WorkerStatus \<Rightarrow> 'a vault_result \<times> WorkerStatus" where
  "send_result now result s =
     (let (sealed, s) = worker_is_sealed now s in
      (if sealed then Inl Sealed else result, if fatal_result result then s\<lparr>ws_sealed := True\<rparr> else s))"

text \<open>What the receiver yields on one turn of the loop, with the clock at the loop test, at
  the guard of the received command and when its result is sent.  Between two turns another
  thread may move the deadline or request a seal, as \<open>Meanwhile\<close> does.\<close>

datatype Turn =
    Received Command nat nat nat
  | TimedOut nat
  | Disconnected nat
  | Meanwhile "WorkerStatus \<Rightarrow> WorkerStatus"

fun run_worker ::
  "('d, 'r, 'i, 'z) store_env_scheme \<Rightarrow> Turn list \<Rightarrow> WorkerStatus \<Rightarrow> StoreWorker
     \<Rightarrow> Reply vault_result list \<times> WorkerStatus \<times> StoreWorker" where
  "run_worker E [] s w = ([], s, w)"
| "run_worker E (Meanwhile f # turns) s w = run_worker E turns (f s) w"
| "run_worker E (TimedOut t # turns) s w =
     (let (sealed, s) = worker_is_sealed t s in
      if sealed then ([], s\<lparr>ws_shutdown_complete := True\<rparr>, w) else run_worker E turns s w)"
| "run_worker E (Disconnected t # turns) s w =
     (let (sealed, s) = worker_is_sealed t s in
      ([], s\<lparr>ws_sealed := True, ws_shutdown_complete := True\<rparr>, w))"
| "run_worker E (Received command t1 t2 t3 # turns) s w =
     (let (sealed1, s) = worker_is_sealed t1 s in
      if sealed1 then ([], s\<lparr>ws_shutdown_complete := True\<rparr>, w)
      else let (sealed2, s) = worker_is_sealed t2 s in
        if sealed2 then ([], s\<lparr>ws_shutdown_complete := True\<rparr>, w)
        else case execute_command E command of
          None \<Rightarrow> ([], s\<lparr>ws_sealed := True, ws_shutdown_complete := True\<rparr>, w)
        | Some act \<Rightarrow>
            let (result, w) = act w;
                (reply, s) = send_result t3 result s;
                (replies, s, w) = run_worker E turns s w
            in (reply # replies, s, w))"

end
