(* ===== verification/Record_Store.thy ===== *)
theory Record_Store
  imports Store_Worker
begin

text \<open>
  The interface through which the authorization code uses one document of the store: the
  three calls of \<open>VaultStore\<close> it makes (\<open>get_at\<close>, \<open>get_many\<close>, \<open>mutate\<close> in
  \<open>src/src/vault/store.rs\<close>), what they promise over an abstract map of entries, and the
  locale that collects these laws.  \<open>document_ops\<close> is the store worker's own operations
  on one document; the locale is interpreted on it in \<open>Store_Refinement\<close>.
\<close>

section \<open>Abstract entries\<close>

type_synonym entry = "SecretAddress \<times> bytes \<times> u64 option"

type_synonym entries = "string \<rightharpoonup> entry"

definition live :: "u64 \<Rightarrow> u64 option \<Rightarrow> bool" where
  "live now e \<longleftrightarrow> (case e of None \<Rightarrow> True | Some deadline \<Rightarrow> now < deadline)"

definition read_entry ::
  "'z hash_env_scheme \<Rightarrow> entries \<Rightarrow> u64 \<Rightarrow> SecretAddress \<Rightarrow> StoredSecret option vault_result" where
  "read_entry H M now a = (case M (storage_key H a) of
      None \<Rightarrow> Inr None
    | Some (a', v, e) \<Rightarrow>
        if a' \<noteq> a
        then Inl (InvalidData ''secret document record does not match its authenticated address'')
        else if live now e then Inr (Some \<lparr>ss_value = v, ss_expires_at = e\<rparr>) else Inr None)"

definition read_value ::
  "'z hash_env_scheme \<Rightarrow> entries \<Rightarrow> u64 \<Rightarrow> SecretAddress \<Rightarrow> bytes option vault_result" where
  "read_value H M now a = rbind (read_entry H M now a) (\<lambda>v. Inr (map_option ss_value v))"

text \<open>A read of an expired record removes it.\<close>

definition expire_entry :: "'z hash_env_scheme \<Rightarrow> u64 \<Rightarrow> SecretAddress \<Rightarrow> entries \<Rightarrow> entries" where
  "expire_entry H now a M = (case M (storage_key H a) of
      None \<Rightarrow> M
    | Some (a', v, e) \<Rightarrow> if live now e then M else M(storage_key H a := None))"

fun apply_entry :: "'z hash_env_scheme \<Rightarrow> DocumentOperation \<Rightarrow> entries \<Rightarrow> entries" where
  "apply_entry H (Put a v e) M = M(storage_key H a \<mapsto> (a, v, e))"
| "apply_entry H (Delete a) M = M(storage_key H a := None)"

section \<open>The operations\<close>

record 's store_ops =
  op_get :: "SecretAddress \<Rightarrow> u64 \<Rightarrow> ('s, VaultError, StoredSecret option) action"
  op_get_many :: "SecretAddress list \<Rightarrow> u64 \<Rightarrow> ('s, VaultError, bytes option list) action"
  op_mutate :: "DocumentOperation list \<Rightarrow> Provenance \<Rightarrow> u64 \<Rightarrow> ('s, VaultError, unit) action"

definition document_ops ::
  "('d, 'r, 'i, 'z) store_env_scheme \<Rightarrow> DocumentKind \<Rightarrow> bytes \<Rightarrow> StoreWorker store_ops" where
  "document_ops E kind part = \<lparr>
     op_get = (\<lambda>a now. store_get E (document_id E kind part) kind part a now),
     op_get_many = (\<lambda>as now. store_get_many E (document_id E kind part) kind part as now),
     op_mutate = (\<lambda>ops provenance now.
       store_mutate E (document_id E kind part) kind part ops (context_of E provenance now))\<rparr>"

section \<open>The laws\<close>

text \<open>\<open>rep s M\<close>: the state holds the entries \<open>M\<close>.  \<open>ready s\<close>: the next reads meet no
  database failure.\<close>

locale record_store =
  fixes H :: "'z hash_env_scheme"
    and S :: "'s store_ops"
    and rep :: "'s \<Rightarrow> entries \<Rightarrow> bool"
    and ready :: "'s \<Rightarrow> bool"
  assumes get_ok: "rep s M \<Longrightarrow> op_get S a now s = (Inr v, s') \<Longrightarrow>
      read_entry H M now a = Inr v \<and> rep s' (expire_entry H now a M)"
    and get_many_rep: "rep s M \<Longrightarrow> op_get_many S as now s = (r, s') \<Longrightarrow> rep s' M"
    and get_many_ok: "rep s M \<Longrightarrow> op_get_many S as now s = (Inr vs, s') \<Longrightarrow>
      rmapM (read_value H M now) as = Inr vs"
    and get_many_ready: "rep s M \<Longrightarrow> ready s \<Longrightarrow>
      \<exists>s'. op_get_many S as now s = (rmapM (read_value H M now) as, s') \<and>
        (is_ok (rmapM (read_value H M now) as) \<longrightarrow> ready s')"
    and mutate_ok: "rep s M \<Longrightarrow> op_mutate S ops provenance now s = (Inr u, s') \<Longrightarrow>
      rep s' (fold (apply_entry H) ops M)"
begin

lemma get_many_length:
  assumes "rep s M" and "op_get_many S as now s = (Inr vs, s')"
  shows "length vs = length as"
  using get_many_ok [OF assms] by (induction as arbitrary: vs) (auto simp: res_simps)

lemma get_many_nth:
  assumes "rep s M" and "op_get_many S as now s = (Inr vs, s')" and "i < length as"
  shows "read_value H M now (as ! i) = Inr (vs ! i)"
  using get_many_ok [OF assms(1,2)] assms(3)
proof (induction as arbitrary: vs i)
  case (Cons a as)
  then show ?case by (cases i) (auto simp: res_simps)
qed simp

end

section \<open>The laws of a store with room\<close>

definition deadlines_fit :: "entries \<Rightarrow> bool" where
  "deadlines_fit M \<longleftrightarrow> (\<forall>k a v t. M k = Some (a, v, Some t) \<longrightarrow> unat t < 2 ^ 63)"

text \<open>\<open>room s n\<close>: reads meet no failure, and so do writes of \<open>n\<close> operations in all.\<close>

locale live_record_store = record_store H S rep ready
  for H :: "'z hash_env_scheme" and S :: "'s store_ops" and rep :: "'s \<Rightarrow> entries \<Rightarrow> bool" and ready :: "'s \<Rightarrow> bool" +
  fixes room :: "'s \<Rightarrow> nat \<Rightarrow> bool"
  assumes room_ready: "room s n \<Longrightarrow> ready s"
    and room_less: "room s n \<Longrightarrow> k \<le> n \<Longrightarrow> room s k"
    and room_get_many: "rep s M \<Longrightarrow> room s n \<Longrightarrow> op_get_many S as now s = (Inr vs, s') \<Longrightarrow> room s' n"
    and get_live: "rep s M \<Longrightarrow> room s n \<Longrightarrow>
      (\<forall>a' v e. M (storage_key H a) = Some (a', v, e) \<longrightarrow> live now e) \<Longrightarrow>
      \<exists>s'. op_get S a now s = (read_entry H M now a, s') \<and> rep s' M \<and>
        (is_ok (read_entry H M now a) \<longrightarrow> room s' n)"
    and mutate_live: "rep s M \<Longrightarrow> room s (length ops + n) \<Longrightarrow> deadlines_fit (fold (apply_entry H) ops M) \<Longrightarrow>
      \<exists>s'. op_mutate S ops provenance now s = (Inr (), s') \<and> room s' n"

end
