(* ===== verification/Grants.thy ===== *)
theory Grants
  imports Record_Store
begin

text \<open>
  Caller grants (\<open>src/src/vault/protocol/grant.rs\<close>) and the permission summaries they are
  listed by (\<open>src/src/vault/protocol/wire.rs\<close>).  Grants are records of one document of the
  store, so every operation takes the three store calls it makes as \<open>S\<close>; the JSON codecs
  of its records are the fields of \<open>grant_codecs\<close>.  A \<open>BTreeSet\<close> of permissions is a
  finite set, iterated in the order of the enum's variants.
\<close>

section \<open>Permissions\<close>

datatype PermissionOperation = GetOp | PutOp | DeleteOp | ClearOp

datatype PermissionTarget =
    DocumentKindTarget
  | NamespaceTarget bytes
  | EntryTarget bytes SecretAddress
  | ProjectEntryTarget bytes SecretAddress string "string option"
  | ProjectTarget bytes string "string option"

datatype PermissionState =
    Pending (pending_created_at: u64) (pending_expires_at: u64) (pending_challenge: bytes)
      (pending_awaited: bool) (pending_expiring_write: bool)
  | Granted (granted_at: u64) (granted_expires_at: "u64 option") (granted_single_use: bool)

record Permission =
  pm_target :: "PermissionTarget option"
  pm_id :: string
  pm_scope :: "DocumentKind option"
  pm_operation :: PermissionOperation
  pm_principal :: PermissionPrincipal
  pm_application :: VaultApplicationContext
  pm_state :: PermissionState

definition allows_single_use :: "Permission \<Rightarrow> bool" where
  "allows_single_use p \<longleftrightarrow> pm_scope p = Some SecretSpecProviderCache \<and> pm_operation p = PutOp"

definition defaults_to_single_use :: "Permission \<Rightarrow> bool" where
  "defaults_to_single_use p \<longleftrightarrow> allows_single_use p \<and>
     \<not> (case pm_state p of Pending _ _ _ _ expiring_write \<Rightarrow> expiring_write | Granted _ _ _ \<Rightarrow> False)"

definition applies_to_entry :: "Permission \<Rightarrow> VaultEntryMetadata \<Rightarrow> bool" where
  "applies_to_entry p e \<longleftrightarrow>
     pm_scope p = Some (vm_document_kind e) \<and>
     (case pm_target p of
        Some DocumentKindTarget \<Rightarrow> True
      | Some (NamespaceTarget namespace) \<Rightarrow> namespace = vm_partition e
      | Some (EntryTarget namespace address) \<Rightarrow> namespace = vm_partition e \<and> address = vm_address e
      | Some (ProjectEntryTarget namespace address project _) \<Rightarrow>
          address = vm_address e \<and>
          (if vm_document_kind e = LinuxSecretService
           then vm_access_project e = Some project \<and> namespace = project
           else namespace = vm_partition e)
      | Some (ProjectTarget namespace project _) \<Rightarrow>
          (if vm_document_kind e = LinuxSecretService
           then vm_access_project e = Some project \<and> namespace = project
           else namespace = vm_partition e \<and>
             (case as_secret_spec (vm_address e) of
                None \<Rightarrow> False
              | Some a \<Rightarrow> (case secret_spec_project a of None \<Rightarrow> True | Some ep \<Rightarrow> ep = project)))
      | None \<Rightarrow> False)"

section \<open>Grant records\<close>

datatype GrantPermission = GList | GGet | GPut | GDelete | GClear | GSeal | GManagePermissions

fun permission_index :: "GrantPermission \<Rightarrow> nat" where
  "permission_index GList = 0"
| "permission_index GGet = 1"
| "permission_index GPut = 2"
| "permission_index GDelete = 3"
| "permission_index GClear = 4"
| "permission_index GSeal = 5"
| "permission_index GManagePermissions = 6"

lemma permission_index_inject [simp]: "permission_index a = permission_index b \<longleftrightarrow> a = b"
  by (cases a; cases b) simp_all

instantiation GrantPermission :: linorder
begin

definition less_eq_GrantPermission :: "GrantPermission \<Rightarrow> GrantPermission \<Rightarrow> bool" where
  "less_eq_GrantPermission a b \<longleftrightarrow> permission_index a \<le> permission_index b"

definition less_GrantPermission :: "GrantPermission \<Rightarrow> GrantPermission \<Rightarrow> bool" where
  "less_GrantPermission a b \<longleftrightarrow> permission_index a < permission_index b"

instance
  by standard (auto simp: less_eq_GrantPermission_def less_GrantPermission_def)

end

definition GRANT_VERSION :: nat where "GRANT_VERSION = 3"
definition PERMISSION_REGISTRY_VERSION :: nat where "PERMISSION_REGISTRY_VERSION = 1"
definition EXCLUSIVE_HOLDER_VERSION :: nat where "EXCLUSIVE_HOLDER_VERSION = 1"

definition GRANT_DOCUMENT_NAMESPACE :: bytes where
  "GRANT_DOCUMENT_NAMESPACE = ''factorseal/vault-grants/v3''"

definition GRANT_TARGET_DOMAIN :: bytes where
  "GRANT_TARGET_DOMAIN = ''factorseal/grant-target/v3'' @ [CHR 0x00]"

record AccessGrant =
  ag_version :: nat
  ag_caller_fingerprint :: bytes
  ag_target_digest :: bytes
  ag_permissions :: "GrantPermission fset"
  ag_expires_at :: "u64 option"
  ag_single_use :: bool

record ExclusiveHolder =
  eh_version :: nat
  eh_caller_fingerprint :: bytes
  eh_permissions :: "GrantPermission fset"

record StoredPermission =
  sp_permission :: Permission
  sp_caller_fingerprint :: bytes
  sp_target_digest :: bytes
  sp_grant_permission :: GrantPermission

record PermissionRegistry =
  rg_version :: nat
  rg_permissions :: "StoredPermission list"

record grant_codecs =
  j_grant :: "AccessGrant json"
  j_holder :: "ExclusiveHolder json"
  j_registry :: "PermissionRegistry json"

datatype GrantTarget =
    Kind DocumentKind
  | Namespace DocumentKind bytes
  | Entry DocumentKind bytes SecretAddress
  | ProjectEntry DocumentKind bytes SecretAddress string "string option"
  | Project DocumentKind bytes string "string option"

fun target_summary :: "GrantTarget \<Rightarrow> PermissionTarget" where
  "target_summary (Kind _) = DocumentKindTarget"
| "target_summary (Namespace _ n) = NamespaceTarget n"
| "target_summary (Entry _ n a) = EntryTarget n a"
| "target_summary (ProjectEntry _ n a p b) = ProjectEntryTarget n a p b"
| "target_summary (Project _ n p b) = ProjectTarget n p b"

fun target_scope :: "GrantTarget \<Rightarrow> DocumentKind" where
  "target_scope (Kind k) = k"
| "target_scope (Namespace k _) = k"
| "target_scope (Entry k _ _) = k"
| "target_scope (ProjectEntry k _ _ _ _) = k"
| "target_scope (Project k _ _ _) = k"

record GrantRequirement =
  gq_scope :: DocumentKind
  gq_namespace :: "bytes option"
  gq_address :: "SecretAddress option"
  gq_project :: "string option"
  gq_base_dir :: "string option"
  gq_permission :: GrantPermission

section \<open>Identifiers\<close>

definition document_kind_tag :: "DocumentKind \<Rightarrow> nat" where
  "document_kind_tag kind = (case kind of
      Authorization \<Rightarrow> 1
    | LinuxSecretService \<Rightarrow> 2
    | LocalKeyring \<Rightarrow> 3
    | SecretSpecProject \<Rightarrow> 4
    | SecretSpecProviderCache \<Rightarrow> 5
    | NetworkManagerWifi \<Rightarrow> 6)"

definition tags :: "nat \<Rightarrow> DocumentKind \<Rightarrow> bytes" where
  "tags t kind = [char_of t, char_of (document_kind_tag kind)]"

definition optional_digest_bytes :: "string option \<Rightarrow> bytes" where
  "optional_digest_bytes b = (case b of None \<Rightarrow> [] | Some b \<Rightarrow> append_digest_bytes b)"

fun grant_target_transcript :: "'z hash_env_scheme \<Rightarrow> GrantTarget \<Rightarrow> bytes" where
  "grant_target_transcript H (Kind kind) = GRANT_TARGET_DOMAIN @ tags 0 kind"
| "grant_target_transcript H (Namespace scope namespace) =
     GRANT_TARGET_DOMAIN @ tags 1 scope @ append_digest_bytes namespace"
| "grant_target_transcript H (Entry scope namespace address) =
     GRANT_TARGET_DOMAIN @ tags 2 scope @ append_digest_bytes namespace @
     append_digest_bytes (storage_key H address)"
| "grant_target_transcript H (ProjectEntry scope namespace address project base_dir) =
     GRANT_TARGET_DOMAIN @ tags (if base_dir \<noteq> None then 6 else 5) scope @
     append_digest_bytes namespace @ append_digest_bytes (storage_key H address) @
     append_digest_bytes project @ optional_digest_bytes base_dir"
| "grant_target_transcript H (Project scope namespace project base_dir) =
     GRANT_TARGET_DOMAIN @ tags (if base_dir \<noteq> None then 4 else 3) scope @
     append_digest_bytes namespace @ append_digest_bytes project @ optional_digest_bytes base_dir"

definition grant_target_digest :: "'z hash_env_scheme \<Rightarrow> GrantTarget \<Rightarrow> bytes" where
  "grant_target_digest H target = sha256 H (grant_target_transcript H target)"

definition permission_name :: "GrantPermission \<Rightarrow> string" where
  "permission_name p = (case p of
      GList \<Rightarrow> ''list''
    | GGet \<Rightarrow> ''get''
    | GPut \<Rightarrow> ''put''
    | GDelete \<Rightarrow> ''delete''
    | GClear \<Rightarrow> ''clear''
    | GSeal \<Rightarrow> ''seal''
    | GManagePermissions \<Rightarrow> ''manage-permissions'')"

definition grant_address ::
  "'z hash_env_scheme \<Rightarrow> bytes \<Rightarrow> bytes \<Rightarrow> GrantPermission \<Rightarrow> SecretAddress vault_result" where
  "grant_address H caller_fingerprint target_digest p =
     address_new (''grant/'' @ b64_encode H caller_fingerprint @ ''/'' @ b64_encode H target_digest @
       ''/'' @ permission_name p) None"

definition exclusive_holder_address :: "'z hash_env_scheme \<Rightarrow> bytes \<Rightarrow> SecretAddress vault_result" where
  "exclusive_holder_address H target_digest = address_new (''holder/'' @ b64_encode H target_digest) None"

definition permission_registry_address :: "SecretAddress vault_result" where
  "permission_registry_address = address_new ''permissions'' None"

definition grant_satisfies ::
  "AccessGrant \<Rightarrow> bytes \<Rightarrow> bytes \<Rightarrow> GrantPermission \<Rightarrow> u64 \<Rightarrow> bool" where
  "grant_satisfies grant caller_fingerprint target_digest p now \<longleftrightarrow>
     ag_version grant = GRANT_VERSION \<and> ag_caller_fingerprint grant = caller_fingerprint \<and>
     ag_target_digest grant = target_digest \<and> live now (ag_expires_at grant) \<and>
     p |\<in>| ag_permissions grant"

definition permission_is_expired :: "Permission \<Rightarrow> u64 \<Rightarrow> bool" where
  "permission_is_expired p now = (case pm_state p of
      Granted _ (Some deadline) _ \<Rightarrow> deadline \<le> now
    | _ \<Rightarrow> False)"

section \<open>Storing grants\<close>

record PreparedGrant =
  pg_address :: SecretAddress
  pg_value :: bytes
  pg_expires_at :: "u64 option"

definition prepare_grant ::
  "'z hash_env_scheme \<Rightarrow> grant_codecs \<Rightarrow> CallerIdentity \<Rightarrow> GrantTarget \<Rightarrow> GrantPermission list
     \<Rightarrow> u64 option \<Rightarrow> u64 \<Rightarrow> PreparedGrant list vault_result" where
  "prepare_grant H C caller target permissions expires_at now =
     rbind (identity_validate caller) (\<lambda>_.
     rbind (guard (live now expires_at) VaultError.Expired) (\<lambda>_.
     let caller_fingerprint = fingerprint H caller;
         target_digest = grant_target_digest H target;
         permissions = fset_of_list permissions in
     rbind (guard (permissions \<noteq> {||}) (Protocol ''grant must contain a permission'')) (\<lambda>_.
     rmapM (\<lambda>p.
       rbind (map_err Protocol (to_vec (j_grant C) \<lparr>ag_version = GRANT_VERSION,
         ag_caller_fingerprint = caller_fingerprint, ag_target_digest = target_digest,
         ag_permissions = {|p|}, ag_expires_at = expires_at, ag_single_use = False\<rparr>)) (\<lambda>b.
       rbind (grant_address H caller_fingerprint target_digest p) (\<lambda>address.
       Inr \<lparr>pg_address = address, pg_value = b, pg_expires_at = expires_at\<rparr>)))
       (sorted_list_of_fset permissions))))"

text \<open>The last request for an address wins; the others keep their order.\<close>

definition last_of_each :: "PreparedGrant list \<Rightarrow> PreparedGrant list" where
  "last_of_each grants = rev (fold (\<lambda>g acc.
     if pg_address g \<in> set (map pg_address acc) then acc else acc @ [g]) (rev grants) [])"

definition store_prepared_grants ::
  "'s store_ops \<Rightarrow> PreparedGrant list \<Rightarrow> u64 \<Rightarrow> ('s, VaultError, unit) action" where
  "store_prepared_grants S grants now =
     (let grants = last_of_each grants in
      if grants = [] then sret ()
      else sbind (op_get_many S (map pg_address grants) now) (\<lambda>existing.
        let operations = map (\<lambda>(g, _). Put (pg_address g) (pg_value g) (pg_expires_at g))
              (filter (\<lambda>(g, v). v \<noteq> Some (pg_value g)) (zip grants existing)) in
        if operations = [] then sret ()
        else op_mutate S operations (Service GrantStorage) now))"

definition previous_holder :: "grant_codecs \<Rightarrow> bytes option \<Rightarrow> ExclusiveHolder option vault_result" where
  "previous_holder C stored = (case stored of
      None \<Rightarrow> Inr None
    | Some b \<Rightarrow> rbind (map_err Protocol (from_slice (j_holder C) b)) (\<lambda>holder.
        Inr (if eh_version holder = EXCLUSIVE_HOLDER_VERSION then Some holder else None)))"

definition held_grant ::
  "grant_codecs \<Rightarrow> bytes \<Rightarrow> bytes \<Rightarrow> u64 \<Rightarrow> GrantPermission \<times> bytes option \<Rightarrow> bool" where
  "held_grant C caller_fingerprint target_digest now = (\<lambda>(p, stored). case stored of
      None \<Rightarrow> False
    | Some b \<Rightarrow> (case from_slice (j_grant C) b of
        Inl _ \<Rightarrow> False
      | Inr grant \<Rightarrow> ag_expires_at grant = None \<and>
          grant_satisfies grant caller_fingerprint target_digest p now))"

definition superseded_grants ::
  "'z hash_env_scheme \<Rightarrow> ExclusiveHolder option \<Rightarrow> bytes \<Rightarrow> bytes \<Rightarrow> GrantPermission fset
     \<Rightarrow> DocumentOperation list vault_result" where
  "superseded_grants H previous caller_fingerprint target_digest permissions = (case previous of
      None \<Rightarrow> Inr []
    | Some previous \<Rightarrow>
        rmapM (\<lambda>p. rbind (grant_address H (eh_caller_fingerprint previous) target_digest p)
            (\<lambda>address. Inr (Delete address)))
          (filter (\<lambda>p. eh_caller_fingerprint previous \<noteq> caller_fingerprint \<or> p |\<notin>| permissions)
            (sorted_list_of_fset (eh_permissions previous))))"

definition exclusive_grants ::
  "'z hash_env_scheme \<Rightarrow> grant_codecs \<Rightarrow> bytes \<Rightarrow> bytes \<Rightarrow> GrantPermission fset
     \<Rightarrow> DocumentOperation list vault_result" where
  "exclusive_grants H C caller_fingerprint target_digest permissions =
     rmapM (\<lambda>p.
       rbind (grant_address H caller_fingerprint target_digest p) (\<lambda>address.
       rbind (map_err Protocol (to_vec (j_grant C) \<lparr>ag_version = GRANT_VERSION,
         ag_caller_fingerprint = caller_fingerprint, ag_target_digest = target_digest,
         ag_permissions = {|p|}, ag_expires_at = None, ag_single_use = False\<rparr>)) (\<lambda>b.
       Inr (Put address b None)))) (sorted_list_of_fset permissions)"

definition store_exclusive_grant ::
  "'z hash_env_scheme \<Rightarrow> 's store_ops \<Rightarrow> grant_codecs \<Rightarrow> CallerIdentity \<Rightarrow> GrantTarget
     \<Rightarrow> GrantPermission list \<Rightarrow> u64 \<Rightarrow> ('s, VaultError, unit) action" where
  "store_exclusive_grant H S C caller target permissions now =
     sbind (slift (identity_validate caller)) (\<lambda>_.
     let caller_fingerprint = fingerprint H caller;
         target_digest = grant_target_digest H target;
         permissions = fset_of_list permissions in
     sbind (slift (guard (permissions \<noteq> {||}) (Protocol ''grant must contain a permission''))) (\<lambda>_.
     sbind (slift (exclusive_holder_address H target_digest)) (\<lambda>holder_address.
     sbind (slift (rmapM (grant_address H caller_fingerprint target_digest)
       (sorted_list_of_fset permissions))) (\<lambda>addresses.
     sbind (op_get_many S (holder_address # addresses) now) (\<lambda>records.
     sbind (slift (case records of [] \<Rightarrow> Inr None | r # _ \<Rightarrow> previous_holder C r)) (\<lambda>previous.
     if (case previous of
           None \<Rightarrow> False
         | Some holder \<Rightarrow> eh_caller_fingerprint holder = caller_fingerprint \<and>
             eh_permissions holder = permissions) \<and>
        list_all (held_grant C caller_fingerprint target_digest now)
          (zip (sorted_list_of_fset permissions) (tl records))
     then sret ()
     else
       sbind (slift (superseded_grants H previous caller_fingerprint target_digest permissions)) (\<lambda>deletes.
       sbind (slift (exclusive_grants H C caller_fingerprint target_digest permissions)) (\<lambda>puts.
       sbind (slift (map_err Protocol (to_vec (j_holder C) \<lparr>eh_version = EXCLUSIVE_HOLDER_VERSION,
         eh_caller_fingerprint = caller_fingerprint, eh_permissions = permissions\<rparr>))) (\<lambda>b.
       op_mutate S (deletes @ puts @ [Put holder_address b None]) (Service GrantStorage) now)))))))))"

section \<open>The permission registry\<close>

definition load_permission_registry ::
  "'s store_ops \<Rightarrow> grant_codecs \<Rightarrow> u64 \<Rightarrow> ('s, VaultError, PermissionRegistry) action" where
  "load_permission_registry S C now =
     sbind (slift permission_registry_address) (\<lambda>address.
     sbind (op_get S address now) (\<lambda>found.
     case found of
       None \<Rightarrow> sret \<lparr>rg_version = PERMISSION_REGISTRY_VERSION, rg_permissions = []\<rparr>
     | Some secret \<Rightarrow>
         slift (rbind (map_err Protocol (from_slice (j_registry C) (ss_value secret))) (\<lambda>registry.
           rbind (guard (rg_version registry = PERMISSION_REGISTRY_VERSION)
             (InvalidData ''unsupported permission registry version'')) (\<lambda>_.
           Inr registry)))))"

definition write_registry ::
  "'s store_ops \<Rightarrow> grant_codecs \<Rightarrow> PermissionRegistry \<Rightarrow> DocumentOperation list \<Rightarrow> Provenance \<Rightarrow> u64
     \<Rightarrow> ('s, VaultError, unit) action" where
  "write_registry S C registry operations provenance now =
     sbind (slift (map_err Protocol (to_vec (j_registry C) registry))) (\<lambda>b.
     sbind (slift permission_registry_address) (\<lambda>address.
     op_mutate S (operations @ [Put address b None]) provenance now))"

definition promote_permission ::
  "'z hash_env_scheme \<Rightarrow> 's store_ops \<Rightarrow> grant_codecs \<Rightarrow> CallerIdentity \<Rightarrow> GrantTarget \<Rightarrow> GrantPermission
     \<Rightarrow> Permission \<Rightarrow> u64 \<Rightarrow> Provenance \<Rightarrow> ('s, VaultError, unit) action" where
  "promote_permission H S C caller target grant_permission permission now provenance =
     sbind (slift (identity_validate caller)) (\<lambda>_.
     case pm_state permission of
       Pending _ _ _ _ _ \<Rightarrow> slift (Inl (Protocol ''promoted permission must be granted''))
     | Granted _ expires_at single_use \<Rightarrow>
         sbind (slift (guard (live now expires_at) VaultError.Expired)) (\<lambda>_.
         let caller_fingerprint = fingerprint H caller;
             target_digest = grant_target_digest H target in
         sbind (slift (grant_address H caller_fingerprint target_digest grant_permission)) (\<lambda>address.
         sbind (slift (map_err Protocol (to_vec (j_grant C) \<lparr>ag_version = GRANT_VERSION,
           ag_caller_fingerprint = caller_fingerprint, ag_target_digest = target_digest,
           ag_permissions = {|grant_permission|}, ag_expires_at = expires_at,
           ag_single_use = single_use\<rparr>))) (\<lambda>grant_bytes.
         let permission = permission\<lparr>pm_scope := Some (target_scope target),
               pm_target := Some (target_summary target)\<rparr> in
         sbind (load_permission_registry S C now) (\<lambda>registry.
         let kept = filter (\<lambda>stored. pm_id (sp_permission stored) \<noteq> pm_id permission \<and>
               \<not> permission_is_expired (sp_permission stored) now) (rg_permissions registry) in
         write_registry S C (registry\<lparr>rg_permissions := kept @ [\<lparr>sp_permission = permission,
             sp_caller_fingerprint = caller_fingerprint, sp_target_digest = target_digest,
             sp_grant_permission = grant_permission\<rparr>]\<rparr>)
           [Put address grant_bytes expires_at] provenance now)))))"

text \<open>Summaries written before the scope and the target were stored are completed only with
  a target whose digest is the one stored.\<close>

definition legacy_permission_scope ::
  "'z hash_env_scheme \<Rightarrow> VaultApplicationContext \<Rightarrow> bytes \<Rightarrow> DocumentKind option" where
  "legacy_permission_scope H application target_digest = (case ac_project application of
      None \<Rightarrow> None
    | Some project \<Rightarrow> find (\<lambda>scope.
        grant_target_digest H (Project scope project project (ac_base_dir application)) = target_digest)
        [LinuxSecretService, SecretSpecProviderCache])"

definition recover_permission_target ::
  "'z hash_env_scheme \<Rightarrow> Permission \<Rightarrow> bytes \<Rightarrow> Permission" where
  "recover_permission_target H p target_digest =
     (case (pm_target p, pm_scope p, ac_project (pm_application p)) of
        (None, Some scope, Some project) \<Rightarrow>
          (let target = Project scope project project (ac_base_dir (pm_application p)) in
           if grant_target_digest H target = target_digest
           then p\<lparr>pm_target := Some (target_summary target)\<rparr> else p)
      | _ \<Rightarrow> p)"

definition listed_permission :: "'z hash_env_scheme \<Rightarrow> u64 \<Rightarrow> StoredPermission \<Rightarrow> Permission option" where
  "listed_permission H now stored = (case pm_state (sp_permission stored) of
      Granted _ expires_at _ \<Rightarrow>
        if live now expires_at
        then Some (let p = sp_permission stored;
                       p = (if pm_scope p = None
                            then p\<lparr>pm_scope := legacy_permission_scope H (pm_application p)
                                   (sp_target_digest stored)\<rparr>
                            else p)
                   in recover_permission_target H p (sp_target_digest stored))
        else None
    | Pending _ _ _ _ _ \<Rightarrow> None)"

definition list_granted_permissions ::
  "'z hash_env_scheme \<Rightarrow> 's store_ops \<Rightarrow> grant_codecs \<Rightarrow> u64 \<Rightarrow> ('s, VaultError, Permission list) action" where
  "list_granted_permissions H S C now =
     sbind (load_permission_registry S C now) (\<lambda>registry.
     sret (List.map_filter (listed_permission H now) (rg_permissions registry)))"

definition position_of :: "('a \<Rightarrow> bool) \<Rightarrow> 'a list \<Rightarrow> nat option" where
  "position_of f xs = (case filter (f \<circ> snd) (zip [0..<length xs] xs) of [] \<Rightarrow> None | (i, _) # _ \<Rightarrow> Some i)"

definition revoke_permission ::
  "'z hash_env_scheme \<Rightarrow> 's store_ops \<Rightarrow> grant_codecs \<Rightarrow> string \<Rightarrow> u64 \<Rightarrow> Provenance
     \<Rightarrow> ('s, VaultError, unit) action" where
  "revoke_permission H S C ident now provenance =
     sbind (load_permission_registry S C now) (\<lambda>registry.
     sbind (slift (ok_or (position_of (\<lambda>stored. pm_id (sp_permission stored) = ident) (rg_permissions registry))
       (Protocol ''permission is missing or expired''))) (\<lambda>index.
     let removed = rg_permissions registry ! index;
         remaining = take index (rg_permissions registry) @ drop (Suc index) (rg_permissions registry);
         kept = filter (\<lambda>stored. \<not> permission_is_expired (sp_permission stored) now) remaining in
     sbind (slift (grant_address H (sp_caller_fingerprint removed) (sp_target_digest removed)
       (sp_grant_permission removed))) (\<lambda>address.
     write_registry S C (registry\<lparr>rg_permissions := kept\<rparr>) [Delete address] provenance now)))"

section \<open>Checking grants\<close>

datatype FoundGrant =
    Reusable "u64 option"
  | SingleUse bytes "u64 option"
  | NoGrant

definition requirement_targets :: "GrantRequirement \<Rightarrow> GrantTarget list" where
  "requirement_targets q =
     (case gq_namespace q of
        None \<Rightarrow> []
      | Some namespace \<Rightarrow>
          (case gq_address q of None \<Rightarrow> [] | Some address \<Rightarrow> [Entry (gq_scope q) namespace address]) @
          (case gq_project q of
             None \<Rightarrow> []
           | Some project \<Rightarrow>
               if (case gq_address q of
                     None \<Rightarrow> True
                   | Some address \<Rightarrow> gq_scope q = LinuxSecretService \<or>
                       (case as_secret_spec address of
                          None \<Rightarrow> False
                        | Some a \<Rightarrow> (case secret_spec_project a of None \<Rightarrow> True | Some p \<Rightarrow> p = project)))
               then
                 (case gq_address q of
                    None \<Rightarrow> []
                  | Some address \<Rightarrow> [ProjectEntry (gq_scope q) namespace address project (gq_base_dir q)]) @
                 [Project (gq_scope q) namespace project (gq_base_dir q)]
               else []) @
          [Namespace (gq_scope q) namespace]) @
     [Kind (gq_scope q)]"

fun scan_grants ::
  "grant_codecs \<Rightarrow> bytes \<Rightarrow> GrantPermission \<Rightarrow> u64 \<Rightarrow> (bytes \<times> bytes option) list \<Rightarrow> FoundGrant
     \<Rightarrow> FoundGrant vault_result" where
  "scan_grants C caller_fingerprint p now [] single_use = Inr single_use"
| "scan_grants C caller_fingerprint p now ((target_digest, None) # rest) single_use =
     scan_grants C caller_fingerprint p now rest single_use"
| "scan_grants C caller_fingerprint p now ((target_digest, Some b) # rest) single_use =
     rbind (map_err Protocol (from_slice (j_grant C) b)) (\<lambda>grant.
     if \<not> grant_satisfies grant caller_fingerprint target_digest p now
     then scan_grants C caller_fingerprint p now rest single_use
     else if \<not> ag_single_use grant then Inr (Reusable (ag_expires_at grant))
     else scan_grants C caller_fingerprint p now rest
       (case single_use of NoGrant \<Rightarrow> SingleUse target_digest (ag_expires_at grant) | _ \<Rightarrow> single_use))"

definition find_grant ::
  "'z hash_env_scheme \<Rightarrow> 's store_ops \<Rightarrow> grant_codecs \<Rightarrow> CallerIdentity \<Rightarrow> GrantRequirement \<Rightarrow> u64
     \<Rightarrow> ('s, VaultError, FoundGrant) action" where
  "find_grant H S C caller q now =
     (let caller_fingerprint = fingerprint H caller;
          targets = map (grant_target_digest H) (requirement_targets q) in
      sbind (slift (rmapM (\<lambda>d. grant_address H caller_fingerprint d (gq_permission q)) targets)) (\<lambda>addresses.
      sbind (op_get_many S addresses now) (\<lambda>records.
      slift (scan_grants C caller_fingerprint (gq_permission q) now (zip targets records) NoGrant))))"

definition require_grant_until ::
  "'z hash_env_scheme \<Rightarrow> 's store_ops \<Rightarrow> grant_codecs \<Rightarrow> CallerIdentity \<Rightarrow> GrantRequirement \<Rightarrow> u64
     \<Rightarrow> ('s, VaultError, u64 option) action" where
  "require_grant_until H S C caller q now =
     sbind (find_grant H S C caller q now) (\<lambda>found.
     case found of
       Reusable expires_at \<Rightarrow> sret expires_at
     | SingleUse _ _ \<Rightarrow> slift (Inl AuthorizationRequired)
     | NoGrant \<Rightarrow> slift (Inl AuthorizationRequired))"

definition consume_grant ::
  "'z hash_env_scheme \<Rightarrow> 's store_ops \<Rightarrow> grant_codecs \<Rightarrow> bytes \<Rightarrow> bytes \<Rightarrow> GrantPermission \<Rightarrow> u64
     \<Rightarrow> Provenance \<Rightarrow> ('s, VaultError, unit) action" where
  "consume_grant H S C caller_fingerprint target_digest grant_permission now provenance =
     sbind (load_permission_registry S C now) (\<lambda>registry.
     let kept = filter (\<lambda>stored.
           \<not> (sp_caller_fingerprint stored = caller_fingerprint \<and> sp_target_digest stored = target_digest \<and>
              sp_grant_permission stored = grant_permission) \<and>
           \<not> permission_is_expired (sp_permission stored) now) (rg_permissions registry) in
     sbind (slift (grant_address H caller_fingerprint target_digest grant_permission)) (\<lambda>address.
     write_registry S C (registry\<lparr>rg_permissions := kept\<rparr>) [Delete address] provenance now))"

definition require_grant_consuming ::
  "'z hash_env_scheme \<Rightarrow> 's store_ops \<Rightarrow> grant_codecs \<Rightarrow> CallerIdentity \<Rightarrow> GrantRequirement \<Rightarrow> u64
     \<Rightarrow> Provenance \<Rightarrow> ('s, VaultError, u64 option) action" where
  "require_grant_consuming H S C caller q now provenance =
     sbind (find_grant H S C caller q now) (\<lambda>found.
     case found of
       Reusable expires_at \<Rightarrow> sret expires_at
     | SingleUse target_digest expires_at \<Rightarrow>
         sbind (consume_grant H S C (fingerprint H caller) target_digest (gq_permission q) now provenance)
           (\<lambda>_. sret expires_at)
     | NoGrant \<Rightarrow> slift (Inl AuthorizationRequired))"

end
