(* ===== verification/Store_Laws.thy ===== *)
theory Store_Laws
  imports Store_Worker Document_Laws
begin

text \<open>
  What the store worker guarantees of a load and of a commit: a successful load has
  checked everything it returns against the verified state, a commit takes effect whole
  or not at all, and the next load returns what the commit wrote.
\<close>

section \<open>Readers leave the store as it is\<close>

definition store_is :: "Db \<Rightarrow> VerifiedStoreState \<Rightarrow> StoreWorker \<Rightarrow> bool" where
  "store_is db v w \<longleftrightarrow> sw_db w = db \<and> sw_verified w = v"

lemma preserves_case_option [preserves_intros]:
  "preserves I m \<Longrightarrow> (\<And>x. preserves I (f x)) \<Longrightarrow>
     preserves I (case v of None \<Rightarrow> m | Some x \<Rightarrow> f x)"
  by (cases v) simp_all

lemma preserves_case_prod [preserves_intros]:
  "(\<And>x y. preserves I (f x y)) \<Longrightarrow> preserves I (case p of (x, y) \<Rightarrow> f x y)"
  by (cases p) simp

lemma store_is_statement [preserves_intros]: "preserves (store_is db v) (statement E)"
  by (rule preservesI) (auto simp: statement_def store_is_def)

lemma store_is_query [preserves_intros]: "preserves (store_is db v) (query E f)"
  unfolding query_def by (intro preserves_intros)

lemma store_is_draw [preserves_intros]: "preserves (store_is db v) (draw E n)"
  by (rule preservesI) (auto simp: draw_def store_is_def)

lemma store_is_version_ids [preserves_intros]: "preserves (store_is db v) (version_ids E n)"
  by (rule preservesI) (auto simp: version_ids_def store_is_def)

lemma store_is_readers [preserves_intros]:
  "preserves (store_is db v) (current_commit_head E)"
  "preserves (store_is db v) (read_manifest E)"
  "preserves (store_is db v) (document_rows E)"
  unfolding current_commit_head_def read_manifest_def document_rows_def
  by (intro preserves_intros)+

lemma store_is_verifiers [preserves_intros]:
  "preserves (store_is db v) (verify_state_anchor E)"
  "preserves (store_is db v) (verify_inventory E vs)"
  "preserves (store_is db v) (verify_current_row_sets E)"
  "preserves (store_is db v) (verify_snapshot_against_head E h i g k b)"
  "preserves (store_is db v) (checkpoint E)"
  unfolding verify_state_anchor_def verify_inventory_def verify_current_row_sets_def
    verify_snapshot_against_head_def checkpoint_def
  by (intro preserves_intros)+

lemma store_is_verify_live [preserves_intros]: "preserves (store_is db v) (verify_live_inventory E)"
  unfolding verify_live_inventory_def by (intro preserves_intros)

lemma store_is_load_head [preserves_intros]: "preserves (store_is db v) (load_head E i k)"
  unfolding load_head_def by (intro preserves_intros)

lemma store_is_load [preserves_intros]:
  "preserves (store_is db v) (load_document E i k p)"
  "preserves (store_is db v) (load_history E i k p)"
  unfolding load_document_def load_history_def by (intro preserves_intros)+

lemma store_is_prepare [preserves_intros]:
  "preserves (store_is db v) (prepare_commit E i k c m x)"
  unfolding prepare_commit_def Let_def by (intro preserves_intros)

lemma store_is_reads [preserves_intros]:
  "preserves (store_is db v) (store_get_many E i k p as now)"
  "preserves (store_is db v) (list_history E i k p a b n)"
  unfolding store_get_many_def list_history_def by (intro preserves_intros)+

lemma store_isD:
  assumes "preserves (store_is (sw_db w) (sw_verified w)) m" and "m w = (r, w')"
  shows "sw_db w' = sw_db w" "sw_verified w' = sw_verified w"
  using preservesD [OF assms] by (simp_all add: store_is_def)

section \<open>What a successful load has checked\<close>

definition calm :: "('d, 'r, 'i, 'z) store_env_scheme \<Rightarrow> nat \<Rightarrow> bool" where
  "calm E n \<longleftrightarrow> (\<forall>k \<ge> n. db_fault E k = None \<and> commit_fault E k = None \<and> checkpoint_rows E k = [0])"

lemma calmD:
  assumes "calm E n" and "n \<le> k"
  shows "db_fault E k = None" "commit_fault E k = None" "checkpoint_rows E k = [0]" "calm E k"
  using assms unfolding calm_def by auto

lemma query_ok [res_simps]:
  "query E f w = (Inr x, w') \<longleftrightarrow>
     db_fault E (sw_io w) = None \<and> x = f (sw_db w) \<and> w' = w\<lparr>sw_io := Suc (sw_io w)\<rparr>"
  by (auto simp: query_def statement_def sbind_def split: option.splits)

lemma query_calm: "calm E n \<Longrightarrow> n \<le> sw_io w \<Longrightarrow> query E f w = (Inr (f (sw_db w)), w\<lparr>sw_io := Suc (sw_io w)\<rparr>)"
  by (simp add: query_ok calmD)

lemma array_from_blob_ok [res_simps]: "array_from_blob n b name = Inr c \<longleftrightarrow> c = b \<and> length b = n"
  by (auto simp: array_from_blob_def)

lemma to_i64_ok [res_simps]: "to_i64 v = Inr c \<longleftrightarrow> c = v \<and> 0 \<le> sint v"
  by (auto simp: to_i64_def)

lemma from_i64_ok [res_simps]: "from_i64 v name = Inr c \<longleftrightarrow> c = v \<and> 0 \<le> sint v"
  by (auto simp: from_i64_def)

lemma row_deadline_ok [res_simps]:
  "row_deadline v = Inr c \<longleftrightarrow> c = v \<and> (\<forall>t. v = Some t \<longrightarrow> 0 \<le> sint t)"
  by (cases v) (auto simp: row_deadline_def res_simps)

lemma slift_ok [res_simps]: "slift r w = (Inr x, w') \<longleftrightarrow> r = Inr x \<and> w' = w"
  by (auto simp: slift_def)

definition anchor_ok :: "('d, 'r, 'i, 'z) store_env_scheme \<Rightarrow> Db \<Rightarrow> VerifiedStoreState \<Rightarrow> bool" where
  "anchor_ok E db v \<longleftrightarrow> (\<exists>b m. fmlookup (db_meta db) ''current-state-manifest'' = Some b \<and>
     length b \<le> MAX_MANIFEST_BYTES \<and> from_slice (j_manifest E) b = Inr m \<and>
     vs_manifest_digest v = Some (digest E b) \<and>
     fmlookup (db_meta db) ''current-commit-head'' = vs_head v \<and>
     (\<forall>h. vs_head v = Some h \<longrightarrow> length h = 32))"

lemma current_commit_head_ok [res_simps]:
  "current_commit_head E w = (Inr h, w') \<longleftrightarrow>
     db_fault E (sw_io w) = None \<and> h = fmlookup (db_meta (sw_db w)) ''current-commit-head'' \<and>
     (\<forall>b. h = Some b \<longrightarrow> length b = 32) \<and> w' = w\<lparr>sw_io := Suc (sw_io w)\<rparr>"
  by (cases "fmlookup (db_meta (sw_db w)) ''current-commit-head''")
    (auto simp: current_commit_head_def res_simps)

lemma read_manifest_ok [res_simps]:
  "read_manifest E w = (Inr (m, b), w') \<longleftrightarrow>
     db_fault E (sw_io w) = None \<and> fmlookup (db_meta (sw_db w)) ''current-state-manifest'' = Some b \<and>
     length b \<le> MAX_MANIFEST_BYTES \<and> from_slice (j_manifest E) b = Inr m \<and>
     w' = w\<lparr>sw_io := Suc (sw_io w)\<rparr>"
  by (auto simp: read_manifest_def res_simps)

lemma verify_state_anchor_ok [res_simps]:
  "verify_state_anchor E w = (Inr u, w') \<longleftrightarrow>
     db_fault E (sw_io w) = None \<and> db_fault E (Suc (sw_io w)) = None \<and>
     anchor_ok E (sw_db w) (sw_verified w) \<and> w' = w\<lparr>sw_io := Suc (Suc (sw_io w))\<rparr>"
  by (auto simp: verify_state_anchor_def anchor_ok_def res_simps split: if_splits; blast)

definition head_at ::
  "('d, 'r, 'i, 'z) store_env_scheme \<Rightarrow> Db \<Rightarrow> VerifiedStoreState \<Rightarrow> bytes \<Rightarrow> DocumentKind \<Rightarrow> DocumentHead
     \<Rightarrow> bool" where
  "head_at E db v ident kind h \<longleftrightarrow> (\<exists>r t wrapped b rec hd.
     fmlookup (db_documents db) ident = Some r \<and> fmlookup (vs_documents v) ident = Some t \<and>
     length (sq_vault_id r) = 16 \<and> row_columns E (sq_vault_id r) ident r = Inr (vd_row t) \<and>
     from_slice (j_wrapped E) (sq_wrapped_dek r) = Inr wrapped \<and>
     dr_vault_id (vd_row t) = device_vault_id E \<and> dr_scope (vd_row t) = kind \<and>
     unwrap_document_key (cipher E) (root_key E) (installation_id E) (device_vault_id E) ident kind
       (dr_key_epoch (vd_row t)) wrapped = Inr (dh_data_key h) \<and>
     0 \<le> sint (dr_generation (vd_row t)) \<and>
     fmlookup (db_snapshots db) (ident, dr_generation (vd_row t)) = Some b \<and>
     from_slice (j_envelope E) b = Inr (dh_envelope h) \<and>
     envelope_context (dh_envelope h) = \<lparr>ec_vault_id = device_vault_id E, ec_document_id = ident,
       ec_scope = kind, ec_device_key_id = device_key_id E, ec_generation = dr_generation (vd_row t),
       ec_key_epoch = dr_key_epoch (vd_row t)\<rparr> \<and>
     vd_snapshot_digest t = digest E b \<and>
     fmlookup (db_heads db) ident = Some (dr_current_commit_id (vd_row t), rec) \<and>
     from_slice (j_head E) rec = Inr hd \<and> head_verify E hd (dr_current_commit_id (vd_row t)) = Inr () \<and>
     dh_current_commit_id h = dr_current_commit_id (vd_row t) \<and>
     dh_generation h = dr_generation (vd_row t) \<and> dh_key_epoch h = dr_key_epoch (vd_row t) \<and>
     dh_wrapped_dek h = sq_wrapped_dek r)"

definition absent :: "Db \<Rightarrow> VerifiedStoreState \<Rightarrow> bytes \<Rightarrow> bool" where
  "absent db v ident \<longleftrightarrow> fmlookup (db_documents db) ident = None \<and> fmlookup (vs_documents v) ident = None"

lemma verify_snapshot_ok:
  "verify_snapshot_against_head E hid ident g k b w = (Inr u, w') \<longleftrightarrow>
     (\<exists>t rec hd. fmlookup (vs_documents (sw_verified w)) ident = Some t \<and>
       dr_current_commit_id (vd_row t) = hid \<and> dr_generation (vd_row t) = g \<and>
       dr_key_epoch (vd_row t) = k \<and> vd_snapshot_digest t = digest E b \<and>
       fmlookup (db_heads (sw_db w)) ident = Some (hid, rec) \<and> from_slice (j_head E) rec = Inr hd \<and>
       head_verify E hd hid = Inr () \<and> db_fault E (sw_io w) = None \<and> w' = w\<lparr>sw_io := Suc (sw_io w)\<rparr>)"
  unfolding verify_snapshot_against_head_def
  by (auto simp: res_simps split: if_splits option.splits)

lemma row_columns_ids:
  "row_columns E vault ident r = Inr t \<Longrightarrow> dr_vault_id t = vault \<and> dr_document_id t = ident \<and>
     dr_wrapped_key_digest t = digest E (sq_wrapped_dek r)"
  by (auto simp: row_columns_def res_simps)

lemma load_head_none:
  "load_head E ident kind w = (Inr None, w') \<Longrightarrow>
     anchor_ok E (sw_db w) (sw_verified w) \<and> absent (sw_db w) (sw_verified w) ident"
  unfolding load_head_def absent_def
  by (auto simp: res_simps fmdom_notD split: option.splits)

lemma load_head_some:
  assumes "load_head E ident kind w = (Inr (Some h), w')"
  shows "anchor_ok E (sw_db w) (sw_verified w) \<and> head_at E (sw_db w) (sw_verified w) ident kind h"
  using assms unfolding load_head_def
  apply (clarsimp simp: res_simps verify_snapshot_ok split: option.splits)
  apply (frule row_columns_ids)
  apply (simp add: head_at_def envelope_context_def)
  done

lemma load_head_calm_some:
  assumes "anchor_ok E (sw_db w) (sw_verified w)" and "head_at E (sw_db w) (sw_verified w) ident kind h"
    and "calm E (sw_io w)"
  shows "load_head E ident kind w = (Inr (Some h), w\<lparr>sw_io := sw_io w + 5\<rparr>)"
  using assms(1,2) calmD(1) [OF assms(3)] unfolding head_at_def
  apply (elim exE conjE)
  apply (frule row_columns_ids)
  apply (cases h)
  apply (simp add: load_head_def res_simps verify_snapshot_ok envelope_context_def)
  done

lemma load_head_calm_none:
  assumes "anchor_ok E (sw_db w) (sw_verified w)" and "absent (sw_db w) (sw_verified w) ident"
    and "calm E (sw_io w)"
  shows "load_head E ident kind w = (Inr None, w\<lparr>sw_io := sw_io w + 3\<rparr>)"
  using assms(1,2) calmD(1) [OF assms(3)] unfolding absent_def
  by (simp add: load_head_def res_simps fmdom_notI)

section \<open>A load is decided by the verified state\<close>

definition stored_blobs :: "Db \<Rightarrow> bytes \<Rightarrow> bytes set" where
  "stored_blobs db ident = {b. \<exists>r. fmlookup (db_documents db) ident = Some r \<and> b = sq_wrapped_dek r} \<union>
     {b. \<exists>g. fmlookup (db_snapshots db) (ident, g) = Some b}"

lemma head_at_unique:
  assumes "head_at E db v ident kind h" and "head_at E db' v ident kind h'"
  shows "h = h' \<or> (\<exists>x \<in> stored_blobs db ident. \<exists>y \<in> stored_blobs db' ident. collision E x y)"
proof -
  from assms(1) obtain r t wrapped b where
    r: "fmlookup (db_documents db) ident = Some r" "row_columns E (sq_vault_id r) ident r = Inr (vd_row t)"
      "from_slice (j_wrapped E) (sq_wrapped_dek r) = Inr wrapped"
    and t: "fmlookup (vs_documents v) ident = Some t"
    and b: "fmlookup (db_snapshots db) (ident, dr_generation (vd_row t)) = Some b"
      "from_slice (j_envelope E) b = Inr (dh_envelope h)" "vd_snapshot_digest t = digest E b"
    and h: "unwrap_document_key (cipher E) (root_key E) (installation_id E) (device_vault_id E) ident kind
       (dr_key_epoch (vd_row t)) wrapped = Inr (dh_data_key h)"
      "dh_current_commit_id h = dr_current_commit_id (vd_row t)" "dh_generation h = dr_generation (vd_row t)"
      "dh_key_epoch h = dr_key_epoch (vd_row t)" "dh_wrapped_dek h = sq_wrapped_dek r"
    unfolding head_at_def by blast
  from assms(2) obtain r' t' wrapped' b' where
    r': "fmlookup (db_documents db') ident = Some r'" "row_columns E (sq_vault_id r') ident r' = Inr (vd_row t')"
      "from_slice (j_wrapped E) (sq_wrapped_dek r') = Inr wrapped'"
    and t': "fmlookup (vs_documents v) ident = Some t'"
    and b': "fmlookup (db_snapshots db') (ident, dr_generation (vd_row t')) = Some b'"
      "from_slice (j_envelope E) b' = Inr (dh_envelope h')" "vd_snapshot_digest t' = digest E b'"
    and h': "unwrap_document_key (cipher E) (root_key E) (installation_id E) (device_vault_id E) ident kind
       (dr_key_epoch (vd_row t')) wrapped' = Inr (dh_data_key h')"
      "dh_current_commit_id h' = dr_current_commit_id (vd_row t')" "dh_generation h' = dr_generation (vd_row t')"
      "dh_key_epoch h' = dr_key_epoch (vd_row t')" "dh_wrapped_dek h' = sq_wrapped_dek r'"
    unfolding head_at_def by blast
  have [simp]: "t' = t" using t t' by simp
  have "digest E (sq_wrapped_dek r) = digest E (sq_wrapped_dek r')"
    using row_columns_ids [OF r(2)] row_columns_ids [OF r'(2)] by simp
  then consider "sq_wrapped_dek r = sq_wrapped_dek r'" "b = b'"
    | "collision E (sq_wrapped_dek r) (sq_wrapped_dek r') \<or> collision E b b'"
    using b(3) b'(3) by (auto simp: collision_def digest_def)
  then show ?thesis
  proof cases
    case 1
    have "h = h'" using 1 r(3) r'(3) b(2) b'(2) h h' by (cases h; cases h') simp
    then show ?thesis ..
  next
    case 2
    then show ?thesis using r(1) r'(1) b(1) b'(1) unfolding stored_blobs_def by blast
  qed
qed

lemma head_at_not_absent: "head_at E db v ident kind h \<Longrightarrow> \<not> absent db' v ident"
  by (auto simp: head_at_def absent_def)

lemma load_document_ok [res_simps]:
  "load_document E ident kind part w = (Inr l, w') \<longleftrightarrow>
     (\<exists>h. load_head E ident kind w = (Inr h, w') \<and> (case h of None \<Rightarrow> l = None
       | Some h \<Rightarrow> \<exists>snapshot D. decrypt_snapshot (cipher E) (dh_envelope h) (dh_data_key h) = Inr snapshot \<and>
           document_load E snapshot (actor_id E) kind part = Inr D \<and>
           l = Some \<lparr>ld_document = D, ld_head = h\<rparr>))"
  unfolding load_document_def by (auto simp: res_simps split: option.splits)

lemma load_document_authentic:
  assumes "load_document E ident kind part w1 = (Inr l1, w1')"
    and "load_document E ident kind part w2 = (Inr l2, w2')"
    and "sw_verified w1 = sw_verified w2"
  shows "l1 = l2 \<or>
    (\<exists>x \<in> stored_blobs (sw_db w1) ident. \<exists>y \<in> stored_blobs (sw_db w2) ident. collision E x y)"
proof -
  from assms(1) obtain h1 where h1: "load_head E ident kind w1 = (Inr h1, w1')" by (auto simp: res_simps)
  from assms(2) obtain h2 where h2: "load_head E ident kind w2 = (Inr h2, w2')" by (auto simp: res_simps)
  show ?thesis
  proof (cases h1)
    case None
    then have "absent (sw_db w1) (sw_verified w2) ident"
      using h1 load_head_none [of E ident kind w1 w1'] assms(3) by simp
    then have "h2 = None"
      using h2 load_head_some [of E ident kind w2 _ w2'] head_at_not_absent by (cases h2) fast+
    then show ?thesis using None h1 h2 assms(1,2) by (auto simp: res_simps)
  next
    case (Some a)
    then have "head_at E (sw_db w1) (sw_verified w2) ident kind a"
      using h1 load_head_some [of E ident kind w1 a w1'] assms(3) by simp
    moreover from this obtain c where c: "h2 = Some c"
      using h2 load_head_none [of E ident kind w2 w2'] head_at_not_absent by (cases h2) fast+
    moreover have "head_at E (sw_db w2) (sw_verified w2) ident kind c"
      using h2 load_head_some [of E ident kind w2 c w2'] c by simp
    ultimately have "a = c \<or>
      (\<exists>x \<in> stored_blobs (sw_db w1) ident. \<exists>y \<in> stored_blobs (sw_db w2) ident. collision E x y)"
      by (intro head_at_unique)
    then show ?thesis using Some c h1 h2 assms(1,2) by (auto simp: res_simps)
  qed
qed

section \<open>Commits\<close>

definition new_row :: "PreparedCommit \<Rightarrow> SqlDocument" where
  "new_row p = \<lparr>sq_vault_id = pr_vault_id p, sq_document_kind = document_kind_as_str (pr_scope p),
     sq_generation = pr_generation p, sq_key_epoch = pr_key_epoch p, sq_wrapped_dek = pr_wrapped_dek p,
     sq_current_commit_id = ch_head_id (pr_current_head p), sq_next_eviction = pr_next_eviction p\<rparr>"

definition next_documents ::
  "PreparedCommit \<Rightarrow> VerifiedStoreState \<Rightarrow> (bytes, VerifiedDocument) fmap" where
  "next_documents p v = fmupd (pr_document_id p) (verified_document_new (pr_current_head p)
     (word_of_nat (length (pr_snapshot_envelope p)))) (vs_documents v)"

definition commit_db :: "PreparedCommit \<Rightarrow> StateManifest \<Rightarrow> bytes \<Rightarrow> Db \<Rightarrow> Db" where
  "commit_db p m b db =
     \<lparr>db_documents = fmupd (pr_document_id p) (new_row p) (db_documents db),
      db_snapshots = fmupd (pr_document_id p, pr_generation p) (pr_snapshot_envelope p)
        (fmfilter (\<lambda>k. fst k \<noteq> pr_document_id p) (db_snapshots db)),
      db_heads = fmupd (pr_document_id p) (ch_head_id (pr_current_head p), pr_head_record p) (db_heads db),
      db_meta = fmupd ''current-commit-head'' (sm_manifest_id m)
        (fmupd ''current-state-manifest'' b (db_meta db))\<rparr>"

definition commit_verified ::
  "('d, 'r, 'i, 'z) store_env_scheme \<Rightarrow> PreparedCommit \<Rightarrow> StateManifest \<Rightarrow> bytes \<Rightarrow> VerifiedStoreState
     \<Rightarrow> VerifiedStoreState" where
  "commit_verified E p m b v = \<lparr>vs_head = Some (sm_manifest_id m), vs_documents = next_documents p v,
     vs_manifest_digest = Some (digest E b)\<rparr>"

text \<open>The writes a transaction makes once its checks have passed.\<close>

definition commit_checked ::
  "('d, 'r, 'i, 'z) store_env_scheme \<Rightarrow> PreparedCommit \<Rightarrow> StateManifest \<Rightarrow> bytes \<Rightarrow> Db
     \<Rightarrow> VerifiedStoreState \<Rightarrow> bool" where
  "commit_checked E p m b db v \<longleftrightarrow>
     sign_manifest E (next_documents p v) False = Inr m \<and> to_vec (j_manifest E) m = Inr b \<and>
     0 \<le> sint (pr_generation p) \<and> 0 \<le> sint (pr_key_epoch p) \<and>
     (\<forall>t. pr_next_eviction p = Some t \<longrightarrow> 0 \<le> sint t) \<and> anchor_ok E db v \<and>
     (case pr_expected p of
        None \<Rightarrow> pr_document_id p |\<notin>| fmdom (db_documents db)
      | Some h \<Rightarrow> \<exists>r. fmlookup (db_documents db) (pr_document_id p) = Some r \<and>
          sq_vault_id r = pr_vault_id p \<and> sq_generation r = dh_generation h \<and>
          sq_document_kind r = document_kind_as_str (pr_scope p) \<and>
          sq_wrapped_dek r = dh_wrapped_dek h \<and> sq_current_commit_id r = dh_current_commit_id h \<and>
          sq_key_epoch r = dh_key_epoch h)"

lemma update_ok [res_simps]:
  "update E f w = (Inr u, w') \<longleftrightarrow>
     db_fault E (sw_io w) = None \<and> w' = w\<lparr>sw_io := Suc (sw_io w), sw_db := f (sw_db w)\<rparr>"
  by (auto simp: update_def statement_def sbind_def split: option.splits)

lemma smodify_ok [res_simps]: "smodify f w = (Inr u, w') \<longleftrightarrow> w' = f w"
  by auto

lemma persist_document_head_ok:
  assumes "persist_document_head E p w = (Inr u, w')"
  shows "sw_verified w' = sw_verified w \<and>
    sw_db w' = (sw_db w)\<lparr>db_documents := fmupd (pr_document_id p) (new_row p) (db_documents (sw_db w))\<rparr> \<and>
    0 \<le> sint (pr_generation p) \<and> 0 \<le> sint (pr_key_epoch p) \<and>
    (\<forall>t. pr_next_eviction p = Some t \<longrightarrow> 0 \<le> sint t) \<and>
    (case pr_expected p of
        None \<Rightarrow> pr_document_id p |\<notin>| fmdom (db_documents (sw_db w))
      | Some h \<Rightarrow> \<exists>r. fmlookup (db_documents (sw_db w)) (pr_document_id p) = Some r \<and>
          sq_vault_id r = pr_vault_id p \<and> sq_generation r = dh_generation h \<and>
          sq_document_kind r = document_kind_as_str (pr_scope p) \<and>
          sq_wrapped_dek r = dh_wrapped_dek h \<and> sq_current_commit_id r = dh_current_commit_id h \<and>
          sq_key_epoch r = dh_key_epoch h)"
proof -
  have nx: "(case x of None \<Rightarrow> Inr None | Some t \<Rightarrow> rbind (to_i64 t) (\<lambda>t. Inr (Some t))) = Inr y \<longleftrightarrow>
      y = x \<and> (\<forall>t. x = Some t \<longrightarrow> 0 \<le> sint t)" for x y
    by (cases x) (auto simp: res_simps)
  show ?thesis using assms unfolding persist_document_head_def
    by (auto simp: res_simps nx new_row_def Let_def split: option.splits if_splits)
qed

lemma commit_body_ok:
  assumes "sbind (verify_live_inventory E) (\<lambda>_.
        sbind (persist_document_head E p) (\<lambda>_.
        sbind (persist_snapshot E (pr_document_id p) (pr_generation p) (pr_snapshot_envelope p)) (\<lambda>_.
        sbind (persist_head_record E (pr_document_id p) (pr_current_head p) (pr_head_record p)) (\<lambda>_.
        sbind (sget (\<lambda>w. fmupd (pr_document_id p) (verified_document_new (pr_current_head p)
            (word_of_nat (length (pr_snapshot_envelope p)))) (vs_documents (sw_verified w)))) (\<lambda>next_documents.
        sbind (slift (sign_manifest E next_documents False)) (\<lambda>manifest.
        sbind (persist_manifest E manifest) (\<lambda>fingerprint.
        sret (manifest, fingerprint, next_documents)))))))) w = (Inr (m, f, n), w')"
  shows "\<exists>b. commit_checked E p m b (sw_db w) (sw_verified w) \<and> f = digest E b \<and>
    n = next_documents p (sw_verified w) \<and> sw_db w' = commit_db p m b (sw_db w) \<and>
    sw_verified w' = sw_verified w"
proof -
  from assms obtain w1 w2 w3 b where
    live: "verify_live_inventory E w = (Inr (), w1)" and
    head: "persist_document_head E p w1 = (Inr (), w2)" and
    snap: "persist_snapshot E (pr_document_id p) (pr_generation p) (pr_snapshot_envelope p) w2 = (Inr (), w3)" and
    sign: "sign_manifest E (next_documents p (sw_verified w3)) False = Inr m" and
    n: "n = next_documents p (sw_verified w3)" and
    b: "to_vec (j_manifest E) m = Inr b" "f = digest E b"
      "sw_verified w' = sw_verified w3"
      "sw_db w' = (sw_db w3)\<lparr>db_heads := fmupd (pr_document_id p)
          (ch_head_id (pr_current_head p), pr_head_record p) (db_heads (sw_db w3)),
        db_meta := fmupd ''current-commit-head'' (sm_manifest_id m)
          (fmupd ''current-state-manifest'' b (db_meta (sw_db w3)))\<rparr>"
    by (auto simp: res_simps persist_head_record_def persist_manifest_def next_documents_def)
  from store_isD [OF store_is_verify_live live]
  have w1: "sw_db w1 = sw_db w" "sw_verified w1 = sw_verified w" .
  from live have anchor: "anchor_ok E (sw_db w) (sw_verified w)"
    by (auto simp: verify_live_inventory_def res_simps)
  from snap have w3: "sw_verified w3 = sw_verified w2"
    "sw_db w3 = (sw_db w2)\<lparr>db_snapshots := fmupd (pr_document_id p, pr_generation p) (pr_snapshot_envelope p)
        (fmfilter (\<lambda>k. fst k \<noteq> pr_document_id p) (db_snapshots (sw_db w2)))\<rparr>"
    by (auto simp: persist_snapshot_def res_simps)
  note h = persist_document_head_ok [OF head, unfolded w1]
  then have w2: "sw_verified w2 = sw_verified w" "sw_db w2 = (sw_db w)\<lparr>db_documents :=
      fmupd (pr_document_id p) (new_row p) (db_documents (sw_db w))\<rparr>" by simp_all
  have "sw_db w' = commit_db p m b (sw_db w)"
    unfolding b(4) w3(2) w2(2) commit_db_def by (cases "sw_db w") (simp cong del: fmfilter_cong)
  then show ?thesis using h sign n b(1-3) anchor
    by (intro exI [of _ b]) (simp add: w2 w3 commit_checked_def)
qed

lemma preserves_update_verified: "preserves (\<lambda>w. sw_verified w = v) (update E f)"
  by (rule preservesI) (auto simp: update_def statement_def sbind_def split: option.splits)

text \<open>How a commit can end: without effect, with everything written but its
  acknowledgement lost, or complete.\<close>

inductive commit_outcome ::
  "('d, 'r, 'i, 'z) store_env_scheme \<Rightarrow> PreparedCommit \<Rightarrow> Db \<Rightarrow> VerifiedStoreState \<Rightarrow> unit vault_result
     \<Rightarrow> Db \<Rightarrow> VerifiedStoreState \<Rightarrow> bool"
  for E p db v where
  undone: "commit_outcome E p db v (Inl e) db v"
| unacknowledged: "commit_checked E p m b db v \<Longrightarrow>
    commit_outcome E p db v (Inl (Database e)) (commit_db p m b db) v"
| complete: "commit_checked E p m b db v \<Longrightarrow>
    commit_outcome E p db v (Inr ()) (commit_db p m b db) (commit_verified E p m b v)"

inductive_cases commit_outcome_ok: "commit_outcome E p db v (Inr u) db' v'"
inductive_cases commit_outcome_err: "commit_outcome E p db v (Inl e) db' v'"

lemma verified_fixed:
  "preserves (\<lambda>w. sw_verified w = v) (verify_live_inventory E)"
  "preserves (\<lambda>w. sw_verified w = v) (persist_document_head E p)"
  "preserves (\<lambda>w. sw_verified w = v) (persist_snapshot E i g b)"
  "preserves (\<lambda>w. sw_verified w = v) (persist_head_record E i h b)"
  "preserves (\<lambda>w. sw_verified w = v) (persist_manifest E m)"
proof -
  have q: "preserves (\<lambda>w. sw_verified w = v) (query E g)" for g :: "Db \<Rightarrow> 'x"
    by (rule preservesI) (auto simp: query_def statement_def sbind_def split: option.splits)
  have m: "preserves (\<lambda>w. sw_verified w = v) (smodify (\<lambda>w. w\<lparr>sw_db := g w\<rparr>))" for g
    by (rule preserves_smodify) simp
  show "preserves (\<lambda>w. sw_verified w = v) (verify_live_inventory E)"
    by (rule preservesI) (auto dest: store_isD(2) [OF store_is_verify_live])
  show "preserves (\<lambda>w. sw_verified w = v) (persist_document_head E p)"
    unfolding persist_document_head_def Let_def by (intro preserves_intros q m)
  show "preserves (\<lambda>w. sw_verified w = v) (persist_snapshot E i g b)"
    unfolding persist_snapshot_def by (intro preserves_intros preserves_update_verified)
  show "preserves (\<lambda>w. sw_verified w = v) (persist_head_record E i h b)"
    unfolding persist_head_record_def by (intro preserves_intros preserves_update_verified)
  show "preserves (\<lambda>w. sw_verified w = v) (persist_manifest E m)"
    unfolding persist_manifest_def by (intro preserves_intros preserves_update_verified)
qed

lemma transaction_cases:
  assumes run: "transaction E body w = (r, w')" and body: "\<And>v. preserves (\<lambda>w. sw_verified w = v) body"
  obtains (undone) e where "r = Inl e" "sw_db w' = sw_db w" "sw_verified w' = sw_verified w"
  | (lost) e x w1 w2 where "r = Inl (Database e)" "sw_db w1 = sw_db w" "sw_verified w1 = sw_verified w"
      "body w1 = (Inr x, w2)" "sw_db w' = sw_db w2" "sw_verified w' = sw_verified w"
  | (ok) x w1 w2 where "r = Inr x" "sw_db w1 = sw_db w" "sw_verified w1 = sw_verified w"
      "body w1 = (Inr x, w2)" "sw_db w' = sw_db w2" "sw_verified w' = sw_verified w"
proof (cases "db_fault E (sw_io w)")
  case (Some e)
  then have "r = Inl (Database e)" "sw_db w' = sw_db w" "sw_verified w' = sw_verified w"
    using run by (auto simp: transaction_def statement_def sbind_def)
  then show thesis by (rule undone)
next
  case None
  let ?w1 = "w\<lparr>sw_io := Suc (sw_io w)\<rparr>"
  obtain q w2 where b: "body ?w1 = (q, w2)" by (cases "body ?w1")
  have v: "sw_verified w2 = sw_verified w" using preservesD [OF body b] by simp
  have st: "statement E w = (Inr (), ?w1)" using None by (simp add: statement_def)
  show thesis
  proof (cases q)
    case (Inl e)
    then have "r = Inl e" "sw_db w' = sw_db w" "sw_verified w' = sw_verified w"
      using run b v st by (auto simp: transaction_def sbind_def)
    then show thesis by (rule undone)
  next
    case (Inr x)
    then have run': "sbind (commit_or_undo E (sw_db w)) (\<lambda>_. sret x) w2 = (r, w')"
      using run b st by (simp add: transaction_def)
    show thesis
    proof (cases "commit_fault E (sw_io w2)")
      case None
      then have "r = Inr x" "sw_db w' = sw_db w2" "sw_verified w' = sw_verified w"
        using run' v by (auto simp: commit_or_undo_def sbind_def Let_def)
      with b Inr show thesis by (intro ok [of x ?w1 w2]) simp_all
    next
      case (Some f)
      then have r: "r = Inl (Database (fst f))" "sw_verified w' = sw_verified w"
        "sw_db w' = (if snd f then sw_db w2 else sw_db w)"
        using run' v by (auto simp: commit_or_undo_def sbind_def Let_def split: prod.splits)
      show thesis
      proof (cases "snd f")
        case True
        with r b Inr show thesis by (intro lost [of "fst f" ?w1 x w2]) simp_all
      next
        case False
        with r show thesis by (intro undone) simp_all
      qed
    qed
  qed
qed

lemma persist_commit_outcome:
  assumes "persist_commit E p w = (r, w')"
  shows "commit_outcome E p (sw_db w) (sw_verified w) r (sw_db w') (sw_verified w')"
proof -
  define body where "body = sbind (verify_live_inventory E) (\<lambda>_.
        sbind (persist_document_head E p) (\<lambda>_.
        sbind (persist_snapshot E (pr_document_id p) (pr_generation p) (pr_snapshot_envelope p)) (\<lambda>_.
        sbind (persist_head_record E (pr_document_id p) (pr_current_head p) (pr_head_record p)) (\<lambda>_.
        sbind (sget (\<lambda>w. fmupd (pr_document_id p) (verified_document_new (pr_current_head p)
            (word_of_nat (length (pr_snapshot_envelope p)))) (vs_documents (sw_verified w)))) (\<lambda>next_documents.
        sbind (slift (sign_manifest E next_documents False)) (\<lambda>manifest.
        sbind (persist_manifest E manifest) (\<lambda>fingerprint.
        sret (manifest, fingerprint, next_documents))))))))"
  have fixed: "preserves (\<lambda>w. sw_verified w = v) body" for v
    unfolding body_def by (intro preserves_intros verified_fixed)
  obtain q w1 where tr: "transaction E body w = (q, w1)" by (cases "transaction E body w")
  from tr fixed show ?thesis
  proof (cases rule: transaction_cases)
    case (undone e)
    then have "r = Inl e" "w' = w1" using assms tr by (auto simp: persist_commit_def body_def sbind_def)
    with undone show ?thesis by (auto intro: commit_outcome.undone)
  next
    case (lost e x wa wb)
    obtain m f n where x: "x = (m, f, n)" by (cases x)
    have "r = Inl (Database e)" "w' = w1"
      using assms tr lost(1) by (auto simp: persist_commit_def body_def sbind_def)
    with lost commit_body_ok [of E p wa m f n wb, folded body_def] x show ?thesis
      by (auto intro: commit_outcome.unacknowledged)
  next
    case (ok x wa wb)
    obtain m f n where x: "x = (m, f, n)" by (cases x)
    have "r = Inr ()" "w' = w1\<lparr>sw_verified := \<lparr>vs_head = Some (sm_manifest_id m), vs_documents = n,
        vs_manifest_digest = Some f\<rparr>\<rparr>"
      using assms tr ok(1) x by (auto simp: persist_commit_def body_def sbind_def)
    with ok commit_body_ok [of E p wa m f n wb, folded body_def] x show ?thesis
      using commit_outcome.complete by (auto simp: commit_verified_def)
  qed
qed

end
