(* ===== verification/Store_Refinement.thy ===== *)
theory Store_Refinement
  imports Store_Laws Record_Store
begin

text \<open>
  The store worker implements the record-store interface: each ordinary document of the
  store is a map of entries, reads return what that map holds, and a batch of operations
  updates it.  The contracts assumed of the cipher, the signer, the codecs and the random
  source are collected in \<open>store_env_ok\<close>.
\<close>

section \<open>What a commit writes, the next load returns\<close>

definition store_env_ok :: "('d, 'r, 'i, 'z) store_env_scheme \<Rightarrow> ('d \<Rightarrow> am_view) \<Rightarrow> bool" where
  "store_env_ok E V \<longleftrightarrow> doc_env_ok E V \<and> hash_env_ok E \<and> aead_ok (cipher E) \<and> signing_ok (signer E) \<and>
     json_ok (j_wrapped E) \<and> json_ok (j_envelope E) \<and> json_ok (j_head E) \<and> json_ok (j_manifest E) \<and>
     json_ok (j_log E) \<and> length (installation_id E) = 16 \<and> length (device_vault_id E) = 16 \<and>
     length (device_key_id E) = 32 \<and> (\<forall>n k b. entropy E n k = Inr b \<longrightarrow> length b = k)"

lemma store_env_okD:
  assumes "store_env_ok E V"
  shows "doc_env_ok E V" "aead_ok (cipher E)" "signing_ok (signer E)" "length (sha256 E x) = 32"
    "length (device_vault_id E) = 16" "entropy E n k = Inr b \<Longrightarrow> length b = k"
    "to_vec (j_wrapped E) a1 = Inr b1 \<Longrightarrow> from_slice (j_wrapped E) b1 = Inr a1"
    "to_vec (j_envelope E) a2 = Inr b2 \<Longrightarrow> from_slice (j_envelope E) b2 = Inr a2"
    "to_vec (j_head E) a3 = Inr b3 \<Longrightarrow> from_slice (j_head E) b3 = Inr a3"
    "to_vec (j_manifest E) a4 = Inr b4 \<Longrightarrow> from_slice (j_manifest E) b4 = Inr a4"
    "to_vec (j_log E) a5 = Inr b5 \<Longrightarrow> from_slice (j_log E) b5 = Inr a5"
proof -
  have json: "to_vec J a = Inr b \<Longrightarrow> from_slice J b = Inr a" if "json_ok J" for J :: "'x json" and a b
    using that by (auto simp: json_ok_def) (metis Inr_inject)
  show "doc_env_ok E V" "aead_ok (cipher E)" "signing_ok (signer E)" "length (sha256 E x) = 32"
    "length (device_vault_id E) = 16" "entropy E n k = Inr b \<Longrightarrow> length b = k"
    using assms by (auto simp: store_env_ok_def hash_env_ok_def)
qed (use assms in \<open>auto simp: store_env_ok_def json_ok_def, (metis Inr_inject)+\<close>)

text \<open>The head a prepared commit installs.\<close>

definition prepared_head ::
  "PreparedCommit \<Rightarrow> EncryptedSnapshot \<Rightarrow> bytes \<Rightarrow> DocumentHead" where
  "prepared_head p envelope key =
     \<lparr>dh_current_commit_id = ch_head_id (pr_current_head p), dh_generation = pr_generation p,
      dh_key_epoch = pr_key_epoch p, dh_wrapped_dek = pr_wrapped_dek p, dh_envelope = envelope,
      dh_data_key = key\<rparr>"

definition prepared_ok ::
  "('d, 'r, 'i, 'z) store_env_scheme \<Rightarrow> PreparedCommit \<Rightarrow> EncryptedSnapshot \<Rightarrow> bytes \<Rightarrow> bool" where
  "prepared_ok E p envelope key \<longleftrightarrow>
     pr_vault_id p = device_vault_id E \<and> to_vec (j_envelope E) envelope = Inr (pr_snapshot_envelope p) \<and>
     (\<exists>wrapped. to_vec (j_wrapped E) wrapped = Inr (pr_wrapped_dek p) \<and>
       unwrap_document_key (cipher E) (root_key E) (installation_id E) (device_vault_id E)
         (pr_document_id p) (pr_scope p) (pr_key_epoch p) wrapped = Inr key) \<and>
     envelope_context envelope = \<lparr>ec_vault_id = device_vault_id E, ec_document_id = pr_document_id p,
       ec_scope = pr_scope p, ec_device_key_id = device_key_id E, ec_generation = pr_generation p,
       ec_key_epoch = pr_key_epoch p\<rparr> \<and>
     pr_current_head p = current_head_new E
       \<lparr>cc_previous_commit_id = None, cc_vault_id = device_vault_id E, cc_document_id = pr_document_id p,
        cc_scope = pr_scope p, cc_generation = pr_generation p, cc_key_epoch = pr_key_epoch p,
        cc_wrapped_key_digest = digest E (pr_wrapped_dek p),
        cc_snapshot_digest = digest E (pr_snapshot_envelope p),
        cc_next_eviction = pr_next_eviction p, cc_device_key_id = device_key_id E\<rparr> \<and>
     to_vec (j_head E) (pr_current_head p) = Inr (pr_head_record p)"

lemma draw_ok [res_simps]:
  "draw E n w = (Inr x, w') \<longleftrightarrow> x = entropy E (sw_rng w) n \<and> w' = w\<lparr>sw_rng := Suc (sw_rng w)\<rparr>"
  by (auto simp: draw_def)

lemma prepare_commit_ok:
  assumes env: "store_env_ok E V" and run: "prepare_commit E ident scope cur M ctx w = (Inr p, w')"
  obtains envelope key history where
    "prepared_ok E p envelope key" "pr_document_id p = ident" "pr_scope p = scope" "pr_expected p = cur"
    "pr_next_eviction p = dm_next_eviction M"
    "pr_generation p = (case cur of None \<Rightarrow> 1 | Some h \<Rightarrow> saturating_add64 (dh_generation h) 1)"
    "pr_key_epoch p = (case cur of None \<Rightarrow> 1 | Some h \<Rightarrow> saturating_add64 (dh_key_epoch h) 1)"
    "carried_history E scope cur M ctx = Inr history"
    "decrypt_snapshot (cipher E) envelope key = Inr (dm_snapshot M)"
    "decrypt_history (cipher E) envelope key = Inr history"
proof -
  define g where "g = (case cur of None \<Rightarrow> 1 | Some h \<Rightarrow> saturating_add64 (dh_generation h) 1)"
  define k where "k = (case cur of None \<Rightarrow> 1 | Some h \<Rightarrow> saturating_add64 (dh_key_epoch h) 1)"
  have gk: "(case cur of Some head \<Rightarrow> (saturating_add64 (dh_generation head) 1, saturating_add64 (dh_key_epoch head) 1)
          | None \<Rightarrow> (1, 1)) = (g, k)"
    by (simp add: g_def k_def split: option.splits)
  note run' = run [unfolded prepare_commit_def gk Let_def prod.case]
  from run' show thesis
    apply (clarsimp simp: res_simps split: prod.splits)
    subgoal premises prems for history key wrapped wd envelope sb hb
    proof -
      have "length (projr (entropy E (sw_rng w) KEY_BYTES)) = KEY_BYTES"
        using prems(4) store_env_okD(6) [OF env]
        by (cases "entropy E (sw_rng w) KEY_BYTES") (auto simp: generate_document_key_def)
      note unwrap = unwrap_generated_key(1) [OF store_env_okD(2) [OF env] this prems(4)]
      note dec = decrypt_encrypted [OF store_env_okD(2) [OF env] prems(6)]
      show ?thesis
        by (rule that [of envelope key history])
          (use prems unwrap dec envelope_context_encrypted [OF prems(6)] in
            \<open>auto simp: prepared_ok_def g_def k_def\<close>)
    qed
    done
qed

lemma current_head_fields [simp]:
  "ch_vault_id (current_head_new H c) = cc_vault_id c" "ch_document_id (current_head_new H c) = cc_document_id c"
  "ch_scope (current_head_new H c) = cc_scope c" "ch_generation (current_head_new H c) = cc_generation c"
  "ch_key_epoch (current_head_new H c) = cc_key_epoch c"
  "ch_wrapped_key_digest (current_head_new H c) = cc_wrapped_key_digest c"
  "ch_snapshot_digest (current_head_new H c) = cc_snapshot_digest c"
  "ch_next_eviction (current_head_new H c) = cc_next_eviction c"
  "ch_device_key_id (current_head_new H c) = cc_device_key_id c"
  by (simp_all add: current_head_new_def Let_def)

lemma length_head_id: "hash_env_ok H \<Longrightarrow> length (ch_head_id (current_head_new H c)) = 32"
  by (simp add: current_head_new_def Let_def calculate_id_def hash_env_ok_def)

lemma commit_head_at:
  assumes env: "store_env_ok E V" and prep: "prepared_ok E p envelope key"
    and chk: "commit_checked E p m b db v"
  shows "head_at E (commit_db p m b db) (commit_verified E p m b v) (pr_document_id p) (pr_scope p)
    (prepared_head p envelope key)"
proof -
  from prep obtain wrapped where
    vault: "pr_vault_id p = device_vault_id E" and envb: "to_vec (j_envelope E) envelope = Inr (pr_snapshot_envelope p)"
    and wrapped: "to_vec (j_wrapped E) wrapped = Inr (pr_wrapped_dek p)"
    and unwrap: "unwrap_document_key (cipher E) (root_key E) (installation_id E) (device_vault_id E)
         (pr_document_id p) (pr_scope p) (pr_key_epoch p) wrapped = Inr key"
    and ctx: "envelope_context envelope = \<lparr>ec_vault_id = device_vault_id E, ec_document_id = pr_document_id p,
       ec_scope = pr_scope p, ec_device_key_id = device_key_id E, ec_generation = pr_generation p,
       ec_key_epoch = pr_key_epoch p\<rparr>"
    and head: "pr_current_head p = current_head_new E
       \<lparr>cc_previous_commit_id = None, cc_vault_id = device_vault_id E, cc_document_id = pr_document_id p,
        cc_scope = pr_scope p, cc_generation = pr_generation p, cc_key_epoch = pr_key_epoch p,
        cc_wrapped_key_digest = digest E (pr_wrapped_dek p),
        cc_snapshot_digest = digest E (pr_snapshot_envelope p),
        cc_next_eviction = pr_next_eviction p, cc_device_key_id = device_key_id E\<rparr>"
    and rec: "to_vec (j_head E) (pr_current_head p) = Inr (pr_head_record p)"
    unfolding prepared_ok_def by blast
  have "hash_env_ok E" using env by (simp add: store_env_ok_def)
  then have hid: "length (ch_head_id (pr_current_head p)) = 32" unfolding head by (rule length_head_id)
  have hv: "head_verify E (pr_current_head p) (ch_head_id (pr_current_head p)) = Inr ()"
    unfolding head by (rule current_head_new_verify)
  have row: "row_columns E (device_vault_id E) (pr_document_id p) (new_row p) =
      Inr (vd_row (verified_document_new (pr_current_head p) n))" for n
    using chk hid
    by (cases "pr_next_eviction p")
      (simp_all add: row_columns_def new_row_def commit_checked_def verified_document_new_def
        res_simps document_kind_parse_as_str to_i64_def from_i64_def row_deadline_def array_from_blob_def, simp_all add: head)
  show ?thesis unfolding head_at_def
    by (intro exI [of _ "new_row p"] exI [of _ "verified_document_new (pr_current_head p)
          (word_of_nat (length (pr_snapshot_envelope p)))"] exI [of _ wrapped]
        exI [of _ "pr_snapshot_envelope p"] exI [of _ "pr_head_record p"] exI [of _ "pr_current_head p"])
      (use row vault wrapped unwrap ctx hv rec envb chk store_env_okD(5,7,8,9) [OF env] in
        \<open>auto simp: commit_db_def commit_verified_def next_documents_def prepared_head_def
          new_row_def commit_checked_def verified_document_new_def head\<close>)
qed

lemma commit_head_at_other:
  assumes "head_at E db v ident kind h" and "ident \<noteq> pr_document_id p"
  shows "head_at E (commit_db p m b db) (commit_verified E p m b v) ident kind h"
  using assms unfolding head_at_def commit_db_def commit_verified_def next_documents_def
  by (simp cong del: fmfilter_cong)

lemma commit_absent_other:
  assumes "absent db v ident" and "ident \<noteq> pr_document_id p"
  shows "absent (commit_db p m b db) (commit_verified E p m b v) ident"
  using assms by (simp add: absent_def commit_db_def commit_verified_def next_documents_def)

lemma manifest_id_length:
  assumes "hash_env_ok H" and "manifest_new H S v k n i r = Inr m"
  shows "length (sm_manifest_id m) = 32"
  using assms by (auto simp: manifest_new_def Let_def res_simps hash_env_ok_def digest_def)

lemma commit_anchor:
  assumes env: "store_env_ok E V" and chk: "commit_checked E p m b db v" and "length b \<le> MAX_MANIFEST_BYTES"
  shows "anchor_ok E (commit_db p m b db) (commit_verified E p m b v)"
proof -
  have "hash_env_ok E" using env by (simp add: store_env_ok_def)
  then have "length (sm_manifest_id m) = 32"
    using chk manifest_id_length by (auto simp: commit_checked_def sign_manifest_def)
  then show ?thesis using assms store_env_okD(10) [OF env]
    by (auto simp: anchor_ok_def commit_db_def commit_verified_def commit_checked_def)
qed

lemma commit_mutation_ok:
  assumes env: "store_env_ok E V" and run: "commit_mutation E ident scope cur M ctx w = (Inr u, w')"
  obtains p envelope key history m b where
    "prepared_ok E p envelope key" "pr_document_id p = ident" "pr_scope p = scope" "pr_expected p = cur"
    "pr_next_eviction p = dm_next_eviction M"
    "pr_generation p = (case cur of None \<Rightarrow> 1 | Some h \<Rightarrow> saturating_add64 (dh_generation h) 1)"
    "pr_key_epoch p = (case cur of None \<Rightarrow> 1 | Some h \<Rightarrow> saturating_add64 (dh_key_epoch h) 1)"
    "carried_history E scope cur M ctx = Inr history"
    "decrypt_snapshot (cipher E) envelope key = Inr (dm_snapshot M)"
    "decrypt_history (cipher E) envelope key = Inr history"
    "commit_checked E p m b (sw_db w) (sw_verified w)"
    "sw_db w' = commit_db p m b (sw_db w)" "sw_verified w' = commit_verified E p m b (sw_verified w)"
proof -
  from run obtain p w1 w2 where prep: "prepare_commit E ident scope cur M ctx w = (Inr p, w1)"
    and pers: "persist_commit E p w1 = (Inr (), w2)" and chk: "checkpoint E w2 = (Inr u, w')"
    by (auto simp: commit_mutation_def res_simps)
  have w1: "sw_db w1 = sw_db w" "sw_verified w1 = sw_verified w"
    using store_isD [OF store_is_prepare prep] .
  have w': "sw_db w' = sw_db w2" "sw_verified w' = sw_verified w2"
    using store_isD [OF store_is_verifiers(5) chk] .
  from persist_commit_outcome [OF pers] obtain m b where
    c: "commit_checked E p m b (sw_db w) (sw_verified w)" "sw_db w2 = commit_db p m b (sw_db w)"
      "sw_verified w2 = commit_verified E p m b (sw_verified w)"
    unfolding w1 by (rule commit_outcome_ok)
  from env prep show thesis
    by (rule prepare_commit_ok) (rule that; (assumption | use c w' in simp))
qed

section \<open>One document of the store as a map of records\<close>

definition slot ::
  "('d, 'r, 'i, 'z) store_env_scheme \<Rightarrow> ('d \<Rightarrow> am_view) \<Rightarrow> DocumentKind \<Rightarrow> bytes \<Rightarrow> Db
     \<Rightarrow> VerifiedStoreState \<Rightarrow> (string \<rightharpoonup> SecretRecord) \<Rightarrow> bool" where
  "slot E V kind part db v m \<longleftrightarrow>
     (absent db v (document_id E kind part) \<and> m = Map.empty) \<or>
     (\<exists>h snap D. head_at E db v (document_id E kind part) kind h \<and>
        decrypt_snapshot (cipher E) (dh_envelope h) (dh_data_key h) = Inr snap \<and>
        document_load E snap (actor_id E) kind (Some part) = Inr D \<and> doc_inv E V D \<and>
        sd_pending D = [] \<and> sd_kind D = kind \<and> sd_partition D = part \<and> doc_map E V D = m)"

lemma head_at_functional:
  assumes "head_at E db v ident kind h" and "head_at E db v ident kind h'"
  shows "h = h'"
  using assms unfolding head_at_def by (cases h; cases h') auto

lemma slot_load:
  assumes "slot E V kind part (sw_db w) (sw_verified w) m"
    and "load_document E (document_id E kind part) kind (Some part) w = (Inr l, w')"
  shows "(case l of None \<Rightarrow> absent (sw_db w) (sw_verified w) (document_id E kind part) \<and> m = Map.empty
    | Some l \<Rightarrow> doc_inv E V (ld_document l) \<and> sd_pending (ld_document l) = [] \<and>
        sd_kind (ld_document l) = kind \<and> sd_partition (ld_document l) = part \<and>
        doc_map E V (ld_document l) = m)"
proof -
  let ?id = "document_id E kind part"
  from assms(2) obtain h where h: "load_head E ?id kind w = (Inr h, w')" by (auto simp: res_simps)
  show ?thesis
  proof (cases h)
    case None
    then have "absent (sw_db w) (sw_verified w) ?id" using h load_head_none by blast
    then show ?thesis using assms None h head_at_not_absent
      by (fastforce simp: slot_def res_simps)
  next
    case (Some a)
    then have at: "head_at E (sw_db w) (sw_verified w) ?id kind a" using h load_head_some by blast
    then have "\<not> absent (sw_db w) (sw_verified w) ?id" using head_at_not_absent by blast
    with assms(1) obtain h' snap D where D: "head_at E (sw_db w) (sw_verified w) ?id kind h'"
      "decrypt_snapshot (cipher E) (dh_envelope h') (dh_data_key h') = Inr snap"
      "document_load E snap (actor_id E) kind (Some part) = Inr D" "doc_inv E V D"
      "sd_pending D = []" "sd_kind D = kind" "sd_partition D = part" "doc_map E V D = m"
      by (auto simp: slot_def)
    have "h' = a" by (rule head_at_functional [OF D(1) at])
    with D Some h assms(2) show ?thesis by (auto simp: res_simps)
  qed
qed

lemma slot_calm:
  assumes "slot E V kind part (sw_db w) (sw_verified w) m" and "anchor_ok E (sw_db w) (sw_verified w)"
    and "calm E (sw_io w)"
  shows "\<exists>l n. load_document E (document_id E kind part) kind (Some part) w = (Inr l, w\<lparr>sw_io := n\<rparr>) \<and>
    sw_io w \<le> n"
  using assms(1) unfolding slot_def
proof (elim disjE exE conjE)
  assume "absent (sw_db w) (sw_verified w) (document_id E kind part)"
  from load_head_calm_none [OF assms(2) this assms(3), of kind] show ?thesis
    by (intro exI [of _ None] exI [of _ "sw_io w + 3"]) (simp add: res_simps)
next
  fix h snap D
  assume "head_at E (sw_db w) (sw_verified w) (document_id E kind part) kind h"
    and D: "decrypt_snapshot (cipher E) (dh_envelope h) (dh_data_key h) = Inr snap"
      "document_load E snap (actor_id E) kind (Some part) = Inr D"
  from load_head_calm_some [OF assms(2) this(1) assms(3)] D show ?thesis
    by (intro exI [of _ "Some \<lparr>ld_document = D, ld_head = h\<rparr>"] exI [of _ "sw_io w + 5"]) (simp add: res_simps)
qed

lemma slot_commit:
  assumes env: "store_env_ok E V"
    and run: "commit_mutation E (document_id E kind part) kind cur M ctx w = (Inr u, w')"
    and com: "committed E V D M D' m" and D: "sd_kind D = kind" "sd_partition D = part"
  shows "slot E V kind part (sw_db w') (sw_verified w') m"
proof -
  from env run obtain p envelope key m' b where
    p: "prepared_ok E p envelope key" "pr_document_id p = document_id E kind part" "pr_scope p = kind"
      "decrypt_snapshot (cipher E) envelope key = Inr (dm_snapshot M)"
      "commit_checked E p m' b (sw_db w) (sw_verified w)"
      "sw_db w' = commit_db p m' b (sw_db w)" "sw_verified w' = commit_verified E p m' b (sw_verified w)"
    by (rule commit_mutation_ok)
  from commit_head_at [OF env p(1) p(5)]
  have at: "head_at E (sw_db w') (sw_verified w') (document_id E kind part) kind (prepared_head p envelope key)"
    by (simp add: p)
  have dec: "decrypt_snapshot (cipher E) (dh_envelope (prepared_head p envelope key))
      (dh_data_key (prepared_head p envelope key)) = Inr (dm_snapshot M)"
    by (simp add: prepared_head_def p)
  from document_load_committed [OF store_env_okD(1) [OF env] com, of "actor_id E"] obtain L where
    "document_load E (dm_snapshot M) (actor_id E) kind (Some part) = Inr L" "doc_inv E V L"
    "doc_map E V L = m" "sd_pending L = []" "sd_kind L = kind" "sd_partition L = part"
    unfolding D by blast
  with at dec show ?thesis unfolding slot_def by blast
qed

lemma slot_commit_other:
  assumes env: "store_env_ok E V"
    and run: "commit_mutation E ident kind' cur M ctx w = (Inr u, w')"
    and "ident \<noteq> document_id E kind part" and "slot E V kind part (sw_db w) (sw_verified w) m"
  shows "slot E V kind part (sw_db w') (sw_verified w') m"
proof -
  from env run obtain p m' b where
    "pr_document_id p = ident" "sw_db w' = commit_db p m' b (sw_db w)"
    "sw_verified w' = commit_verified E p m' b (sw_verified w)"
    by (rule commit_mutation_ok)
  with assms(3,4) commit_head_at_other commit_absent_other show ?thesis
    unfolding slot_def by (smt (verit, ccfv_threshold))
qed

section \<open>The interface is implemented\<close>

definition entry_of :: "SecretRecord \<Rightarrow> entry" where
  "entry_of r = (sr_address r, sr_value r, sr_evict_at r)"

definition entries_of :: "(string \<rightharpoonup> SecretRecord) \<Rightarrow> entries" where
  "entries_of m k = map_option entry_of (m k)"

lemma entries_of_upd [simp]:
  "entries_of (m(k \<mapsto> r)) = (entries_of m)(k \<mapsto> entry_of r)"
  "entries_of (m(k := None)) = (entries_of m)(k := None)"
  "entries_of Map.empty = Map.empty"
  by (auto simp: entries_of_def fun_eq_iff)

lemma expired_by_live: "expired_by now r \<longleftrightarrow> \<not> live now (sr_evict_at r)"
  by (auto simp: expired_by_def live_def not_less split: option.splits)

lemma spec_get_entry:
  "read_entry H (entries_of m) now a = rbind (spec_get m (storage_key H a) a now) (\<lambda>(r, e).
     Inr (case r of Value v \<Rightarrow> Some \<lparr>ss_value = v, ss_expires_at = e\<rparr> | _ \<Rightarrow> None))"
  by (auto simp: read_entry_def spec_get_def entries_of_def entry_of_def expired_by_live split: option.splits)

lemma spec_get_not_conflict: "spec_get m k a now \<noteq> Inr (SecretRead.Conflict, e)"
  by (auto simp: spec_get_def split: option.splits)

lemma document_get_value:
  assumes "doc_env_ok E V" and "doc_inv E V D"
  shows "rbind (document_get E D a now) (\<lambda>read. case read of Value v \<Rightarrow> Inr (Some v) | Missing \<Rightarrow> Inr None
      | SecretRead.Expired \<Rightarrow> Inr None | SecretRead.Conflict \<Rightarrow> Inl VaultError.Conflict) =
    read_value E (entries_of (doc_map E V D)) now a"
  using spec_get_not_conflict [of "doc_map E V D" "storage_key E a" a now]
  by (auto simp: document_get_def get_with_deadline_eq [OF assms] read_value_def spec_get_entry
      rbind_def split: sum.splits SecretRead.splits)

lemma read_value_empty: "rmapM (read_value H Map.empty now) as = Inr (map (\<lambda>_. None) as)"
  by (induction as) (simp_all add: read_value_def read_entry_def)

definition holds ::
  "('d, 'r, 'i, 'z) store_env_scheme \<Rightarrow> ('d \<Rightarrow> am_view) \<Rightarrow> DocumentKind \<Rightarrow> bytes \<Rightarrow> StoreWorker
     \<Rightarrow> entries \<Rightarrow> bool" where
  "holds E V kind part w M \<longleftrightarrow> store_env_ok E V \<and>
     \<not> (kind = LocalKeyring \<and> part = PERSONAL_SECRET_NAMESPACE) \<and>
     (\<exists>m. M = entries_of m \<and> slot E V kind part (sw_db w) (sw_verified w) m)"

definition undisturbed :: "('d, 'r, 'i, 'z) store_env_scheme \<Rightarrow> StoreWorker \<Rightarrow> bool" where
  "undisturbed E w \<longleftrightarrow> calm E (sw_io w) \<and> anchor_ok E (sw_db w) (sw_verified w)"

lemma get_many_after_load:
  assumes "store_env_ok E V" and "slot E V kind part (sw_db w) (sw_verified w) m"
    and "load_document E (document_id E kind part) kind (Some part) w = (Inr l, w')"
  shows "store_get_many E (document_id E kind part) kind part as now w =
    (rmapM (read_value E (entries_of m) now) as, w')"
proof (cases l)
  case None
  then have "m = Map.empty" using slot_load [OF assms(2,3)] by simp
  then show ?thesis using None assms(3) by (simp add: store_get_many_def read_value_empty)
next
  case (Some a)
  then have D: "doc_inv E V (ld_document a)" "doc_map E V (ld_document a) = m"
    using slot_load [OF assms(2,3)] by simp_all
  have "(\<lambda>address. rbind (document_get E (ld_document a) address now) (\<lambda>read.
           case read of Value v \<Rightarrow> Inr (Some v) | Missing \<Rightarrow> Inr None
           | SecretRead.Expired \<Rightarrow> Inr None | SecretRead.Conflict \<Rightarrow> Inl VaultError.Conflict)) =
      read_value E (entries_of m) now"
    using document_get_value [OF store_env_okD(1) [OF assms(1)] D(1)] D(2)
    by (auto simp: fun_eq_iff rbind_def split: sum.splits SecretRead.splits)
  then show ?thesis using Some assms(3)
    by (simp add: store_get_many_def slift_def cong: SecretRead.case_cong)
qed

lemma holds_get_many_ok:
  assumes "holds E V kind part w M"
    and "store_get_many E (document_id E kind part) kind part as now w = (Inr vs, w')"
  shows "rmapM (read_value E M now) as = Inr vs"
proof -
  from assms(2) obtain l w1 where l: "load_document E (document_id E kind part) kind (Some part) w = (Inr l, w1)"
    unfolding store_get_many_def by (auto simp: sbind_ok)
  from assms(1) obtain m where "M = entries_of m" "store_env_ok E V"
    "slot E V kind part (sw_db w) (sw_verified w) m" by (auto simp: holds_def)
  with get_many_after_load [OF _ _ l] assms(2) show ?thesis by simp
qed

lemma holds_reader:
  assumes "holds E V kind part w M" and "sw_db w' = sw_db w" and "sw_verified w' = sw_verified w"
  shows "holds E V kind part w' M"
  using assms by (simp add: holds_def)

lemma holds_get_many_ready:
  assumes "holds E V kind part w M" and "undisturbed E w"
  shows "\<exists>w'. store_get_many E (document_id E kind part) kind part as now w =
    (rmapM (read_value E M now) as, w') \<and> undisturbed E w'"
proof -
  from assms(1) obtain m where m: "M = entries_of m" "store_env_ok E V"
    "slot E V kind part (sw_db w) (sw_verified w) m" by (auto simp: holds_def)
  from slot_calm [OF m(3)] assms(2) obtain l n where
    l: "load_document E (document_id E kind part) kind (Some part) w = (Inr l, w\<lparr>sw_io := n\<rparr>)" "sw_io w \<le> n"
    by (auto simp: undisturbed_def)
  have "undisturbed E (w\<lparr>sw_io := n\<rparr>)"
    using assms(2) l(2) calmD(4) by (auto simp: undisturbed_def)
  with get_many_after_load [OF m(2,3) l(1)] m(1) show ?thesis by auto
qed

lemma version_ids_ok [res_simps]:
  "version_ids E n w = (Inr rng, w') \<longleftrightarrow> rng = (\<lambda>i. map_err Random (entropy E (sw_rng w + i) VERSION_ID_BYTES)) \<and>
     w' = w\<lparr>sw_rng := sw_rng w + n\<rparr>"
  by (auto simp: version_ids_def)

lemma entry_of_put [simp]: "entry_of (put_record old vid a v e now) = (a, v, e)"
  by (simp add: entry_of_def put_record_def)

lemma spec_apply_entries:
  assumes "spec_apply E rng ctx kind n ops (m, p, ch) = Inr (m', p', ch')"
  shows "entries_of m' = fold (apply_entry E) ops (entries_of m) \<and> (ch \<longrightarrow> ch') \<and> (\<not> ch' \<longrightarrow> m' = m)"
  using assms
proof (induction ops arbitrary: n m p ch)
  case (Cons op ops)
  show ?case
  proof (cases op)
    case (Put a v e)
    with Cons.prems obtain vid where
      "spec_apply E rng ctx kind (Suc n) ops
        (m(storage_key E a \<mapsto> put_record (m (storage_key E a)) vid a v e (mc_now ctx)),
         p @ put_history kind (m (storage_key E a)) vid a v e, True) = Inr (m', p', ch')"
      by (auto simp: Let_def res_simps)
    from Cons.IH [OF this] show ?thesis by (simp only: Put entries_of_upd entry_of_put fold_simps apply_entry.simps simp_thms)
  next
    case (Delete a)
    show ?thesis
    proof (cases "m (storage_key E a)")
      case None
      then have "(entries_of m)(storage_key E a := None) = entries_of m"
        by (auto simp: entries_of_def fun_eq_iff)
      moreover have "spec_apply E rng ctx kind (Suc n) ops (m, p, ch) = Inr (m', p', ch')"
        using Cons.prems Delete None by (simp add: Let_def)
      ultimately show ?thesis using Cons.IH [of "Suc n" m p ch] by (simp add: Delete)
    next
      case (Some r)
      with Cons.prems Delete have "spec_apply E rng ctx kind (Suc n) ops
          (m(storage_key E a := None), p @ [delete_history r a HistoryOperation.Delete], True) = Inr (m', p', ch')"
        by (simp add: Let_def)
      from Cons.IH [OF this] show ?thesis
        by (simp only: Delete entries_of_upd fold_simps apply_entry.simps simp_thms)
    qed
  qed
qed simp

lemma apply_entry_deletes:
  "\<not> list_ex is_put ops \<Longrightarrow> fold (apply_entry H) ops Map.empty = Map.empty"
proof (induction ops)
  case (Cons op ops)
  then show ?case by (cases op) (simp_all add: is_put_def)
qed simp

lemma document_new_slot:
  assumes "store_env_ok E V" and "\<not> (kind = LocalKeyring \<and> part = PERSONAL_SECRET_NAMESPACE)"
    and "document_new E (actor_id E) kind part = Inr D"
  shows "doc_inv E V D" "sd_pending D = []" "sd_kind D = kind" "sd_partition D = part" "doc_map E V D = Map.empty"
proof -
  have am: "automerge_ok (am E) V" using store_env_okD(1) [OF assms(1)] by (simp add: doc_env_ok_def)
  from document_new_eq [OF am, of "actor_id E" kind part] assms(3) have
    new: "amc_maps (doc_content V D) (sd_entries D) = Some (\<lambda>_. [])" "sd_kind D = kind"
      "sd_partition D = part" "sd_pending D = []" "\<not> is_personal D \<longrightarrow> descriptor_ok (doc_content V D) D"
    by auto
  moreover have "\<not> is_personal D" using assms(2) new by (auto simp: is_personal_def)
  ultimately show "doc_inv E V D" "sd_pending D = []" "sd_kind D = kind" "sd_partition D = part"
    "doc_map E V D = Map.empty"
    by (auto simp: doc_inv_def entry_ok_def doc_map_def decode_entry_def fun_eq_iff)
qed

lemma holds_mutate_ok:
  assumes h: "holds E V kind part w M"
    and run: "store_mutate E (document_id E kind part) kind part ops (context_of E pr now) w = (Inr u, w')"
  shows "holds E V kind part w' (fold (apply_entry E) ops M)"
proof -
  let ?id = "document_id E kind part" and ?ctx = "context_of E pr now"
  from h obtain m where m: "M = entries_of m" and env: "store_env_ok E V"
    and np: "\<not> (kind = LocalKeyring \<and> part = PERSONAL_SECRET_NAMESPACE)"
    and slot: "slot E V kind part (sw_db w) (sw_verified w) m" by (auto simp: holds_def)
  from run obtain l w1 target where l: "load_document E ?id kind (Some part) w = (Inr l, w1)"
    and target: "(case l of Some l \<Rightarrow> Inr (Some (ld_document l, Some (ld_head l)))
       | None \<Rightarrow> if list_ex is_put ops
           then rbind (document_new E (actor_id E) kind part) (\<lambda>d. Inr (Some (d, None)))
           else Inr None) = Inr target"
    and rest: "(case target of None \<Rightarrow> sret () | Some (document, head) \<Rightarrow>
         sbind (version_ids E (length ops)) (\<lambda>rng.
         sbind (slift (fst (document_apply E rng ops ?ctx document))) (\<lambda>mutation.
         case mutation of None \<Rightarrow> sret ()
         | Some mutation \<Rightarrow> commit_mutation E ?id kind head mutation ?ctx))) w1 = (Inr u, w')"
    unfolding store_mutate_def sbind_ok slift_ok by blast
  have w1: "sw_db w1 = sw_db w" "sw_verified w1 = sw_verified w"
    using store_isD [OF store_is_load(1) l] .
  show ?thesis
  proof (cases target)
    case None
    then have "w' = w1" "l = None" "\<not> list_ex is_put ops" using rest target
      by (auto split: option.splits if_splits simp: res_simps)
    then have "m = Map.empty" "fold (apply_entry E) ops M = M"
      using slot_load [OF slot l] m apply_entry_deletes by auto
    then show ?thesis using \<open>w' = w1\<close> holds_reader [OF h w1] by simp
  next
    case (Some t)
    obtain D head where t: "t = (D, head)" by (cases t)
    have D: "doc_inv E V D" "sd_pending D = []" "sd_kind D = kind" "sd_partition D = part" "doc_map E V D = m"
      using target slot_load [OF slot l] document_new_slot [OF env np] unfolding Some t
      by (cases l; force simp: res_simps split: if_splits)+
    define rng where "rng = (\<lambda>i. map_err Random (entropy E (sw_rng w1 + i) VERSION_ID_BYTES))"
    define w2 where "w2 = w1\<lparr>sw_rng := sw_rng w1 + length ops\<rparr>"
    have w2: "sw_db w2 = sw_db w1" "sw_verified w2 = sw_verified w1" by (simp_all add: w2_def)
    from rest obtain M' where r: "fst (document_apply E rng ops ?ctx D) = Inr M'"
      and c: "(case M' of None \<Rightarrow> sret () | Some mutation \<Rightarrow>
        commit_mutation E ?id kind head mutation ?ctx) w2 = (Inr u, w')"
      unfolding Some t rng_def w2_def by (auto simp: res_simps)
    note app = document_apply_eq [OF store_env_okD(1) [OF env] D(1,2), where rng = rng and ctx = ?ctx and ops = ops]
    obtain m' p' ch where sp: "spec_apply E rng ?ctx kind 0 ops (m, [], False) = Inr (m', p', ch)"
      using app r by (cases "spec_apply E rng ?ctx kind 0 ops (m, [], False)") (auto simp: D)
    have M': "fold (apply_entry E) ops M = entries_of m'" using spec_apply_entries [OF sp] m by simp
    show ?thesis
    proof (cases ch)
      case False
      then have "M' = None" using app sp r by (auto simp: D)
      then have "w' = w2" using c by simp
      moreover have "entries_of m' = M" using spec_apply_entries [OF sp] False m by simp
      ultimately show ?thesis using M' holds_reader [OF h] w1 w2 by simp
    next
      case True
      then obtain Mu D' where "document_apply E rng ops ?ctx D = (Inr (Some Mu), D')"
        "committed E V D Mu D' m'" using app sp by (auto simp: D)
      then have "slot E V kind part (sw_db w') (sw_verified w') m'"
        using slot_commit [OF env _ _ D(3,4)] c r by auto
      then show ?thesis using M' env np by (auto simp: holds_def)
    qed
  qed
qed

lemma holds_get_ok:
  assumes h: "holds E V kind part w M"
    and run: "store_get E (document_id E kind part) kind part a now w = (Inr v, w')"
  shows "read_entry E M now a = Inr v \<and> holds E V kind part w' (expire_entry E now a M)"
proof -
  let ?id = "document_id E kind part" and ?k = "storage_key E a"
  from h obtain m where m: "M = entries_of m" and env: "store_env_ok E V"
    and np: "\<not> (kind = LocalKeyring \<and> part = PERSONAL_SECRET_NAMESPACE)"
    and slot: "slot E V kind part (sw_db w) (sw_verified w) m" by (auto simp: holds_def)
  from run obtain l w1 where l: "load_document E ?id kind (Some part) w = (Inr l, w1)"
    unfolding store_get_def by (auto simp: sbind_ok)
  have w1: "sw_db w1 = sw_db w" "sw_verified w1 = sw_verified w"
    using store_isD [OF store_is_load(1) l] .
  show ?thesis
  proof (cases l)
    case None
    then have "m = Map.empty" "w' = w1" "v = None"
      using slot_load [OF slot l] run l by (auto simp: store_get_def)
    then show ?thesis using m holds_reader [OF h w1] by (simp add: read_entry_def expire_entry_def)
  next
    case (Some x)
    have D: "doc_inv E V (ld_document x)" "sd_pending (ld_document x) = []" "sd_kind (ld_document x) = kind"
      "sd_partition (ld_document x) = part" "doc_map E V (ld_document x) = m"
      using slot_load [OF slot l] Some by auto
    note get = get_with_deadline_eq [OF store_env_okD(1) [OF env] D(1), of a now, unfolded D(5)]
    from run l Some obtain read e where read: "spec_get m ?k a now = Inr (read, e)"
      and rest: "(case read of Missing \<Rightarrow> sret None
         | Value v \<Rightarrow> sret (Some \<lparr>ss_value = v, ss_expires_at = e\<rparr>)
         | SecretRead.Conflict \<Rightarrow> slift (Inl VaultError.Conflict)
         | SecretRead.Expired \<Rightarrow>
             sbind (slift (fst (document_expire E a (ld_document x)))) (\<lambda>mutation.
             sbind (slift (ok_or mutation (InvalidData ''expired secret disappeared during deletion''))) (\<lambda>mutation.
             sbind (commit_mutation E ?id kind (Some (ld_head x)) mutation (context_of E EXPIRY now)) (\<lambda>_.
             sret None)))) w1 = (Inr v, w')"
      by (auto simp: store_get_def get sbind_ok slift_ok)
    have ent: "read_entry E M now a = Inr (case read of Value v \<Rightarrow> Some \<lparr>ss_value = v, ss_expires_at = e\<rparr> | _ \<Rightarrow> None)"
      by (simp add: m spec_get_entry read)
    show ?thesis
    proof (cases "read = SecretRead.Expired")
      case False
      then have "w' = w1" and v: "read_entry E M now a = Inr v"
        using rest ent by (auto simp: res_simps split: SecretRead.splits)
      moreover have "expire_entry E now a M = M"
        using False read by (auto simp: expire_entry_def m entries_of_def entry_of_def spec_get_def
            expired_by_live split: option.splits if_splits)
      ultimately show ?thesis using holds_reader [OF h w1] by simp
    next
      case True
      then obtain r where r: "m ?k = Some r" "\<not> live now (sr_evict_at r)"
        using read by (auto simp: spec_get_def expired_by_live split: option.splits if_splits)
      from document_remove_eq [OF store_env_okD(1) [OF env] D(1,2), of a HistoryOperation.Expire]
      obtain Mu D' where rem: "document_expire E a (ld_document x) = (Inr (Some Mu), D')"
        "committed E V (ld_document x) Mu D' (m(?k := None))"
        by (auto simp: D r document_expire_def)
      with rest True obtain w2 where c: "commit_mutation E ?id kind (Some (ld_head x)) Mu
          (context_of E EXPIRY now) w1 = (Inr (), w2)" and "v = None" "w' = w2"
        by (auto simp: res_simps)
      moreover have "slot E V kind part (sw_db w2) (sw_verified w2) (m(?k := None))"
        by (rule slot_commit [OF env c rem(2) D(3,4)])
      moreover have "expire_entry E now a M = entries_of (m(?k := None))"
        by (simp only: expire_entry_def m entries_of_upd) (simp add: entries_of_def r entry_of_def)
      ultimately have "holds E V kind part w' (expire_entry E now a M)"
        unfolding holds_def using env np by blast
      with ent True \<open>v = None\<close> show ?thesis by simp
    qed
  qed
qed

interpretation document_store: record_store E "document_ops E kind part" "holds E V kind part" "undisturbed E"
  for E :: "('d, 'r, 'i, 'z) store_env_scheme" and V kind part
proof unfold_locales
  fix s M as now r s'
  assume h: "holds E V kind part s M" and "op_get_many (document_ops E kind part) as now s = (r, s')"
  then have run: "store_get_many E (document_id E kind part) kind part as now s = (r, s')"
    by (simp add: document_ops_def)
  show "holds E V kind part s' M" by (rule holds_reader [OF h store_isD [OF store_is_reads(1) run]])
next
  fix s M as now
  assume "holds E V kind part s M" and "undisturbed E s"
  from holds_get_many_ready [OF this, of as now]
  show "\<exists>s'. op_get_many (document_ops E kind part) as now s = (rmapM (read_value E M now) as, s') \<and>
      (is_ok (rmapM (read_value E M now) as) \<longrightarrow> undisturbed E s')"
    by (auto simp: document_ops_def)
qed (simp_all add: document_ops_def holds_get_ok holds_get_many_ok holds_mutate_ok)

end
