(* ===== verification/Store_Progress.thy ===== *)
theory Store_Progress
  imports Store_Refinement
begin

text \<open>
  Writes succeed: the inventory invariant of a consistent store, that every commit keeps it,
  and that a write to a consistent store completes as long as no crate reports an error and
  the counters have room.  The store worker therefore also implements the second, live
  interface of \<open>Record_Store\<close>.
\<close>

section \<open>The inventory of a consistent store\<close>

definition inventory_wf :: "('d, 'r, 'i, 'z) store_env_scheme \<Rightarrow> Db \<Rightarrow> VerifiedStoreState \<Rightarrow> bool" where
  "inventory_wf E db v \<longleftrightarrow>
     fmdom (db_documents db) = fmdom (vs_documents v) \<and> fmdom (db_heads db) = fmdom (vs_documents v) \<and>
     fmdom (db_snapshots db) =
       (\<lambda>ident. (ident, sq_generation (the (fmlookup (db_documents db) ident)))) |`| fmdom (vs_documents v) \<and>
     (\<forall>ident r. fmlookup (db_documents db) ident = Some r \<longrightarrow> length ident = 32 \<and> length (sq_vault_id r) = 16 \<and>
       row_columns E (sq_vault_id r) ident r = Inr (vd_row (the (fmlookup (vs_documents v) ident))))"

lemma document_rows_wf:
  assumes wf: "inventory_wf E (sw_db w) (sw_verified w)" and "db_fault E (sw_io w) = None"
  shows "document_rows E w = (Inr (map (\<lambda>ident. vd_row (the (fmlookup (vs_documents (sw_verified w)) ident)))
    (sorted_list_of_fset (fmdom (vs_documents (sw_verified w))))), w\<lparr>sw_io := Suc (sw_io w)\<rparr>)"
proof -
  let ?docs = "db_documents (sw_db w)" and ?v = "vs_documents (sw_verified w)"
  have dom: "fmdom ?docs = fmdom ?v" using wf by (simp add: inventory_wf_def)
  have "(let r = the (fmlookup ?docs ident) in
         rbind (array_from_blob 16 (sq_vault_id r) ''vault ID'') (\<lambda>vault_id.
         rbind (array_from_blob 32 ident ''document ID'') (\<lambda>document_id.
         row_columns E vault_id document_id r))) = Inr (vd_row (the (fmlookup ?v ident)))"
    if "ident |\<in>| fmdom ?v" for ident
  proof -
    from that dom obtain r where "fmlookup ?docs ident = Some r" by (metis fmlookup_dom_iff)
    then show ?thesis using wf by (auto simp: inventory_wf_def array_from_blob_def)
  qed
  then have "rmapM (\<lambda>ident. let r = the (fmlookup ?docs ident) in
         rbind (array_from_blob 16 (sq_vault_id r) ''vault ID'') (\<lambda>vault_id.
         rbind (array_from_blob 32 ident ''document ID'') (\<lambda>document_id.
         row_columns E vault_id document_id r))) (sorted_list_of_fset (fmdom ?v)) =
       Inr (map (\<lambda>ident. vd_row (the (fmlookup ?v ident))) (sorted_list_of_fset (fmdom ?v)))"
    by (intro rmapM_ok) simp
  then show ?thesis using assms(2) dom by (simp add: document_rows_def res_simps)
qed

lemma wf_row_id:
  assumes "inventory_wf E db v" and "ident |\<in>| fmdom (vs_documents v)"
  shows "dr_document_id (vd_row (the (fmlookup (vs_documents v) ident))) = ident"
proof -
  from assms have "ident |\<in>| fmdom (db_documents db)" by (simp add: inventory_wf_def)
  then obtain r where "fmlookup (db_documents db) ident = Some r" by (metis fmlookup_dom_iff)
  with assms(1) row_columns_ids show ?thesis unfolding inventory_wf_def by blast
qed

lemma verify_live_total:
  assumes wf: "inventory_wf E (sw_db w) (sw_verified w)" and anchor: "anchor_ok E (sw_db w) (sw_verified w)"
    and calm: "calm E (sw_io w)"
  shows "verify_live_inventory E w = (Inr (), w\<lparr>sw_io := sw_io w + 7\<rparr>)"
proof -
  let ?v = "vs_documents (sw_verified w)"
  have ok: "db_fault E (sw_io w + k) = None" for k using calmD(1) [OF calm] by simp
  have ok0: "db_fault E (sw_io w) = None" "db_fault E (Suc (sw_io w)) = None"
    using calmD(1) [OF calm] by simp_all
  define w1 where "w1 = w\<lparr>sw_io := sw_io w + 3\<rparr>"
  have wf1: "inventory_wf E (sw_db w1) (sw_verified w1)" using wf by (simp add: w1_def)
  have rows: "document_rows E w1 = (Inr (map (\<lambda>ident. vd_row (the (fmlookup ?v ident)))
      (sorted_list_of_fset (fmdom ?v))), w\<lparr>sw_io := sw_io w + 4\<rparr>)"
    using document_rows_wf [OF wf1] ok [of 3] by (simp add: w1_def)
  have len: "length (sorted_list_of_fset (fmdom ?v)) = fcard (fmdom ?v)"
    by (simp add: sorted_list_of_fset.rep_eq fcard.rep_eq)
  have each: "map_option vd_row (fmlookup ?v (dr_document_id (vd_row (the (fmlookup ?v ident))))) =
      Some (vd_row (the (fmlookup ?v ident)))" if "ident |\<in>| fmdom ?v" for ident
    using that wf_row_id [OF wf that] by (auto simp: fmlookup_dom_iff)
  have head: "current_commit_head E (w\<lparr>sw_io := sw_io w + 2\<rparr>) = (Inr (vs_head (sw_verified w)), w1)"
    using anchor ok [of 2] by (auto simp: res_simps anchor_ok_def w1_def)
  have inv: "verify_inventory E (sw_verified w) (w\<lparr>sw_io := sw_io w + 2\<rparr>) = (Inr (), w\<lparr>sw_io := sw_io w + 4\<rparr>)"
    using head rows len each by (simp add: verify_inventory_def rforM_Inr slift_def)
  have card: "fcard (fmdom (db_snapshots (sw_db w))) = fcard (fmdom ?v)"
    using wf by (simp add: inventory_wf_def fcard.rep_eq card_image inj_on_def)
  have dom: "fmlookup (db_documents (sw_db w)) i = None \<longleftrightarrow> fmlookup ?v i = None" for i
    using wf unfolding inventory_wf_def by (metis fmdom_notD fmdom_notI)
  have stray: "ffilter (\<lambda>(document_id, generation).
      map_option sq_generation (fmlookup (db_documents (sw_db w)) document_id) \<noteq> Some generation)
      (fmdom (db_snapshots (sw_db w))) = {||}"
    using wf by (auto simp: inventory_wf_def fmlookup_dom_iff dom)
  have sets: "verify_current_row_sets E (w\<lparr>sw_io := sw_io w + 4\<rparr>) = (Inr (), w\<lparr>sw_io := sw_io w + 7\<rparr>)"
    using card stray wf ok [of 4] ok [of 5] ok [of 6]
    by (simp add: verify_current_row_sets_def sbind_def query_ok query_calm [OF calm] inventory_wf_def)
  show ?thesis
    using anchor ok0 inv sets by (simp add: verify_live_inventory_def res_simps)
qed

lemma wf_commit:
  assumes env: "store_env_ok E V" and prep: "prepared_ok E p envelope key"
    and chk: "commit_checked E p m b db v" and wf: "inventory_wf E db v" and len: "length (pr_document_id p) = 32"
  shows "inventory_wf E (commit_db p m b db) (commit_verified E p m b v)"
proof -
  let ?db = "commit_db p m b db" and ?v = "commit_verified E p m b v" and ?i = "pr_document_id p"
  from commit_head_at [OF env prep chk] obtain r t where
    r: "fmlookup (db_documents ?db) ?i = Some r" "fmlookup (vs_documents ?v) ?i = Some t"
      "length (sq_vault_id r) = 16" "row_columns E (sq_vault_id r) ?i r = Inr (vd_row t)"
    unfolding head_at_def by blast
  have dom: "fmdom (db_documents db) = fmdom (vs_documents v)" "fmdom (db_heads db) = fmdom (vs_documents v)"
      "fmdom (db_snapshots db) =
       (\<lambda>ident. (ident, sq_generation (the (fmlookup (db_documents db) ident)))) |`| fmdom (vs_documents v)"
    using wf by (simp_all add: inventory_wf_def)
  have snap: "fmdom (db_snapshots ?db) =
       (\<lambda>ident. (ident, sq_generation (the (fmlookup (db_documents ?db) ident)))) |`| fmdom (vs_documents ?v)"
    by (auto simp: commit_db_def commit_verified_def next_documents_def new_row_def dom fset_eq_iff fimage_iff cong del: fmfilter_cong)
  have rows: "length ident = 32 \<and> length (sq_vault_id x) = 16 \<and>
      row_columns E (sq_vault_id x) ident x = Inr (vd_row (the (fmlookup (vs_documents ?v) ident)))"
    if x: "fmlookup (db_documents ?db) ident = Some x" for ident x
  proof (cases "ident = ?i")
    case True
    with x r len show ?thesis by simp
  next
    case False
    with x have "fmlookup (db_documents db) ident = Some x" by (simp add: commit_db_def)
    with wf False show ?thesis by (simp add: inventory_wf_def commit_verified_def next_documents_def)
  qed
  show ?thesis using rows snap dom
    by (simp add: inventory_wf_def commit_db_def commit_verified_def next_documents_def)
qed

section \<open>Commits succeed on a consistent store\<close>

text \<open>The crates and the random source report no error, and a signed manifest keeps below its
  bound.\<close>

definition provider_total :: "('d, 'r, 'i, 'z) store_env_scheme \<Rightarrow> bool" where
  "provider_total E \<longleftrightarrow> (\<forall>k n a x. aead_seal (cipher E) k n a x \<noteq> None) \<and>
     (\<forall>x. is_ok (sign_bytes (signer E) x)) \<and> (\<forall>n k. is_ok (entropy E n k)) \<and> json_ok (j_entry E) \<and>
     (\<forall>ds m b. sign_manifest E ds False = Inr m \<longrightarrow> to_vec (j_manifest E) m = Inr b \<longrightarrow>
       length b \<le> MAX_MANIFEST_BYTES)"

lemma provider_totalD:
  assumes "provider_total E"
  shows "\<exists>c. aead_seal (cipher E) k n a x = Some c" "\<exists>s. sign_bytes (signer E) y = Inr s"
    "\<exists>b. entropy E i j = Inr b" "json_ok (j_entry E)"
  using assms by (auto simp: provider_total_def is_ok_iff)

definition signed_fits :: "u64 \<Rightarrow> bool" where "signed_fits x \<longleftrightarrow> unat x < 2 ^ 63"

lemma signed_fits_sint [simp]: "signed_fits x \<Longrightarrow> 0 \<le> sint x"
proof -
  assume "signed_fits x"
  then have "int (unat x) < int (2 ^ 63)" unfolding signed_fits_def by (simp only: of_nat_less_iff)
  then have "uint x < 2 ^ 63" by simp
  then have "signed_take_bit 63 (uint x) = uint x"
    by (intro signed_take_bit_int_eq_self) (simp_all add: order_trans [of _ 0])
  then show ?thesis by (simp add: sint_uint del: signed_take_bit_nonnegative_iff)
qed

definition has_room :: "DocumentHead option \<Rightarrow> bool" where
  "has_room cur \<longleftrightarrow> (\<forall>h. cur = Some h \<longrightarrow> unat (dh_generation h) + 1 < 2 ^ 63 \<and> unat (dh_key_epoch h) + 1 < 2 ^ 63)"

lemma next_fits:
  assumes "unat x + 1 < 2 ^ 63"
  shows "signed_fits (saturating_add64 x 1)" "saturating_add64 x 1 \<noteq> - 1"
proof -
  have n: "unat (saturating_add64 x 1) = unat x + 1" using assms by (simp add: unat_saturating_add64)
  then show "signed_fits (saturating_add64 x 1)" using assms by (simp add: signed_fits_def)
  have "unat (- 1 :: u64) = 2 ^ 64 - 1" by (simp add: unsigned_minus_1_eq_mask mask_eq_exp_minus_1)
  with n assms show "saturating_add64 x 1 \<noteq> - 1" by auto
qed

lemma store_json_total:
  assumes "store_env_ok E V"
  shows "\<exists>b. to_vec (j_wrapped E) wk = Inr b" "\<exists>b. to_vec (j_envelope E) en = Inr b"
    "\<exists>b. to_vec (j_head E) ch = Inr b" "\<exists>b. to_vec (j_manifest E) mf = Inr b"
    "\<exists>b. to_vec (j_log E) lg = Inr b"
  using assms by (auto simp: store_env_ok_def json_ok_def)

lemma wrap_key_total:
  assumes "provider_total E"
  shows "\<exists>w. wrap_key (cipher E) (entropy E n k) root aad key = Inr w"
proof -
  obtain nonce where "entropy E n k = Inr nonce" using provider_totalD(3) [OF assms] by blast
  moreover obtain c where "aead_seal (cipher E) root nonce aad key = Some c"
    using provider_totalD(1) [OF assms] by blast
  ultimately show ?thesis by (simp add: wrap_key_def crypto_encrypt_def)
qed

lemma encrypt_snapshot_total:
  assumes "provider_total E"
  shows "\<exists>e. encrypt_snapshot (cipher E) (entropy E n k) (entropy E n' k) c records history key = Inr e"
proof -
  obtain n1 n2 where "entropy E n k = Inr n1" "entropy E n' k = Inr n2"
    using provider_totalD(3) [OF assms] by metis
  moreover obtain c1 c2 where
    "aead_seal (cipher E) key n1 (snapshot_header c Aes256Gcm Records) records = Some c1"
    "aead_seal (cipher E) key n2 (snapshot_header c Aes256Gcm History) history = Some c2"
    using provider_totalD(1) [OF assms] by metis
  ultimately show ?thesis by (simp add: encrypt_snapshot_def crypto_encrypt_def)
qed

lemma prepare_commit_total:
  assumes env: "store_env_ok E V" and total: "provider_total E" and room: "has_room cur"
    and history: "carried_history E scope cur M ctx = Inr hb"
  shows "\<exists>p w'. prepare_commit E ident scope cur M ctx w = (Inr p, w') \<and> sw_io w' = sw_io w \<and>
    signed_fits (pr_generation p) \<and> signed_fits (pr_key_epoch p)"
proof -
  define g where "g = (case cur of None \<Rightarrow> 1 | Some h \<Rightarrow> saturating_add64 (dh_generation h) 1)"
  define k where "k = (case cur of None \<Rightarrow> 1 | Some h \<Rightarrow> saturating_add64 (dh_key_epoch h) 1)"
  have gk: "(case cur of Some head \<Rightarrow> (saturating_add64 (dh_generation head) 1, saturating_add64 (dh_key_epoch head) 1)
          | None \<Rightarrow> (1, 1)) = (g, k)"
    by (simp add: g_def k_def split: option.splits)
  have fits: "signed_fits g" "signed_fits k" "g \<noteq> - 1" "k \<noteq> - 1"
    using room next_fits by (auto simp: g_def k_def has_room_def signed_fits_def split: option.splits)
  let ?n = "sw_rng w"
  obtain key where key: "entropy E ?n KEY_BYTES = Inr key"
    using provider_totalD(3) [OF total] by blast
  obtain wrapped where wrapped: "wrap_key (cipher E) (entropy E (Suc ?n) NONCE_BYTES) (root_key E)
      (document_key_aad (installation_id E) (device_vault_id E) ident scope k) key = Inr wrapped"
    using wrap_key_total [OF total] by blast
  obtain wd where wd: "to_vec (j_wrapped E) wrapped = Inr wd" using store_json_total [OF env] by blast
  obtain envelope where envelope: "encrypt_snapshot (cipher E) (entropy E (Suc (Suc ?n)) NONCE_BYTES)
      (entropy E (Suc (Suc (Suc ?n))) NONCE_BYTES)
        \<lparr>ec_vault_id = device_vault_id E, ec_document_id = ident, ec_scope = scope,
         ec_device_key_id = device_key_id E, ec_generation = g, ec_key_epoch = k\<rparr>
        (dm_snapshot M) hb key = Inr envelope"
    using encrypt_snapshot_total [OF total] by blast
  obtain sb where sb: "to_vec (j_envelope E) envelope = Inr sb" using store_json_total [OF env] by blast
  obtain rb where rb: "to_vec (j_head E) (current_head_new E
        \<lparr>cc_previous_commit_id = None, cc_vault_id = device_vault_id E, cc_document_id = ident,
         cc_scope = scope, cc_generation = g, cc_key_epoch = k,
         cc_wrapped_key_digest = digest E wd, cc_snapshot_digest = digest E sb,
         cc_next_eviction = dm_next_eviction M, cc_device_key_id = device_key_id E\<rparr>) = Inr rb"
    using store_json_total [OF env] by blast
  show ?thesis
    using fits history key wrapped wd envelope sb rb
    by (simp add: prepare_commit_def gk draw_def sbind_def generate_document_key_def)
qed

lemma query_step: "db_fault E (sw_io w) = None \<Longrightarrow> query E f w = (Inr (f (sw_db w)), w\<lparr>sw_io := Suc (sw_io w)\<rparr>)"
  by (simp add: query_ok)

lemma update_step:
  "db_fault E (sw_io w) = None \<Longrightarrow> update E f w = (Inr (), w\<lparr>sw_io := Suc (sw_io w), sw_db := f (sw_db w)\<rparr>)"
  by (simp add: update_ok)

lemma document_kind_parse_inv: "document_kind_parse s = Inr k \<Longrightarrow> s = document_kind_as_str k"
  by (auto simp: document_kind_parse_def document_kind_as_str_def split: if_splits)

lemma row_columns_fields:
  "row_columns E vault ident r = Inr t \<Longrightarrow> dr_generation t = sq_generation r \<and> dr_key_epoch t = sq_key_epoch r \<and>
     dr_current_commit_id t = sq_current_commit_id r \<and> sq_document_kind r = document_kind_as_str (dr_scope t)"
  by (auto simp: row_columns_def res_simps dest: document_kind_parse_inv)

text \<open>The document a commit replaces is the one at its head.\<close>

definition expected_ok ::
  "('d, 'r, 'i, 'z) store_env_scheme \<Rightarrow> Db \<Rightarrow> VerifiedStoreState \<Rightarrow> bytes \<Rightarrow> DocumentKind \<Rightarrow> DocumentHead option
     \<Rightarrow> bool" where
  "expected_ok E db v ident kind cur \<longleftrightarrow>
     (case cur of None \<Rightarrow> absent db v ident | Some h \<Rightarrow> head_at E db v ident kind h)"

lemma persist_document_head_total:
  assumes "expected_ok E (sw_db w) v (pr_document_id p) (pr_scope p) (pr_expected p)"
    and "pr_vault_id p = device_vault_id E" and "has_room (pr_expected p)"
    and "signed_fits (pr_generation p)" and "signed_fits (pr_key_epoch p)"
    and "\<forall>t. pr_next_eviction p = Some t \<longrightarrow> signed_fits t" and "db_fault E (sw_io w) = None"
  shows "persist_document_head E p w = (Inr (), w\<lparr>sw_io := Suc (sw_io w), sw_db := (sw_db w)\<lparr>db_documents :=
    fmupd (pr_document_id p) (new_row p) (db_documents (sw_db w))\<rparr>\<rparr>)"
proof -
  have nx: "(case x of None \<Rightarrow> Inr None | Some t \<Rightarrow> rbind (to_i64 t) (\<lambda>t. Inr (Some t))) = Inr x"
    if "\<forall>t. x = Some t \<longrightarrow> signed_fits t" for x
    using that by (cases x) (auto simp: to_i64_def)
  show ?thesis
  proof (cases "pr_expected p")
    case None
    then show ?thesis using assms nx [OF assms(6)]
      by (simp add: persist_document_head_def expected_ok_def absent_def to_i64_def Let_def new_row_def
          query_step sbind_def fmdom_notI)
  next
    case (Some h)
    with assms(1) have "head_at E (sw_db w) v (pr_document_id p) (pr_scope p) h" by (simp add: expected_ok_def)
    then obtain r and t :: VerifiedDocument where r: "fmlookup (db_documents (sw_db w)) (pr_document_id p) = Some r"
      "row_columns E (sq_vault_id r) (pr_document_id p) r = Inr (vd_row t)"
      "dr_vault_id (vd_row t) = device_vault_id E" "dr_scope (vd_row t) = pr_scope p"
      "dh_current_commit_id h = dr_current_commit_id (vd_row t)"
      "dh_generation h = dr_generation (vd_row t)" "dh_key_epoch h = dr_key_epoch (vd_row t)"
      "dh_wrapped_dek h = sq_wrapped_dek r"
      unfolding head_at_def by blast
    then have cols: "sq_vault_id r = device_vault_id E" "sq_generation r = dh_generation h"
      "sq_document_kind r = document_kind_as_str (pr_scope p)" "sq_wrapped_dek r = dh_wrapped_dek h"
      "sq_current_commit_id r = dh_current_commit_id h" "sq_key_epoch r = dh_key_epoch h"
      using row_columns_ids [OF r(2)] row_columns_fields [OF r(2)] by simp_all
    have "signed_fits (dh_generation h)" "signed_fits (dh_key_epoch h)"
      using assms(3) Some by (simp_all add: has_room_def signed_fits_def)
    then show ?thesis using Some cols r(1) assms nx [OF assms(6)]
      by (simp add: persist_document_head_def to_i64_def Let_def new_row_def query_step sbind_def)
  qed
qed

definition consistent :: "('d, 'r, 'i, 'z) store_env_scheme \<Rightarrow> StoreWorker \<Rightarrow> bool" where
  "consistent E w \<longleftrightarrow> inventory_wf E (sw_db w) (sw_verified w) \<and> undisturbed E w"

lemma consistent_step:
  assumes "consistent E w" and "sw_db w' = sw_db w" and "sw_verified w' = sw_verified w" and "sw_io w \<le> sw_io w'"
  shows "consistent E w'"
  using assms calmD(4) by (auto simp: consistent_def undisturbed_def)

lemma commit_body_total:
  assumes con: "consistent E w" and exp: "expected_ok E (sw_db w) (sw_verified w) (pr_document_id p) (pr_scope p) (pr_expected p)"
    and p: "pr_vault_id p = device_vault_id E" "has_room (pr_expected p)" "signed_fits (pr_generation p)"
      "signed_fits (pr_key_epoch p)" "\<forall>t. pr_next_eviction p = Some t \<longrightarrow> signed_fits t"
    and sign: "sign_manifest E (next_documents p (sw_verified w)) False = Inr m" "to_vec (j_manifest E) m = Inr b"
  shows "\<exists>w'. sbind (verify_live_inventory E) (\<lambda>_.
        sbind (persist_document_head E p) (\<lambda>_.
        sbind (persist_snapshot E (pr_document_id p) (pr_generation p) (pr_snapshot_envelope p)) (\<lambda>_.
        sbind (persist_head_record E (pr_document_id p) (pr_current_head p) (pr_head_record p)) (\<lambda>_.
        sbind (sget (\<lambda>w. fmupd (pr_document_id p) (verified_document_new (pr_current_head p)
            (word_of_nat (length (pr_snapshot_envelope p)))) (vs_documents (sw_verified w)))) (\<lambda>next_documents.
        sbind (slift (sign_manifest E next_documents False)) (\<lambda>manifest.
        sbind (persist_manifest E manifest) (\<lambda>fingerprint.
        sret (manifest, fingerprint, next_documents)))))))) w =
      (Inr (m, digest E b, next_documents p (sw_verified w)), w') \<and> sw_io w \<le> sw_io w'"
proof -
  have calm: "calm E (sw_io w)" and wf: "inventory_wf E (sw_db w) (sw_verified w)"
    and anchor: "anchor_ok E (sw_db w) (sw_verified w)"
    using con by (simp_all add: consistent_def undisturbed_def)
  have ok: "sw_io w \<le> k \<Longrightarrow> db_fault E k = None" for k using calmD(1) [OF calm] .
  let ?w1 = "w\<lparr>sw_io := sw_io w + 7\<rparr>"
  have head: "persist_document_head E p ?w1 = (Inr (), ?w1\<lparr>sw_io := Suc (sw_io w + 7), sw_db := (sw_db w)\<lparr>db_documents :=
    fmupd (pr_document_id p) (new_row p) (db_documents (sw_db w))\<rparr>\<rparr>)"
    using persist_document_head_total [of E ?w1 "sw_verified w" p] exp p ok by simp
  show ?thesis
    using sign ok p(3) verify_live_total [OF wf anchor calm] head
    by (simp add: persist_snapshot_def persist_head_record_def persist_manifest_def sbind_def update_step to_i64_def
        next_documents_def cong del: fmfilter_cong)
qed

lemma persist_commit_total:
  assumes con: "consistent E w" and exp: "expected_ok E (sw_db w) (sw_verified w) (pr_document_id p) (pr_scope p) (pr_expected p)"
    and p: "pr_vault_id p = device_vault_id E" "has_room (pr_expected p)" "signed_fits (pr_generation p)"
      "signed_fits (pr_key_epoch p)" "\<forall>t. pr_next_eviction p = Some t \<longrightarrow> signed_fits t"
    and env: "store_env_ok E V" and total: "provider_total E"
  shows "\<exists>w'. persist_commit E p w = (Inr (), w') \<and> sw_io w \<le> sw_io w'"
proof -
  have calm: "calm E (sw_io w)" using con by (simp add: consistent_def undisturbed_def)
  have ok: "sw_io w \<le> k \<Longrightarrow> db_fault E k = None" "sw_io w \<le> k \<Longrightarrow> commit_fault E k = None" for k
    using calmD(1,2) [OF calm] by auto
  obtain m where m: "sign_manifest E (next_documents p (sw_verified w)) False = Inr m"
    using provider_totalD(2) [OF total] unfolding sign_manifest_def manifest_new_def Let_def
    by (metis (no_types, lifting) rbind_simps(2))
  obtain b where b: "to_vec (j_manifest E) m = Inr b" using store_json_total(4) [OF env] by blast
  let ?w1 = "w\<lparr>sw_io := Suc (sw_io w)\<rparr>"
  have "consistent E ?w1" by (rule consistent_step [OF con]) simp_all
  from commit_body_total [OF this, of p m b] exp p m b obtain w2 where
    w2: "sbind (verify_live_inventory E) (\<lambda>_.
        sbind (persist_document_head E p) (\<lambda>_.
        sbind (persist_snapshot E (pr_document_id p) (pr_generation p) (pr_snapshot_envelope p)) (\<lambda>_.
        sbind (persist_head_record E (pr_document_id p) (pr_current_head p) (pr_head_record p)) (\<lambda>_.
        sbind (sget (\<lambda>w. fmupd (pr_document_id p) (verified_document_new (pr_current_head p)
            (word_of_nat (length (pr_snapshot_envelope p)))) (vs_documents (sw_verified w)))) (\<lambda>next_documents.
        sbind (slift (sign_manifest E next_documents False)) (\<lambda>manifest.
        sbind (persist_manifest E manifest) (\<lambda>fingerprint.
        sret (manifest, fingerprint, next_documents)))))))) ?w1 =
      (Inr (m, digest E b, next_documents p (sw_verified w)), w2)" "Suc (sw_io w) \<le> sw_io w2"
    by auto
  have st: "statement E w = (Inr (), ?w1)" using ok by (simp add: statement_def)
  show ?thesis using w2 ok st
    by (simp add: persist_commit_def transaction_def sbind_def commit_or_undo_def Let_def)
qed

lemma commit_mutation_total:
  assumes con: "consistent E w" and exp: "expected_ok E (sw_db w) (sw_verified w) ident kind cur"
    and "has_room cur" and history: "carried_history E kind cur M ctx = Inr hb"
    and evict: "\<forall>t. dm_next_eviction M = Some t \<longrightarrow> signed_fits t" and len: "length ident = 32"
    and env: "store_env_ok E V" and total: "provider_total E"
  shows "\<exists>w'. commit_mutation E ident kind cur M ctx w = (Inr (), w') \<and> consistent E w'"
proof -
  have calm: "calm E (sw_io w)" using con by (simp add: consistent_def undisturbed_def)
  from prepare_commit_total [OF env total assms(3) history, of ident w] obtain p w1 where
    prep: "prepare_commit E ident kind cur M ctx w = (Inr p, w1)" "sw_io w1 = sw_io w"
      "signed_fits (pr_generation p)" "signed_fits (pr_key_epoch p)" by blast
  have w1: "sw_db w1 = sw_db w" "sw_verified w1 = sw_verified w"
    using store_isD [OF store_is_prepare prep(1)] .
  obtain envelope key where pok: "prepared_ok E p envelope key" "pr_document_id p = ident" "pr_scope p = kind"
      "pr_expected p = cur" "pr_next_eviction p = dm_next_eviction M"
    using prepare_commit_ok [OF env prep(1)] by metis
  have con1: "consistent E w1" by (rule consistent_step [OF con w1]) (simp add: prep)
  have "pr_vault_id p = device_vault_id E" using pok(1) by (simp add: prepared_ok_def)
  with persist_commit_total [OF con1, of p V] exp assms(3) prep evict pok env total w1 obtain w2 where
    pers: "persist_commit E p w1 = (Inr (), w2)" "sw_io w1 \<le> sw_io w2" by auto
  from persist_commit_outcome [OF pers(1)] obtain m b where
    c: "commit_checked E p m b (sw_db w) (sw_verified w)" "sw_db w2 = commit_db p m b (sw_db w)"
      "sw_verified w2 = commit_verified E p m b (sw_verified w)"
    unfolding w1 by (rule commit_outcome_ok)
  have "length b \<le> MAX_MANIFEST_BYTES" using c(1) total by (auto simp: commit_checked_def provider_total_def)
  then have "anchor_ok E (sw_db w2) (sw_verified w2)" using commit_anchor [OF env c(1)] c by simp
  moreover have "inventory_wf E (sw_db w2) (sw_verified w2)"
    using wf_commit [OF env pok(1) c(1)] con len c pok by (simp add: consistent_def)
  moreover have "calm E (sw_io w2)" using calmD(4) [OF calm] pers(2) prep(2) by simp
  ultimately have con2: "consistent E w2" by (simp add: consistent_def undisturbed_def)
  have "checkpoint E w2 = (Inr (), w2\<lparr>sw_io := Suc (sw_io w2)\<rparr>)"
    using calmD [OF calm, of "sw_io w2"] pers(2) prep(2) by (simp add: checkpoint_def statement_def sbind_def)
  then have "commit_mutation E ident kind cur M ctx w = (Inr (), w2\<lparr>sw_io := Suc (sw_io w2)\<rparr>)"
    using prep(1) pers(1) by (simp add: commit_mutation_def)
  moreover have "consistent E (w2\<lparr>sw_io := Suc (sw_io w2)\<rparr>)" by (rule consistent_step [OF con2]) simp_all
  ultimately show ?thesis by blast
qed

section \<open>Room for further writes\<close>

definition history_at ::
  "('d, 'r, 'i, 'z) store_env_scheme \<Rightarrow> DocumentKind \<Rightarrow> bytes \<Rightarrow> Db \<Rightarrow> VerifiedStoreState \<Rightarrow> HistoryLog \<Rightarrow> bool" where
  "history_at E kind part db v log \<longleftrightarrow>
     (absent db v (document_id E kind part) \<and> log = history_new kind part) \<or>
     (\<exists>h b. head_at E db v (document_id E kind part) kind h \<and>
        decrypt_history (cipher E) (dh_envelope h) (dh_data_key h) = Inr b \<and>
        history_load (j_log E) b kind (Some part) = Inr log)"

definition store_room ::
  "('d, 'r, 'i, 'z) store_env_scheme \<Rightarrow> DocumentKind \<Rightarrow> bytes \<Rightarrow> StoreWorker \<Rightarrow> nat \<Rightarrow> bool" where
  "store_room E kind part w n \<longleftrightarrow> provider_total E \<and> consistent E w \<and> n < 2 ^ 62 \<and>
     (\<exists>log. history_at E kind part (sw_db w) (sw_verified w) log \<and> unat (hl_next_seq log) + n < 2 ^ 64) \<and>
     (\<forall>h. head_at E (sw_db w) (sw_verified w) (document_id E kind part) kind h \<longrightarrow>
        unat (dh_generation h) + n < 2 ^ 63 \<and> unat (dh_key_epoch h) + n < 2 ^ 63)"

lemma store_room_step:
  assumes "store_room E kind part w n" and "sw_db w' = sw_db w" and "sw_verified w' = sw_verified w"
    and "sw_io w \<le> sw_io w'"
  shows "store_room E kind part w' n"
  using assms consistent_step [of E w w'] by (simp add: store_room_def)

lemma store_room_less: "store_room E kind part w n \<Longrightarrow> k \<le> n \<Longrightarrow> store_room E kind part w k"
  by (fastforce simp: store_room_def)

lemma put_version_total: "is_ok rnd \<Longrightarrow> \<exists>vid. put_version old rnd v e = Inr vid"
  by (cases old) (auto simp: put_version_def is_ok_iff)

lemma spec_apply_total:
  assumes "\<forall>i. is_ok (rng i)"
  shows "\<exists>m' p' ch'. spec_apply E rng ctx kind n ops (m, p, ch) = Inr (m', p', ch') \<and>
    length p' \<le> length p + length ops \<and> (ch' \<longrightarrow> ch \<or> ops \<noteq> [])"
proof (induction ops arbitrary: n m p ch)
  case (Cons op ops)
  show ?case
  proof (cases op)
    case (Put a v e)
    let ?old = "m (storage_key E a)"
    from assms put_version_total obtain vid where vid: "put_version ?old (rng n) v e = Inr vid" by blast
    have len: "length (put_history kind ?old vid a v e) \<le> 1" by (simp add: put_history_def)
    from Cons.IH [of "Suc n" "m(storage_key E a \<mapsto> put_record ?old vid a v e (mc_now ctx))"
        "p @ put_history kind ?old vid a v e" True] obtain m' p' ch' where
      "spec_apply E rng ctx kind (Suc n) ops (m(storage_key E a \<mapsto> put_record ?old vid a v e (mc_now ctx)),
        p @ put_history kind ?old vid a v e, True) = Inr (m', p', ch')"
      "length p' \<le> length (p @ put_history kind ?old vid a v e) + length ops" by blast
    then show ?thesis using vid len Put
      by (intro exI [of _ m'] exI [of _ p'] exI [of _ ch']) (simp add: Let_def)
  next
    case (Delete a)
    show ?thesis
    proof (cases "m (storage_key E a)")
      case None
      from Cons.IH [of "Suc n" m p ch] obtain m' p' ch' where
        "spec_apply E rng ctx kind (Suc n) ops (m, p, ch) = Inr (m', p', ch')"
        "length p' \<le> length p + length ops" by blast
      then show ?thesis using None Delete
        by (intro exI [of _ m'] exI [of _ p'] exI [of _ ch']) (simp add: Let_def)
    next
      case (Some r)
      let ?p = "p @ [delete_history r a HistoryOperation.Delete]"
      from Cons.IH [of "Suc n" "m(storage_key E a := None)" ?p True] obtain m' p' ch' where
        "spec_apply E rng ctx kind (Suc n) ops (m(storage_key E a := None), ?p, True) = Inr (m', p', ch')"
        "length p' \<le> length ?p + length ops" by blast
      then show ?thesis using Some Delete
        by (intro exI [of _ m'] exI [of _ p'] exI [of _ ch']) (simp add: Let_def)
    qed
  qed
qed simp

lemma history_at_unique_head:
  assumes "history_at E kind part db v log" and "expected_ok E db v (document_id E kind part) kind cur"
  shows "case cur of None \<Rightarrow> log = history_new kind part
    | Some h \<Rightarrow> \<exists>b. decrypt_history (cipher E) (dh_envelope h) (dh_data_key h) = Inr b \<and>
        history_load (j_log E) b kind (Some part) = Inr log"
  using assms head_at_not_absent head_at_functional
  by (auto simp: history_at_def expected_ok_def split: option.splits) blast+

lemma history_load_iff:
  "history_load J b kind (Some p) = Inr log \<longleftrightarrow>
     from_slice J b = Inr log \<and> history_wf log \<and> hl_kind log = kind \<and> hl_partition log = p"
  by (auto simp: history_load_def rbind_Inr history_validate_iff)

lemma history_at_wf:
  assumes "history_at E kind part db v log"
  shows "history_wf log \<and> hl_kind log = kind \<and> hl_partition log = part"
  using assms unfolding history_at_def history_load_iff
  by (elim disjE exE conjE) (simp_all add: history_new_wf, simp_all add: history_new_def)

lemma carried_history_total:
  assumes total: "provider_total E" and env: "store_env_ok E V"
    and log: "history_at E kind part db v log" "unat (hl_next_seq log) + length (dm_history M) < 2 ^ 64"
    and cur: "expected_ok E db v (document_id E kind part) kind cur"
    and M: "dm_partition M = part" "dm_address_migrations M = []"
  obtains hb log' where "carried_history E kind cur M ctx = Inr hb"
    "history_load (j_log E) hb kind (Some part) = Inr log'"
    "unat (hl_next_seq log') = unat (hl_next_seq log) + length (dm_history M)"
proof -
  have wf: "history_wf log" "hl_kind log = kind" "hl_partition log = part"
    using history_at_wf [OF log(1)] by simp_all
  have mig: "migrate_addresses [] log = log" by (simp add: migrate_addresses_def)
  have "\<forall>e. is_ok (to_vec (j_entry E) e)" using provider_totalD(4) [OF total] by (auto simp: json_ok_def is_ok_iff)
  from history_record_total [OF this log(2)] obtain log' where
    rec: "history_record (j_entry E) (dm_history M) (mc_now ctx) (mc_provenance ctx) (mc_device_key_id ctx) log = Inr log'"
    by blast
  obtain hb where hb: "to_vec (j_log E) log' = Inr hb" using store_json_total(5) [OF env] by blast
  obtain n where sh: "unat (hl_next_seq log') = unat (hl_next_seq log) + length (dm_history M)"
      "hl_kind log' = hl_kind log" "hl_partition log' = hl_partition log"
    using rec by (rule history_record_shape)
  have "history_load (j_log E) hb kind (Some part) = Inr log'"
    using store_env_okD(11) [OF env hb] history_record_wf [OF rec wf(1)] wf sh by (simp add: history_load_iff)
  moreover note sh(1)
  moreover have "carried_history E kind cur M ctx = Inr hb"
    using history_at_unique_head [OF log(1) cur] rec hb M mig
    by (auto simp: carried_history_def history_serialize_def split: option.splits)
  ultimately show thesis by (intro that)
qed

lemma document_id_length: "hash_env_ok E \<Longrightarrow> length (document_id E kind part) = 32"
  by (simp add: document_id_def hash_env_ok_def)

lemma store_room_commit:
  assumes env: "store_env_ok E V" and room: "store_room E kind part w (length ops + n)"
    and exp: "expected_ok E (sw_db w) (sw_verified w) (document_id E kind part) kind cur"
    and M: "dm_partition M = part" "dm_address_migrations M = []" "length (dm_history M) \<le> length ops"
    and evict: "\<forall>t. dm_next_eviction M = Some t \<longrightarrow> signed_fits t" and ops: "ops \<noteq> []"
  shows "\<exists>w'. commit_mutation E (document_id E kind part) kind cur M ctx w = (Inr (), w') \<and>
    store_room E kind part w' n"
proof -
  let ?id = "document_id E kind part"
  from room obtain log where total: "provider_total E" and con: "consistent E w"
    and log: "history_at E kind part (sw_db w) (sw_verified w) log" "unat (hl_next_seq log) + (length ops + n) < 2 ^ 64"
    and small: "length ops + n < 2 ^ 62"
    and gen: "\<forall>h. head_at E (sw_db w) (sw_verified w) ?id kind h \<longrightarrow>
        unat (dh_generation h) + (length ops + n) < 2 ^ 63 \<and> unat (dh_key_epoch h) + (length ops + n) < 2 ^ 63"
    by (auto simp: store_room_def)
  have one: "1 \<le> length ops" using ops by (cases ops) simp_all
  have hr: "has_room cur" using gen exp one by (auto simp: has_room_def expected_ok_def)
  have "unat (hl_next_seq log) + length (dm_history M) < 2 ^ 64" using log(2) M(3) by linarith
  with carried_history_total [OF total env log(1) _ exp M(1,2), of ctx] obtain hb log' where
    hb: "carried_history E kind cur M ctx = Inr hb" "history_load (j_log E) hb kind (Some part) = Inr log'"
      "unat (hl_next_seq log') = unat (hl_next_seq log) + length (dm_history M)" by blast
  have len: "length ?id = 32" using env document_id_length by (auto simp: store_env_ok_def)
  from commit_mutation_total [OF con exp hr hb(1) evict len env total] obtain w' where
    run: "commit_mutation E ?id kind cur M ctx w = (Inr (), w')" "consistent E w'" by blast
  from env run(1) obtain p envelope key history m b where
    p: "prepared_ok E p envelope key" "pr_document_id p = ?id" "pr_scope p = kind"
      "pr_generation p = (case cur of None \<Rightarrow> 1 | Some h \<Rightarrow> saturating_add64 (dh_generation h) 1)"
      "pr_key_epoch p = (case cur of None \<Rightarrow> 1 | Some h \<Rightarrow> saturating_add64 (dh_key_epoch h) 1)"
      "carried_history E kind cur M ctx = Inr history" "decrypt_history (cipher E) envelope key = Inr history"
      "commit_checked E p m b (sw_db w) (sw_verified w)"
      "sw_db w' = commit_db p m b (sw_db w)" "sw_verified w' = commit_verified E p m b (sw_verified w)"
    by (rule commit_mutation_ok)
  let ?h = "prepared_head p envelope key"
  have at: "head_at E (sw_db w') (sw_verified w') ?id kind ?h"
    using commit_head_at [OF env p(1,8)] by (simp add: p)
  have "history_at E kind part (sw_db w') (sw_verified w') log'"
    using at hb p(6,7) by (auto simp: history_at_def prepared_head_def)
  moreover have "unat (hl_next_seq log') + n < 2 ^ 64" using hb(3) M(3) log(2) by linarith
  moreover have "unat (dh_generation h) + n < 2 ^ 63 \<and> unat (dh_key_epoch h) + n < 2 ^ 63"
    if h: "head_at E (sw_db w') (sw_verified w') ?id kind h" for h
  proof -
    have "h = ?h" by (rule head_at_functional [OF h at])
    moreover have "unat (pr_generation p) \<le> (case cur of None \<Rightarrow> 1 | Some h \<Rightarrow> unat (dh_generation h) + 1)"
      "unat (pr_key_epoch p) \<le> (case cur of None \<Rightarrow> 1 | Some h \<Rightarrow> unat (dh_key_epoch h) + 1)"
      using p(4,5) by (auto simp: unat_saturating_add64 split: option.splits)
    ultimately show ?thesis
      using gen exp one small by (cases cur) (auto simp: expected_ok_def prepared_head_def)
  qed
  ultimately show ?thesis using run total small by (auto simp: store_room_def)
qed

lemma eviction_fits:
  assumes "is_next_eviction m e" and "deadlines_fit (entries_of m)"
  shows "\<forall>t. e = Some t \<longrightarrow> signed_fits t"
proof (intro allI impI)
  fix t
  assume "e = Some t"
  with assms(1) obtain k r where "m k = Some r" "sr_evict_at r = Some t"
    unfolding is_next_eviction_def by blast
  then have "entries_of m k = Some (sr_address r, sr_value r, Some t)" by (simp add: entries_of_def entry_of_def)
  with assms(2) show "signed_fits t" unfolding deadlines_fit_def signed_fits_def by blast
qed

lemma load_expected:
  assumes "load_document E ident kind part w = (Inr l, w')"
  shows "expected_ok E (sw_db w) (sw_verified w) ident kind (map_option ld_head l)"
proof -
  from assms obtain h where h: "load_head E ident kind w = (Inr h, w')" "h = map_option ld_head l"
    by (auto simp: res_simps split: option.splits)
  then show ?thesis
    using load_head_none [of E ident kind w w'] load_head_some [of E ident kind w _ w']
    by (cases l) (auto simp: expected_ok_def)
qed

lemma holds_mutate_live:
  assumes h: "holds E V kind part w M" and room: "store_room E kind part w (length ops + n)"
    and fit: "deadlines_fit (fold (apply_entry E) ops M)"
  shows "\<exists>w'. store_mutate E (document_id E kind part) kind part ops (context_of E pr now) w = (Inr (), w') \<and>
    store_room E kind part w' n"
proof -
  let ?id = "document_id E kind part" and ?ctx = "context_of E pr now"
  from h obtain m where m: "M = entries_of m" and env: "store_env_ok E V"
    and np: "\<not> (kind = LocalKeyring \<and> part = PERSONAL_SECRET_NAMESPACE)"
    and slot: "slot E V kind part (sw_db w) (sw_verified w) m" by (auto simp: holds_def)
  have con: "undisturbed E w" and total: "provider_total E"
    using room by (simp_all add: store_room_def consistent_def)
  from slot_calm [OF slot] con obtain l k where
    l: "load_document E ?id kind (Some part) w = (Inr l, w\<lparr>sw_io := k\<rparr>)" "sw_io w \<le> k"
    by (auto simp: undisturbed_def)
  show ?thesis
  proof (cases "l = None \<and> \<not> list_ex is_put ops")
    case True
    then have "store_mutate E ?id kind part ops ?ctx w = (Inr (), w\<lparr>sw_io := k\<rparr>)"
      using l by (simp add: store_mutate_def)
    moreover have "store_room E kind part (w\<lparr>sw_io := k\<rparr>) n"
      using store_room_less [OF store_room_step [OF room, of "w\<lparr>sw_io := k\<rparr>"], of n] l by simp
    ultimately show ?thesis by blast
  next
    case False
    then obtain D where D: "(case l of Some l \<Rightarrow> Inr (Some (ld_document l, Some (ld_head l)))
       | None \<Rightarrow> if list_ex is_put ops
           then rbind (document_new E (actor_id E) kind part) (\<lambda>d. Inr (Some (d, None)))
           else Inr None) = (Inr (Some (D, map_option ld_head l)) :: VaultError + _)"
      "doc_inv E V D" "sd_pending D = []" "sd_kind D = kind" "sd_partition D = part" "doc_map E V D = m"
    proof (cases l)
      case (Some x)
      with slot_load [OF slot l(1)] show ?thesis by (intro that [of "ld_document x"]) simp_all
    next
      case None
      have am: "automerge_ok (am E) V" using store_env_okD(1) [OF env] by (simp add: doc_env_ok_def)
      obtain d where d: "document_new E (actor_id E) kind part = Inr d"
        using document_new_eq [OF am, of "actor_id E" kind part] by blast
      have "m = Map.empty" using slot_load [OF slot l(1)] None by simp
      with d None False document_new_slot [OF env np d] show ?thesis by (intro that [of d]) simp_all
    qed
    define w1 where "w1 = w\<lparr>sw_io := k, sw_rng := sw_rng w + length ops\<rparr>"
    define rng where "rng = (\<lambda>i. map_err Random (entropy E (sw_rng w + i) VERSION_ID_BYTES))"
    have "\<forall>i. is_ok (rng i)" using provider_totalD(3) [OF total] unfolding rng_def
      by (metis is_ok_iff map_err_simps(2))
    from spec_apply_total [OF this, of E ?ctx kind 0 ops m "[]" False] obtain m' p' ch where
      sp: "spec_apply E rng ?ctx kind 0 ops (m, [], False) = Inr (m', p', ch)" "length p' \<le> length ops"
        "ch \<longrightarrow> ops \<noteq> []" by auto
    have M': "fold (apply_entry E) ops M = entries_of m'" using spec_apply_entries [OF sp(1)] m by simp
    have room1: "store_room E kind part w1 (length ops + n)"
      by (rule store_room_step [OF room]) (use l in \<open>simp_all add: w1_def\<close>)
    have run: "store_mutate E ?id kind part ops ?ctx w =
        sbind (slift (fst (document_apply E rng ops ?ctx D))) (\<lambda>mutation. case mutation of None \<Rightarrow> sret ()
         | Some mutation \<Rightarrow> commit_mutation E ?id kind (map_option ld_head l) mutation ?ctx) w1"
      using l D(1) by (simp add: store_mutate_def version_ids_def sbind_def w1_def rng_def)
    note app = document_apply_eq [OF store_env_okD(1) [OF env] D(2,3), where rng = rng and ctx = ?ctx and ops = ops,
        unfolded D sp(1)]
    show ?thesis
    proof (cases ch)
      case False
      then have "fst (document_apply E rng ops ?ctx D) = Inr None" using app by auto
      then show ?thesis using run store_room_less [OF room1, of n] by auto
    next
      case True
      with app obtain Mu D' where ap: "document_apply E rng ops ?ctx D = (Inr (Some Mu), D')"
        "committed E V D Mu D' m'" "dm_history Mu = p'" by auto
      have Mu: "dm_partition Mu = part" "dm_address_migrations Mu = []" "is_next_eviction m' (dm_next_eviction Mu)"
        using ap(2) D(5) by (simp_all add: committed_def)
      have exp: "expected_ok E (sw_db w1) (sw_verified w1) ?id kind (map_option ld_head l)"
        using load_expected [OF l(1)] by (simp add: w1_def)
      from store_room_commit [OF env room1 exp Mu(1,2) _ eviction_fits [OF Mu(3)], of ?ctx] fit M' ap sp True run
      show ?thesis by auto
    qed
  qed
qed

lemma holds_get_live:
  assumes h: "holds E V kind part w M" and room: "store_room E kind part w n"
    and fresh: "\<forall>a' v e. M (storage_key E a) = Some (a', v, e) \<longrightarrow> live now e"
  shows "\<exists>w'. store_get E (document_id E kind part) kind part a now w = (read_entry E M now a, w') \<and>
    store_room E kind part w' n \<and> holds E V kind part w' M"
proof -
  let ?id = "document_id E kind part"
  from h obtain m where m: "M = entries_of m" and env: "store_env_ok E V"
    and slot: "slot E V kind part (sw_db w) (sw_verified w) m" by (auto simp: holds_def)
  have "undisturbed E w" using room by (simp add: store_room_def consistent_def)
  with slot_calm [OF slot] obtain l k where
    l: "load_document E ?id kind (Some part) w = (Inr l, w\<lparr>sw_io := k\<rparr>)" "sw_io w \<le> k"
    by (auto simp: undisturbed_def)
  have "store_get E ?id kind part a now w = (read_entry E M now a, w\<lparr>sw_io := k\<rparr>)"
  proof (cases l)
    case None
    then show ?thesis using slot_load [OF slot l(1)] l m by (simp add: store_get_def read_entry_def)
  next
    case (Some x)
    then have D: "doc_inv E V (ld_document x)" "doc_map E V (ld_document x) = m"
      using slot_load [OF slot l(1)] by simp_all
    have "spec_get m (storage_key E a) a now \<noteq> Inr (SecretRead.Expired, e)" for e
      using fresh by (auto simp: spec_get_def m entries_of_def entry_of_def expired_by_live split: option.splits)
    then show ?thesis
      using Some l get_with_deadline_eq [OF store_env_okD(1) [OF env] D(1), of a now]
        spec_get_not_conflict [of m "storage_key E a" a now]
      by (auto simp: store_get_def D m spec_get_entry sbind_def slift_def rbind_def
          split: sum.splits SecretRead.splits)
  qed
  then show ?thesis using store_room_step [OF room, of "w\<lparr>sw_io := k\<rparr>"] holds_reader [OF h, of "w\<lparr>sw_io := k\<rparr>"] l
    by simp
qed

interpretation live_document_store: live_record_store E "document_ops E kind part" "holds E V kind part"
    "undisturbed E" "store_room E kind part"
  for E :: "('d, 'r, 'i, 'z) store_env_scheme" and V kind part
proof unfold_locales
  fix s M n as now vs s'
  assume h: "holds E V kind part s M" and room: "store_room E kind part s n"
    and "op_get_many (document_ops E kind part) as now s = (Inr vs, s')"
  then have run: "store_get_many E (document_id E kind part) kind part as now s = (Inr vs, s')"
    by (simp add: document_ops_def)
  from holds_get_many_ready [OF h, of as now] room obtain u where
    "store_get_many E (document_id E kind part) kind part as now s = (rmapM (read_value E M now) as, u)" "undisturbed E u"
    by (auto simp: store_room_def consistent_def)
  with run have "undisturbed E s'" by simp
  with room store_isD [OF store_is_reads(1) run] show "store_room E kind part s' n"
    by (simp add: store_room_def consistent_def)
next
  fix s n
  assume "store_room E kind part s n"
  then show "undisturbed E s" by (simp add: store_room_def consistent_def)
next
  fix s M n a now
  assume "holds E V kind part s M" and "store_room E kind part s n"
    and "\<forall>a' v e. M (storage_key E a) = Some (a', v, e) \<longrightarrow> live now e"
  from holds_get_live [OF this]
  show "\<exists>s'. op_get (document_ops E kind part) a now s = (read_entry E M now a, s') \<and> holds E V kind part s' M \<and>
      (is_ok (read_entry E M now a) \<longrightarrow> store_room E kind part s' n)"
    by (auto simp: document_ops_def)
qed (simp_all add: document_ops_def holds_mutate_live store_room_less)

section \<open>Documents a batch does not name\<close>

lemma store_mutate_commits:
  assumes run: "store_mutate E ident kind part ops context w = (Inr u, w')"
  shows "(sw_db w' = sw_db w \<and> sw_verified w' = sw_verified w) \<or>
    (\<exists>w2 cur mutation. sw_db w2 = sw_db w \<and> sw_verified w2 = sw_verified w \<and>
      commit_mutation E ident kind cur mutation context w2 = (Inr u, w'))"
proof -
  obtain l w1 where l: "load_document E ident kind (Some part) w = (Inr l, w1)"
    using run by (auto simp: store_mutate_def res_simps)
  from run l have "(sw_db w' = sw_db w1 \<and> sw_verified w' = sw_verified w1) \<or>
    (\<exists>w2 cur mutation. sw_db w2 = sw_db w1 \<and> sw_verified w2 = sw_verified w1 \<and>
      commit_mutation E ident kind cur mutation context w2 = (Inr u, w'))"
    by (auto simp: store_mutate_def res_simps split: option.splits if_splits prod.splits; blast)
  then show ?thesis using store_isD [OF store_is_load(1) l] by simp
qed

lemma commit_absent_elsewhere:
  assumes "store_env_ok E V" and "absent (sw_db w) (sw_verified w) other" and "other \<noteq> ident"
    and "commit_mutation E ident kind cur mutation context w = (Inr u, w')"
  shows "absent (sw_db w') (sw_verified w') other"
  using assms(1,4) by (rule commit_mutation_ok) (use assms(2,3) in \<open>simp add: commit_absent_other\<close>)

lemma store_mutate_other:
  assumes "holds E V kind part w M" and ident: "document_id E kind' part' \<noteq> document_id E kind part"
    and run: "store_mutate E (document_id E kind' part') kind' part' ops context w = (Inr u, w')"
  shows "holds E V kind part w' M"
    "absent (sw_db w) (sw_verified w) (document_id E kind part) \<Longrightarrow>
     absent (sw_db w') (sw_verified w') (document_id E kind part)"
proof -
  from assms(1) obtain m where env: "store_env_ok E V" and m: "M = entries_of m"
    "slot E V kind part (sw_db w) (sw_verified w) m" by (auto simp: holds_def)
  note commits = store_mutate_commits [OF run]
  have "slot E V kind part (sw_db w') (sw_verified w') m"
    using commits m(2) slot_commit_other [OF env _ ident] by auto
  then show "holds E V kind part w' M" using assms(1) m(1) by (auto simp: holds_def)
  assume "absent (sw_db w) (sw_verified w) (document_id E kind part)"
  then show "absent (sw_db w') (sw_verified w') (document_id E kind part)"
    using commits commit_absent_elsewhere [OF env _ ident [symmetric]] by metis
qed

lemma absent_room:
  assumes "provider_total E" and "consistent E w" and "absent (sw_db w) (sw_verified w) (document_id E kind part)" and "n < 2 ^ 62"
  shows "store_room E kind part w n"
  using assms head_at_not_absent [of E]
  by (fastforce simp: store_room_def history_at_def history_new_def intro!: exI [of _ "history_new kind part"])

end
