(* ===== verification/Grant_Laws.thy ===== *)
theory Grant_Laws
  imports Grants Store_Progress
begin

text \<open>
  What the grant operations guarantee over the record-store interface: which grants satisfy a
  check, what each operation writes, the invariant of the grant document, and that a promoted
  permission satisfies the checks it was approved for.
\<close>

section \<open>Positions\<close>

lemma position_of_Some:
  assumes "position_of f xs = Some i"
  shows "i < length xs \<and> f (xs ! i) \<and> (\<forall>j<i. \<not> f (xs ! j))"
proof -
  from assms obtain x rest where x: "filter (f \<circ> snd) (zip [0..<length xs] xs) = (i, x) # rest"
    by (auto simp: position_of_def split: list.splits)
  then obtain us vs where us: "zip [0..<length xs] xs = us @ (i, x) # vs" "\<forall>u\<in>set us. \<not> (f \<circ> snd) u" "(f \<circ> snd) (i, x)"
    by (auto simp: filter_eq_Cons_iff)
  have "length us < length (zip [0..<length xs] xs)" using us(1) by simp
  then have len: "length us < length xs" by simp
  have "zip [0..<length xs] xs ! length us = (i, x)" using us(1) by simp
  then have i: "i = length us" "x = xs ! i" using len by auto
  have "\<not> f (xs ! j)" if "j < i" for j
  proof -
    have "zip [0..<length xs] xs ! j = us ! j" using that us(1) i by (simp add: nth_append)
    then have "us ! j = (j, xs ! j)" using that i len by simp
    moreover have "us ! j \<in> set us" using that i by simp
    ultimately show ?thesis using us(2) by fastforce
  qed
  then show ?thesis using us(3) i len by simp
qed

lemma position_of_None: "position_of f xs = None \<longleftrightarrow> (\<forall>x\<in>set xs. \<not> f x)"
proof -
  have "position_of f xs = None \<longleftrightarrow> filter (f \<circ> snd) (zip [0..<length xs] xs) = []"
    by (auto simp: position_of_def split: list.splits)
  also have "\<dots> \<longleftrightarrow> (\<forall>x\<in>set (map snd (zip [0..<length xs] xs)). \<not> f x)"
    unfolding set_map by (auto simp only: filter_empty_conv o_apply ball_simps)
  finally show ?thesis by simp
qed

section \<open>The search through the candidate records\<close>

definition satisfying ::
  "grant_codecs \<Rightarrow> bytes \<Rightarrow> GrantPermission \<Rightarrow> u64 \<Rightarrow> bytes \<times> bytes option \<Rightarrow> AccessGrant \<Rightarrow> bool" where
  "satisfying C fp p now z g \<longleftrightarrow> (\<exists>b. snd z = Some b \<and> from_slice (j_grant C) b = Inr g \<and>
     grant_satisfies g fp (fst z) p now)"

text \<open>The first reusable grant ends the scan; without one, the first single-use grant is the result.\<close>

lemma scan_first_reusable:
  assumes "scan_grants C fp p now zs acc = Inr (Reusable e)" and "\<forall>e. acc \<noteq> Reusable e"
  shows "\<exists>us z vs g. zs = us @ z # vs \<and> satisfying C fp p now z g \<and> \<not> ag_single_use g \<and> ag_expires_at g = e \<and>
    (\<forall>u\<in>set us. \<forall>g. satisfying C fp p now u g \<longrightarrow> ag_single_use g)"
  using assms
proof (induction C fp p now zs acc rule: scan_grants.induct)
  case (2 C fp p now d rest acc)
  then obtain us z vs g where "rest = us @ z # vs" "satisfying C fp p now z g" "\<not> ag_single_use g" "ag_expires_at g = e"
    "\<forall>u\<in>set us. \<forall>g. satisfying C fp p now u g \<longrightarrow> ag_single_use g" by auto
  then show ?case by (intro exI [of _ "(d, None) # us"] exI [of _ z] exI [of _ vs] exI [of _ g]) (simp add: satisfying_def)
next
  case (3 C fp p now d b rest acc)
  from "3.prems" obtain g where g: "from_slice (j_grant C) b = Inr g" by (auto simp: res_simps)
  show ?case
  proof (cases "grant_satisfies g fp d p now \<and> \<not> ag_single_use g")
    case True
    with "3.prems" g show ?thesis
      by (intro exI [of _ "[]"] exI [of _ "(d, Some b)"] exI [of _ rest] exI [of _ g]) (auto simp: satisfying_def)
  next
    case False
    then have "\<exists>us z vs g. rest = us @ z # vs \<and> satisfying C fp p now z g \<and> \<not> ag_single_use g \<and> ag_expires_at g = e \<and>
        (\<forall>u\<in>set us. \<forall>g. satisfying C fp p now u g \<longrightarrow> ag_single_use g)"
      using "3.prems" g "3.IH"(1) [of g] "3.IH"(2) [of g]
      by (cases "grant_satisfies g fp d p now") (auto split: FoundGrant.splits)
    then obtain us z vs g' where "rest = us @ z # vs" "satisfying C fp p now z g'" "\<not> ag_single_use g'" "ag_expires_at g' = e"
      "\<forall>u\<in>set us. \<forall>g. satisfying C fp p now u g \<longrightarrow> ag_single_use g" by blast
    then show ?thesis using False g
      by (intro exI [of _ "(d, Some b) # us"] exI [of _ z] exI [of _ vs] exI [of _ g']) (auto simp: satisfying_def)
  qed
qed auto

lemma scan_reusable:
  assumes "scan_grants C fp p now zs acc = Inr (Reusable e)" and "\<forall>e. acc \<noteq> Reusable e"
  shows "\<exists>z\<in>set zs. \<exists>g. satisfying C fp p now z g \<and> \<not> ag_single_use g \<and> ag_expires_at g = e"
  using scan_first_reusable [OF assms] by fastforce

lemma scan_keeps_first:
  "scan_grants C fp p now zs (SingleUse d' e') = Inr (SingleUse d e) \<Longrightarrow> d' = d \<and> e' = e"
  by (induction C fp p now zs "SingleUse d' e'" rule: scan_grants.induct) (auto simp: res_simps split: if_splits)

lemma scan_first_single_use:
  assumes "scan_grants C fp p now zs NoGrant = Inr (SingleUse d e)"
  shows "\<exists>us z vs g. zs = us @ z # vs \<and> satisfying C fp p now z g \<and> fst z = d \<and> ag_single_use g \<and> ag_expires_at g = e \<and>
    (\<forall>u\<in>set us. \<forall>g. \<not> satisfying C fp p now u g)"
  using assms
proof (induction zs)
  case (Cons x rest)
  obtain d' r where x: "x = (d', r)" by (cases x)
  consider "\<forall>g. \<not> satisfying C fp p now x g" | g where "satisfying C fp p now x g" by blast
  then show ?case
  proof cases
    case 1
    then have "scan_grants C fp p now rest NoGrant = Inr (SingleUse d e)"
      using Cons.prems by (cases r) (auto simp: x satisfying_def res_simps split: if_splits)
    then obtain us z vs g where "rest = us @ z # vs" "satisfying C fp p now z g" "fst z = d" "ag_single_use g" "ag_expires_at g = e"
      "\<forall>u\<in>set us. \<forall>g. \<not> satisfying C fp p now u g" using Cons.IH by blast
    with 1 show ?thesis by (intro exI [of _ "x # us"] exI [of _ z] exI [of _ vs] exI [of _ g]) simp
  next
    case (2 g)
    then have "ag_single_use g" "d' = d" "ag_expires_at g = e"
      using Cons.prems scan_keeps_first by (fastforce simp: x satisfying_def split: if_splits)+
    with 2 show ?thesis by (intro exI [of _ "[]"] exI [of _ x] exI [of _ rest] exI [of _ g]) (simp add: x)
  qed
qed simp

lemma scan_single_use:
  assumes "scan_grants C fp p now zs acc = Inr (SingleUse d e)" and "\<forall>e. acc \<noteq> Reusable e"
  shows "(acc = SingleUse d e \<or>
      (\<exists>z\<in>set zs. \<exists>g. satisfying C fp p now z g \<and> fst z = d \<and> ag_single_use g \<and> ag_expires_at g = e)) \<and>
    (\<forall>z\<in>set zs. \<forall>g. satisfying C fp p now z g \<longrightarrow> ag_single_use g)"
  using assms
proof (induction C fp p now zs acc rule: scan_grants.induct)
  case (3 C fp p now d' b rest acc)
  from "3.prems" obtain g where g: "from_slice (j_grant C) b = Inr g" by (auto simp: res_simps)
  consider "\<not> grant_satisfies g fp d' p now"
    | "grant_satisfies g fp d' p now" "\<not> ag_single_use g"
    | "grant_satisfies g fp d' p now" "ag_single_use g" by blast
  then show ?case
  proof cases
    case 1
    with 3 g show ?thesis by (auto simp: satisfying_def)
  next
    case 2
    with "3.prems" g show ?thesis by auto
  next
    case 3
    with "3.prems" g "3.IH"(2) [of g] show ?thesis by (cases acc) (auto simp: satisfying_def)
  qed
qed (auto simp: satisfying_def)

lemma scan_none:
  assumes "scan_grants C fp p now zs acc = Inr NoGrant"
  shows "acc = NoGrant \<and> (\<forall>z\<in>set zs. \<forall>g. \<not> satisfying C fp p now z g)"
  using assms
proof (induction C fp p now zs acc rule: scan_grants.induct)
  case (3 C fp p now d' b rest acc)
  from "3.prems" obtain g where g: "from_slice (j_grant C) b = Inr g" by (auto simp: res_simps)
  with 3 show ?case by (auto simp: satisfying_def split: if_splits FoundGrant.splits)
qed (auto simp: satisfying_def)

lemma scan_ok:
  assumes "\<forall>z\<in>set zs. \<forall>b. snd z = Some b \<longrightarrow> is_ok (from_slice (j_grant C) b)"
  shows "is_ok (scan_grants C fp p now zs acc)"
  using assms by (induction C fp p now zs acc rule: scan_grants.induct) (auto simp: is_ok_iff)

section \<open>Grants of an abstract store\<close>

text \<open>\<open>usable\<close>: the record at the grant's own address is live and satisfies the check.\<close>

definition usable ::
  "'z hash_env_scheme \<Rightarrow> grant_codecs \<Rightarrow> entries \<Rightarrow> u64 \<Rightarrow> bytes \<Rightarrow> bytes \<Rightarrow> GrantPermission \<Rightarrow> AccessGrant \<Rightarrow> bool" where
  "usable H C M now fp d p g \<longleftrightarrow> (\<exists>a b. grant_address H fp d p = Inr a \<and>
     read_value H M now a = Inr (Some b) \<and> from_slice (j_grant C) b = Inr g \<and> grant_satisfies g fp d p now)"

lemma usable_stored:
  assumes "usable H C M now fp d p g"
  shows "\<exists>a b e. grant_address H fp d p = Inr a \<and> M (storage_key H a) = Some (a, b, e) \<and> live now e \<and>
    from_slice (j_grant C) b = Inr g \<and> grant_satisfies g fp d p now"
proof -
  from assms obtain a b where a: "grant_address H fp d p = Inr a" "read_value H M now a = Inr (Some b)"
    "from_slice (j_grant C) b = Inr g" "grant_satisfies g fp d p now" by (auto simp: usable_def)
  then obtain e where "M (storage_key H a) = Some (a, b, e)" "live now e"
    by (cases "M (storage_key H a)") (auto simp: read_value_def read_entry_def rbind_Inr split: if_splits)
  with a show ?thesis by blast
qed

definition target_digests :: "'z hash_env_scheme \<Rightarrow> GrantRequirement \<Rightarrow> bytes list" where
  "target_digests H q = map (grant_target_digest H) (requirement_targets q)"

text \<open>The check as a function of the entries.\<close>

definition lookup_grant ::
  "'z hash_env_scheme \<Rightarrow> grant_codecs \<Rightarrow> entries \<Rightarrow> CallerIdentity \<Rightarrow> GrantRequirement \<Rightarrow> u64
     \<Rightarrow> FoundGrant vault_result" where
  "lookup_grant H C M caller q now =
     rbind (rmapM (\<lambda>d. grant_address H (fingerprint H caller) d (gq_permission q)) (target_digests H q)) (\<lambda>as.
     rbind (rmapM (read_value H M now) as) (\<lambda>records.
     scan_grants C (fingerprint H caller) (gq_permission q) now (zip (target_digests H q) records) NoGrant))"

lemma candidate_usable:
  assumes "rmapM (\<lambda>d. grant_address H fp d p) ds = Inr as" and "rmapM (read_value H M now) as = Inr rs"
  shows "(\<exists>z\<in>set (zip ds rs). satisfying C fp p now z g \<and> Q (fst z)) \<longleftrightarrow>
     (\<exists>d\<in>set ds. usable H C M now fp d p g \<and> Q d)"
  using assms
proof (induction ds arbitrary: as rs)
  case (Cons d ds)
  then obtain a as' r rs' where *: "grant_address H fp d p = Inr a" "as = a # as'"
      "rmapM (\<lambda>d. grant_address H fp d p) ds = Inr as'" "read_value H M now a = Inr r" "rs = r # rs'"
      "rmapM (read_value H M now) as' = Inr rs'"
    by (auto simp: res_simps)
  then have "satisfying C fp p now (d, r) g \<longleftrightarrow> usable H C M now fp d p g"
    by (auto simp: satisfying_def usable_def)
  with Cons.IH [OF *(3,6)] * show ?case by auto
qed simp

lemma candidate_matches:
  assumes "rmapM (\<lambda>t. grant_address H fp (f t) p) ts = Inr as" and "rmapM (read_value H M now) as = Inr rs"
  shows "list_all2 (\<lambda>t z. fst z = f t \<and> (\<forall>g. satisfying C fp p now z g \<longleftrightarrow> usable H C M now fp (f t) p g)) ts (zip (map f ts) rs)"
  using assms
proof (induction ts arbitrary: as rs)
  case (Cons t ts)
  then obtain a as' r rs' where *: "grant_address H fp (f t) p = Inr a" "as = a # as'"
      "rmapM (\<lambda>t. grant_address H fp (f t) p) ts = Inr as'" "read_value H M now a = Inr r" "rs = r # rs'"
      "rmapM (read_value H M now) as' = Inr rs'"
    by (auto simp: res_simps)
  then have "satisfying C fp p now (f t, r) g \<longleftrightarrow> usable H C M now fp (f t) p g" for g
    by (auto simp: satisfying_def usable_def)
  with Cons.IH [OF *(3,6)] * show ?case by simp
qed simp

lemma lookup_reusable:
  assumes "lookup_grant H C M caller q now = Inr (Reusable e)"
  shows "\<exists>d\<in>set (target_digests H q). \<exists>g.
    usable H C M now (fingerprint H caller) d (gq_permission q) g \<and> \<not> ag_single_use g \<and> ag_expires_at g = e"
proof -
  obtain as rs where *: "rmapM (\<lambda>d. grant_address H (fingerprint H caller) d (gq_permission q)) (target_digests H q) = Inr as"
      "rmapM (read_value H M now) as = Inr rs"
      "scan_grants C (fingerprint H caller) (gq_permission q) now (zip (target_digests H q) rs) NoGrant = Inr (Reusable e)"
    using assms by (auto simp: lookup_grant_def res_simps)
  from scan_reusable [OF *(3)] obtain z g where "z \<in> set (zip (target_digests H q) rs)"
      "satisfying C (fingerprint H caller) (gq_permission q) now z g" "\<not> ag_single_use g" "ag_expires_at g = e"
    by blast
  with candidate_usable [OF *(1,2), where C = C and g = g and Q = "\<lambda>_. True"] show ?thesis by blast
qed

lemma lookup_single_use:
  assumes "lookup_grant H C M caller q now = Inr (SingleUse d e)"
  shows "d \<in> set (target_digests H q) \<and>
    (\<exists>g. usable H C M now (fingerprint H caller) d (gq_permission q) g \<and> ag_single_use g \<and> ag_expires_at g = e) \<and>
    (\<forall>d'\<in>set (target_digests H q). \<forall>g.
      usable H C M now (fingerprint H caller) d' (gq_permission q) g \<longrightarrow> ag_single_use g)"
proof -
  obtain as rs where *: "rmapM (\<lambda>d. grant_address H (fingerprint H caller) d (gq_permission q)) (target_digests H q) = Inr as"
      "rmapM (read_value H M now) as = Inr rs"
      "scan_grants C (fingerprint H caller) (gq_permission q) now (zip (target_digests H q) rs) NoGrant = Inr (SingleUse d e)"
    using assms by (auto simp: lookup_grant_def res_simps)
  note c = candidate_usable [OF *(1,2), where C = C]
  from scan_single_use [OF *(3)] obtain z g where z: "z \<in> set (zip (target_digests H q) rs)" "fst z = d"
      "satisfying C (fingerprint H caller) (gq_permission q) now z g" "ag_single_use g" "ag_expires_at g = e"
      and all: "\<forall>z\<in>set (zip (target_digests H q) rs). \<forall>g.
        satisfying C (fingerprint H caller) (gq_permission q) now z g \<longrightarrow> ag_single_use g"
    by blast
  from z c [of g "\<lambda>d'. d' = d"] have "d \<in> set (target_digests H q)"
      "usable H C M now (fingerprint H caller) d (gq_permission q) g" by blast+
  moreover have "ag_single_use g'" if "d' \<in> set (target_digests H q)"
      "usable H C M now (fingerprint H caller) d' (gq_permission q) g'" for d' g'
    using that all c [of g' "\<lambda>_. True"] by blast
  ultimately show ?thesis using z by blast
qed

lemma lookup_none:
  assumes "lookup_grant H C M caller q now = Inr NoGrant" and "d \<in> set (target_digests H q)"
  shows "\<not> usable H C M now (fingerprint H caller) d (gq_permission q) g"
proof -
  obtain as rs where *: "rmapM (\<lambda>d. grant_address H (fingerprint H caller) d (gq_permission q)) (target_digests H q) = Inr as"
      "rmapM (read_value H M now) as = Inr rs"
      "scan_grants C (fingerprint H caller) (gq_permission q) now (zip (target_digests H q) rs) NoGrant = Inr NoGrant"
    using assms by (auto simp: lookup_grant_def res_simps)
  from scan_none [OF *(3)] candidate_usable [OF *(1,2), where C = C and g = g and Q = "\<lambda>_. True"] assms(2)
  show ?thesis by blast
qed

section \<open>The operations over the interface\<close>

lemma find_grant_unfold:
  "find_grant H S C caller q now =
     sbind (slift (rmapM (\<lambda>d. grant_address H (fingerprint H caller) d (gq_permission q)) (target_digests H q)))
       (\<lambda>as. sbind (op_get_many S as now) (\<lambda>records.
         slift (scan_grants C (fingerprint H caller) (gq_permission q) now (zip (target_digests H q) records) NoGrant)))"
  by (simp add: find_grant_def target_digests_def Let_def)

lemma slift_err [res_simps]: "slift r s = (Inl e, s') \<longleftrightarrow> r = Inl e \<and> s' = s"
  by (auto simp: slift_def)

text \<open>What one write of the registry leaves.\<close>

definition registry_key :: "'z hash_env_scheme \<Rightarrow> string" where
  "registry_key H = storage_key H (Local ''permissions'' None)"

lemma permission_registry_address_ok [simp]: "permission_registry_address = Inr (Local ''permissions'' None)"
  by (simp add: permission_registry_address_def address_new_def validate_address_component_def
      MAX_ADDRESS_COMPONENT_BYTES_def)

context record_store
begin

lemma find_grant_ok:
  assumes "rep s M" and "find_grant H S C caller q now s = (Inr r, s')"
  shows "lookup_grant H C M caller q now = Inr r \<and> rep s' M"
proof -
  obtain as rs where *: "rmapM (\<lambda>d. grant_address H (fingerprint H caller) d (gq_permission q)) (target_digests H q) = Inr as"
      "op_get_many S as now s = (Inr rs, s')"
      "scan_grants C (fingerprint H caller) (gq_permission q) now (zip (target_digests H q) rs) NoGrant = Inr r"
    using assms(2) by (auto simp: find_grant_unfold res_simps)
  with get_many_ok [OF assms(1) *(2)] get_many_rep [OF assms(1) *(2)] show ?thesis
    by (simp add: lookup_grant_def)
qed

lemma find_grant_rep:
  assumes "rep s M" and "find_grant H S C caller q now s = (r, s')"
  shows "rep s' M"
  using assms by (cases r) (auto simp: find_grant_unfold res_simps dest: get_many_rep)

lemma find_grant_ready:
  assumes "rep s M" and "ready s"
  shows "\<exists>s'. find_grant H S C caller q now s = (lookup_grant H C M caller q now, s') \<and> rep s' M \<and>
    (is_ok (lookup_grant H C M caller q now) \<longrightarrow> ready s')"
proof (cases "rmapM (\<lambda>d. grant_address H (fingerprint H caller) d (gq_permission q)) (target_digests H q)")
  case (Inl e)
  with assms show ?thesis by (auto simp: find_grant_unfold lookup_grant_def sbind_def)
next
  case (Inr as)
  from get_many_ready [OF assms, of as now] obtain s' where
    s': "op_get_many S as now s = (rmapM (read_value H M now) as, s')"
      "is_ok (rmapM (read_value H M now) as) \<longrightarrow> ready s'" by blast
  have "rep s' M" using get_many_rep [OF assms(1) s'(1)] .
  with s' Inr show ?thesis
    by (cases "rmapM (read_value H M now) as") (auto simp: find_grant_unfold lookup_grant_def sbind_def slift_def)
qed

lemma require_grant_until_ok:
  assumes "rep s M" and "require_grant_until H S C caller q now s = (Inr e, s')"
  shows "lookup_grant H C M caller q now = Inr (Reusable e) \<and> rep s' M"
proof -
  from assms(2) obtain f s1 where f: "find_grant H S C caller q now s = (Inr f, s1)"
    and r: "(case f of Reusable e \<Rightarrow> sret e | SingleUse _ _ \<Rightarrow> slift (Inl AuthorizationRequired)
      | NoGrant \<Rightarrow> slift (Inl AuthorizationRequired)) s1 = (Inr e, s')"
    unfolding require_grant_until_def sbind_ok by blast
  from r have "f = Reusable e" "s' = s1" by (cases f; simp)+
  with find_grant_ok [OF assms(1) f] show ?thesis by simp
qed

lemma load_permission_registry_ok:
  assumes "rep s M" and "load_permission_registry S C now s = (Inr registry, s')"
  shows "rep s' (expire_entry H now (Local ''permissions'' None) M)"
  using assms by (auto simp: load_permission_registry_def res_simps split: option.splits dest: get_ok)

lemma write_registry_ok:
  assumes "rep s M" and "write_registry S C registry ops provenance now s = (Inr u, s')"
  shows "\<exists>b. to_vec (j_registry C) registry = Inr b \<and>
    rep s' ((fold (apply_entry H) ops M)(registry_key H \<mapsto> (Local ''permissions'' None, b, None)))"
  using assms by (auto simp: write_registry_def res_simps registry_key_def dest: mutate_ok)

end

section \<open>What the operations write\<close>

abbreviation registry_address :: SecretAddress where
  "registry_address \<equiv> Local ''permissions'' None"

definition stored_registry ::
  "'z hash_env_scheme \<Rightarrow> grant_codecs \<Rightarrow> entries \<Rightarrow> u64 \<Rightarrow> PermissionRegistry vault_result" where
  "stored_registry H C M now = rbind (read_entry H M now registry_address) (\<lambda>found. case found of
      None \<Rightarrow> Inr \<lparr>rg_version = PERMISSION_REGISTRY_VERSION, rg_permissions = []\<rparr>
    | Some secret \<Rightarrow> rbind (map_err Protocol (from_slice (j_registry C) (ss_value secret))) (\<lambda>registry.
        rbind (guard (rg_version registry = PERMISSION_REGISTRY_VERSION)
          (InvalidData ''unsupported permission registry version'')) (\<lambda>_. Inr registry)))"

definition with_registry :: "'z hash_env_scheme \<Rightarrow> bytes \<Rightarrow> entries \<Rightarrow> entries" where
  "with_registry H b M = M(registry_key H \<mapsto> (registry_address, b, None))"

lemma fold_apply_agree:
  assumes "\<forall>k. k \<noteq> k0 \<longrightarrow> M k = N k"
  shows "\<forall>k. k \<noteq> k0 \<longrightarrow> fold (apply_entry H) ops M k = fold (apply_entry H) ops N k"
  using assms
proof (induction ops arbitrary: M N)
  case (Cons op ops)
  have "\<forall>k. k \<noteq> k0 \<longrightarrow> apply_entry H op M k = apply_entry H op N k" using Cons.prems by (cases op) simp_all
  from Cons.IH [OF this] show ?case by simp
qed simp

lemma with_registry_expire:
  "with_registry H b (fold (apply_entry H) ops (expire_entry H now registry_address M)) =
     with_registry H b (fold (apply_entry H) ops M)"
proof -
  have "\<forall>k. k \<noteq> registry_key H \<longrightarrow> expire_entry H now registry_address M k = M k"
    by (auto simp: expire_entry_def registry_key_def split: option.splits)
  from fold_apply_agree [OF this] show ?thesis by (auto simp: with_registry_def fun_eq_iff)
qed

lemma grant_address_ok [res_simps]:
  "grant_address H fp d p = Inr a \<longleftrightarrow>
     a = Local (''grant/'' @ b64_encode H fp @ ''/'' @ b64_encode H d @ ''/'' @ permission_name p) None \<and>
     length (''grant/'' @ b64_encode H fp @ ''/'' @ b64_encode H d @ ''/'' @ permission_name p) \<le> 4096"
  by (auto simp: grant_address_def address_new_def rbind_Inr)

lemma grant_address_not_registry: "grant_address H fp d p \<noteq> Inr registry_address"
  by (auto simp: grant_address_ok)

lemma read_entry_upd:
  "read_entry H (M(k := x)) now a = (if storage_key H a = k then
     (case x of None \<Rightarrow> Inr None | Some (a', v, e) \<Rightarrow>
        if a' \<noteq> a then Inl (InvalidData ''secret document record does not match its authenticated address'')
        else if live now e then Inr (Some \<lparr>ss_value = v, ss_expires_at = e\<rparr>) else Inr None)
     else read_entry H M now a)"
  by (auto simp: read_entry_def)

lemma usable_with_registry:
  "usable H C (with_registry H b M) now fp d p g \<Longrightarrow> usable H C M now fp d p g"
  using grant_address_not_registry [of H fp d p]
  by (auto simp: usable_def with_registry_def read_value_def read_entry_upd rbind_Inr split: if_splits)

lemma usable_delete:
  "usable H C (M(k := None)) now fp d p g \<Longrightarrow> usable H C M now fp d p g"
  by (auto simp: usable_def read_value_def read_entry_upd rbind_Inr split: if_splits)

lemma not_usable_deleted:
  assumes "grant_address H fp d p = Inr a"
  shows "\<not> usable H C (with_registry H b (M(storage_key H a := None))) now fp d p g"
proof
  assume "usable H C (with_registry H b (M(storage_key H a := None))) now fp d p g"
  from usable_with_registry [OF this] assms show False
    by (auto simp: usable_def read_value_def read_entry_upd rbind_Inr)
qed

context record_store
begin

lemma load_registry_ok:
  assumes "rep s M" and "load_permission_registry S C now s = (Inr registry, s')"
  shows "stored_registry H C M now = Inr registry \<and> rep s' (expire_entry H now registry_address M)"
proof -
  from assms(2) obtain found s1 where g: "op_get S registry_address now s = (Inr found, s1)"
    and r: "(case found of None \<Rightarrow> sret \<lparr>rg_version = PERMISSION_REGISTRY_VERSION, rg_permissions = []\<rparr>
     | Some secret \<Rightarrow>
         slift (rbind (map_err Protocol (from_slice (j_registry C) (ss_value secret))) (\<lambda>registry.
           rbind (guard (rg_version registry = PERMISSION_REGISTRY_VERSION)
             (InvalidData ''unsupported permission registry version'')) (\<lambda>_.
           Inr registry)))) s1 = (Inr registry, s')"
    unfolding load_permission_registry_def by (auto simp: sbind_ok slift_ok)
  from get_ok [OF assms(1) g] r show ?thesis
    by (cases found) (auto simp: stored_registry_def slift_ok)
qed

lemma registry_update_ok:
  assumes "rep s M" and "load_permission_registry S C now s = (Inr registry, s1)"
    and "write_registry S C registry' ops provenance now s1 = (Inr u, s')"
  obtains b where "to_vec (j_registry C) registry' = Inr b"
    "rep s' (with_registry H b (fold (apply_entry H) ops M))"
proof -
  from load_registry_ok [OF assms(1,2)] have "rep s1 (expire_entry H now registry_address M)" by blast
  from write_registry_ok [OF this assms(3)] obtain b where b: "to_vec (j_registry C) registry' = Inr b"
    "rep s' (with_registry H b (fold (apply_entry H) ops (expire_entry H now registry_address M)))"
    by (auto simp: with_registry_def)
  then show thesis by (intro that [of b]) (simp_all only: with_registry_expire)
qed

lemma consume_grant_ok:
  assumes "rep s M" and "consume_grant H S C fp d p now provenance s = (Inr u, s')"
  obtains registry a b where "stored_registry H C M now = Inr registry" "grant_address H fp d p = Inr a"
    "to_vec (j_registry C) (registry\<lparr>rg_permissions := filter (\<lambda>stored.
       \<not> (sp_caller_fingerprint stored = fp \<and> sp_target_digest stored = d \<and> sp_grant_permission stored = p) \<and>
       \<not> permission_is_expired (sp_permission stored) now) (rg_permissions registry)\<rparr>) = Inr b"
    "rep s' (with_registry H b (M(storage_key H a := None)))"
proof -
  let ?R = "\<lambda>registry. registry\<lparr>rg_permissions := filter (\<lambda>stored.
       \<not> (sp_caller_fingerprint stored = fp \<and> sp_target_digest stored = d \<and> sp_grant_permission stored = p) \<and>
       \<not> permission_is_expired (sp_permission stored) now) (rg_permissions registry)\<rparr>"
  from assms(2) obtain registry s1 a where l: "load_permission_registry S C now s = (Inr registry, s1)"
    and a: "grant_address H fp d p = Inr a"
    and w: "write_registry S C (?R registry) [Delete a] provenance now s1 = (Inr u, s')"
    unfolding consume_grant_def Let_def sbind_ok slift_ok by blast
  from assms(1) l w obtain b where "to_vec (j_registry C) (?R registry) = Inr b"
    "rep s' (with_registry H b (fold (apply_entry H) [Delete a] M))" by (rule registry_update_ok)
  with load_registry_ok [OF assms(1) l] a show thesis by (intro that [of registry a b]) simp_all
qed

lemma require_grant_consuming_ok:
  assumes "rep s M" and "require_grant_consuming H S C caller q now provenance s = (Inr e, s')"
  shows "(lookup_grant H C M caller q now = Inr (Reusable e) \<and> rep s' M) \<or>
    (\<exists>d s1. lookup_grant H C M caller q now = Inr (SingleUse d e) \<and> rep s1 M \<and>
       consume_grant H S C (fingerprint H caller) d (gq_permission q) now provenance s1 = (Inr (), s'))"
proof -
  from assms(2) obtain f s1 where f: "find_grant H S C caller q now s = (Inr f, s1)"
    and r: "(case f of Reusable e \<Rightarrow> sret e
     | SingleUse d e \<Rightarrow> sbind (consume_grant H S C (fingerprint H caller) d (gq_permission q) now provenance)
           (\<lambda>_. sret e)
     | NoGrant \<Rightarrow> slift (Inl AuthorizationRequired)) s1 = (Inr e, s')"
    unfolding require_grant_consuming_def sbind_ok by blast
  from find_grant_ok [OF assms(1) f] r show ?thesis by (cases f) (auto simp: sbind_ok)
qed

lemma promote_permission_ok:
  assumes "rep s M" and "promote_permission H S C caller target p permission now provenance s = (Inr u, s')"
  obtains at e single a b rb registry where "pm_state permission = Granted at e single" "live now e"
    "identity_validate caller = Inr ()"
    "grant_address H (fingerprint H caller) (grant_target_digest H target) p = Inr a"
    "to_vec (j_grant C) \<lparr>ag_version = GRANT_VERSION, ag_caller_fingerprint = fingerprint H caller,
       ag_target_digest = grant_target_digest H target, ag_permissions = {|p|}, ag_expires_at = e,
       ag_single_use = single\<rparr> = Inr b"
    "stored_registry H C M now = Inr registry"
    "to_vec (j_registry C) (registry\<lparr>rg_permissions := filter (\<lambda>stored.
         pm_id (sp_permission stored) \<noteq> pm_id permission \<and>
         \<not> permission_is_expired (sp_permission stored) now) (rg_permissions registry) @
       [\<lparr>sp_permission = permission\<lparr>pm_scope := Some (target_scope target), pm_target := Some (target_summary target)\<rparr>,
         sp_caller_fingerprint = fingerprint H caller, sp_target_digest = grant_target_digest H target,
         sp_grant_permission = p\<rparr>]\<rparr>) = Inr rb"
    "rep s' (with_registry H rb (M(storage_key H a \<mapsto> (a, b, e))))"
proof (cases "pm_state permission")
  case (Pending x1 x2 x3 x4 x5)
  with assms(2) show thesis by (auto simp: promote_permission_def sbind_ok)
next
  case (Granted at e single)
  let ?R = "\<lambda>registry. registry\<lparr>rg_permissions := filter (\<lambda>stored.
         pm_id (sp_permission stored) \<noteq> pm_id permission \<and>
         \<not> permission_is_expired (sp_permission stored) now) (rg_permissions registry) @
       [\<lparr>sp_permission = permission\<lparr>pm_scope := Some (target_scope target), pm_target := Some (target_summary target)\<rparr>,
         sp_caller_fingerprint = fingerprint H caller, sp_target_digest = grant_target_digest H target,
         sp_grant_permission = p\<rparr>]\<rparr>"
  from assms(2) Granted obtain a b registry s1 where v: "identity_validate caller = Inr ()" "live now e"
    "grant_address H (fingerprint H caller) (grant_target_digest H target) p = Inr a"
    "to_vec (j_grant C) \<lparr>ag_version = GRANT_VERSION, ag_caller_fingerprint = fingerprint H caller,
       ag_target_digest = grant_target_digest H target, ag_permissions = {|p|}, ag_expires_at = e,
       ag_single_use = single\<rparr> = Inr b"
    and l: "load_permission_registry S C now s = (Inr registry, s1)"
    and w: "write_registry S C (?R registry) [Put a b e] provenance now s1 = (Inr u, s')"
    unfolding promote_permission_def Let_def by (auto simp: res_simps)
  from assms(1) l w obtain rb where "to_vec (j_registry C) (?R registry) = Inr rb"
    "rep s' (with_registry H rb (fold (apply_entry H) [Put a b e] M))" by (rule registry_update_ok)
  with load_registry_ok [OF assms(1) l] v Granted show thesis
    by (intro that [of at e single a b registry rb]) simp_all
qed

lemma revoke_permission_ok:
  assumes "rep s M" and "revoke_permission H S C ident now provenance s = (Inr u, s')"
  obtains registry i a b where "stored_registry H C M now = Inr registry"
    "position_of (\<lambda>stored. pm_id (sp_permission stored) = ident) (rg_permissions registry) = Some i"
    "grant_address H (sp_caller_fingerprint (rg_permissions registry ! i))
       (sp_target_digest (rg_permissions registry ! i)) (sp_grant_permission (rg_permissions registry ! i)) = Inr a"
    "to_vec (j_registry C) (registry\<lparr>rg_permissions := filter (\<lambda>stored. \<not> permission_is_expired (sp_permission stored) now)
       (take i (rg_permissions registry) @ drop (Suc i) (rg_permissions registry))\<rparr>) = Inr b"
    "rep s' (with_registry H b (M(storage_key H a := None)))"
proof -
  let ?R = "\<lambda>registry i. registry\<lparr>rg_permissions := filter (\<lambda>stored. \<not> permission_is_expired (sp_permission stored) now)
       (take i (rg_permissions registry) @ drop (Suc i) (rg_permissions registry))\<rparr>"
  from assms(2) obtain registry s1 i a where l: "load_permission_registry S C now s = (Inr registry, s1)"
    and i: "position_of (\<lambda>stored. pm_id (sp_permission stored) = ident) (rg_permissions registry) = Some i"
    and a: "grant_address H (sp_caller_fingerprint (rg_permissions registry ! i))
       (sp_target_digest (rg_permissions registry ! i)) (sp_grant_permission (rg_permissions registry ! i)) = Inr a"
    and w: "write_registry S C (?R registry i) [Delete a] provenance now s1 = (Inr u, s')"
    unfolding revoke_permission_def Let_def sbind_ok slift_ok ok_or_iff by blast
  from assms(1) l w obtain b where "to_vec (j_registry C) (?R registry i) = Inr b"
    "rep s' (with_registry H b (fold (apply_entry H) [Delete a] M))" by (rule registry_update_ok)
  with load_registry_ok [OF assms(1) l] i a show thesis by (intro that [of registry i a b]) simp_all
qed

end

section \<open>Well-formed grant documents\<close>

text \<open>Every record sits under the key of its own address; a record at a grant's address is one
  version 3 grant of a single permission to the caller and target the address names, and the
  store's eviction deadline is the grant's expiry.\<close>

definition grant_record_ok ::
  "'z hash_env_scheme \<Rightarrow> grant_codecs \<Rightarrow> SecretAddress \<Rightarrow> bytes \<Rightarrow> u64 option \<Rightarrow> bool" where
  "grant_record_ok H C a v e \<longleftrightarrow> (\<forall>fp d p. grant_address H fp d p = Inr a \<longrightarrow>
     (\<exists>g p'. from_slice (j_grant C) v = Inr g \<and> ag_version g = GRANT_VERSION \<and> ag_permissions g = {|p'|} \<and>
       ag_expires_at g = e \<and> grant_address H (ag_caller_fingerprint g) (ag_target_digest g) p' = Inr a))"

definition grants_wf :: "'z hash_env_scheme \<Rightarrow> grant_codecs \<Rightarrow> entries \<Rightarrow> bool" where
  "grants_wf H C M \<longleftrightarrow>
     (\<forall>k a v e. M k = Some (a, v, e) \<longrightarrow> k = storage_key H a \<and> grant_record_ok H C a v e)"

definition operation_ok :: "'z hash_env_scheme \<Rightarrow> grant_codecs \<Rightarrow> DocumentOperation \<Rightarrow> bool" where
  "operation_ok H C op = (case op of Put a v e \<Rightarrow> grant_record_ok H C a v e | Delete a \<Rightarrow> True)"

lemma grants_wf_fold:
  "grants_wf H C M \<Longrightarrow> \<forall>op\<in>set ops. operation_ok H C op \<Longrightarrow> grants_wf H C (fold (apply_entry H) ops M)"
proof (induction ops arbitrary: M)
  case (Cons op ops)
  have "grants_wf H C (apply_entry H op M)"
    using Cons.prems by (cases op) (auto simp: grants_wf_def operation_ok_def)
  with Cons show ?case by simp
qed simp

lemma registry_record_ok: "grant_record_ok H C registry_address v e"
  by (simp add: grant_record_ok_def grant_address_not_registry)

lemma holder_record_ok:
  "exclusive_holder_address H d = Inr a \<Longrightarrow> grant_record_ok H C a v e"
  by (auto simp: grant_record_ok_def exclusive_holder_address_def address_new_def rbind_Inr grant_address_ok)

lemma grants_wf_registry: "grants_wf H C M \<Longrightarrow> grants_wf H C (with_registry H b M)"
  using registry_record_ok by (auto simp: grants_wf_def with_registry_def registry_key_def)

lemma grants_wf_expire: "grants_wf H C M \<Longrightarrow> grants_wf H C (expire_entry H now a M)"
  by (auto simp: grants_wf_def expire_entry_def split: option.splits)

definition grant_codecs_ok :: "grant_codecs \<Rightarrow> bool" where
  "grant_codecs_ok C \<longleftrightarrow> json_ok (j_grant C) \<and> json_ok (j_holder C) \<and> json_ok (j_registry C)"

lemma grant_codecs_okD:
  assumes "grant_codecs_ok C"
  shows "to_vec (j_grant C) g = Inr b \<Longrightarrow> from_slice (j_grant C) b = Inr g"
    "to_vec (j_holder C) h = Inr b \<Longrightarrow> from_slice (j_holder C) b = Inr h"
    "to_vec (j_registry C) r = Inr b \<Longrightarrow> from_slice (j_registry C) b = Inr r"
    "\<exists>b. to_vec (j_grant C) g = Inr b" "\<exists>b. to_vec (j_holder C) h = Inr b" "\<exists>b. to_vec (j_registry C) r = Inr b"
  using assms unfolding grant_codecs_ok_def json_ok_def by (metis Inr_inject)+

lemma new_grant_record_ok:
  assumes "grant_codecs_ok C" and "grant_address H fp d p = Inr a"
    and "to_vec (j_grant C) \<lparr>ag_version = GRANT_VERSION, ag_caller_fingerprint = fp, ag_target_digest = d,
      ag_permissions = {|p|}, ag_expires_at = e, ag_single_use = single\<rparr> = Inr v"
  shows "grant_record_ok H C a v e"
  using grant_codecs_okD(1) [OF assms(1,3)] assms(2) by (simp add: grant_record_ok_def)

definition prepared_grant_ok :: "'z hash_env_scheme \<Rightarrow> grant_codecs \<Rightarrow> PreparedGrant \<Rightarrow> bool" where
  "prepared_grant_ok H C g \<longleftrightarrow> grant_record_ok H C (pg_address g) (pg_value g) (pg_expires_at g)"

lemma prepare_grant_ok:
  assumes "prepare_grant H C caller target permissions e now = Inr gs"
  shows "live now e" "permissions \<noteq> []" "identity_validate caller = Inr ()"
    "list_all2 (\<lambda>p g. grant_address H (fingerprint H caller) (grant_target_digest H target) p = Inr (pg_address g) \<and>
       to_vec (j_grant C) \<lparr>ag_version = GRANT_VERSION, ag_caller_fingerprint = fingerprint H caller,
         ag_target_digest = grant_target_digest H target, ag_permissions = {|p|}, ag_expires_at = e,
         ag_single_use = False\<rparr> = Inr (pg_value g) \<and> pg_expires_at g = e)
     (sorted_list_of_fset (fset_of_list permissions)) gs"
proof -
  show "live now e" "identity_validate caller = Inr ()"
    using assms by (auto simp: prepare_grant_def Let_def res_simps)
  show "permissions \<noteq> []" using assms by (auto simp: prepare_grant_def Let_def res_simps)
  have "rmapM (\<lambda>p.
       rbind (map_err Protocol (to_vec (j_grant C) \<lparr>ag_version = GRANT_VERSION,
         ag_caller_fingerprint = fingerprint H caller, ag_target_digest = grant_target_digest H target,
         ag_permissions = {|p|}, ag_expires_at = e, ag_single_use = False\<rparr>)) (\<lambda>b.
       rbind (grant_address H (fingerprint H caller) (grant_target_digest H target) p) (\<lambda>address.
       Inr \<lparr>pg_address = address, pg_value = b, pg_expires_at = e\<rparr>)))
       (sorted_list_of_fset (fset_of_list permissions)) = Inr gs"
    using assms by (auto simp: prepare_grant_def Let_def rbind_Inr)
  then show "list_all2 (\<lambda>p g. grant_address H (fingerprint H caller) (grant_target_digest H target) p = Inr (pg_address g) \<and>
       to_vec (j_grant C) \<lparr>ag_version = GRANT_VERSION, ag_caller_fingerprint = fingerprint H caller,
         ag_target_digest = grant_target_digest H target, ag_permissions = {|p|}, ag_expires_at = e,
         ag_single_use = False\<rparr> = Inr (pg_value g) \<and> pg_expires_at g = e)
     (sorted_list_of_fset (fset_of_list permissions)) gs"
    unfolding rmapM_Inr by (rule list_all2_mono) (auto simp: rbind_Inr)
qed

lemma prepare_grant_prepared:
  assumes "grant_codecs_ok C" and "prepare_grant H C caller target permissions e now = Inr gs" and "g \<in> set gs"
  shows "prepared_grant_ok H C g"
proof -
  from prepare_grant_ok(4) [OF assms(2)] assms(3) obtain p where
    "grant_address H (fingerprint H caller) (grant_target_digest H target) p = Inr (pg_address g)"
    "to_vec (j_grant C) \<lparr>ag_version = GRANT_VERSION, ag_caller_fingerprint = fingerprint H caller,
         ag_target_digest = grant_target_digest H target, ag_permissions = {|p|}, ag_expires_at = e,
         ag_single_use = False\<rparr> = Inr (pg_value g)" "pg_expires_at g = e"
    by (auto simp: list_all2_conv_all_nth in_set_conv_nth)
  then show ?thesis using new_grant_record_ok [OF assms(1)] by (simp add: prepared_grant_ok_def)
qed

lemma last_of_each_subset: "set (last_of_each gs) \<subseteq> set gs"
proof -
  have "set (fold (\<lambda>g acc. if pg_address g \<in> set (map pg_address acc) then acc else acc @ [g]) xs acc)
      \<subseteq> set xs \<union> set acc" for xs acc
    by (induction xs arbitrary: acc) (fastforce split: if_splits)+
  from this [of "rev gs" "[]"] show ?thesis by (simp add: last_of_each_def)
qed

section \<open>The life of a grant document\<close>

inductive grant_step ::
  "'z hash_env_scheme \<Rightarrow> 's store_ops \<Rightarrow> grant_codecs \<Rightarrow> 's \<Rightarrow> 's \<Rightarrow> bool"
  for H S C where
  prepared: "(\<And>g. g \<in> set gs \<Longrightarrow> \<exists>caller target ps e t gs'. prepare_grant H C caller target ps e t = Inr gs' \<and> g \<in> set gs') \<Longrightarrow>
    store_prepared_grants S gs now s = (Inr (), s') \<Longrightarrow> grant_step H S C s s'"
| exclusive: "store_exclusive_grant H S C caller target ps now s = (Inr (), s') \<Longrightarrow> grant_step H S C s s'"
| promoted: "promote_permission H S C caller target p permission now provenance s = (Inr (), s') \<Longrightarrow> grant_step H S C s s'"
| revoked: "revoke_permission H S C ident now provenance s = (Inr (), s') \<Longrightarrow> grant_step H S C s s'"
| listed: "list_granted_permissions H S C now s = (Inr ps, s') \<Longrightarrow> grant_step H S C s s'"
| required: "require_grant_until H S C caller q now s = (Inr e, s') \<Longrightarrow> grant_step H S C s s'"
| spent: "require_grant_consuming H S C caller q now provenance s = (Inr e, s') \<Longrightarrow> grant_step H S C s s'"

context record_store
begin

lemma store_prepared_grants_ok:
  assumes "rep s M" and "store_prepared_grants S gs now s = (Inr u, s')"
  obtains kept where "set kept \<subseteq> set gs"
    "rep s' (fold (apply_entry H) (map (\<lambda>g. Put (pg_address g) (pg_value g) (pg_expires_at g)) kept) M)"
proof -
  let ?gs = "last_of_each gs"
  show thesis
  proof (cases "?gs = []")
    case True
    with assms show thesis by (intro that [of "[]"]) (simp_all add: store_prepared_grants_def)
  next
    case False
    then obtain vs s1 where get: "op_get_many S (map pg_address ?gs) now s = (Inr vs, s1)"
      and rest: "(if map (\<lambda>(g, _). Put (pg_address g) (pg_value g) (pg_expires_at g))
              (filter (\<lambda>(g, v). v \<noteq> Some (pg_value g)) (zip ?gs vs)) = [] then sret ()
        else op_mutate S (map (\<lambda>(g, _). Put (pg_address g) (pg_value g) (pg_expires_at g))
              (filter (\<lambda>(g, v). v \<noteq> Some (pg_value g)) (zip ?gs vs))) (Service GrantStorage) now) s1 = (Inr u, s')"
      using assms(2) unfolding store_prepared_grants_def Let_def by (auto simp: sbind_ok)
    let ?kept = "map fst (filter (\<lambda>(g, v). v \<noteq> Some (pg_value g)) (zip ?gs vs))"
    have ops: "map (\<lambda>(g, _). Put (pg_address g) (pg_value g) (pg_expires_at g))
              (filter (\<lambda>(g, v). v \<noteq> Some (pg_value g)) (zip ?gs vs)) =
        map (\<lambda>g. Put (pg_address g) (pg_value g) (pg_expires_at g)) ?kept"
      by (auto simp: case_prod_beta)
    have sub: "set ?kept \<subseteq> set gs" using last_of_each_subset [of gs] by (auto dest: set_zip_leftD)
    have "rep s1 M" using get_many_rep [OF assms(1) get] .
    then have "rep s' (fold (apply_entry H) (map (\<lambda>g. Put (pg_address g) (pg_value g) (pg_expires_at g)) ?kept) M)"
      using rest mutate_ok [of s1 M] unfolding ops by (auto split: if_splits)
    with sub show thesis by (rule that)
  qed
qed

end

lemma rmapM_set1: "rmapM f xs = Inr ys \<Longrightarrow> y \<in> set ys \<Longrightarrow> \<exists>x\<in>set xs. f x = Inr y"
  by (induction xs arbitrary: ys) (auto simp: rbind_Inr)

lemma rmapM_set2: "rmapM f xs = Inr ys \<Longrightarrow> x \<in> set xs \<Longrightarrow> \<exists>y\<in>set ys. f x = Inr y"
  by (induction xs arbitrary: ys) (auto simp: rbind_Inr)

lemmas rmapM_set = rmapM_set1 rmapM_set2

lemma superseded_grants_delete:
  assumes "superseded_grants H previous fp d ps = Inr ops"
  shows "op \<in> set ops \<Longrightarrow> \<exists>a. op = Delete a"
    and "previous = Some h \<Longrightarrow> p |\<in>| eh_permissions h \<Longrightarrow> eh_caller_fingerprint h \<noteq> fp \<or> p |\<notin>| ps \<Longrightarrow>
      \<exists>a. grant_address H (eh_caller_fingerprint h) d p = Inr a \<and> Delete a \<in> set ops"
proof -
  assume "op \<in> set ops"
  with assms show "\<exists>a. op = Delete a"
    unfolding superseded_grants_def
    by (auto split: option.splits) (drule (1) rmapM_set1, auto simp: rbind_Inr)
next
  assume h: "previous = Some h" "p |\<in>| eh_permissions h" "eh_caller_fingerprint h \<noteq> fp \<or> p |\<notin>| ps"
  from assms h(1) have "rmapM (\<lambda>p. rbind (grant_address H (eh_caller_fingerprint h) d p)
            (\<lambda>address. Inr (Delete address)))
          (filter (\<lambda>p. eh_caller_fingerprint h \<noteq> fp \<or> p |\<notin>| ps)
            (sorted_list_of_fset (eh_permissions h))) = Inr ops"
    by (simp add: superseded_grants_def)
  from rmapM_set(2) [OF this, of p] h show "\<exists>a. grant_address H (eh_caller_fingerprint h) d p = Inr a \<and> Delete a \<in> set ops"
    by (auto simp: rbind_Inr)
qed

lemma exclusive_grants_put:
  assumes "exclusive_grants H C fp d ps = Inr ops"
  shows "op \<in> set ops \<Longrightarrow> \<exists>p a b. p |\<in>| ps \<and> grant_address H fp d p = Inr a \<and> op = Put a b None \<and>
      to_vec (j_grant C) \<lparr>ag_version = GRANT_VERSION, ag_caller_fingerprint = fp, ag_target_digest = d,
        ag_permissions = {|p|}, ag_expires_at = None, ag_single_use = False\<rparr> = Inr b"
    and "p |\<in>| ps \<Longrightarrow> \<exists>a b. grant_address H fp d p = Inr a \<and> Put a b None \<in> set ops \<and>
      to_vec (j_grant C) \<lparr>ag_version = GRANT_VERSION, ag_caller_fingerprint = fp, ag_target_digest = d,
        ag_permissions = {|p|}, ag_expires_at = None, ag_single_use = False\<rparr> = Inr b"
  using rmapM_set [OF assms [unfolded exclusive_grants_def]] by (fastforce simp: rbind_Inr)+

text \<open>The record a batch leaves under a key is the last one put there, or none.\<close>

lemma fold_apply_lookup:
  assumes "fold (apply_entry H) ops M k = Some (a, v, e)"
  shows "Put a v e \<in> set ops \<and> storage_key H a = k \<or> M k = Some (a, v, e) \<and> (\<forall>a'. Delete a' \<in> set ops \<longrightarrow> storage_key H a' \<noteq> k)"
  using assms
proof (induction ops arbitrary: M)
  case (Cons op ops)
  have "fold (apply_entry H) ops (apply_entry H op M) k = Some (a, v, e)" using Cons.prems by simp
  from Cons.IH [OF this] show ?case by (cases op) (auto split: if_splits)
qed simp

context record_store
begin

lemma store_exclusive_grant_ok:
  assumes "rep s M" and "store_exclusive_grant H S C caller target permissions now s = (Inr u, s')"
  obtains ha as r rs previous where "permissions \<noteq> []"
    "exclusive_holder_address H (grant_target_digest H target) = Inr ha"
    "rmapM (grant_address H (fingerprint H caller) (grant_target_digest H target))
       (sorted_list_of_fset (fset_of_list permissions)) = Inr as"
    "read_value H M now ha = Inr r" "rmapM (read_value H M now) as = Inr rs" "previous_holder C r = Inr previous"
    "(\<exists>h. previous = Some h \<and> eh_caller_fingerprint h = fingerprint H caller \<and>
        eh_permissions h = fset_of_list permissions \<and>
        list_all (held_grant C (fingerprint H caller) (grant_target_digest H target) now)
          (zip (sorted_list_of_fset (fset_of_list permissions)) rs) \<and> rep s' M) \<or>
     (\<exists>deletes puts b. superseded_grants H previous (fingerprint H caller) (grant_target_digest H target)
          (fset_of_list permissions) = Inr deletes \<and>
        exclusive_grants H C (fingerprint H caller) (grant_target_digest H target) (fset_of_list permissions) = Inr puts \<and>
        to_vec (j_holder C) \<lparr>eh_version = EXCLUSIVE_HOLDER_VERSION, eh_caller_fingerprint = fingerprint H caller,
          eh_permissions = fset_of_list permissions\<rparr> = Inr b \<and>
        rep s' (fold (apply_entry H) (deletes @ puts @ [Put ha b None]) M))"
proof -
  let ?fp = "fingerprint H caller" and ?d = "grant_target_digest H target" and ?ps = "fset_of_list permissions"
  from assms(2) obtain ha as recs s1 previous where
    ha: "exclusive_holder_address H ?d = Inr ha" and ne: "?ps \<noteq> {||}" and
    as: "rmapM (grant_address H ?fp ?d) (sorted_list_of_fset ?ps) = Inr as" and
    get: "op_get_many S (ha # as) now s = (Inr recs, s1)" and
    prev: "(case recs of [] \<Rightarrow> Inr None | r # _ \<Rightarrow> previous_holder C r) = Inr previous" and
    rest: "(if (case previous of
           None \<Rightarrow> False
         | Some holder \<Rightarrow> eh_caller_fingerprint holder = ?fp \<and> eh_permissions holder = ?ps) \<and>
        list_all (held_grant C ?fp ?d now) (zip (sorted_list_of_fset ?ps) (tl recs))
     then sret ()
     else
       sbind (slift (superseded_grants H previous ?fp ?d ?ps)) (\<lambda>deletes.
       sbind (slift (exclusive_grants H C ?fp ?d ?ps)) (\<lambda>puts.
       sbind (slift (map_err Protocol (to_vec (j_holder C) \<lparr>eh_version = EXCLUSIVE_HOLDER_VERSION,
         eh_caller_fingerprint = ?fp, eh_permissions = ?ps\<rparr>))) (\<lambda>b.
       op_mutate S (deletes @ puts @ [Put ha b None]) (Service GrantStorage) now)))) s1 = (Inr u, s')"
    unfolding store_exclusive_grant_def Let_def sbind_ok slift_ok guard_iff by blast
  have rep1: "rep s1 M" using get_many_rep [OF assms(1) get] .
  from get_many_ok [OF assms(1) get] obtain r rs where recs: "recs = r # rs" "read_value H M now ha = Inr r"
    "rmapM (read_value H M now) as = Inr rs" by (auto simp: rbind_Inr)
  have p: "previous_holder C r = Inr previous" using prev recs(1) by simp
  have "permissions \<noteq> []" using ne by auto
  then show thesis
  proof (rule that [OF _ ha as recs(2,3) p])
    show "(\<exists>h. previous = Some h \<and> eh_caller_fingerprint h = ?fp \<and> eh_permissions h = ?ps \<and>
        list_all (held_grant C ?fp ?d now) (zip (sorted_list_of_fset ?ps) rs) \<and> rep s' M) \<or>
     (\<exists>deletes puts b. superseded_grants H previous ?fp ?d ?ps = Inr deletes \<and>
        exclusive_grants H C ?fp ?d ?ps = Inr puts \<and>
        to_vec (j_holder C) \<lparr>eh_version = EXCLUSIVE_HOLDER_VERSION, eh_caller_fingerprint = ?fp,
          eh_permissions = ?ps\<rparr> = Inr b \<and>
        rep s' (fold (apply_entry H) (deletes @ puts @ [Put ha b None]) M))"
    proof (cases "(case previous of None \<Rightarrow> False
         | Some holder \<Rightarrow> eh_caller_fingerprint holder = ?fp \<and> eh_permissions holder = ?ps) \<and>
        list_all (held_grant C ?fp ?d now) (zip (sorted_list_of_fset ?ps) (tl recs))")
      case True
      with rest have "s' = s1" by simp
      with True rep1 recs(1) show ?thesis by (intro disjI1) (simp split: option.splits)
    next
      case False
      with rest obtain deletes puts b where m: "superseded_grants H previous ?fp ?d ?ps = Inr deletes"
        "exclusive_grants H C ?fp ?d ?ps = Inr puts"
        "to_vec (j_holder C) \<lparr>eh_version = EXCLUSIVE_HOLDER_VERSION, eh_caller_fingerprint = ?fp,
          eh_permissions = ?ps\<rparr> = Inr b"
        "op_mutate S (deletes @ puts @ [Put ha b None]) (Service GrantStorage) now s1 = (Inr u, s')"
        unfolding if_not_P [OF False] sbind_ok slift_ok map_err_Inr by blast
      from mutate_ok [OF rep1 m(4)] m(1-3) show ?thesis by blast
    qed
  qed
qed

lemma grant_step_wf:
  assumes codecs: "grant_codecs_ok C" and step: "grant_step H S C s s'" and "rep s M" and wf: "grants_wf H C M"
  shows "\<exists>M'. rep s' M' \<and> grants_wf H C M'"
  using step
proof cases
  case (prepared gs now)
  from assms(3) prepared(2) obtain kept where kept: "set kept \<subseteq> set gs"
    "rep s' (fold (apply_entry H) (map (\<lambda>g. Put (pg_address g) (pg_value g) (pg_expires_at g)) kept) M)"
    by (rule store_prepared_grants_ok)
  have "prepared_grant_ok H C g" if "g \<in> set kept" for g
    using prepared(1) [of g] prepare_grant_prepared [OF codecs] that kept(1) by blast
  then have "\<forall>op\<in>set (map (\<lambda>g. Put (pg_address g) (pg_value g) (pg_expires_at g)) kept). operation_ok H C op"
    by (auto simp: operation_ok_def prepared_grant_ok_def)
  from grants_wf_fold [OF wf this] kept(2) show ?thesis by blast
next
  case (exclusive caller target ps now)
  from assms(3) exclusive show ?thesis
  proof (rule store_exclusive_grant_ok)
    fix ha as r rs previous
    assume ha: "exclusive_holder_address H (grant_target_digest H target) = Inr ha"
    assume "(\<exists>h. previous = Some h \<and> eh_caller_fingerprint h = fingerprint H caller \<and>
        eh_permissions h = fset_of_list ps \<and>
        list_all (held_grant C (fingerprint H caller) (grant_target_digest H target) now)
          (zip (sorted_list_of_fset (fset_of_list ps)) rs) \<and> rep s' M) \<or>
     (\<exists>deletes puts b. superseded_grants H previous (fingerprint H caller) (grant_target_digest H target)
          (fset_of_list ps) = Inr deletes \<and>
        exclusive_grants H C (fingerprint H caller) (grant_target_digest H target) (fset_of_list ps) = Inr puts \<and>
        to_vec (j_holder C) \<lparr>eh_version = EXCLUSIVE_HOLDER_VERSION, eh_caller_fingerprint = fingerprint H caller,
          eh_permissions = fset_of_list ps\<rparr> = Inr b \<and>
        rep s' (fold (apply_entry H) (deletes @ puts @ [Put ha b None]) M))"
    then show ?thesis
    proof (elim disjE exE conjE)
      fix deletes puts b
      assume d: "superseded_grants H previous (fingerprint H caller) (grant_target_digest H target) (fset_of_list ps) = Inr deletes"
        and p: "exclusive_grants H C (fingerprint H caller) (grant_target_digest H target) (fset_of_list ps) = Inr puts"
        and r: "rep s' (fold (apply_entry H) (deletes @ puts @ [Put ha b None]) M)"
      have "operation_ok H C op" if "op \<in> set (deletes @ puts @ [Put ha b None])" for op
        using that superseded_grants_delete(1) [OF d, of op] exclusive_grants_put(1) [OF p, of op]
          new_grant_record_ok [OF codecs] holder_record_ok [OF ha]
        by (auto simp: operation_ok_def)
      with grants_wf_fold [OF wf] r show ?thesis by blast
    qed (use wf in blast)
  qed
next
  case (promoted caller target p permission now provenance)
  from assms(3) promoted obtain e single a b rb where
    a: "grant_address H (fingerprint H caller) (grant_target_digest H target) p = Inr a"
    "to_vec (j_grant C) \<lparr>ag_version = GRANT_VERSION, ag_caller_fingerprint = fingerprint H caller,
       ag_target_digest = grant_target_digest H target, ag_permissions = {|p|}, ag_expires_at = e,
       ag_single_use = single\<rparr> = Inr b"
    "rep s' (with_registry H rb (M(storage_key H a \<mapsto> (a, b, e))))"
    by (rule promote_permission_ok)
  have "grants_wf H C (fold (apply_entry H) [Put a b e] M)"
    using new_grant_record_ok [OF codecs a(1,2)] by (intro grants_wf_fold [OF wf]) (simp add: operation_ok_def)
  with a(3) show ?thesis by (auto intro: grants_wf_registry)
next
  case (revoked ident now provenance)
  from assms(3) revoked obtain a b where "rep s' (with_registry H b (M(storage_key H a := None)))"
    by (rule revoke_permission_ok)
  moreover have "grants_wf H C (fold (apply_entry H) [Delete a] M)"
    by (intro grants_wf_fold [OF wf]) (simp add: operation_ok_def)
  ultimately show ?thesis by (auto intro: grants_wf_registry)
next
  case (listed now ps)
  then obtain registry where "load_permission_registry S C now s = (Inr registry, s')"
    by (auto simp: list_granted_permissions_def sbind_ok)
  with load_registry_ok [OF assms(3)] grants_wf_expire [OF wf] show ?thesis by blast
next
  case (required caller q now e)
  with require_grant_until_ok [OF assms(3)] wf show ?thesis by blast
next
  case (spent caller q now provenance e)
  from require_grant_consuming_ok [OF assms(3) spent] show ?thesis
  proof (elim disjE exE conjE)
    fix d s1
    assume "rep s1 M" and "consume_grant H S C (fingerprint H caller) d (gq_permission q) now provenance s1 = (Inr (), s')"
    then obtain a b where "rep s' (with_registry H b (M(storage_key H a := None)))" by (rule consume_grant_ok)
    moreover have "grants_wf H C (fold (apply_entry H) [Delete a] M)"
      by (intro grants_wf_fold [OF wf]) (simp add: operation_ok_def)
    ultimately show ?thesis by (auto intro: grants_wf_registry)
  qed (use wf in blast)
qed

lemma grant_steps_wf:
  assumes "(grant_step H S C)\<^sup>*\<^sup>* s s'" and "grant_codecs_ok C" and "rep s M" and "grants_wf H C M"
  shows "\<exists>M'. rep s' M' \<and> grants_wf H C M'"
  using assms(1)
proof induction
  case base
  then show ?case using assms by blast
next
  case (step t t')
  then show ?case using grant_step_wf [OF assms(2) step.hyps(2)] by blast
qed

end

section \<open>Granted permissions are usable\<close>

lemma lookup_total:
  assumes wf: "grants_wf H C M"
    and as: "rmapM (\<lambda>d. grant_address H (fingerprint H caller) d (gq_permission q)) (target_digests H q) = Inr as"
    and own: "\<forall>a\<in>set as. \<forall>a' v e. M (storage_key H a) = Some (a', v, e) \<longrightarrow> a' = a"
  shows "\<exists>r. lookup_grant H C M caller q now = Inr r"
proof -
  define val where "val a = (case M (storage_key H a) of None \<Rightarrow> None
    | Some (_, v, e) \<Rightarrow> if live now e then Some v else None)" for a
  have "read_value H M now a = Inr (val a)" if "a \<in> set as" for a
    using own that by (auto simp: read_value_def read_entry_def val_def split: option.splits)
  then have rs: "rmapM (read_value H M now) as = Inr (map val as)" by (intro rmapM_ok)
  have ok: "is_ok (from_slice (j_grant C) b)" if a: "a \<in> set as" and v: "val a = Some b" for a b
  proof -
    from v obtain a' e where "M (storage_key H a) = Some (a', b, e)"
      by (auto simp: val_def split: option.splits if_splits)
    with own a wf have "grant_record_ok H C a b e" unfolding grants_wf_def by blast
    with rmapM_set1 [OF as a] show ?thesis by (auto simp: grant_record_ok_def)
  qed
  have "is_ok (scan_grants C (fingerprint H caller) (gq_permission q) now (zip (target_digests H q) (map val as)) NoGrant)"
    by (rule scan_ok) (use ok in \<open>auto dest!: set_zip_rightD\<close>)
  then show ?thesis using as rs by (simp add: lookup_grant_def is_ok_iff)
qed

lemma lookup_usable:
  assumes "lookup_grant H C M caller q now = Inr r" and "d \<in> set (target_digests H q)"
    and "usable H C M now (fingerprint H caller) d (gq_permission q) g"
  shows "r \<noteq> NoGrant" and "\<not> ag_single_use g \<Longrightarrow> \<exists>e. r = Reusable e"
proof -
  show ne: "r \<noteq> NoGrant" using lookup_none assms by blast
  show "\<exists>e. r = Reusable e" if "\<not> ag_single_use g"
  proof (cases r)
    case (SingleUse d' e)
    with lookup_single_use [of H C M caller q now d' e] assms that show ?thesis by blast
  qed (use ne in blast)+
qed

definition registry_ready :: "'z hash_env_scheme \<Rightarrow> grant_codecs \<Rightarrow> entries \<Rightarrow> bool" where
  "registry_ready H C M \<longleftrightarrow> (case M (registry_key H) of
      None \<Rightarrow> True
    | Some (a, v, e) \<Rightarrow> a = registry_address \<and> e = None \<and>
        (\<exists>r. from_slice (j_registry C) v = Inr r \<and> rg_version r = PERMISSION_REGISTRY_VERSION))"

lemma stored_registry_ready:
  assumes "registry_ready H C M"
  shows "\<exists>r. stored_registry H C M now = Inr r \<and> rg_version r = PERMISSION_REGISTRY_VERSION"
  using assms
  by (auto simp: registry_ready_def stored_registry_def read_entry_def registry_key_def live_def split: option.splits)

lemma stored_registry_version:
  "stored_registry H C M now = Inr r \<Longrightarrow> rg_version r = PERMISSION_REGISTRY_VERSION"
  by (auto simp: stored_registry_def rbind_Inr split: option.splits)

lemma stored_registry_written:
  assumes "from_slice (j_registry C) b = Inr r" and "rg_version r = PERMISSION_REGISTRY_VERSION"
  shows "stored_registry H C (with_registry H b M) now = Inr r" and "registry_ready H C (with_registry H b M)"
  using assms by (simp_all add: stored_registry_def with_registry_def read_entry_def registry_key_def live_def
      registry_ready_def)

lemma deadlines_fit_upd:
  assumes "deadlines_fit M"
  shows "\<forall>t. e = Some t \<longrightarrow> unat t < 2 ^ 63 \<Longrightarrow> deadlines_fit (M(k \<mapsto> (a, v, e)))"
    and "deadlines_fit (M(k := None))" and "deadlines_fit (with_registry H b M)"
  using assms by (auto simp: deadlines_fit_def with_registry_def)

context live_record_store
begin

lemma load_registry_live:
  assumes "rep s M" and "room s n" and "registry_ready H C M"
  shows "\<exists>registry s'. load_permission_registry S C now s = (Inr registry, s') \<and>
    stored_registry H C M now = Inr registry \<and> room s' n \<and> rep s' M"
proof -
  have "\<forall>a' v e. M (storage_key H registry_address) = Some (a', v, e) \<longrightarrow> live now e"
    using assms(3) by (auto simp: registry_ready_def registry_key_def live_def)
  from get_live [OF assms(1,2) this] obtain s' where
    s': "op_get S registry_address now s = (read_entry H M now registry_address, s')" "rep s' M"
      "is_ok (read_entry H M now registry_address) \<longrightarrow> room s' n" by blast
  from stored_registry_ready [OF assms(3)] obtain r where r: "stored_registry H C M now = Inr r" by blast
  then obtain found where "read_entry H M now registry_address = Inr found"
    by (auto simp: stored_registry_def rbind_Inr)
  with r s' show ?thesis
    by (cases found) (auto simp: load_permission_registry_def stored_registry_def sbind_def slift_def)
qed

lemma write_registry_live:
  assumes "rep s M" and "room s (length ops + 1 + n)" and "grant_codecs_ok C"
    and "deadlines_fit (fold (apply_entry H) ops M)"
  shows "\<exists>s'. write_registry S C registry ops provenance now s = (Inr (), s') \<and> room s' n"
proof -
  obtain b where b: "to_vec (j_registry C) registry = Inr b" using grant_codecs_okD(6) [OF assms(3)] by blast
  let ?ops = "ops @ [Put registry_address b None]"
  have "deadlines_fit (fold (apply_entry H) ?ops M)" using deadlines_fit_upd(1) [OF assms(4)] by simp
  from mutate_live [OF assms(1) _ this, where n = n and provenance = provenance and now = now] assms(2) obtain s' where
    "op_mutate S ?ops provenance now s = (Inr (), s')" "room s' n" by auto
  with b show ?thesis by (auto simp: write_registry_def)
qed

lemma promote_permission_live:
  assumes "rep s M" and "room s (2 + n)" and "grant_codecs_ok C" and "registry_ready H C M" and "deadlines_fit M"
    and "identity_validate caller = Inr ()" and "pm_state permission = Granted at e single" and "live now e"
    and "\<forall>t. e = Some t \<longrightarrow> unat t < 2 ^ 63"
    and "grant_address H (fingerprint H caller) (grant_target_digest H target) p = Inr a"
  shows "\<exists>s'. promote_permission H S C caller target p permission now provenance s = (Inr (), s') \<and> room s' n"
proof -
  obtain b where b: "to_vec (j_grant C) \<lparr>ag_version = GRANT_VERSION, ag_caller_fingerprint = fingerprint H caller,
       ag_target_digest = grant_target_digest H target, ag_permissions = {|p|}, ag_expires_at = e,
       ag_single_use = single\<rparr> = Inr b" using grant_codecs_okD(4) [OF assms(3)] by blast
  from load_registry_live [OF assms(1,2,4)] obtain registry s1 where
    l: "load_permission_registry S C now s = (Inr registry, s1)" "room s1 (2 + n)" "rep s1 M" by blast
  have fit: "deadlines_fit (fold (apply_entry H) [Put a b e] M)" using deadlines_fit_upd(1) [OF assms(5,9)] by simp
  note w = write_registry_live [OF l(3) _ assms(3) fit, of n]
  show ?thesis using assms b l w by (simp add: promote_permission_def sbind_def Let_def numeral_2_eq_2)
qed

lemma consume_grant_live:
  assumes "rep s M" and "room s (2 + n)" and "grant_codecs_ok C" and "registry_ready H C M" and "deadlines_fit M"
    and "grant_address H fp d p = Inr a"
  shows "\<exists>s'. consume_grant H S C fp d p now provenance s = (Inr (), s') \<and> room s' n"
proof -
  from load_registry_live [OF assms(1,2,4)] obtain registry s1 where
    l: "load_permission_registry S C now s = (Inr registry, s1)" "room s1 (2 + n)" "rep s1 M" by blast
  have fit: "deadlines_fit (fold (apply_entry H) [Delete a] M)" using deadlines_fit_upd(2) [OF assms(5)] by simp
  note w = write_registry_live [OF l(3) _ assms(3) fit, of n]
  show ?thesis using assms l w by (simp add: consume_grant_def sbind_def Let_def numeral_2_eq_2)
qed

lemma revoke_permission_live:
  assumes "rep s M" and "room s (2 + n)" and "grant_codecs_ok C" and "registry_ready H C M" and "deadlines_fit M"
    and "stored_registry H C M now = Inr registry"
    and "position_of (\<lambda>stored. pm_id (sp_permission stored) = ident) (rg_permissions registry) = Some i"
    and "grant_address H (sp_caller_fingerprint (rg_permissions registry ! i))
       (sp_target_digest (rg_permissions registry ! i)) (sp_grant_permission (rg_permissions registry ! i)) = Inr a"
  shows "\<exists>s'. revoke_permission H S C ident now provenance s = (Inr (), s') \<and> room s' n"
proof -
  from load_registry_live [OF assms(1,2,4), where now = now] assms(6) obtain s1 where
    l: "load_permission_registry S C now s = (Inr registry, s1)" "room s1 (2 + n)" "rep s1 M" by auto
  have fit: "deadlines_fit (fold (apply_entry H) [Delete a] M)" using deadlines_fit_upd(2) [OF assms(5)] by simp
  note w = write_registry_live [OF l(3) _ assms(3) fit, of n]
  show ?thesis using assms l w by (simp add: revoke_permission_def sbind_def Let_def numeral_2_eq_2)
qed

lemma exclusive_fits:
  assumes "deadlines_fit M" and "superseded_grants H previous fp d ps = Inr deletes"
    and "exclusive_grants H C fp d ps = Inr puts"
  shows "deadlines_fit (fold (apply_entry H) (deletes @ puts @ [Put ha b None]) M)"
  unfolding deadlines_fit_def
proof (intro allI impI)
  fix k a v t
  assume "fold (apply_entry H) (deletes @ puts @ [Put ha b None]) M k = Some (a, v, Some t)"
  from fold_apply_lookup [OF this] consider "Put a v (Some t) \<in> set deletes" | "Put a v (Some t) \<in> set puts"
    | "M k = Some (a, v, Some t)" by auto
  then show "unat t < 2 ^ 63"
  proof cases
    case 1
    with superseded_grants_delete(1) [OF assms(2) 1] show ?thesis by blast
  next
    case 2
    with exclusive_grants_put(1) [OF assms(3) 2] show ?thesis by blast
  next
    case 3
    with assms(1) show ?thesis unfolding deadlines_fit_def by blast
  qed
qed

lemma store_exclusive_grant_live:
  assumes "rep s M" and room: "room s (length deletes + length puts + 1 + n)" and codecs: "grant_codecs_ok C"
    and fit: "deadlines_fit M" and valid: "identity_validate caller = Inr ()" and ne: "permissions \<noteq> []"
    and ha: "exclusive_holder_address H (grant_target_digest H target) = Inr ha"
    and as: "rmapM (grant_address H (fingerprint H caller) (grant_target_digest H target))
       (sorted_list_of_fset (fset_of_list permissions)) = Inr as"
    and rd: "read_value H M now ha = Inr r" "rmapM (read_value H M now) as = Inr rs" "previous_holder C r = Inr previous"
    and ops: "superseded_grants H previous (fingerprint H caller) (grant_target_digest H target)
        (fset_of_list permissions) = Inr deletes"
      "exclusive_grants H C (fingerprint H caller) (grant_target_digest H target) (fset_of_list permissions) = Inr puts"
  shows "\<exists>s'. store_exclusive_grant H S C caller target permissions now s = (Inr (), s') \<and> room s' n"
proof -
  from get_many_ready [OF assms(1) room_ready [OF room], of "ha # as" now] rd obtain s1 where
    s1: "op_get_many S (ha # as) now s = (Inr (r # rs), s1)" by auto
  have room1: "room s1 (length deletes + length puts + 1 + n)" by (rule room_get_many [OF assms(1) room s1])
  have rep1: "rep s1 M" by (rule get_many_rep [OF assms(1) s1])
  obtain b where b: "to_vec (j_holder C) \<lparr>eh_version = EXCLUSIVE_HOLDER_VERSION, eh_caller_fingerprint = fingerprint H caller,
      eh_permissions = fset_of_list permissions\<rparr> = Inr b" using grant_codecs_okD(5) [OF codecs] by blast
  let ?ops = "deletes @ puts @ [Put ha b None]"
  have len: "length ?ops + n = length deletes + length puts + 1 + n" by simp
  from mutate_live [OF rep1 room1 [folded len] exclusive_fits [OF fit ops],
      where provenance = "Service GrantStorage" and now = now] obtain s2 where
    s2: "op_mutate S ?ops (Service GrantStorage) now s1 = (Inr (), s2)" "room s2 n" by blast
  have n1: "room s1 n" by (rule room_less [OF room1]) simp
  have "fset_of_list permissions \<noteq> {||}" using ne by (cases permissions) simp_all
  then show ?thesis using valid ha as s1 rd(3) ops b s2 n1
    by (simp add: store_exclusive_grant_def Let_def sbind_def)
qed

lemma require_grant_consuming_live:
  assumes "rep s M" and "room s (2 + n)" and "grant_codecs_ok C" and "registry_ready H C M" and "deadlines_fit M"
    and "lookup_grant H C M caller q now = Inr r" and "r \<noteq> NoGrant"
  shows "\<exists>e s'. require_grant_consuming H S C caller q now provenance s = (Inr e, s')"
proof -
  from find_grant_ready [OF assms(1) room_ready [OF assms(2)], of C caller q now] assms(6) obtain s1 where
    s1: "find_grant H S C caller q now s = (Inr r, s1)" "rep s1 M" by auto
  show ?thesis
  proof (cases r)
    case (Reusable e)
    with s1 show ?thesis by (simp add: require_grant_consuming_def)
  next
    case (SingleUse d e)
    then obtain g where "usable H C M now (fingerprint H caller) d (gq_permission q) g"
      using lookup_single_use assms(6) by blast
    then obtain a where a: "grant_address H (fingerprint H caller) d (gq_permission q) = Inr a"
      by (auto simp: usable_def)
    obtain as vs where as: "op_get_many S as now s = (Inr vs, s1)"
      using s1(1) SingleUse by (auto simp: find_grant_unfold sbind_ok slift_ok)
    have "room s1 (2 + n)" by (rule room_get_many [OF assms(1,2) as])
    from consume_grant_live [OF s1(2) this assms(3-5) a, where now = now and provenance = provenance] s1(1) SingleUse show ?thesis
      by (auto simp: require_grant_consuming_def sbind_def)
  qed (use assms(7) in blast)
qed

end

end
