(* ===== verification/Store_Reference.thy ===== *)
theory Store_Reference
  imports Reference_Env Store_Progress
begin

text \<open>
  A concrete environment of the store worker, in which every contract assumed of the external
  crates holds, and a store without documents in it.  The properties of the store and of its
  clients are applied to concrete inputs there.
\<close>

section \<open>Codecs\<close>

instance DocumentKind :: countable by countable_datatype
instance HistoryOperation :: countable by countable_datatype
instance ServiceReason :: countable by countable_datatype
instance CallerPlatform :: countable by countable_datatype

instance DeclaredApplication_ext :: (countable) countable
proof (rule countable_classI)
  fix x y :: "'a DeclaredApplication_scheme"
  let ?f = "\<lambda>c :: 'a DeclaredApplication_scheme. to_nat
    (da_project c, da_profile c, da_base_dir c, da_reason c, DeclaredApplication.more c)"
  assume "?f x = ?f y"
  then show "x = y" by simp
qed

instance PermissionPrincipal_ext :: (countable) countable
proof (rule countable_classI)
  fix x y :: "'a PermissionPrincipal_scheme"
  let ?f = "\<lambda>c :: 'a PermissionPrincipal_scheme. to_nat
    (pp_platform c, pp_user_id c, pp_application_id c, pp_executable_digest c, pp_signer_id c,
     PermissionPrincipal.more c)"
  assume "?f x = ?f y"
  then show "x = y" by simp
qed

instance Provenance :: countable by countable_datatype

instance HistoryEntry_ext :: (countable) countable
proof (rule countable_classI)
  fix x y :: "'a HistoryEntry_scheme"
  let ?f = "\<lambda>c :: 'a HistoryEntry_scheme. to_nat
    (he_version c, he_seq c, he_at c, he_operation c, he_address c, he_version_id c,
     he_previous_version_id c, he_evict_at c, he_provenance c, he_device_key_id c, HistoryEntry.more c)"
  assume "?f x = ?f y"
  then show "x = y" by simp
qed

instance HistoryLog_ext :: (countable) countable
proof (rule countable_classI)
  fix x y :: "'a HistoryLog_scheme"
  let ?f = "\<lambda>c :: 'a HistoryLog_scheme. to_nat
    (hl_version c, hl_kind c, hl_partition c, hl_next_seq c, hl_entries c, HistoryLog.more c)"
  assume "?f x = ?f y"
  then show "x = y" by simp
qed

instance EncryptionAlgorithm :: countable by countable_datatype

instance WrappedKey_ext :: (countable) countable
proof (rule countable_classI)
  fix x y :: "'a WrappedKey_scheme"
  let ?f = "\<lambda>c :: 'a WrappedKey_scheme. to_nat (wk_algorithm c, wk_nonce c, wk_ciphertext c, WrappedKey.more c)"
  assume "?f x = ?f y"
  then show "x = y" by simp
qed

instance EncryptedSnapshot_ext :: (countable) countable
proof (rule countable_classI)
  fix x y :: "'a EncryptedSnapshot_scheme"
  let ?f = "\<lambda>c :: 'a EncryptedSnapshot_scheme. to_nat
    (es_version c, es_algorithm c, es_vault_id c, es_document_id c, es_scope c, es_device_key_id c,
     es_generation c, es_key_epoch c, es_nonce c, es_ciphertext c, es_history_nonce c,
     es_history_ciphertext c, EncryptedSnapshot.more c)"
  assume "?f x = ?f y"
  then show "x = y" by simp
qed

instance CurrentHead_ext :: (countable) countable
proof (rule countable_classI)
  fix x y :: "'a CurrentHead_scheme"
  let ?f = "\<lambda>c :: 'a CurrentHead_scheme. to_nat
    (ch_head_id c, ch_vault_id c, ch_document_id c, ch_scope c, ch_generation c,
     ch_key_epoch c, ch_wrapped_key_digest c, ch_snapshot_digest c, ch_next_eviction c,
     ch_device_key_id c, CurrentHead.more c)"
  assume "?f x = ?f y"
  then show "x = y" by simp
qed

definition count_json :: "'a :: countable json" where
  "count_json = nat_json (\<lambda>x. x) (\<lambda>x. x)"

lemma count_json_ok [simp]: "json_ok count_json"
  unfolding count_json_def by (rule nat_json_ok) simp

text \<open>The manifest as a list of byte strings, each byte marked and each string terminated.\<close>

definition frame :: "bytes list \<Rightarrow> bytes" where
  "frame fs = concat (map (\<lambda>f. concat (map (\<lambda>c. [CHR 0x01, c]) f) @ [CHR 0x00]) fs)"

fun unframe :: "bytes \<Rightarrow> bytes \<Rightarrow> bytes list" where
  "unframe acc [] = []"
| "unframe acc (m # b) = (if m = CHR 0x00 then rev acc # unframe [] b
     else case b of [] \<Rightarrow> [] | c # b \<Rightarrow> unframe (c # acc) b)"

lemma unframe_field:
  "unframe acc (concat (map (\<lambda>c. [CHR 0x01, c]) f) @ CHR 0x00 # b) = (rev acc @ f) # unframe [] b"
  by (induction f arbitrary: acc) simp_all

lemma unframe_frame: "unframe [] (frame fs) = fs"
  by (induction fs) (simp_all add: frame_def unframe_field [of "[]", simplified])

lemma length_frame: "length (frame fs) = sum_list (map (\<lambda>f. 2 * length f + 1) fs)"
proof -
  have "length (concat (map (\<lambda>c. [CHR 0x01, c]) f)) = 2 * length f" for f :: bytes
    by (induction f) simp_all
  then show ?thesis by (induction fs) (simp_all add: frame_def)
qed

definition be_value :: "bytes \<Rightarrow> nat" where
  "be_value b = foldl (\<lambda>n c. n * 256 + of_char c) 0 b"

lemma be_value_bytes: "be_value (be_bytes k n) = n mod 256 ^ k"
proof (induction k arbitrary: n)
  case (Suc k)
  have "n mod 256 ^ Suc k = 256 * (n div 256 mod 256 ^ k) + n mod 256"
    by (simp add: mod_mult2_eq [of n 256 "256 ^ k"] mult.commute)
  then show ?case using Suc [of "n div 256"] by (simp add: be_value_def)
qed (simp add: be_value_def)

definition manifest_fields :: "StateManifest \<Rightarrow> bytes list" where
  "manifest_fields m = [unary (sm_version m), sm_vault_id m, sm_device_key_id m,
     be64 (unat (sm_document_count m)), sm_inventory_digest m, (if sm_repack_pending m then ''1'' else ''''),
     sm_manifest_id m, sm_signature m]"

definition fields_manifest :: "bytes list \<Rightarrow> string + StateManifest" where
  "fields_manifest fs = (case fs of
      [ver, vault, device, n, inventory, repack, ident, sig] \<Rightarrow>
        Inr \<lparr>sm_version = length ver, sm_signature_algorithm = MlDsa65, sm_vault_id = vault,
          sm_device_key_id = device, sm_document_count = word_of_nat (be_value n),
          sm_inventory_digest = inventory, sm_repack_pending = (repack \<noteq> ''''), sm_manifest_id = ident,
          sm_signature = sig\<rparr>
    | _ \<Rightarrow> Inl ''malformed manifest'')"

definition manifest_json :: "StateManifest json" where
  "manifest_json = \<lparr>to_vec = (\<lambda>m. Inr (frame (manifest_fields m))),
     from_slice = (\<lambda>b. fields_manifest (unframe [] b))\<rparr>"

lemma manifest_json_ok: "json_ok manifest_json"
proof -
  have alg: "sm_signature_algorithm m = MlDsa65" for m :: StateManifest by (cases "sm_signature_algorithm m")
  have "fields_manifest (manifest_fields m) = Inr m" for m :: StateManifest
    using alg [of m] by (cases m) (simp add: fields_manifest_def manifest_fields_def be_value_bytes unary_def)
  then show ?thesis by (simp add: json_ok_def manifest_json_def unframe_frame)
qed

section \<open>The reference store\<close>

definition reference_aead :: aead where
  "reference_aead = \<lparr>aead_seal = (\<lambda>k n a p. Some (p @ replicate 16 (CHR 0x00))),
     aead_open = (\<lambda>k n a c. Some (take (length c - 16) c))\<rparr>"

definition reference_signing :: signing where
  "reference_signing = \<lparr>sign_bytes = (\<lambda>_. Inr ''sig''), verify_bytes = (\<lambda>_ s. s = ''sig'')\<rparr>"

definition reference_store :: "(cdoc, unit, unit) store_env" where
  "reference_store = doc_env.extend reference_env \<lparr>installation_id = replicate 16 (CHR ''i''),
     device_vault_id = replicate 16 (CHR ''v''), device_key_id = replicate 32 (CHR ''k''),
     actor_id = ''actor'', root_key = replicate 32 (CHR ''r''), index_key = replicate 32 (CHR ''x''),
     cipher = reference_aead, signer = reference_signing, j_wrapped = count_json,
     j_envelope = count_json, j_head = count_json, j_manifest = manifest_json, j_log = count_json,
     j_entry = count_json, j_index = \<lparr>to_vec = (\<lambda>_. Inl []), from_slice = (\<lambda>_. Inl [])\<rparr>,
     names = \<lparr>hex_encode = (\<lambda>b. b), attributes_json = concat \<circ> map (\<lambda>(k, v). k @ v)\<rparr>,
     entropy = (\<lambda>n k. Inr (replicate k (char_of n))), db_fault = (\<lambda>_. None),
     commit_fault = (\<lambda>_. None), checkpoint_rows = (\<lambda>_. [0])\<rparr>"

lemma reference_store_ok: "store_env_ok reference_store cdoc_view"
proof -
  have "doc_env_ok reference_store cdoc_view"
    using reference_env_ok(1) by (simp add: doc_env_ok_def reference_store_def doc_env.defs reference_env_def)
  moreover have "hash_env_ok reference_store"
    using reference_env_ok(2) by (simp add: hash_env_ok_def reference_store_def doc_env.defs reference_env_def)
  ultimately show ?thesis
    by (simp add: store_env_ok_def reference_store_def doc_env.defs aead_ok_def reference_aead_def
        signing_ok_def reference_signing_def manifest_json_ok)
qed

lemma reference_store_total: "provider_total reference_store"
proof -
  have len: "length (sha256 reference_store x) = 32" for x
    using reference_store_ok by (simp add: store_env_ok_def hash_env_ok_def)
  have "length b \<le> MAX_MANIFEST_BYTES"
    if "sign_manifest reference_store ds False = Inr m" "to_vec (j_manifest reference_store) m = Inr b" for ds m b
    using that len
    by (auto simp: sign_manifest_def manifest_new_def Let_def rbind_Inr reference_store_def doc_env.defs
        manifest_json_def length_frame manifest_fields_def MAX_MANIFEST_BYTES_def unary_def
        CURRENT_SCHEMA_VERSION_def digest_def inventory_digest_def reference_signing_def)
  then show ?thesis
    by (simp add: provider_total_def reference_store_def doc_env.defs reference_aead_def reference_signing_def)
qed

text \<open>A store without documents.\<close>

definition empty_manifest :: "('d, 'r, 'i, 'z) store_env_scheme \<Rightarrow> StateManifest" where
  "empty_manifest E = projr (sign_manifest E fmempty False)"

definition empty_worker :: "('d, 'r, 'i, 'z) store_env_scheme \<Rightarrow> StoreWorker" where
  "empty_worker E = (let m = empty_manifest E; b = projr (to_vec (j_manifest E) m) in
     \<lparr>sw_db = \<lparr>db_documents = fmempty, db_snapshots = fmempty, db_heads = fmempty,
        db_meta = fmap_of_list [(''current-state-manifest'', b), (''current-commit-head'', sm_manifest_id m)]\<rparr>,
      sw_verified = \<lparr>vs_head = Some (sm_manifest_id m), vs_documents = fmempty,
        vs_manifest_digest = Some (digest E b)\<rparr>, sw_io = 0, sw_rng = 0\<rparr>)"

lemma empty_worker_consistent:
  assumes env: "store_env_ok E V" and total: "provider_total E" and calm: "calm E 0"
  shows "consistent E (empty_worker E)"
proof -
  obtain m where m: "sign_manifest E fmempty False = Inr m"
    using provider_totalD(2) [OF total] unfolding sign_manifest_def manifest_new_def Let_def
    by (metis (no_types, lifting) rbind_simps(2))
  obtain b where b: "to_vec (j_manifest E) m = Inr b" using store_json_total(4) [OF env] by blast
  have "length b \<le> MAX_MANIFEST_BYTES" using total m b by (auto simp: provider_total_def)
  moreover have "length (sm_manifest_id m) = 32"
    using m env manifest_id_length by (auto simp: sign_manifest_def store_env_ok_def)
  ultimately show ?thesis
    using m b calm store_env_okD(10) [OF env b]
    by (simp add: consistent_def undisturbed_def anchor_ok_def inventory_wf_def empty_worker_def
        empty_manifest_def Let_def fmlookup_of_list)
qed

lemma empty_worker_holds:
  assumes "store_env_ok E V" and "\<not> (kind = LocalKeyring \<and> part = PERSONAL_SECRET_NAMESPACE)"
  shows "holds E V kind part (empty_worker E) Map.empty"
proof -
  have "slot E V kind part (sw_db (empty_worker E)) (sw_verified (empty_worker E)) Map.empty"
    by (simp add: slot_def absent_def empty_worker_def Let_def)
  then show ?thesis using assms by (auto simp: holds_def intro!: exI [of _ Map.empty])
qed

lemma empty_worker_room:
  assumes "store_env_ok E V" and "provider_total E" and "calm E 0" and "n < 2 ^ 62"
  shows "store_room E kind part (empty_worker E) n"
proof -
  have "absent (sw_db (empty_worker E)) (sw_verified (empty_worker E)) (document_id E kind part)"
    by (simp add: absent_def empty_worker_def Let_def)
  moreover from this have "\<not> head_at E (sw_db (empty_worker E)) (sw_verified (empty_worker E))
      (document_id E kind part) kind h" for h
    using head_at_not_absent [of E] by blast
  ultimately show ?thesis using assms empty_worker_consistent [OF assms(1-3)]
    by (auto simp: store_room_def history_at_def history_new_def intro!: exI [of _ "history_new kind part"])
qed

lemma reference_calm: "calm reference_store n"
  by (simp add: calm_def reference_store_def doc_env.defs)

lemmas reference_room = empty_worker_room [OF reference_store_ok reference_store_total reference_calm]

lemmas reference_holds = empty_worker_holds [OF reference_store_ok]

end
