(* ===== verification/Grant_Properties.thy ===== *)
theory Grant_Properties
  imports Grant_Laws Store_Reference
begin

text \<open>
  The properties of caller grants, stated over the store worker's own operations on the grant
  document, and concrete runs of the operations on the reference store.
\<close>

section \<open>The grant document\<close>

abbreviation grant_ops :: "('d, 'r, 'i, 'z) store_env_scheme \<Rightarrow> StoreWorker store_ops" where
  "grant_ops E \<equiv> document_ops E Authorization GRANT_DOCUMENT_NAMESPACE"

abbreviation grants_hold ::
  "('d, 'r, 'i, 'z) store_env_scheme \<Rightarrow> ('d \<Rightarrow> am_view) \<Rightarrow> StoreWorker \<Rightarrow> entries \<Rightarrow> bool" where
  "grants_hold E V \<equiv> holds E V Authorization GRANT_DOCUMENT_NAMESPACE"

abbreviation grants_room :: "('d, 'r, 'i, 'z) store_env_scheme \<Rightarrow> StoreWorker \<Rightarrow> nat \<Rightarrow> bool" where
  "grants_room E \<equiv> store_room E Authorization GRANT_DOCUMENT_NAMESPACE"

text \<open>The addresses at which a check looks for a grant.\<close>

definition candidate_addresses ::
  "'z hash_env_scheme \<Rightarrow> CallerIdentity \<Rightarrow> GrantRequirement \<Rightarrow> SecretAddress list vault_result" where
  "candidate_addresses H caller q = rmapM (\<lambda>t. grant_address H (fingerprint H caller)
     (grant_target_digest H t) (gq_permission q)) (requirement_targets q)"

lemma candidate_addresses_digests:
  "candidate_addresses H caller q =
     rmapM (\<lambda>d. grant_address H (fingerprint H caller) d (gq_permission q)) (target_digests H q)"
proof -
  have "rmapM f (map g xs) = rmapM (\<lambda>x. f (g x)) xs" for f :: "bytes \<Rightarrow> VaultError + SecretAddress" and g :: "GrantTarget \<Rightarrow> bytes" and xs
    by (induction xs) simp_all
  then show ?thesis by (simp add: candidate_addresses_def target_digests_def)
qed

text \<open>No two of the addresses concerned share a storage key, which is a digest.\<close>

definition keys_distinct :: "'z hash_env_scheme \<Rightarrow> entries \<Rightarrow> SecretAddress set \<Rightarrow> bool" where
  "keys_distinct H M A \<longleftrightarrow> inj_on (storage_key H) (A \<union> {a. \<exists>k v e. M k = Some (a, v, e)})"

lemma candidates_own:
  assumes "grants_wf E C M" and "keys_distinct E M A" and "x \<in> A" and "M (storage_key E x) = Some (a, v, e)"
  shows "a = x"
proof -
  have "storage_key E x = storage_key E a" using assms(1,4) by (auto simp: grants_wf_def)
  then show ?thesis using inj_onD [OF assms(2) [unfolded keys_distinct_def]] assms(3,4) by blast
qed

text \<open>The document a promotion leaves: the grant is at its address, every record consulted is at its own, and the
  registry can be read.\<close>

lemma promoted_document:
  assumes "grants_hold E V w M" and "grants_room E w (2 + n)" and "grant_codecs_ok C"
    and "grants_wf E C M" and "registry_ready E C M" and "deadlines_fit M"
    and "identity_validate caller = Inr ()" and "pm_state permission = Granted at e single"
    and "live now e" and "\<forall>t. e = Some t \<longrightarrow> unat t < 2 ^ 63"
    and "grant_address E (fingerprint E caller) (grant_target_digest E target) p = Inr a" and "a \<in> A"
    and "keys_distinct E M (A \<union> {registry_address})"
  obtains w' M' where "promote_permission E (grant_ops E) C caller target p permission now provenance w = (Inr (), w')"
    "grants_room E w' n" "grants_hold E V w' M'" "grants_wf E C M'" "registry_ready E C M'" "deadlines_fit M'"
    "\<forall>x\<in>A. \<forall>a v e. M' (storage_key E x) = Some (a, v, e) \<longrightarrow> a = x"
    "\<And>t. live t e \<Longrightarrow> usable E C M' t (fingerprint E caller) (grant_target_digest E target) p
      \<lparr>ag_version = GRANT_VERSION, ag_caller_fingerprint = fingerprint E caller, ag_target_digest = grant_target_digest E target,
       ag_permissions = {|p|}, ag_expires_at = e, ag_single_use = single\<rparr>"
proof -
  let ?fp = "fingerprint E caller" and ?d = "grant_target_digest E target"
  let ?g = "\<lparr>ag_version = GRANT_VERSION, ag_caller_fingerprint = ?fp, ag_target_digest = ?d,
       ag_permissions = {|p|}, ag_expires_at = e, ag_single_use = single\<rparr>"
  from live_document_store.promote_permission_live [OF assms(1-3,5-11)] obtain w' where
    w': "promote_permission E (grant_ops E) C caller target p permission now provenance w = (Inr (), w')"
      "grants_room E w' n" by blast
  from assms(1) w'(1) obtain b rb registry where b: "to_vec (j_grant C) ?g = Inr b"
      "stored_registry E C M now = Inr registry"
      "\<exists>ps. to_vec (j_registry C) (registry\<lparr>rg_permissions := ps\<rparr>) = Inr rb"
      "grants_hold E V w' (with_registry E rb (M(storage_key E a \<mapsto> (a, b, e))))"
    by (rule document_store.promote_permission_ok) (use assms(8,11) in auto)
  let ?M = "with_registry E rb (M(storage_key E a \<mapsto> (a, b, e)))"
  have inj: "x = y" if "storage_key E x = storage_key E y" "x \<in> A \<union> {registry_address}" "y \<in> A \<union> {registry_address}" for x y
    using inj_onD [OF assms(13) [unfolded keys_distinct_def] that(1)] that(2,3) by blast
  have wf: "grants_wf E C ?M"
    using grants_wf_fold [OF assms(4), of "[Put a b e]"] new_grant_record_ok [OF assms(3,11) b(1)]
    by (simp add: operation_ok_def grants_wf_registry)
  have "a' = x" if "x \<in> A" "?M (storage_key E x) = Some (a', v, e')" for x a' v e'
  proof -
    from that consider "a' = registry_address" "storage_key E x = storage_key E registry_address"
      | "a' = a" "storage_key E x = storage_key E a" | "M (storage_key E x) = Some (a', v, e')"
      by (auto simp: with_registry_def registry_key_def split: if_splits)
    then show ?thesis
      by cases (use inj that(1) assms(12) candidates_own [OF assms(4,13), of x a' v e'] in blast)+
  qed
  moreover have "registry_ready E C ?M"
    using b(3) grant_codecs_okD(3) [OF assms(3)] stored_registry_version [OF b(2)]
    by (auto intro!: stored_registry_written(2))
  moreover have "storage_key E a \<noteq> registry_key E"
    using inj [of a registry_address] assms(12) grant_address_not_registry [of E ?fp ?d p] assms(11)
    unfolding registry_key_def by auto
  then have "usable E C ?M t ?fp ?d p ?g" if "live t e" for t
    using that assms(11) grant_codecs_okD(1) [OF assms(3) b(1)]
    by (simp add: usable_def with_registry_def read_value_def read_entry_def grant_satisfies_def)
  ultimately show ?thesis
    by (intro that [OF w' b(4) wf]) (use deadlines_fit_upd(1,3) assms(6,10) in blast)+
qed

text \<open>C6: a permission that was approved can be used.  Promoting it succeeds on a consistent store, and on the document
  it leaves, at every time before its expiry, the check that spends a single-use grant passes for its caller,
  operation and every requirement that covers its target; so does the check of a reusable grant, unless the
  permission was approved for one use only.\<close>

theorem promoted_permission_is_usable:
  assumes "grants_hold E V w M" and "grants_room E w (2 + (2 + n))" and "grant_codecs_ok C"
    and "grants_wf E C M" and "registry_ready E C M" and "deadlines_fit M"
    and "identity_validate caller = Inr ()" and "pm_state permission = Granted at e single"
    and "live now e" and "\<forall>t. e = Some t \<longrightarrow> unat t < 2 ^ 63"
    and "target \<in> set (requirement_targets q)" and "candidate_addresses E caller q = Inr as"
    and "keys_distinct E M (set as \<union> {registry_address})" and "live later e"
  shows "\<exists>w'. promote_permission E (grant_ops E) C caller target (gq_permission q) permission now provenance w = (Inr (), w') \<and>
    (\<exists>e' w''. require_grant_consuming E (grant_ops E) C caller q later provenance' w' = (Inr e', w'')) \<and>
    (\<not> single \<longrightarrow> (\<exists>e' w''. require_grant_until E (grant_ops E) C caller q later w' = (Inr e', w'')))"
proof -
  obtain a where a: "grant_address E (fingerprint E caller) (grant_target_digest E target) (gq_permission q) = Inr a" "a \<in> set as"
    using rmapM_set2 [OF assms(12) [unfolded candidate_addresses_def] assms(11)] by blast
  obtain w' M' where w': "promote_permission E (grant_ops E) C caller target (gq_permission q) permission now provenance w = (Inr (), w')"
    and M': "grants_room E w' (2 + n)" "grants_hold E V w' M'" "grants_wf E C M'" "registry_ready E C M'" "deadlines_fit M'"
      "\<forall>x\<in>set as. \<forall>a v e. M' (storage_key E x) = Some (a, v, e) \<longrightarrow> a = x"
    and g: "usable E C M' later (fingerprint E caller) (grant_target_digest E target) (gq_permission q)
      \<lparr>ag_version = GRANT_VERSION, ag_caller_fingerprint = fingerprint E caller, ag_target_digest = grant_target_digest E target,
       ag_permissions = {|gq_permission q|}, ag_expires_at = e, ag_single_use = single\<rparr>"
    by (rule promoted_document [OF assms(1-10) a assms(13)]) (use assms(14) in blast)
  obtain r where r: "lookup_grant E C M' caller q later = Inr r"
    using lookup_total [OF M'(3) assms(12) [unfolded candidate_addresses_digests] M'(6)] by blast
  note found = lookup_usable [OF r _ g]
  have t: "grant_target_digest E target \<in> set (target_digests E q)" using assms(11) by (simp add: target_digests_def)
  obtain w'' where "find_grant E (grant_ops E) C caller q later w' = (Inr r, w'')"
    using document_store.find_grant_ready [OF M'(2) live_document_store.room_ready [OF M'(1)], of C caller q later] r by auto
  then have "\<exists>e' w''. require_grant_until E (grant_ops E) C caller q later w' = (Inr e', w'')" if "\<not> single"
    using found(2) [OF t] that by (auto simp: require_grant_until_def)
  then show ?thesis
    using w' live_document_store.require_grant_consuming_live [OF M'(2,1) assms(3) M'(4,5) r found(1) [OF t]] by blast
qed

text \<open>What a check accepts was granted: the document holds, at the grant's own address, a live reusable grant of the
  current version to this caller, for one of the targets the request covers and the requested permission.\<close>

lemma require_grant_until_sound:
  assumes "grants_hold E V w M" and "require_grant_until E (grant_ops E) C caller q now w = (Inr e, w')"
  shows "grants_hold E V w' M \<and> (\<exists>t\<in>set (requirement_targets q). \<exists>a b d g.
    grant_address E (fingerprint E caller) (grant_target_digest E t) (gq_permission q) = Inr a \<and>
    M (storage_key E a) = Some (a, b, d) \<and> live now d \<and> from_slice (j_grant C) b = Inr g \<and>
    ag_version g = GRANT_VERSION \<and> ag_caller_fingerprint g = fingerprint E caller \<and>
    ag_target_digest g = grant_target_digest E t \<and> gq_permission q |\<in>| ag_permissions g \<and>
    live now (ag_expires_at g) \<and> \<not> ag_single_use g \<and> ag_expires_at g = e)"
proof -
  from document_store.require_grant_until_ok [OF assms] have
    "lookup_grant E C M caller q now = Inr (Reusable e)" and h: "grants_hold E V w' M" by blast+
  from lookup_reusable [OF this(1)] obtain t g where t: "t \<in> set (requirement_targets q)"
    "usable E C M now (fingerprint E caller) (grant_target_digest E t) (gq_permission q) g"
    "\<not> ag_single_use g" "ag_expires_at g = e" by (auto simp: target_digests_def)
  from usable_stored [OF t(2)] obtain a b d where
    "grant_address E (fingerprint E caller) (grant_target_digest E t) (gq_permission q) = Inr a"
    "M (storage_key E a) = Some (a, b, d)" "live now d" "from_slice (j_grant C) b = Inr g"
    "grant_satisfies g (fingerprint E caller) (grant_target_digest E t) (gq_permission q) now" by blast
  with t h show ?thesis unfolding grant_satisfies_def by blast
qed

text \<open>What a requirement covers, from the one entry to the whole kind of documents.  The targets bound to a project count
  only for the project of the request, and not for an entry that belongs to another project.\<close>

definition entry_in_project :: "GrantRequirement \<Rightarrow> string \<Rightarrow> bool" where
  "entry_in_project q project \<longleftrightarrow> gq_project q = Some project \<and>
     (\<forall>a. gq_address q = Some a \<longrightarrow> gq_scope q = LinuxSecretService \<or>
       (\<exists>s. as_secret_spec a = Some s \<and> (secret_spec_project s = None \<or> secret_spec_project s = Some project)))"

definition covers :: "GrantRequirement \<Rightarrow> GrantTarget \<Rightarrow> bool" where
  "covers q t \<longleftrightarrow> (case t of
      Kind k \<Rightarrow> k = gq_scope q
    | Namespace k n \<Rightarrow> k = gq_scope q \<and> gq_namespace q = Some n
    | Entry k n a \<Rightarrow> k = gq_scope q \<and> gq_namespace q = Some n \<and> gq_address q = Some a
    | Project k n j b \<Rightarrow> k = gq_scope q \<and> gq_namespace q = Some n \<and> b = gq_base_dir q \<and> entry_in_project q j
    | ProjectEntry k n a j b \<Rightarrow> k = gq_scope q \<and> gq_namespace q = Some n \<and> gq_address q = Some a \<and> b = gq_base_dir q \<and>
        entry_in_project q j)"

fun breadth :: "GrantTarget \<Rightarrow> nat" where
  "breadth (Entry _ _ _) = 0"
| "breadth (ProjectEntry _ _ _ _ _) = 1"
| "breadth (Project _ _ _ _) = 2"
| "breadth (Namespace _ _) = 3"
| "breadth (Kind _) = 4"

lemma targets_covered: "t \<in> set (requirement_targets q) \<longleftrightarrow> covers q t"
  by (cases t) (auto simp: requirement_targets_def covers_def entry_in_project_def split: option.splits)

lemma targets_by_breadth: "sorted_wrt (\<lambda>t u. breadth t < breadth u) (requirement_targets q)"
  by (auto simp: requirement_targets_def sorted_wrt_append split: option.splits)

text \<open>The grant of a caller for a target and an operation, as the document holds it: at the address of all three, current,
  live, and naming all three itself.\<close>

definition stored_grant ::
  "'z hash_env_scheme \<Rightarrow> grant_codecs \<Rightarrow> entries \<Rightarrow> u64 \<Rightarrow> CallerIdentity \<Rightarrow> GrantPermission \<Rightarrow> GrantTarget \<Rightarrow> AccessGrant \<Rightarrow> bool" where
  "stored_grant H C M now caller p t g \<longleftrightarrow> (\<exists>a b d.
     grant_address H (fingerprint H caller) (grant_target_digest H t) p = Inr a \<and> M (storage_key H a) = Some (a, b, d) \<and>
     live now d \<and> from_slice (j_grant C) b = Inr g \<and> ag_version g = GRANT_VERSION \<and>
     ag_caller_fingerprint g = fingerprint H caller \<and> ag_target_digest g = grant_target_digest H t \<and>
     p |\<in>| ag_permissions g \<and> live now (ag_expires_at g))"

lemma stored_usable:
  "usable H C M now (fingerprint H caller) (grant_target_digest H t) p g \<longleftrightarrow> stored_grant H C M now caller p t g"
proof
  assume "usable H C M now (fingerprint H caller) (grant_target_digest H t) p g"
  from usable_stored [OF this] show "stored_grant H C M now caller p t g"
    unfolding stored_grant_def grant_satisfies_def by blast
next
  assume "stored_grant H C M now caller p t g"
  then show "usable H C M now (fingerprint H caller) (grant_target_digest H t) p g"
    by (fastforce simp: stored_grant_def usable_def read_value_def read_entry_def grant_satisfies_def)
qed

text \<open>The grant a check is to find: the narrowest reusable grant that covers the requirement; when there is none, the
  narrowest single-use grant; and nothing only when no grant covers it.\<close>

definition finds ::
  "'z hash_env_scheme \<Rightarrow> grant_codecs \<Rightarrow> entries \<Rightarrow> u64 \<Rightarrow> CallerIdentity \<Rightarrow> GrantRequirement \<Rightarrow> FoundGrant \<Rightarrow> bool" where
  "finds H C M now caller q r \<longleftrightarrow> (let held = (\<lambda>t g. covers q t \<and> stored_grant H C M now caller (gq_permission q) t g) in
     case r of
       Reusable e \<Rightarrow> \<exists>t g. held t g \<and> \<not> ag_single_use g \<and> ag_expires_at g = e \<and>
         (\<forall>t' g'. held t' g' \<and> \<not> ag_single_use g' \<longrightarrow> breadth t \<le> breadth t')
     | SingleUse d e \<Rightarrow> \<exists>t g. held t g \<and> ag_single_use g \<and> ag_expires_at g = e \<and> d = grant_target_digest H t \<and>
         (\<forall>t' g'. held t' g' \<longrightarrow> ag_single_use g' \<and> breadth t \<le> breadth t')
     | NoGrant \<Rightarrow> \<forall>t g. \<not> held t g)"

lemma list_all2_left: "list_all2 P xs ys \<Longrightarrow> x \<in> set xs \<Longrightarrow> \<exists>y\<in>set ys. P x y"
  by (induction rule: list_all2_induct) auto

lemma list_all2_narrowest:
  assumes "list_all2 P ts (us @ z # vs)" and "sorted_wrt (\<lambda>t u. f t < (f u :: nat)) ts"
  shows "\<exists>t\<in>set ts. P t z \<and> (\<forall>t'\<in>set ts. (\<exists>u\<in>set us. P t' u) \<or> f t \<le> f t')"
proof -
  from assms(1) obtain ts1 t ts2 where ts: "ts = ts1 @ t # ts2" "list_all2 P ts1 us" "P t z"
    by (auto simp: list_all2_append2 list_all2_Cons2)
  have "\<exists>u\<in>set us. P t' u" if "t' \<in> set ts1" for t'
    using list_all2_left [OF ts(2) that] .
  moreover have "f t \<le> f t'" if "t' \<in> set (t # ts2)" for t' using assms(2) ts(1) that by (auto simp: sorted_wrt_append)
  ultimately show ?thesis using ts(1,3) by (intro bexI [of _ t]) auto
qed

lemma lookup_finds:
  assumes "lookup_grant H C M caller q now = Inr r"
  shows "finds H C M now caller q r"
proof -
  let ?fp = "fingerprint H caller" and ?p = "gq_permission q" and ?f = "grant_target_digest H" and ?ts = "requirement_targets q"
  obtain as rs where as: "rmapM (\<lambda>t. grant_address H ?fp (?f t) ?p) ?ts = Inr as" "rmapM (read_value H M now) as = Inr rs"
    and scan: "scan_grants C ?fp ?p now (zip (map ?f ?ts) rs) NoGrant = Inr r"
    using assms candidate_addresses_digests [of H caller q]
    by (auto simp: lookup_grant_def res_simps target_digests_def candidate_addresses_def)
  let ?P = "\<lambda>t z. fst z = ?f t \<and> (\<forall>g. satisfying C ?fp ?p now z g \<longleftrightarrow> stored_grant H C M now caller ?p t g)"
  have match: "list_all2 ?P ?ts (zip (map ?f ?ts) rs)" using candidate_matches [OF as, of C] unfolding stored_usable .
  note narrowest = list_all2_narrowest [OF _ targets_by_breadth, of ?P q]
  show ?thesis
  proof (cases r)
    case NoGrant
    have "\<not> stored_grant H C M now caller ?p t g" if t: "covers q t" for t g
    proof -
      obtain z where "z \<in> set (zip (map ?f ?ts) rs)" "?P t z"
        using list_all2_left [OF match t [folded targets_covered]] by blast
      then show ?thesis using scan_none [OF scan [unfolded NoGrant]] by blast
    qed
    then show ?thesis using NoGrant by (simp add: finds_def)
  next
    case (SingleUse d e)
    from scan_first_single_use [OF scan [unfolded SingleUse]] obtain us z vs g where z: "zip (map ?f ?ts) rs = us @ z # vs"
      "satisfying C ?fp ?p now z g" "fst z = d" "ag_single_use g" "ag_expires_at g = e"
      "\<forall>u\<in>set us. \<forall>g. \<not> satisfying C ?fp ?p now u g" by blast
    have single: "ag_single_use g'" if "covers q t'" "stored_grant H C M now caller ?p t' g'" for t' g'
      using lookup_single_use [OF assms [unfolded SingleUse]] that [folded targets_covered stored_usable]
      by (auto simp: target_digests_def)
    from narrowest [OF match [unfolded z(1)]] obtain t where t: "t \<in> set ?ts" "?P t z"
      "\<forall>t'\<in>set ?ts. (\<exists>u\<in>set us. ?P t' u) \<or> breadth t \<le> breadth t'" by blast
    then have "\<forall>t' g'. covers q t' \<and> stored_grant H C M now caller ?p t' g' \<longrightarrow> breadth t \<le> breadth t'"
      using z(6) unfolding targets_covered [symmetric] by blast
    moreover have "covers q t" "stored_grant H C M now caller ?p t g" "d = ?f t"
      using t(1,2) z(2,3) unfolding targets_covered by blast+
    ultimately show ?thesis using SingleUse z(4,5) single unfolding finds_def Let_def by (simp only: FoundGrant.case) blast
  next
    case (Reusable e)
    from scan_first_reusable [OF scan [unfolded Reusable]] obtain us z vs g where z: "zip (map ?f ?ts) rs = us @ z # vs"
      "satisfying C ?fp ?p now z g" "\<not> ag_single_use g" "ag_expires_at g = e"
      "\<forall>u\<in>set us. \<forall>g. satisfying C ?fp ?p now u g \<longrightarrow> ag_single_use g" by blast
    from narrowest [OF match [unfolded z(1)]] obtain t where t: "t \<in> set ?ts" "?P t z"
      "\<forall>t'\<in>set ?ts. (\<exists>u\<in>set us. ?P t' u) \<or> breadth t \<le> breadth t'" by blast
    then have "\<forall>t' g'. covers q t' \<and> stored_grant H C M now caller ?p t' g' \<and> \<not> ag_single_use g' \<longrightarrow> breadth t \<le> breadth t'"
      using z(5) unfolding targets_covered [symmetric] by blast
    moreover have "covers q t" "stored_grant H C M now caller ?p t g" using t(1,2) z(2) unfolding targets_covered by blast+
    ultimately show ?thesis using Reusable z(3,4) unfolding finds_def Let_def by (simp only: FoundGrant.case) blast
  qed
qed

text \<open>C7: on a consistent store the check returns a result and changes nothing, and the result is determined by the grants
  the document holds: the narrowest reusable grant of the caller that covers the requirement, otherwise the narrowest
  single-use grant, and no grant only when none covers it.\<close>

theorem find_grant_refines:
  assumes "grants_hold E V w M" and "undisturbed E w" and "grants_wf E C M"
    and "candidate_addresses E caller q = Inr as" and "keys_distinct E M (set as)"
  shows "\<exists>r w'. find_grant E (grant_ops E) C caller q now w = (Inr r, w') \<and> finds E C M now caller q r \<and>
    grants_hold E V w' M \<and> undisturbed E w'"
proof -
  have "\<forall>x\<in>set as. \<forall>a v e. M (storage_key E x) = Some (a, v, e) \<longrightarrow> a = x"
    using candidates_own [OF assms(3,5)] by blast
  with lookup_total [OF assms(3) assms(4) [unfolded candidate_addresses_digests]] obtain r where
    r: "lookup_grant E C M caller q now = Inr r" by blast
  with document_store.find_grant_ready [OF assms(1,2), of C caller q now] lookup_finds [OF r] show ?thesis by auto
qed

text \<open>C18: a single-use grant is spent once.  When a consuming check passes and no reusable grant
  allowed it, the grant it used is gone for good: at no time does its record satisfy a check
  again, the registry no longer lists it, and no other grant appears.\<close>

theorem single_use_grant_spent_once:
  assumes "grants_hold E V w M" and "grant_codecs_ok C"
    and "require_grant_consuming E (grant_ops E) C caller q now provenance w = (Inr e, w')"
    and "\<forall>d\<in>set (target_digests E q). \<forall>g.
      usable E C M now (fingerprint E caller) d (gq_permission q) g \<longrightarrow> ag_single_use g"
  shows "\<exists>d\<in>set (target_digests E q). \<exists>g M' registry.
    usable E C M now (fingerprint E caller) d (gq_permission q) g \<and> ag_single_use g \<and> ag_expires_at g = e \<and>
    grants_hold E V w' M' \<and>
    (\<forall>t g'. \<not> usable E C M' t (fingerprint E caller) d (gq_permission q) g') \<and>
    (\<forall>t fp' d' p' g'. usable E C M' t fp' d' p' g' \<longrightarrow> usable E C M t fp' d' p' g') \<and>
    stored_registry E C M' now = Inr registry \<and>
    (\<forall>x\<in>set (rg_permissions registry). \<not> (sp_caller_fingerprint x = fingerprint E caller \<and>
      sp_target_digest x = d \<and> sp_grant_permission x = gq_permission q))"
proof -
  let ?fp = "fingerprint E caller" and ?p = "gq_permission q"
  have "\<not> lookup_grant E C M caller q now = Inr (Reusable e)" using lookup_reusable assms(4) by blast
  with document_store.require_grant_consuming_ok [OF assms(1,3)] obtain d w1 where
    d: "lookup_grant E C M caller q now = Inr (SingleUse d e)" "grants_hold E V w1 M"
      "consume_grant E (grant_ops E) C ?fp d ?p now provenance w1 = (Inr (), w')" by blast
  from d(2,3) obtain registry a b where c: "stored_registry E C M now = Inr registry"
      "grant_address E ?fp d ?p = Inr a"
      "to_vec (j_registry C) (registry\<lparr>rg_permissions := filter (\<lambda>stored.
       \<not> (sp_caller_fingerprint stored = ?fp \<and> sp_target_digest stored = d \<and> sp_grant_permission stored = ?p) \<and>
       \<not> permission_is_expired (sp_permission stored) now) (rg_permissions registry)\<rparr>) = Inr b"
      "grants_hold E V w' (with_registry E b (M(storage_key E a := None)))"
    by (rule document_store.consume_grant_ok)
  let ?M = "with_registry E b (M(storage_key E a := None))"
  have "stored_registry E C ?M now = Inr (registry\<lparr>rg_permissions := filter (\<lambda>stored.
       \<not> (sp_caller_fingerprint stored = ?fp \<and> sp_target_digest stored = d \<and> sp_grant_permission stored = ?p) \<and>
       \<not> permission_is_expired (sp_permission stored) now) (rg_permissions registry)\<rparr>)"
    by (rule stored_registry_written) (use grant_codecs_okD(3) [OF assms(2) c(3)] stored_registry_version [OF c(1)] in simp_all)
  moreover from lookup_single_use [OF d(1)] obtain g where "d \<in> set (target_digests E q)"
    "usable E C M now ?fp d ?p g" "ag_single_use g" "ag_expires_at g = e" by blast
  moreover have "\<forall>t g'. \<not> usable E C ?M t ?fp d ?p g'" using not_usable_deleted [OF c(2)] by blast
  moreover have "\<forall>t fp' d' p' g'. usable E C ?M t fp' d' p' g' \<longrightarrow> usable E C M t fp' d' p' g'"
    using usable_delete [OF usable_with_registry] by blast
  ultimately show ?thesis using c(4) by (intro bexI [of _ d] exI [of _ g] exI [of _ ?M]) auto
qed

text \<open>C19: revoking a permission withdraws its grant.  The first registry entry with that
  identifier is removed, and with it the entries that have expired, while the others stay in
  order; its grant record is removed, after which no check can use that grant; and the
  records at other addresses stay as they were.\<close>

theorem revoked_permission_is_unusable:
  assumes "grants_hold E V w M" and "grant_codecs_ok C"
    and "revoke_permission E (grant_ops E) C ident now provenance w = (Inr (), w')"
  shows "\<exists>registry before x after a M'. stored_registry E C M now = Inr registry \<and>
    rg_permissions registry = before @ x # after \<and>
    pm_id (sp_permission x) = ident \<and> (\<forall>y\<in>set before. pm_id (sp_permission y) \<noteq> ident) \<and>
    grant_address E (sp_caller_fingerprint x) (sp_target_digest x) (sp_grant_permission x) = Inr a \<and>
    grants_hold E V w' M' \<and>
    stored_registry E C M' now = Inr (registry\<lparr>rg_permissions :=
      filter (\<lambda>y. \<not> permission_is_expired (sp_permission y) now) (before @ after)\<rparr>) \<and>
    (\<forall>t g. \<not> usable E C M' t (sp_caller_fingerprint x) (sp_target_digest x) (sp_grant_permission x) g) \<and>
    (\<forall>k. k \<noteq> storage_key E a \<and> k \<noteq> registry_key E \<longrightarrow> M' k = M k)"
proof -
  from assms(1,3) obtain registry i a b where r: "stored_registry E C M now = Inr registry"
    "position_of (\<lambda>stored. pm_id (sp_permission stored) = ident) (rg_permissions registry) = Some i"
    "grant_address E (sp_caller_fingerprint (rg_permissions registry ! i))
       (sp_target_digest (rg_permissions registry ! i)) (sp_grant_permission (rg_permissions registry ! i)) = Inr a"
    "to_vec (j_registry C) (registry\<lparr>rg_permissions := filter (\<lambda>stored. \<not> permission_is_expired (sp_permission stored) now)
       (take i (rg_permissions registry) @ drop (Suc i) (rg_permissions registry))\<rparr>) = Inr b"
    "grants_hold E V w' (with_registry E b (M(storage_key E a := None)))"
    by (rule document_store.revoke_permission_ok)
  let ?ps = "rg_permissions registry" and ?M = "with_registry E b (M(storage_key E a := None))"
  note i = position_of_Some [OF r(2)]
  have "?ps = take i ?ps @ ?ps ! i # drop (Suc i) ?ps" using i by (simp add: id_take_nth_drop)
  moreover have "pm_id (sp_permission (?ps ! i)) = ident" "\<forall>y\<in>set (take i ?ps). pm_id (sp_permission y) \<noteq> ident"
    using i by (auto simp: in_set_conv_nth)
  moreover have "stored_registry E C ?M now = Inr (registry\<lparr>rg_permissions :=
      filter (\<lambda>y. \<not> permission_is_expired (sp_permission y) now) (take i ?ps @ drop (Suc i) ?ps)\<rparr>)"
    by (rule stored_registry_written) (use grant_codecs_okD(3) [OF assms(2) r(4)] stored_registry_version [OF r(1)] in simp_all)
  moreover have "\<forall>k. k \<noteq> storage_key E a \<and> k \<noteq> registry_key E \<longrightarrow> ?M k = M k" by (simp add: with_registry_def)
  ultimately show ?thesis using r(1,3,5) not_usable_deleted [OF r(3), of C b M] by blast
qed

text \<open>What the batch of an exclusive grant leaves of a grant it supersedes.\<close>

lemma superseded_unusable:
  assumes "grant_codecs_ok C" and "superseded_grants E (Some h) (fingerprint E caller) d ps = Inr deletes"
    and "exclusive_grants E C (fingerprint E caller) d ps = Inr puts"
    and "exclusive_holder_address E d = Inr ha" and "p |\<in>| eh_permissions h"
    and p: "eh_caller_fingerprint h \<noteq> fingerprint E caller \<or> p |\<notin>| ps"
  shows "\<not> usable E C (fold (apply_entry E) (deletes @ puts @ [Put ha b None]) M) t (eh_caller_fingerprint h) d p g"
    (is "\<not> usable E C (fold (apply_entry E) ?ops M) t ?holder d p g")
proof
  obtain a where a: "grant_address E ?holder d p = Inr a" "Delete a \<in> set deletes"
    using superseded_grants_delete(2) [OF assms(2) refl assms(5) p] by auto
  assume "usable E C (fold (apply_entry E) ?ops M) t ?holder d p g"
  from usable_stored [OF this] a(1) obtain v e where v: "fold (apply_entry E) ?ops M (storage_key E a) = Some (a, v, e)"
    "from_slice (j_grant C) v = Inr g" "grant_satisfies g ?holder d p t" by auto
  from fold_apply_lookup [OF v(1)] a(2) have "Put a v e \<in> set ?ops" by auto
  then consider "Put a v e \<in> set puts" | "a = ha"
    using superseded_grants_delete(1) [OF assms(2), of "Put a v e"] by auto
  then show False
  proof cases
    case 1
    from exclusive_grants_put(1) [OF assms(3) this] obtain p' where "p' |\<in>| ps"
      "to_vec (j_grant C) \<lparr>ag_version = GRANT_VERSION, ag_caller_fingerprint = fingerprint E caller, ag_target_digest = d,
        ag_permissions = {|p'|}, ag_expires_at = None, ag_single_use = False\<rparr> = Inr v" by auto
    with grant_codecs_okD(1) [OF assms(1)] v(2,3) p show False by (fastforce simp: grant_satisfies_def)
  next
    case 2
    with a(1) assms(4) show False
      by (auto simp: exclusive_holder_address_def address_new_def rbind_Inr grant_address_ok)
  qed
qed

text \<open>C20: an exclusive grant supersedes the previous holder.  After it is stored, none of the
  grants the previous holder had on the target and the new one does not keep can be used
  again, and the holder record names the new holder.\<close>

theorem exclusive_grant_supersedes:
  assumes "grants_hold E V w M" and "grant_codecs_ok C"
    and "store_exclusive_grant E (grant_ops E) C caller target permissions now w = (Inr (), w')"
    and "exclusive_holder_address E (grant_target_digest E target) = Inr ha"
    and "read_value E M now ha = Inr (Some hb)" and "from_slice (j_holder C) hb = Inr h"
    and "eh_version h = EXCLUSIVE_HOLDER_VERSION" and "p |\<in>| eh_permissions h"
    and "eh_caller_fingerprint h \<noteq> fingerprint E caller \<or> p \<notin> set permissions"
  shows "\<exists>M' b. grants_hold E V w' M' \<and>
    (\<forall>t g. \<not> usable E C M' t (eh_caller_fingerprint h) (grant_target_digest E target) p g) \<and>
    read_value E M' now ha = Inr (Some b) \<and>
    from_slice (j_holder C) b = Inr \<lparr>eh_version = EXCLUSIVE_HOLDER_VERSION,
      eh_caller_fingerprint = fingerprint E caller, eh_permissions = fset_of_list permissions\<rparr>"
proof -
  let ?fp = "fingerprint E caller" and ?d = "grant_target_digest E target" and ?ps = "fset_of_list permissions"
  have p: "eh_caller_fingerprint h \<noteq> ?fp \<or> p |\<notin>| ?ps" using assms(9) by (simp add: fset_of_list_elem)
  from assms(1,3) show ?thesis
  proof (rule document_store.store_exclusive_grant_ok)
    fix ha' as r rs previous
    assume *: "exclusive_holder_address E ?d = Inr ha'" "read_value E M now ha' = Inr r" "previous_holder C r = Inr previous"
      and or: "(\<exists>h. previous = Some h \<and> eh_caller_fingerprint h = ?fp \<and> eh_permissions h = ?ps \<and>
        list_all (held_grant C ?fp ?d now) (zip (sorted_list_of_fset ?ps) rs) \<and> grants_hold E V w' M) \<or>
       (\<exists>deletes puts b. superseded_grants E previous ?fp ?d ?ps = Inr deletes \<and>
        exclusive_grants E C ?fp ?d ?ps = Inr puts \<and>
        to_vec (j_holder C) \<lparr>eh_version = EXCLUSIVE_HOLDER_VERSION, eh_caller_fingerprint = ?fp,
          eh_permissions = ?ps\<rparr> = Inr b \<and>
        grants_hold E V w' (fold (apply_entry E) (deletes @ puts @ [Put ha' b None]) M))"
    have [simp]: "ha' = ha" "previous = Some h"
      using * assms(4-7) by (simp_all add: previous_holder_def)
    have "eh_caller_fingerprint h = ?fp \<Longrightarrow> eh_permissions h \<noteq> ?ps" using p assms(8) by auto
    with or obtain deletes puts b where m: "superseded_grants E previous ?fp ?d ?ps = Inr deletes"
        "exclusive_grants E C ?fp ?d ?ps = Inr puts"
        "to_vec (j_holder C) \<lparr>eh_version = EXCLUSIVE_HOLDER_VERSION, eh_caller_fingerprint = ?fp,
          eh_permissions = ?ps\<rparr> = Inr b"
        "grants_hold E V w' (fold (apply_entry E) (deletes @ puts @ [Put ha b None]) M)" by auto
    let ?M = "fold (apply_entry E) (deletes @ puts @ [Put ha b None]) M"
    have "\<not> usable E C ?M t (eh_caller_fingerprint h) ?d p g" for t g
      by (rule superseded_unusable [OF assms(2) m(1) [unfolded \<open>previous = Some h\<close>] m(2) assms(4,8) p])
    moreover have "read_value E ?M now ha = Inr (Some b)"
      by (simp add: read_value_def read_entry_def live_def)
    ultimately show ?thesis using m(4) grant_codecs_okD(2) [OF assms(2) m(3)] by blast
  qed
qed

text \<open>C21: however the grant operations are interleaved, every record at a grant's address is one
  grant of one permission, for the caller and the target its address names, and the store
  evicts it exactly when the grant expires.\<close>

theorem grant_document_stays_wellformed:
  assumes "(grant_step E (grant_ops E) C)\<^sup>*\<^sup>* w w'" and "grant_codecs_ok C" and "grants_hold E V w M"
    and "grants_wf E C M"
  shows "\<exists>M'. grants_hold E V w' M' \<and> grants_wf E C M'"
  by (rule document_store.grant_steps_wf [OF assms])

section \<open>Targets\<close>

fun target_tag :: "GrantTarget \<Rightarrow> nat" where
  "target_tag (Kind _) = 0"
| "target_tag (Namespace _ _) = 1"
| "target_tag (Entry _ _ _) = 2"
| "target_tag (ProjectEntry _ _ _ _ b) = (if b \<noteq> None then 6 else 5)"
| "target_tag (Project _ _ _ b) = (if b \<noteq> None then 4 else 3)"

fun target_parts :: "'z hash_env_scheme \<Rightarrow> GrantTarget \<Rightarrow> bytes list" where
  "target_parts H (Kind _) = []"
| "target_parts H (Namespace _ n) = [n]"
| "target_parts H (Entry _ n a) = [n, storage_key H a]"
| "target_parts H (ProjectEntry _ n a p b) = [n, storage_key H a, p] @ (case b of None \<Rightarrow> [] | Some b \<Rightarrow> [b])"
| "target_parts H (Project _ n p b) = [n, p] @ (case b of None \<Rightarrow> [] | Some b \<Rightarrow> [b])"

fun target_address :: "GrantTarget \<Rightarrow> SecretAddress option" where
  "target_address (Entry _ _ a) = Some a"
| "target_address (ProjectEntry _ _ a _ _) = Some a"
| "target_address _ = None"

lemma append_digest_lp: "append_digest_bytes = lp"
  by (simp add: fun_eq_iff append_digest_bytes_def lp_def)

lemma target_transcript_parts:
  "grant_target_transcript H t = GRANT_TARGET_DOMAIN @ tags (target_tag t) (target_scope t) @
     concat (map lp (target_parts H t))"
  by (cases t) (auto simp: append_digest_lp optional_digest_bytes_def split: option.splits)

lemma concat_lp_eq:
  assumes "\<forall>x\<in>set xs \<union> set ys. length x < 2 ^ 64" and "length xs = length ys"
  shows "concat (map lp xs) = concat (map lp ys) \<longleftrightarrow> xs = ys"
  using assms(2,1)
proof (induction xs ys rule: list_induct2)
  case (Cons x xs y ys)
  then show ?case using lp_append_eq [of x y "concat (map lp xs)" "concat (map lp ys)"] by auto
qed simp

lemma target_tag_parts:
  "target_tag t = target_tag t' \<Longrightarrow> length (target_parts H t) = length (target_parts H t')"
  by (cases t; cases t') (auto split: option.splits if_splits)

lemma document_kind_tag_eq: "document_kind_tag a = document_kind_tag b \<longleftrightarrow> a = b"
  by (cases a; cases b) (simp_all add: document_kind_tag_def)

lemma tags_eq: "tags (target_tag t) k = tags (target_tag t') k' \<longleftrightarrow> target_tag t = target_tag t' \<and> k = k'"
proof -
  have "target_tag t < 256" "document_kind_tag k < 256" for t k
    by (cases t; simp) (cases k; simp add: document_kind_tag_def)
  then show ?thesis by (simp add: tags_def char_of_nat_eq document_kind_tag_eq)
qed

text \<open>C33: the digest under which a grant is stored determines its target.  Two targets with one
  digest are the same, or exhibit a SHA-256 collision between their transcripts or between
  those of their entries' addresses.\<close>

theorem grant_target_digest_injective:
  assumes "hash_env_ok H" and "grant_target_digest H t = grant_target_digest H t'"
    and "\<forall>x\<in>set (target_parts H t) \<union> set (target_parts H t'). length x < 2 ^ 64"
    and "\<forall>a\<in>set_option (target_address t) \<union> set_option (target_address t'). address_validate a = Inr ()"
  shows "t = t' \<or> collision H (grant_target_transcript H t) (grant_target_transcript H t') \<or>
    (\<exists>a a'. target_address t = Some a \<and> target_address t' = Some a' \<and>
       collision H (storage_key_transcript a) (storage_key_transcript a'))"
proof (cases "grant_target_transcript H t = grant_target_transcript H t'")
  case False
  with assms(2) show ?thesis by (simp add: grant_target_digest_def collision_def)
next
  case True
  have two: "length (tags (target_tag t) (target_scope t)) = length (tags (target_tag t') (target_scope t'))"
    by (simp add: tags_def)
  with True have tg: "target_tag t = target_tag t'" "target_scope t = target_scope t'"
    and "concat (map lp (target_parts H t)) = concat (map lp (target_parts H t'))"
    unfolding target_transcript_parts by (auto simp: tags_eq)
  with concat_lp_eq [OF assms(3) target_tag_parts] have parts: "target_parts H t = target_parts H t'" by blast
  have addr: "a = a' \<or> collision H (storage_key_transcript a) (storage_key_transcript a')"
    if "storage_key H a = storage_key H a'" "target_address t = Some a" "target_address t' = Some a'" for a a'
  proof -
    have "sha256 H (storage_key_transcript a) = sha256 H (storage_key_transcript a')"
      using that(1) b64_encode_inject [OF assms(1)] by (simp add: storage_key_def)
    moreover have "storage_key_transcript a = storage_key_transcript a' \<longleftrightarrow> a = a'"
      using assms(4) that(2,3) by (intro storage_key_transcript_eq) auto
    ultimately show ?thesis by (auto simp: collision_def)
  qed
  show ?thesis using tg parts addr
    by (cases t; cases t') (auto split: option.splits if_splits)
qed

definition entry_requirement ::
  "VaultEntryMetadata \<Rightarrow> string option \<Rightarrow> string option \<Rightarrow> GrantPermission \<Rightarrow> GrantRequirement" where
  "entry_requirement e project base_dir p = \<lparr>gq_scope = vm_document_kind e, gq_namespace = Some (vm_partition e),
     gq_address = Some (vm_address e), gq_project = project, gq_base_dir = base_dir, gq_permission = p\<rparr>"

text \<open>The target names the entry together with a project to which the entry's address does not belong.\<close>

definition foreign_project :: "VaultEntryMetadata \<Rightarrow> GrantTarget \<Rightarrow> bool" where
  "foreign_project e t \<longleftrightarrow> (\<exists>j b. t = ProjectEntry (vm_document_kind e) (vm_partition e) (vm_address e) j b \<and>
     (\<forall>s. as_secret_spec (vm_address e) = Some s \<longrightarrow> secret_spec_project s \<noteq> None \<and> secret_spec_project s \<noteq> Some j))"

text \<open>C34: the overview of who may use an entry, for entries outside the desktop keyring.  A permission is shown for an
  entry exactly when a check for the entry, on behalf of some project and folder, consults its target, or its target
  names this entry and a project the entry does not belong to; no check consults a target of the latter kind.\<close>

theorem summaries_cover_consulted_grants:
  assumes "pm_target p = Some (target_summary t)" and "pm_scope p = Some (target_scope t)"
    and "vm_document_kind e \<noteq> LinuxSecretService"
  shows "(applies_to_entry p e \<longleftrightarrow>
      (\<exists>project base_dir. t \<in> set (requirement_targets (entry_requirement e project base_dir q))) \<or> foreign_project e t) \<and>
    \<not> ((\<exists>project base_dir. t \<in> set (requirement_targets (entry_requirement e project base_dir q))) \<and> foreign_project e t)"
  using assms unfolding targets_covered
  by (cases t)
    (auto simp: applies_to_entry_def entry_requirement_def covers_def entry_in_project_def foreign_project_def split: option.splits)

section \<open>Concrete runs\<close>

instance GrantPermission :: countable by countable_datatype
instance PermissionOperation :: countable by countable_datatype
instance PermissionTarget :: countable by countable_datatype
instance PermissionState :: countable by countable_datatype

instance AccessGrant_ext :: (countable) countable
proof (rule countable_classI)
  fix x y :: "'a AccessGrant_scheme"
  let ?f = "\<lambda>c :: 'a AccessGrant_scheme. to_nat (ag_version c, ag_caller_fingerprint c, ag_target_digest c,
    ag_permissions c, ag_expires_at c, ag_single_use c, AccessGrant.more c)"
  assume "?f x = ?f y"
  then show "x = y" by simp
qed

instance ExclusiveHolder_ext :: (countable) countable
proof (rule countable_classI)
  fix x y :: "'a ExclusiveHolder_scheme"
  let ?f = "\<lambda>c :: 'a ExclusiveHolder_scheme. to_nat (eh_version c, eh_caller_fingerprint c, eh_permissions c,
    ExclusiveHolder.more c)"
  assume "?f x = ?f y"
  then show "x = y" by simp
qed

instance VaultApplicationContext_ext :: (countable) countable
proof (rule countable_classI)
  fix x y :: "'a VaultApplicationContext_scheme"
  let ?f = "\<lambda>c :: 'a VaultApplicationContext_scheme. to_nat (ac_project c, ac_profile c, ac_base_dir c, ac_reason c,
    ac_requested_permission_duration_seconds c, ac_declared_launch_chain c, VaultApplicationContext.more c)"
  assume "?f x = ?f y"
  then show "x = y" by simp
qed

instance Permission_ext :: (countable) countable
proof (rule countable_classI)
  fix x y :: "'a Permission_scheme"
  let ?f = "\<lambda>c :: 'a Permission_scheme. to_nat (pm_target c, pm_id c, pm_scope c, pm_operation c, pm_principal c,
    pm_application c, pm_state c, Permission.more c)"
  assume "?f x = ?f y"
  then show "x = y" by simp
qed

instance StoredPermission_ext :: (countable) countable
proof (rule countable_classI)
  fix x y :: "'a StoredPermission_scheme"
  let ?f = "\<lambda>c :: 'a StoredPermission_scheme. to_nat (sp_permission c, sp_caller_fingerprint c, sp_target_digest c,
    sp_grant_permission c, StoredPermission.more c)"
  assume "?f x = ?f y"
  then show "x = y" by simp
qed

instance PermissionRegistry_ext :: (countable) countable
proof (rule countable_classI)
  fix x y :: "'a PermissionRegistry_scheme"
  let ?f = "\<lambda>c :: 'a PermissionRegistry_scheme. to_nat (rg_version c, rg_permissions c, PermissionRegistry.more c)"
  assume "?f x = ?f y"
  then show "x = y" by simp
qed

definition reference_codecs :: grant_codecs where
  "reference_codecs = \<lparr>j_grant = count_json, j_holder = count_json, j_registry = count_json\<rparr>"

lemma reference_codecs_ok: "grant_codecs_ok reference_codecs"
  by (simp add: grant_codecs_ok_def reference_codecs_def)

definition reference_caller :: CallerIdentity where
  "reference_caller = \<lparr>ci_platform = Linux, ci_user_id = ''1000'', ci_application_id = ''/bin/app'',
     ci_executable_digest = replicate 32 (CHR ''e''), ci_signer_id = None\<rparr>"

definition reference_requirement :: GrantRequirement where
  "reference_requirement = \<lparr>gq_scope = LocalKeyring, gq_namespace = None, gq_address = None, gq_project = None,
     gq_base_dir = None, gq_permission = GGet\<rparr>"

definition reference_permission :: "bool \<Rightarrow> Permission" where
  "reference_permission single = \<lparr>pm_target = None, pm_id = ''id'', pm_scope = None, pm_operation = GetOp,
     pm_principal = principal_of reference_caller,
     pm_application = \<lparr>ac_project = None, ac_profile = None, ac_base_dir = None, ac_reason = None,
       ac_requested_permission_duration_seconds = None, ac_declared_launch_chain = []\<rparr>,
     pm_state = Granted 1 None single\<rparr>"

abbreviation reference_worker :: StoreWorker where
  "reference_worker \<equiv> empty_worker reference_store"

lemma reference_targets: "requirement_targets reference_requirement = [Kind LocalKeyring]"
  by (simp add: requirement_targets_def reference_requirement_def)

lemma reference_operation [simp]: "gq_permission reference_requirement = GGet"
  by (simp add: reference_requirement_def)

lemma reference_hash: "sha256 reference_store x = take 32 (rev x @ replicate 32 (CHR 0x00))"
    "b64_encode reference_store x = x"
  by (simp_all add: reference_store_def reference_env_def doc_env.defs)

definition reference_grant_address :: SecretAddress where
  "reference_grant_address = Local (''grant/'' @ fingerprint reference_store reference_caller @ ''/'' @
     grant_target_digest reference_store (Kind LocalKeyring) @ ''/get'') None"

lemma reference_address:
  "grant_address reference_store (fingerprint reference_store reference_caller)
     (grant_target_digest reference_store (Kind LocalKeyring)) GGet = Inr reference_grant_address"
  by (simp add: grant_address_ok reference_grant_address_def reference_hash fingerprint_def
      grant_target_digest_def permission_name_def)

lemma reference_candidates:
  "candidate_addresses reference_store reference_caller reference_requirement = Inr [reference_grant_address]"
  using reference_address by (simp add: candidate_addresses_def reference_targets)

lemma reference_keys: "storage_key reference_store reference_grant_address \<noteq> storage_key reference_store registry_address"
  by (simp add: storage_key_def reference_hash reference_grant_address_def update_digest_string_def
      update_digest_option_def fingerprint_def grant_target_digest_def)

lemma reference_caller_valid: "identity_validate reference_caller = Inr ()"
  by (simp add: identity_validate_def reference_caller_def validate_identity_component_def
      MAX_IDENTITY_COMPONENT_BYTES_def)

lemma reference_grants_hold: "grants_hold reference_store cdoc_view reference_worker Map.empty"
  by (rule reference_holds) simp

lemma empty_grants [simp]: "grants_wf H C Map.empty" "registry_ready H C Map.empty" "deadlines_fit Map.empty"
  by (simp_all add: grants_wf_def registry_ready_def deadlines_fit_def)

lemma promoted_permission_is_usable_witness:
  "(\<exists>w' w'' e'. promote_permission reference_store (grant_ops reference_store) reference_codecs reference_caller
      (Kind LocalKeyring) GGet (reference_permission False) 5 (Service GrantStorage) reference_worker = (Inr (), w') \<and>
    require_grant_until reference_store (grant_ops reference_store) reference_codecs reference_caller
      reference_requirement 7 w' = (Inr e', w'')) \<and>
   (\<exists>w' w'' e'. promote_permission reference_store (grant_ops reference_store) reference_codecs reference_caller
      (Kind LocalKeyring) GGet (reference_permission True) 5 (Service GrantStorage) reference_worker = (Inr (), w') \<and>
    require_grant_consuming reference_store (grant_ops reference_store) reference_codecs reference_caller
      reference_requirement 7 (Service GrantStorage) w' = (Inr e', w''))"
proof -
  have keys: "keys_distinct reference_store Map.empty (set [reference_grant_address] \<union> {registry_address})"
    using reference_keys by (auto simp: keys_distinct_def)
  have used: "\<exists>w'. promote_permission reference_store (grant_ops reference_store) reference_codecs reference_caller
      (Kind LocalKeyring) (gq_permission reference_requirement) (reference_permission single) 5 (Service GrantStorage)
      reference_worker = (Inr (), w') \<and>
    (\<exists>e' w''. require_grant_consuming reference_store (grant_ops reference_store) reference_codecs reference_caller
      reference_requirement 7 (Service GrantStorage) w' = (Inr e', w'')) \<and>
    (\<not> single \<longrightarrow> (\<exists>e' w''. require_grant_until reference_store (grant_ops reference_store) reference_codecs reference_caller
      reference_requirement 7 w' = (Inr e', w'')))" for single
    by (rule promoted_permission_is_usable [where n = 0 and at = 1 and e = None and single = single, OF reference_grants_hold
          reference_room reference_codecs_ok _ _ _ reference_caller_valid _ _ _ _ reference_candidates keys])
      (simp_all add: reference_permission_def live_def reference_targets)
  from used [of False] used [of True] show ?thesis by auto
qed

lemma reference_promoted:
  obtains w b rb where
    "promote_permission reference_store (grant_ops reference_store) reference_codecs reference_caller
      (Kind LocalKeyring) GGet (reference_permission single) 5 (Service GrantStorage) reference_worker = (Inr (), w)"
    "grants_room reference_store w 2"
    "grants_hold reference_store cdoc_view w (with_registry reference_store rb
      [storage_key reference_store reference_grant_address \<mapsto> (reference_grant_address, b, None)])"
    "from_slice (j_grant reference_codecs) b = Inr \<lparr>ag_version = GRANT_VERSION,
      ag_caller_fingerprint = fingerprint reference_store reference_caller,
      ag_target_digest = grant_target_digest reference_store (Kind LocalKeyring), ag_permissions = {|GGet|},
      ag_expires_at = None, ag_single_use = single\<rparr>"
    "from_slice (j_registry reference_codecs) rb = Inr \<lparr>rg_version = PERMISSION_REGISTRY_VERSION,
      rg_permissions = [\<lparr>sp_permission = (reference_permission single)\<lparr>pm_scope := Some LocalKeyring,
          pm_target := Some DocumentKindTarget\<rparr>,
        sp_caller_fingerprint = fingerprint reference_store reference_caller,
        sp_target_digest = grant_target_digest reference_store (Kind LocalKeyring), sp_grant_permission = GGet\<rparr>]\<rparr>"
proof -
  let ?promote = "promote_permission reference_store (grant_ops reference_store) reference_codecs reference_caller
      (Kind LocalKeyring) GGet (reference_permission single) 5 (Service GrantStorage) reference_worker"
  have "\<exists>w. ?promote = (Inr (), w) \<and> grants_room reference_store w 2"
    by (rule live_document_store.promote_permission_live [where at = 1 and e = None and single = single,
          OF reference_grants_hold reference_room reference_codecs_ok _ _ reference_caller_valid _ _ _ reference_address])
      (simp_all add: reference_permission_def live_def)
  then obtain w where w: "?promote = (Inr (), w)" "grants_room reference_store w 2" by blast
  from reference_grants_hold w(1) show thesis
  proof (rule document_store.promote_permission_ok)
    fix at e single' a b rb registry
    assume *: "pm_state (reference_permission single) = Granted at e single'"
      "grant_address reference_store (fingerprint reference_store reference_caller)
        (grant_target_digest reference_store (Kind LocalKeyring)) GGet = Inr a"
      "to_vec (j_grant reference_codecs) \<lparr>ag_version = GRANT_VERSION,
        ag_caller_fingerprint = fingerprint reference_store reference_caller,
        ag_target_digest = grant_target_digest reference_store (Kind LocalKeyring), ag_permissions = {|GGet|},
        ag_expires_at = e, ag_single_use = single'\<rparr> = Inr b"
      "stored_registry reference_store reference_codecs Map.empty 5 = Inr registry"
      "to_vec (j_registry reference_codecs) (registry\<lparr>rg_permissions := filter (\<lambda>stored.
         pm_id (sp_permission stored) \<noteq> pm_id (reference_permission single) \<and>
         \<not> permission_is_expired (sp_permission stored) 5) (rg_permissions registry) @
       [\<lparr>sp_permission = (reference_permission single)\<lparr>pm_scope := Some (target_scope (Kind LocalKeyring)),
           pm_target := Some (target_summary (Kind LocalKeyring))\<rparr>,
         sp_caller_fingerprint = fingerprint reference_store reference_caller,
         sp_target_digest = grant_target_digest reference_store (Kind LocalKeyring),
         sp_grant_permission = GGet\<rparr>]\<rparr>) = Inr rb"
      "grants_hold reference_store cdoc_view w (with_registry reference_store rb
        [storage_key reference_store a \<mapsto> (a, b, e)])"
    have [simp]: "e = None" "single' = single" "a = reference_grant_address"
      "registry = \<lparr>rg_version = PERMISSION_REGISTRY_VERSION, rg_permissions = []\<rparr>"
      using *(1,2,4) reference_address
      by (simp_all add: reference_permission_def stored_registry_def read_entry_def)
    show thesis
      by (rule that [OF w]) (use * grant_codecs_okD(1,3) [OF reference_codecs_ok] in simp_all)
  qed
qed

lemma reference_lookup:
  assumes "from_slice (j_grant reference_codecs) b = Inr \<lparr>ag_version = GRANT_VERSION,
      ag_caller_fingerprint = fingerprint reference_store reference_caller,
      ag_target_digest = grant_target_digest reference_store (Kind LocalKeyring), ag_permissions = {|GGet|},
      ag_expires_at = None, ag_single_use = single\<rparr>"
  shows "lookup_grant reference_store reference_codecs (with_registry reference_store rb
      [storage_key reference_store reference_grant_address \<mapsto> (reference_grant_address, b, None)])
      reference_caller reference_requirement now =
    Inr (if single then SingleUse (grant_target_digest reference_store (Kind LocalKeyring)) None else Reusable None)"
  using assms reference_address reference_keys
  by (simp add: lookup_grant_def target_digests_def reference_targets with_registry_def registry_key_def
      read_value_def read_entry_def live_def grant_satisfies_def)

lemma find_grant_refines_witness:
  "\<exists>w M e w'. find_grant reference_store (grant_ops reference_store) reference_codecs reference_caller
      reference_requirement 7 w = (Inr (Reusable e), w') \<and>
    finds reference_store reference_codecs M 7 reference_caller reference_requirement (Reusable e)"
proof -
  obtain w b rb where w: "grants_room reference_store w 2"
    "grants_hold reference_store cdoc_view w (with_registry reference_store rb
      [storage_key reference_store reference_grant_address \<mapsto> (reference_grant_address, b, None)])"
    "from_slice (j_grant reference_codecs) b = Inr \<lparr>ag_version = GRANT_VERSION,
      ag_caller_fingerprint = fingerprint reference_store reference_caller,
      ag_target_digest = grant_target_digest reference_store (Kind LocalKeyring), ag_permissions = {|GGet|},
      ag_expires_at = None, ag_single_use = False\<rparr>"
    by (rule reference_promoted)
  let ?M = "[storage_key reference_store reference_grant_address \<mapsto> (reference_grant_address, b, None)]"
  have wf: "grants_wf reference_store reference_codecs (with_registry reference_store rb ?M)"
    by (rule grants_wf_registry) (use w(3) reference_address in \<open>simp add: grants_wf_def grant_record_ok_def\<close>)
  have keys: "keys_distinct reference_store (with_registry reference_store rb ?M) (set [reference_grant_address])"
    using reference_keys by (auto simp: keys_distinct_def with_registry_def inj_on_def split: if_splits)
  from find_grant_refines [OF w(2) live_document_store.room_ready [OF w(1)] wf reference_candidates keys, of 7] obtain r w' where
    r: "find_grant reference_store (grant_ops reference_store) reference_codecs reference_caller reference_requirement 7 w = (Inr r, w')"
      "finds reference_store reference_codecs (with_registry reference_store rb ?M) 7 reference_caller reference_requirement r"
    by blast
  have "r = Reusable None"
    using document_store.find_grant_ready [OF w(2) live_document_store.room_ready [OF w(1)], of reference_codecs reference_caller
        reference_requirement 7] reference_lookup [OF w(3)] r(1) by simp
  with r show ?thesis by blast
qed

lemma single_use_grant_spent_once_witness:
  "\<exists>w w' e M'. require_grant_consuming reference_store (grant_ops reference_store) reference_codecs reference_caller
      reference_requirement 7 (Service GrantStorage) w = (Inr e, w') \<and>
    grants_hold reference_store cdoc_view w' M' \<and>
    (\<forall>g. \<not> usable reference_store reference_codecs M' 8 (fingerprint reference_store reference_caller)
       (grant_target_digest reference_store (Kind LocalKeyring)) GGet g)"
proof -
  obtain w b rb where w: "grants_room reference_store w 2"
    "grants_hold reference_store cdoc_view w (with_registry reference_store rb
      [storage_key reference_store reference_grant_address \<mapsto> (reference_grant_address, b, None)])"
    "from_slice (j_grant reference_codecs) b = Inr \<lparr>ag_version = GRANT_VERSION,
      ag_caller_fingerprint = fingerprint reference_store reference_caller,
      ag_target_digest = grant_target_digest reference_store (Kind LocalKeyring), ag_permissions = {|GGet|},
      ag_expires_at = None, ag_single_use = True\<rparr>"
    "from_slice (j_registry reference_codecs) rb = Inr \<lparr>rg_version = PERMISSION_REGISTRY_VERSION,
      rg_permissions = [\<lparr>sp_permission = (reference_permission True)\<lparr>pm_scope := Some LocalKeyring,
          pm_target := Some DocumentKindTarget\<rparr>,
        sp_caller_fingerprint = fingerprint reference_store reference_caller,
        sp_target_digest = grant_target_digest reference_store (Kind LocalKeyring), sp_grant_permission = GGet\<rparr>]\<rparr>"
    by (rule reference_promoted)
  let ?M = "with_registry reference_store rb
      [storage_key reference_store reference_grant_address \<mapsto> (reference_grant_address, b, None)]"
  have fit: "deadlines_fit ?M" by (simp add: deadlines_fit_def with_registry_def)
  have ready: "registry_ready reference_store reference_codecs ?M"
    by (rule stored_registry_written(2) [OF w(4)]) simp
  have room: "grants_room reference_store w (2 + 0)" using w(1) by simp
  from live_document_store.require_grant_consuming_live [OF w(2) room reference_codecs_ok ready fit
      reference_lookup [OF w(3)], where provenance = "Service GrantStorage" and now = 7] obtain e w' where
    run: "require_grant_consuming reference_store (grant_ops reference_store) reference_codecs reference_caller
      reference_requirement 7 (Service GrantStorage) w = (Inr e, w')" by auto
  have only: "\<forall>d\<in>set (target_digests reference_store reference_requirement). \<forall>g.
      usable reference_store reference_codecs ?M 7 (fingerprint reference_store reference_caller) d
        (gq_permission reference_requirement) g \<longrightarrow> ag_single_use g"
    using w(3) reference_address reference_keys
    by (auto simp: target_digests_def reference_targets usable_def with_registry_def registry_key_def
        read_value_def read_entry_def live_def)
  obtain d M' where "d \<in> set (target_digests reference_store reference_requirement)"
    and M': "grants_hold reference_store cdoc_view w' M'"
      "\<forall>t g. \<not> usable reference_store reference_codecs M' t (fingerprint reference_store reference_caller) d
        (gq_permission reference_requirement) g"
    using single_use_grant_spent_once [OF w(2) reference_codecs_ok run only] by blast
  then have "d = grant_target_digest reference_store (Kind LocalKeyring)"
    by (simp add: target_digests_def reference_targets)
  with run M' show ?thesis by (simp only: reference_operation) blast
qed

lemma revoked_permission_is_unusable_witness:
  "\<exists>w w' M'. revoke_permission reference_store (grant_ops reference_store) reference_codecs ''id'' 7
      (Service GrantStorage) w = (Inr (), w') \<and> grants_hold reference_store cdoc_view w' M' \<and>
    (\<forall>t g. \<not> usable reference_store reference_codecs M' t (fingerprint reference_store reference_caller)
       (grant_target_digest reference_store (Kind LocalKeyring)) GGet g) \<and>
    stored_registry reference_store reference_codecs M' 7 =
      Inr \<lparr>rg_version = PERMISSION_REGISTRY_VERSION, rg_permissions = []\<rparr>"
proof -
  let ?x = "\<lparr>sp_permission = (reference_permission False)\<lparr>pm_scope := Some LocalKeyring,
          pm_target := Some DocumentKindTarget\<rparr>,
        sp_caller_fingerprint = fingerprint reference_store reference_caller,
        sp_target_digest = grant_target_digest reference_store (Kind LocalKeyring), sp_grant_permission = GGet\<rparr>"
  let ?r = "\<lparr>rg_version = PERMISSION_REGISTRY_VERSION, rg_permissions = [?x]\<rparr>"
  obtain w b rb where w: "grants_room reference_store w 2"
    "grants_hold reference_store cdoc_view w (with_registry reference_store rb
      [storage_key reference_store reference_grant_address \<mapsto> (reference_grant_address, b, None)])"
    "from_slice (j_registry reference_codecs) rb = Inr ?r"
    by (rule reference_promoted)
  let ?M = "with_registry reference_store rb
      [storage_key reference_store reference_grant_address \<mapsto> (reference_grant_address, b, None)]"
  have fit: "deadlines_fit ?M" by (simp add: deadlines_fit_def with_registry_def)
  have r: "stored_registry reference_store reference_codecs ?M 7 = Inr ?r"
    "registry_ready reference_store reference_codecs ?M"
    by (rule stored_registry_written [OF w(3)]; simp)+
  have pos: "position_of (\<lambda>stored. pm_id (sp_permission stored) = ''id'') (rg_permissions ?r) = Some 0"
    by (simp add: position_of_def reference_permission_def)
  have room: "grants_room reference_store w (2 + 0)" using w(1) by simp
  from live_document_store.revoke_permission_live [OF w(2) room reference_codecs_ok r(2) fit r(1) pos,
      where a = reference_grant_address and provenance = "Service GrantStorage"] reference_address obtain w' where
    run: "revoke_permission reference_store (grant_ops reference_store) reference_codecs ''id'' 7
      (Service GrantStorage) w = (Inr (), w')" by auto
  from revoked_permission_is_unusable [OF w(2) reference_codecs_ok run] obtain registry before x after M' where
    M': "stored_registry reference_store reference_codecs ?M 7 = Inr registry" "rg_permissions registry = before @ x # after"
      "grants_hold reference_store cdoc_view w' M'"
      "stored_registry reference_store reference_codecs M' 7 = Inr (registry\<lparr>rg_permissions :=
        filter (\<lambda>y. \<not> permission_is_expired (sp_permission y) 7) (before @ after)\<rparr>)"
      "\<forall>t g. \<not> usable reference_store reference_codecs M' t (sp_caller_fingerprint x) (sp_target_digest x) (sp_grant_permission x) g"
    by (elim exE conjE) (rule that)
  have reg: "registry = ?r" using M'(1) r(1) by simp
  have "before = []" "x = ?x" "after = []" using M'(2) unfolding reg by (simp_all add: Cons_eq_append_conv)
  then show ?thesis using M'(3-5) run unfolding reg by auto
qed

lemma grant_document_stays_wellformed_witness:
  "\<exists>w' M'. (grant_step reference_store (grant_ops reference_store) reference_codecs)\<^sup>*\<^sup>* reference_worker w' \<and>
    grants_hold reference_store cdoc_view w' M' \<and> grants_wf reference_store reference_codecs M'"
proof -
  obtain w where "promote_permission reference_store (grant_ops reference_store) reference_codecs reference_caller
      (Kind LocalKeyring) GGet (reference_permission False) 5 (Service GrantStorage) reference_worker = (Inr (), w)"
    by (rule reference_promoted)
  then have "(grant_step reference_store (grant_ops reference_store) reference_codecs)\<^sup>*\<^sup>* reference_worker w"
    by (intro r_into_rtranclp grant_step.promoted)
  with grant_document_stays_wellformed [OF this reference_codecs_ok reference_grants_hold] show ?thesis by auto
qed

lemma grant_target_digest_injective_witness:
  "collision reference_store (grant_target_transcript reference_store (Namespace LocalKeyring (''a'' @ replicate 32 (CHR ''x''))))
     (grant_target_transcript reference_store (Namespace LocalKeyring (''b'' @ replicate 32 (CHR ''x''))))"
proof -
  have "hash_env_ok reference_store" using reference_store_ok by (simp add: store_env_ok_def)
  moreover have "grant_target_digest reference_store (Namespace LocalKeyring (''a'' @ replicate 32 (CHR ''x''))) =
      grant_target_digest reference_store (Namespace LocalKeyring (''b'' @ replicate 32 (CHR ''x'')))"
    by (simp add: grant_target_digest_def reference_hash append_digest_bytes_def)
  ultimately show ?thesis
    using grant_target_digest_injective [of reference_store "Namespace LocalKeyring (''a'' @ replicate 32 (CHR ''x''))"
        "Namespace LocalKeyring (''b'' @ replicate 32 (CHR ''x''))"] by simp
qed

lemma summaries_cover_consulted_grants_witness:
  "applies_to_entry ((reference_permission False)\<lparr>pm_target := Some (NamespaceTarget ''login''), pm_scope := Some LocalKeyring\<rparr>)
     \<lparr>vm_access_project = None, vm_display_name = None, vm_display_type = None, vm_display_username = None,
      vm_display_website = None, vm_updated_at = None, vm_favorite = False, vm_document_kind = LocalKeyring,
      vm_partition = ''login'', vm_address = Local ''item'' None\<rparr>"
proof -
  let ?e = "\<lparr>vm_access_project = None, vm_display_name = None, vm_display_type = None, vm_display_username = None,
      vm_display_website = None, vm_updated_at = None, vm_favorite = False, vm_document_kind = LocalKeyring,
      vm_partition = ''login'', vm_address = Local ''item'' None\<rparr>"
  have "Namespace LocalKeyring ''login'' \<in> set (requirement_targets (entry_requirement ?e None None GGet))"
    by (simp add: requirement_targets_def entry_requirement_def)
  with summaries_cover_consulted_grants [where t = "Namespace LocalKeyring ''login''" and e = ?e and q = GGet and
      p = "(reference_permission False)\<lparr>pm_target := Some (NamespaceTarget ''login''), pm_scope := Some LocalKeyring\<rparr>"]
  show ?thesis by auto
qed

text \<open>Two callers, one after the other, become the exclusive holder.\<close>

definition second_caller :: CallerIdentity where
  "second_caller = reference_caller\<lparr>ci_application_id := ''/bin/other''\<rparr>"

abbreviation reference_digest :: bytes where
  "reference_digest \<equiv> grant_target_digest reference_store (Kind LocalKeyring)"

lemma exclusive_run:
  assumes h: "grants_hold reference_store cdoc_view w M" and room: "grants_room reference_store w (n + 3)"
    and fit: "deadlines_fit M" and valid: "identity_validate caller = Inr ()"
    and ha: "exclusive_holder_address reference_store reference_digest = Inr ha"
    and a: "grant_address reference_store (fingerprint reference_store caller) reference_digest p = Inr a"
    and rd: "read_value reference_store M 5 ha = Inr r" "read_value reference_store M 5 a = Inr r'"
      "previous_holder reference_codecs r = Inr previous"
    and one: "superseded_grants reference_store previous (fingerprint reference_store caller)
      reference_digest {|p|} = Inr deletes" "length deletes \<le> 1"
  shows "\<exists>w'. store_exclusive_grant reference_store (grant_ops reference_store) reference_codecs caller
    (Kind LocalKeyring) [p] 5 w = (Inr (), w') \<and> grants_room reference_store w' n"
proof -
  obtain b where b: "to_vec (j_grant reference_codecs) \<lparr>ag_version = GRANT_VERSION,
      ag_caller_fingerprint = fingerprint reference_store caller, ag_target_digest = reference_digest,
      ag_permissions = {|p|}, ag_expires_at = None, ag_single_use = False\<rparr> = Inr b"
    using grant_codecs_okD(4) [OF reference_codecs_ok] by blast
  have sorted: "sorted_list_of_fset {|p|} = [p]" by (simp add: sorted_list_of_fset.rep_eq)
  have rm: "grants_room reference_store w (length deletes + length [Put a b None] + 1 + n)"
    by (rule live_document_store.room_less [OF room]) (use one(2) in simp)
  show ?thesis
    by (rule live_document_store.store_exclusive_grant_live [OF h rm reference_codecs_ok fit valid _ ha, where as = "[a]" and rs = "[r']"])
      (use a rd one(1) b in \<open>simp_all add: sorted exclusive_grants_def\<close>)
qed

lemma exclusive_addresses:
  obtains ha a a' where "exclusive_holder_address reference_store reference_digest = Inr ha"
    "grant_address reference_store (fingerprint reference_store reference_caller) reference_digest GGet = Inr a"
    "grant_address reference_store (fingerprint reference_store second_caller) reference_digest GPut = Inr a'"
    "storage_key reference_store ha \<noteq> storage_key reference_store a"
    "storage_key reference_store ha \<noteq> storage_key reference_store a'"
    "storage_key reference_store a \<noteq> storage_key reference_store a'"
proof -
  let ?ha = "Local (''holder/'' @ reference_digest) None"
  let ?a = "\<lambda>c p. Local (''grant/'' @ fingerprint reference_store c @ ''/'' @ reference_digest @ ''/'' @ permission_name p) None"
  have len: "length reference_digest = 32" by (simp add: grant_target_digest_def reference_hash)
  have "last reference_digest = CHR 0x00"
    by (simp add: grant_target_digest_def reference_hash GRANT_TARGET_DOMAIN_def tags_def document_kind_tag_def)
  then obtain xs where d: "rev reference_digest = CHR 0x00 # xs"
    using len by (cases reference_digest rule: rev_cases) auto
  show thesis
    by (rule that [of ?ha "?a reference_caller GGet" "?a second_caller GPut"])
      (use len d in \<open>simp_all add: exclusive_holder_address_def address_new_def validate_address_component_def
        MAX_ADDRESS_COMPONENT_BYTES_def reference_hash grant_address_ok fingerprint_def permission_name_def
        storage_key_def update_digest_string_def update_digest_option_def\<close>)
qed

lemma exclusive_grant_supersedes_witness:
  "\<exists>w w' M'. store_exclusive_grant reference_store (grant_ops reference_store) reference_codecs second_caller
      (Kind LocalKeyring) [GPut] 5 w = (Inr (), w') \<and> grants_hold reference_store cdoc_view w' M' \<and>
    (\<forall>g. \<not> usable reference_store reference_codecs M' 6 (fingerprint reference_store reference_caller)
       reference_digest GGet g)"
proof -
  let ?fp = "fingerprint reference_store reference_caller"
  obtain ha a a' where adr: "exclusive_holder_address reference_store reference_digest = Inr ha"
    "grant_address reference_store ?fp reference_digest GGet = Inr a"
    "grant_address reference_store (fingerprint reference_store second_caller) reference_digest GPut = Inr a'"
    and keys: "storage_key reference_store ha \<noteq> storage_key reference_store a"
    "storage_key reference_store ha \<noteq> storage_key reference_store a'"
    "storage_key reference_store a \<noteq> storage_key reference_store a'"
    by (rule exclusive_addresses)
  have sorted: "sorted_list_of_fset {|p|} = [p]" for p :: GrantPermission by (simp add: sorted_list_of_fset.rep_eq)
  obtain w where w: "store_exclusive_grant reference_store (grant_ops reference_store) reference_codecs reference_caller
      (Kind LocalKeyring) [GGet] 5 reference_worker = (Inr (), w)" "grants_room reference_store w 3"
    using exclusive_run [OF reference_grants_hold reference_room _ reference_caller_valid adr(1,2), where n = 3
        and previous = None and deletes = "[]" and r = None and r' = None]
    by (auto simp: read_value_def read_entry_def previous_holder_def superseded_grants_def)
  obtain b hb where h1: "grants_hold reference_store cdoc_view w
      ([storage_key reference_store a \<mapsto> (a, b, None), storage_key reference_store ha \<mapsto> (ha, hb, None)])"
    "from_slice (j_holder reference_codecs) hb = Inr \<lparr>eh_version = EXCLUSIVE_HOLDER_VERSION,
      eh_caller_fingerprint = ?fp, eh_permissions = {|GGet|}\<rparr>"
  proof -
    from reference_grants_hold w(1) show thesis
    proof (rule document_store.store_exclusive_grant_ok, goal_cases)
      case (1 ha' as r rs previous)
      have [simp]: "ha' = ha" "previous = None"
        using 1(2,4,6) adr(1) by (simp_all add: read_value_def read_entry_def previous_holder_def)
      from 1(7) obtain puts hb where m: "exclusive_grants reference_store reference_codecs ?fp reference_digest {|GGet|} = Inr puts"
        "to_vec (j_holder reference_codecs) \<lparr>eh_version = EXCLUSIVE_HOLDER_VERSION, eh_caller_fingerprint = ?fp,
          eh_permissions = {|GGet|}\<rparr> = Inr hb"
        "grants_hold reference_store cdoc_view w (fold (apply_entry reference_store) (puts @ [Put ha hb None]) Map.empty)"
        by (auto simp: superseded_grants_def)
      from m(1) adr(2) obtain b where "puts = [Put a b None]" by (auto simp: exclusive_grants_def sorted rbind_Inr)
      with m(3) grant_codecs_okD(2) [OF reference_codecs_ok m(2)] show thesis by (intro that [of b hb]) simp_all
    qed
  qed
  let ?M = "[storage_key reference_store a \<mapsto> (a, b, None), storage_key reference_store ha \<mapsto> (ha, hb, None)]"
  let ?h = "\<lparr>eh_version = EXCLUSIVE_HOLDER_VERSION, eh_caller_fingerprint = ?fp, eh_permissions = {|GGet|}\<rparr>"
  have rd: "read_value reference_store ?M 5 ha = Inr (Some hb)" "read_value reference_store ?M 5 a' = Inr None"
    using keys by (auto simp: read_value_def read_entry_def live_def)
  have second: "identity_validate second_caller = Inr ()"
    by (simp add: second_caller_def identity_validate_def reference_caller_def validate_identity_component_def
        MAX_IDENTITY_COMPONENT_BYTES_def)
  have prev: "previous_holder reference_codecs (Some hb) = Inr (Some ?h)" using h1(2) by (simp add: previous_holder_def)
  have sup: "superseded_grants reference_store (Some ?h) (fingerprint reference_store second_caller) reference_digest
      {|GPut|} = Inr [Delete a]" using adr(2) by (simp add: superseded_grants_def sorted)
  have room: "grants_room reference_store w (0 + 3)" using w(2) by simp
  have fit: "deadlines_fit ?M" by (simp add: deadlines_fit_def)
  from exclusive_run [OF h1(1) room fit second adr(1,3) rd prev sup] obtain w' where
    run: "store_exclusive_grant reference_store (grant_ops reference_store) reference_codecs second_caller
      (Kind LocalKeyring) [GPut] 5 w = (Inr (), w')" by auto
  from exclusive_grant_supersedes [OF h1(1) reference_codecs_ok run adr(1) rd(1) h1(2), of GGet] obtain M' where
    "grants_hold reference_store cdoc_view w' M'"
    "\<forall>t g. \<not> usable reference_store reference_codecs M' t ?fp reference_digest GGet g" by auto
  with run show ?thesis by blast
qed

end
