(* ===== verification/Worker_Laws.thy ===== *)
theory Worker_Laws
  imports Store_Progress
begin

text \<open>
  The command loop of the store worker: every command keeps the inventory of the database
  equal to the verified state or fails with an error that ends the loop.
\<close>

section \<open>Operations that keep an invariant or end the worker\<close>

definition fatal_error :: "VaultError \<Rightarrow> bool" where
  "fatal_error e = fatal_result (Inl e :: unit vault_result)"

lemma fatal_result_simps [simp]: "fatal_result (Inl e) = fatal_error e" "\<not> fatal_result (Inr x)"
  by (simp_all add: fatal_result_def fatal_error_def split: VaultError.splits)

lemma fatal_database [simp]: "fatal_error (Database e)"
  by (simp add: fatal_error_def fatal_result_def)

definition guarded :: "('s \<Rightarrow> bool) \<Rightarrow> ('s, VaultError, 'a) action \<Rightarrow> bool" where
  "guarded I m \<longleftrightarrow> (\<forall>s r s'. I s \<longrightarrow> m s = (r, s') \<longrightarrow> I s' \<or> fatal_result r)"

named_theorems guarded_intros \<open>operations that keep an invariant or fail fatally\<close>

lemma guardedI: "(\<And>s r s'. I s \<Longrightarrow> m s = (r, s') \<Longrightarrow> I s' \<or> fatal_result r) \<Longrightarrow> guarded I m"
  unfolding guarded_def by blast

lemma guardedD: "guarded I m \<Longrightarrow> I s \<Longrightarrow> m s = (r, s') \<Longrightarrow> I s' \<or> fatal_result r"
  unfolding guarded_def by blast

lemma guarded_preserves: "preserves I m \<Longrightarrow> guarded I m"
  unfolding guarded_def preserves_def by blast

lemma guarded_basic [guarded_intros]:
  "guarded I (sret x)" "guarded I (slift r)" "guarded I (sget g)"
  by (intro guarded_preserves preserves_intros)+

lemma guarded_sbind [guarded_intros]:
  assumes "guarded I m" and "\<And>x. guarded I (f x)"
  shows "guarded I (sbind m f)"
proof (rule guardedI)
  fix s r s'
  assume I: "I s" and run: "sbind m f s = (r, s')"
  obtain q t where m: "m s = (q, t)" by (cases "m s")
  have t: "I t \<or> fatal_result q" by (rule guardedD [OF assms(1) I m])
  show "I s' \<or> fatal_result r"
  proof (cases q)
    case (Inl e)
    with run m t show ?thesis by auto
  next
    case (Inr x)
    with run m t guardedD [OF assms(2)] show ?thesis by auto
  qed
qed

lemma guarded_case_option [guarded_intros]:
  "guarded I m \<Longrightarrow> (\<And>x. guarded I (f x)) \<Longrightarrow> guarded I (case v of None \<Rightarrow> m | Some x \<Rightarrow> f x)"
  by (cases v) simp_all

lemma guarded_case_prod [guarded_intros]:
  "(\<And>x y. guarded I (f x y)) \<Longrightarrow> guarded I (case p of (x, y) \<Rightarrow> f x y)"
  by (cases p) simp

lemma guarded_if [guarded_intros]:
  "(b \<Longrightarrow> guarded I m) \<Longrightarrow> (\<not> b \<Longrightarrow> guarded I n) \<Longrightarrow> guarded I (if b then m else n)"
  by simp

lemma guarded_case_read [guarded_intros]:
  "guarded I m1 \<Longrightarrow> (\<And>v. guarded I (m2 v)) \<Longrightarrow> guarded I m3 \<Longrightarrow> guarded I m4 \<Longrightarrow>
     guarded I (case r of Missing \<Rightarrow> m1 | Value v \<Rightarrow> m2 v | SecretRead.Expired \<Rightarrow> m3 | SecretRead.Conflict \<Rightarrow> m4)"
  by (cases r) simp_all

section \<open>The inventory stays consistent\<close>

abbreviation inventoried :: "('d, 'r, 'i, 'z) store_env_scheme \<Rightarrow> StoreWorker \<Rightarrow> bool" where
  "inventoried E w \<equiv> inventory_wf E (sw_db w) (sw_verified w)"

lemma guarded_reader: "(\<And>db v. preserves (store_is db v) m) \<Longrightarrow> guarded (inventoried E) m"
proof (rule guardedI)
  fix s r s'
  assume p: "\<And>db v. preserves (store_is db v) m" and I: "inventoried E s" and run: "m s = (r, s')"
  from store_isD [OF p run] I show "inventoried E s' \<or> fatal_result r" by simp
qed

lemma guarded_readers [guarded_intros]:
  "guarded (inventoried E) (version_ids E n)"
  "guarded (inventoried E) (verify_live_inventory E)"
  "guarded (inventoried E) (load_document E i k p)"
  "guarded (inventoried E) (load_history E i k p)"
  "guarded (inventoried E) (store_get_many E i k part as now)"
  "guarded (inventoried E) (list_history E i k part a b n)"
  by (rule guarded_reader; intro preserves_intros)+

lemma guarded_commit:
  assumes env: "store_env_ok E V" and len: "length ident = 32"
  shows "guarded (inventoried E) (commit_mutation E ident kind cur M ctx)"
proof (rule guardedI)
  fix w r w'
  assume wf: "inventoried E w" and run: "commit_mutation E ident kind cur M ctx w = (r, w')"
  obtain q w1 where prep: "prepare_commit E ident kind cur M ctx w = (q, w1)"
    by (cases "prepare_commit E ident kind cur M ctx w")
  have w1: "sw_db w1 = sw_db w" "sw_verified w1 = sw_verified w" using store_isD [OF store_is_prepare prep] .
  show "inventoried E w' \<or> fatal_result r"
  proof (cases q)
    case (Inl e)
    with run prep wf w1 show ?thesis by (auto simp: commit_mutation_def)
  next
    case (Inr p)
    obtain q2 w2 where pers: "persist_commit E p w1 = (q2, w2)" by (cases "persist_commit E p w1")
    obtain envelope key where pok: "prepared_ok E p envelope key" "pr_document_id p = ident"
      using prepare_commit_ok [OF env prep [unfolded Inr]] by metis
    note out = persist_commit_outcome [OF pers, unfolded w1]
    show ?thesis
    proof (cases q2)
      case (Inl e)
      then have "r = Inl e" "w' = w2" using run prep Inr pers by (auto simp: commit_mutation_def)
      moreover from out Inl have "inventoried E w2 \<or> (\<exists>d. e = Database d)"
        using wf by (auto elim: commit_outcome_err)
      ultimately show ?thesis by auto
    next
      case (Inr u)
      from out [unfolded Inr] obtain m b where c: "commit_checked E p m b (sw_db w) (sw_verified w)"
        "sw_db w2 = commit_db p m b (sw_db w)" "sw_verified w2 = commit_verified E p m b (sw_verified w)"
        by (rule commit_outcome_ok)
      have "inventoried E w2" using wf_commit [OF env pok(1) c(1) wf] len pok(2) c by simp
      moreover have "checkpoint E w2 = (r, w')"
        using run prep \<open>q = Inr p\<close> pers Inr by (simp add: commit_mutation_def)
      ultimately show ?thesis using store_isD [OF store_is_verifiers(5)] by metis
    qed
  qed
qed

lemma guarded_load:
  assumes "guarded (inventoried E) (f None)" and "\<And>l. length ident = 32 \<Longrightarrow> guarded (inventoried E) (f (Some l))"
  shows "guarded (inventoried E) (sbind (load_document E ident kind part) f)"
proof (rule guardedI)
  fix w r w'
  assume wf: "inventoried E w" and run: "sbind (load_document E ident kind part) f w = (r, w')"
  obtain q w1 where l: "load_document E ident kind part w = (q, w1)" by (cases "load_document E ident kind part w")
  have wf1: "inventoried E w1" using store_isD [OF store_is_load(1) l] wf by simp
  show "inventoried E w' \<or> fatal_result r"
  proof (cases q)
    case (Inl e)
    with run l wf1 show ?thesis by auto
  next
    case (Inr x)
    then have run': "f x w1 = (r, w')" using run l by simp
    show ?thesis
    proof (cases x)
      case None
      with run' guardedD [OF assms(1) wf1] show ?thesis by simp
    next
      case (Some a)
      with load_expected [OF l [unfolded Inr]] have "head_at E (sw_db w) (sw_verified w) ident kind (ld_head a)"
        by (simp add: expected_ok_def)
      then have "length ident = 32" using wf unfolding head_at_def inventory_wf_def by blast
      from guardedD [OF assms(2) [OF this] wf1] run' Some show ?thesis by simp
    qed
  qed
qed

lemma guarded_operations [guarded_intros]:
  assumes env: "store_env_ok E V" and len: "length ident = 32"
  shows "guarded (inventoried E) (store_get E ident kind part a now)"
    "guarded (inventoried E) (store_put E ident kind part a v e ctx)"
    "guarded (inventoried E) (store_mutate E ident kind part ops ctx)"
    "guarded (inventoried E) (store_delete E ident kind part a ctx)"
    "guarded (inventoried E) (store_clear E ident kind part ctx)"
    "guarded (inventoried E) (purge_loaded E now ident kind l)"
  unfolding store_get_def store_put_def store_mutate_def store_delete_def store_clear_def purge_loaded_def Let_def
  by (intro guarded_intros guarded_commit [OF env len])+

lemma guarded_purge_document:
  assumes env: "store_env_ok E V"
  shows "guarded (inventoried E) (purge_document E now due)"
proof -
  obtain ident kind where [simp]: "due = (ident, kind)" by (cases due)
  show ?thesis unfolding purge_document_def
    by (simp, rule guarded_load) (simp_all add: guarded_intros guarded_commit [OF env])
qed

lemma guarded_list_project:
  assumes env: "store_env_ok E V"
  shows "guarded (inventoried E) (list_project E now ident)"
  unfolding list_project_def
  by (rule guarded_load) (simp_all add: guarded_intros guarded_operations [OF env])

lemma guarded_list_vault_document:
  assumes env: "store_env_ok E V"
  shows "guarded (inventoried E) (list_vault_document E now listed)"
proof -
  obtain ident kind where [simp]: "listed = (ident, kind)" by (cases listed)
  show ?thesis unfolding list_vault_document_def
    by (simp, rule guarded_load) (simp_all add: guarded_intros guarded_operations [OF env])
qed

lemma guarded_purge_documents:
  "store_env_ok E V \<Longrightarrow> guarded (inventoried E) (purge_documents E now due n)"
  by (induction due arbitrary: n) (simp_all add: guarded_intros guarded_purge_document)

lemma guarded_list_each:
  "(\<And>x. guarded I (f x)) \<Longrightarrow> guarded I (list_each f xs)"
  by (induction xs) (simp_all add: guarded_intros)

lemma guarded_execute:
  assumes env: "store_env_ok E V" and "execute_command E command = Some act"
  shows "guarded (inventoried E) act"
proof -
  have len: "length (document_id E kind part) = 32" for kind part
    using env document_id_length by (auto simp: store_env_ok_def)
  have l: "guarded (inventoried E) (list_each (list_project E now) idents)" for now idents
    by (rule guarded_list_each) (rule guarded_list_project [OF env])
  have v: "guarded (inventoried E) (list_each (list_vault_document E now) listed)" for now listed
    by (rule guarded_list_each) (rule guarded_list_vault_document [OF env])
  show ?thesis using assms(2)
    by (cases command)
      (auto simp: store_purge_expired_def list_projects_def list_vault_entries_def list_project_addresses_def Let_def
        intro!: guarded_intros len l v guarded_purge_documents [OF env] guarded_operations [OF env len])
qed

lemma worker_sealed_stays: "ws_sealed s \<Longrightarrow> worker_is_sealed t s = (True, s)"
  by (cases s) (auto simp: worker_is_sealed_def Let_def)

lemma send_result_sealed:
  "send_result t r s = (reply, s') \<Longrightarrow> fatal_result r \<Longrightarrow> ws_sealed s'"
  by (auto simp: send_result_def split: prod.splits)

definition only_seals :: "Turn list \<Rightarrow> bool" where
  "only_seals turns \<longleftrightarrow> (\<forall>f s. Meanwhile f \<in> set turns \<longrightarrow> ws_sealed s \<longrightarrow> ws_sealed (f s))"

lemma run_worker_sealed:
  assumes "ws_sealed s" and "only_seals turns" and "run_worker E turns s w = (replies, s', w')"
  shows "replies = [] \<and> w' = w \<and> ws_sealed s'"
  using assms
proof (induction turns arbitrary: s)
  case (Cons turn turns)
  have rest: "only_seals turns" using Cons.prems(2) by (auto simp: only_seals_def)
  show ?case
  proof (cases turn)
    case (Meanwhile f)
    then have "ws_sealed (f s)" using Cons.prems(1,2) by (auto simp: only_seals_def)
    with Cons.IH [OF this rest] Cons.prems(3) Meanwhile show ?thesis by simp
  qed (use Cons.prems in \<open>auto simp: worker_sealed_stays\<close>)
qed simp

lemma run_worker_inventory:
  assumes env: "store_env_ok E V" and "inventoried E w" and "only_seals turns"
    and "run_worker E turns s w = (replies, s', w')"
  shows "inventoried E w' \<or> ws_sealed s'"
  using assms(2-)
proof (induction turns arbitrary: s w replies)
  case (Cons turn turns)
  have rest: "only_seals turns" using Cons.prems(2) by (auto simp: only_seals_def)
  show ?case
  proof (cases turn)
    case (Received command t1 t2 t3)
    show ?thesis
    proof (cases "fst (worker_is_sealed t1 s) \<or> fst (worker_is_sealed t2 (snd (worker_is_sealed t1 s))) \<or>
        execute_command E command = None")
      case True
      with Received Cons.prems show ?thesis by (auto simp: Let_def split: prod.splits if_splits option.splits)
    next
      case False
      define s2 where "s2 = snd (worker_is_sealed t2 (snd (worker_is_sealed t1 s)))"
      from False obtain act where act: "execute_command E command = Some act" by auto
      obtain result w2 where r: "act w = (result, w2)" by (cases "act w")
      obtain reply s3 where sr: "send_result t3 result s2 = (reply, s3)" by (cases "send_result t3 result s2")
      have run: "run_worker E turns s3 w2 = (tl replies, s', w')"
        using Cons.prems(3) False Received act r sr
        by (auto simp: Let_def s2_def split: prod.splits)
      from guardedD [OF guarded_execute [OF env act] Cons.prems(1) r] show ?thesis
      proof
        assume "inventoried E w2"
        from Cons.IH [OF this rest run] show ?thesis .
      next
        assume "fatal_result result"
        then have "ws_sealed s3" by (rule send_result_sealed [OF sr])
        from run_worker_sealed [OF this rest run] show ?thesis by blast
      qed
    qed
  next
    case (Meanwhile f)
    with Cons.IH [OF Cons.prems(1) rest] Cons.prems(3) show ?thesis by simp
  next
    case (TimedOut t)
    with Cons.IH [OF Cons.prems(1) rest] Cons.prems show ?thesis
      by (auto simp: Let_def split: prod.splits if_splits)
  next
    case (Disconnected t)
    with Cons.prems show ?thesis by (auto simp: Let_def split: prod.splits)
  qed
qed simp

end
