(* ===== verification/Startup_Laws.thy ===== *)
theory Startup_Laws
  imports Store_Progress
begin

text \<open>
  What the verification at startup has established when it succeeds: the manifest, the heads
  and the payload digests are those one signed manifest fixes.
\<close>

section \<open>What a successful start has verified\<close>

text \<open>A verified document and the stored head it comes from.\<close>

definition headed ::
  "('d, 'r, 'i, 'z) store_env_scheme \<Rightarrow> (bytes \<times> bytes \<times> bytes) list \<Rightarrow> bytes \<Rightarrow> VerifiedDocument
     \<Rightarrow> CurrentHead \<Rightarrow> bool" where
  "headed E rows i d h \<longleftrightarrow> (\<exists>b. (i, ch_head_id h, b) \<in> set rows \<and> from_slice (j_head E) b = Inr h) \<and>
     head_verify E h (ch_head_id h) = Inr () \<and> d = verified_document_new h 0 \<and>
     length i = 32 \<and> length (ch_head_id h) = 32"

lemma headed_mono: "headed E rows i d h \<Longrightarrow> set rows \<subseteq> set rows' \<Longrightarrow> headed E rows' i d h"
  unfolding headed_def by blast

lemma read_heads_ok:
  assumes "read_heads E m rows docs0 = Inr docs" and "fmlookup docs i = Some d"
  shows "fmlookup docs0 i = Some d \<or> (\<exists>h. headed E rows i d h)"
  using assms
proof (induction E m rows docs0 rule: read_heads.induct)
  case (2 E m j hid b rows docs0)
  from "2.prems"(1) obtain h where h: "length j = 32" "length hid = 32" "from_slice (j_head E) b = Inr h"
    "head_verify E h hid = Inr ()" "read_heads E m rows (fmupd j (verified_document_new h 0) docs0) = Inr docs"
    by (auto simp: res_simps)
  have hid: "ch_head_id h = hid" using h(4) by (simp add: head_verify_def guard_iff)
  have IH: "fmlookup (fmupd j (verified_document_new h 0) docs0) i = Some d \<or> (\<exists>h. headed E rows i d h)"
    by (rule "2.IH") (use h "2.prems" in \<open>auto simp: res_simps\<close>)
  then show ?case
  proof
    assume l: "fmlookup (fmupd j (verified_document_new h 0) docs0) i = Some d"
    show ?thesis
    proof (cases "i = j")
      case True
      then have "headed E ((j, hid, b) # rows) i d h" using l h hid by (auto simp: headed_def)
      then show ?thesis by blast
    qed (use l in simp)
  next
    assume "\<exists>h. headed E rows i d h"
    then show ?thesis using headed_mono [of E rows i d _ "(j, hid, b) # rows"] by auto
  qed
qed simp

abbreviation signed_part :: "VerifiedDocument \<Rightarrow> DocumentRow \<times> bytes" where
  "signed_part d \<equiv> (vd_row d, vd_snapshot_digest d)"

lemma read_payloads_ok:
  assumes "read_payloads E rows seen docs = Inr (seen', docs')"
  shows "map_option signed_part (fmlookup docs' i) = map_option signed_part (fmlookup docs i)"
  using assms
proof (induction E rows seen docs rule: read_payloads.induct)
  case (2 E j g b rows seen docs)
  from "2.prems" obtain d where d: "fmlookup docs j = Some d"
    "read_payloads E rows (finsert j seen) (fmupd j (d\<lparr>vd_snapshot_bytes := word_of_nat (length b)\<rparr>) docs) = Inr (seen', docs')"
    by (auto simp: res_simps)
  have "map_option signed_part (fmlookup docs' i) =
    map_option signed_part (fmlookup (fmupd j (d\<lparr>vd_snapshot_bytes := word_of_nat (length b)\<rparr>) docs) i)"
    by (rule "2.IH") (use d "2.prems" in \<open>auto simp: res_simps\<close>)
  then show ?case using d(1) by auto
qed simp

lemma transaction_ok:
  assumes "transaction E body w = (Inr x, w')"
  obtains w2 where "body (w\<lparr>sw_io := Suc (sw_io w)\<rparr>) = (Inr x, w2)"
  using assms by (auto simp: transaction_def statement_def sbind_def split: option.splits prod.splits sum.splits)

lemma verify_current_state_ok:
  assumes "verify_current_state E w = (Inr v, w')"
  obtains m b docs where "fmlookup (db_meta (sw_db w)) ''current-state-manifest'' = Some b"
    "from_slice (j_manifest E) b = Inr m"
    "manifest_verify E (signer E) m (device_vault_id E) (device_key_id E) = Inr ()"
    "vs_head v = Some (sm_manifest_id m)" "read_heads E m (head_rows (sw_db w)) fmempty = Inr docs"
    "inventory_digest E (inventory_list docs) = sm_inventory_digest m"
    "\<And>i. map_option signed_part (fmlookup (vs_documents v) i) = map_option signed_part (fmlookup docs i)"
proof -
  obtain w2 where "(sbind (read_manifest E) (\<lambda>(manifest, b).
        sbind (slift (manifest_verify E (signer E) manifest (device_vault_id E) (device_key_id E))) (\<lambda>_.
        sbind (current_commit_head E) (\<lambda>head.
        if head \<noteq> Some (sm_manifest_id manifest) then slift (Inl Signature)
        else sbind (read_current_heads E manifest) (\<lambda>documents.
          sbind (verify_current_payloads E \<lparr>vs_head = Some (sm_manifest_id manifest),
            vs_documents = documents, vs_manifest_digest = Some (digest E b)\<rparr>) (\<lambda>verified.
          sbind (verify_inventory E verified) (\<lambda>_.
          sret verified))))))) (w\<lparr>sw_io := Suc (sw_io w)\<rparr>) = (Inr v, w2)"
    using assms unfolding verify_current_state_def by (rule transaction_ok)
  then obtain m b docs seen docs' w3 where
    "fmlookup (db_meta (sw_db w)) ''current-state-manifest'' = Some b"
    "from_slice (j_manifest E) b = Inr m"
    "manifest_verify E (signer E) m (device_vault_id E) (device_key_id E) = Inr ()"
    "read_heads E m (head_rows (sw_db w)) fmempty = Inr docs"
    "inventory_digest E (inventory_list docs) = sm_inventory_digest m"
    and p: "read_payloads E (payload_rows (sw_db w)) {||} docs = Inr (seen, docs')"
    and v: "v = \<lparr>vs_head = Some (sm_manifest_id m), vs_documents = docs',
      vs_manifest_digest = Some (digest E b)\<rparr>"
    unfolding read_current_heads_def verify_current_payloads_def
    by (auto simp: res_simps split: if_splits prod.splits)
  then show thesis by (intro that) (simp_all add: read_payloads_ok [OF p])
qed

text \<open>
  The byte arrays of the decoded records have the sizes their Rust types fix.
\<close>

definition typed_store :: "('d, 'r, 'i, 'z) store_env_scheme \<Rightarrow> Db \<Rightarrow> bool" where
  "typed_store E db \<longleftrightarrow>
     (\<forall>b m. fmlookup (db_meta db) ''current-state-manifest'' = Some b \<longrightarrow>
        from_slice (j_manifest E) b = Inr m \<longrightarrow> manifest_wf m) \<and>
     (\<forall>i h b c. fmlookup (db_heads db) i = Some (h, b) \<longrightarrow> from_slice (j_head E) b = Inr c \<longrightarrow> head_wf c)"

definition stored_manifest :: "('d, 'r, 'i, 'z) store_env_scheme \<Rightarrow> Db \<Rightarrow> StateManifest \<Rightarrow> bool" where
  "stored_manifest E db m \<longleftrightarrow> (\<exists>b. fmlookup (db_meta db) ''current-state-manifest'' = Some b \<and>
     from_slice (j_manifest E) b = Inr m)"

definition stored_head :: "('d, 'r, 'i, 'z) store_env_scheme \<Rightarrow> Db \<Rightarrow> CurrentHead \<Rightarrow> bool" where
  "stored_head E db c \<longleftrightarrow> (\<exists>i b. fmlookup (db_heads db) i = Some (ch_head_id c, b) \<and>
     from_slice (j_head E) b = Inr c)"

definition head_inventory :: "Db \<Rightarrow> (bytes \<times> bytes) list" where
  "head_inventory db = map (\<lambda>(i, h, b). (i, h)) (head_rows db)"

lemma head_rows_iff: "(i, h, b) \<in> set (head_rows db) \<longleftrightarrow> fmlookup (db_heads db) i = Some (h, b)"
  unfolding head_rows_def by (auto simp: fmdomI fmlookup_dom_iff)

lemma stored_headed: "headed E (head_rows db) i d h \<Longrightarrow> stored_head E db h"
  unfolding headed_def stored_head_def by (auto simp: head_rows_iff)

lemma headed_wf: "typed_store E db \<Longrightarrow> headed E (head_rows db) i d h \<Longrightarrow> head_wf h"
  unfolding typed_store_def headed_def head_rows_iff by blast

lemma stored_manifest_wf: "typed_store E db \<Longrightarrow> stored_manifest E db m \<Longrightarrow> manifest_wf m"
  unfolding typed_store_def stored_manifest_def by blast

lemma read_heads_dom:
  assumes "read_heads E m rows docs0 = Inr docs"
  shows "fset (fmdom docs) = fset (fmdom docs0) \<union> fst ` set rows"
  using assms by (induction E m rows docs0 rule: read_heads.induct) (auto simp: res_simps)

lemma inventory_of_heads:
  assumes "read_heads E m (head_rows db) fmempty = Inr docs"
  shows "inventory_list docs = head_inventory db"
proof -
  have dom: "fmdom docs = fmdom (db_heads db)"
    using read_heads_dom [OF assms] by (auto simp: head_rows_def fset_inject [symmetric] image_image)
  have "dr_current_commit_id (vd_row (the (fmlookup docs i))) = fst (the (fmlookup (db_heads db) i))"
    if "i |\<in>| fmdom docs" for i
  proof -
    from that obtain d where d: "fmlookup docs i = Some d" by (auto simp: fmlookup_dom_iff)
    from read_heads_ok [OF assms d] obtain h where "headed E (head_rows db) i d h" by auto
    then show ?thesis using d by (auto simp: headed_def head_rows_iff verified_document_new_def)
  qed
  then show ?thesis unfolding inventory_list_def head_inventory_def head_rows_def dom
    by (auto simp: split_beta)
qed

lemma head_inventory_sized:
  assumes "read_heads E m (head_rows db) fmempty = Inr docs" and "(i, h) \<in> set (head_inventory db)"
  shows "length i = 32 \<and> length h = 32"
proof -
  from assms(2) obtain b where row: "(i, h, b) \<in> set (head_rows db)" by (auto simp: head_inventory_def)
  then have "i \<in> fset (fmdom docs)" using read_heads_dom [OF assms(1)] by force
  then obtain d where d: "fmlookup docs i = Some d" by (auto simp: fmlookup_dom_iff)
  from read_heads_ok [OF assms(1) d] obtain c where "headed E (head_rows db) i d c" by auto
  with row show ?thesis by (auto simp: headed_def head_rows_iff)
qed

definition manifest_collision :: "('d, 'r, 'i, 'z) store_env_scheme \<Rightarrow> Db \<Rightarrow> Db \<Rightarrow> bool" where
  "manifest_collision E db db' \<longleftrightarrow> (\<exists>m m'. stored_manifest E db m \<and> stored_manifest E db' m' \<and>
     collision E (manifest_transcript m) (manifest_transcript m'))"

definition head_collision :: "('d, 'r, 'i, 'z) store_env_scheme \<Rightarrow> Db \<Rightarrow> Db \<Rightarrow> bool" where
  "head_collision E db db' \<longleftrightarrow> (\<exists>c c'. stored_head E db c \<and> stored_head E db' c' \<and>
     collision E (head_transcript c) (head_transcript c'))"

lemma inventory_head:
  "(i, h) \<in> set (head_inventory db) \<longleftrightarrow> (\<exists>b. fmlookup (db_heads db) i = Some (h, b))"
  unfolding head_rows_iff [symmetric] head_inventory_def by (force simp: image_iff)

lemma inventory_ids: "fst ` set (head_inventory db) = fst ` set (head_rows db)"
  by (simp add: head_inventory_def image_image split_beta)

lemma same_heads:
  assumes docs: "read_heads E m (head_rows db) fmempty = Inr docs"
    and docs': "read_heads E m' (head_rows db') fmempty = Inr docs'"
    and eq: "head_inventory db = head_inventory db'"
    and typed: "typed_store E db" "typed_store E db'" and c: "\<not> head_collision E db db'"
  shows "docs = docs'"
proof (rule fmap_ext)
  fix i
  have dom: "fset (fmdom docs) = fst ` set (head_inventory db)" "fset (fmdom docs') = fst ` set (head_inventory db)"
    using read_heads_dom [OF docs] read_heads_dom [OF docs'] inventory_ids [of db] inventory_ids [of db'] eq
    by simp_all
  show "fmlookup docs i = fmlookup docs' i"
  proof (cases "fmlookup docs i")
    case None
    then have "i \<notin> fset (fmdom docs)" by (simp add: fmdom_notI)
    then have "i \<notin> fset (fmdom docs')" using dom by simp
    with None show ?thesis by (simp add: fmdom_notD)
  next
    case (Some d)
    then have "i \<in> fset (fmdom docs)" by (simp add: fmdomI)
    then have "i \<in> fset (fmdom docs')" using dom by simp
    then obtain d' where d': "fmlookup docs' i = Some d'" by (auto simp: fmlookup_dom_iff)
    from read_heads_ok [OF docs Some] obtain h where h: "headed E (head_rows db) i d h" by auto
    from read_heads_ok [OF docs' d'] obtain h' where h': "headed E (head_rows db') i d' h'" by auto
    have "(i, ch_head_id h) \<in> set (head_inventory db')"
      using h unfolding eq [symmetric] by (auto simp: headed_def head_rows_iff inventory_head)
    then have ident: "ch_head_id h = ch_head_id h'" using h' by (auto simp: headed_def head_rows_iff inventory_head)
    have "h = h' \<or> collision E (head_transcript h) (head_transcript h')"
      using h h' ident headed_wf [OF typed(1) h] headed_wf [OF typed(2) h']
      by (intro head_verify_unique [where i = "ch_head_id h"]) (auto simp: headed_def)
    then have "h = h'" using c stored_headed [OF h] stored_headed [OF h'] by (auto simp: head_collision_def)
    then show ?thesis using Some d' h h' by (simp add: headed_def)
  qed
qed

lemma startup_determined:
  assumes run: "verify_current_state E w = (Inr v, w1)" and run': "verify_current_state E w' = (Inr v', w1')"
    and typed: "typed_store E (sw_db w)" "typed_store E (sw_db w')" and head: "vs_head v = vs_head v'"
    and c1: "\<not> manifest_collision E (sw_db w) (sw_db w')"
    and c2: "\<not> collision E (inventory_transcript (head_inventory (sw_db w))) (inventory_transcript (head_inventory (sw_db w')))"
    and c3: "\<not> head_collision E (sw_db w) (sw_db w')"
  shows "map_option signed_part (fmlookup (vs_documents v) i) = map_option signed_part (fmlookup (vs_documents v') i)"
proof -
  obtain m b docs where v: "fmlookup (db_meta (sw_db w)) ''current-state-manifest'' = Some b"
    "from_slice (j_manifest E) b = Inr m"
    "manifest_verify E (signer E) m (device_vault_id E) (device_key_id E) = Inr ()"
    "vs_head v = Some (sm_manifest_id m)" "read_heads E m (head_rows (sw_db w)) fmempty = Inr docs"
    "inventory_digest E (inventory_list docs) = sm_inventory_digest m"
    "\<And>i. map_option signed_part (fmlookup (vs_documents v) i) = map_option signed_part (fmlookup docs i)"
    using run by (rule verify_current_state_ok) (rule that)
  obtain m' b' docs' where v': "fmlookup (db_meta (sw_db w')) ''current-state-manifest'' = Some b'"
    "from_slice (j_manifest E) b' = Inr m'"
    "manifest_verify E (signer E) m' (device_vault_id E) (device_key_id E) = Inr ()"
    "vs_head v' = Some (sm_manifest_id m')" "read_heads E m' (head_rows (sw_db w')) fmempty = Inr docs'"
    "inventory_digest E (inventory_list docs') = sm_inventory_digest m'"
    "\<And>i. map_option signed_part (fmlookup (vs_documents v') i) = map_option signed_part (fmlookup docs' i)"
    using run' by (rule verify_current_state_ok) (rule that)
  have st: "stored_manifest E (sw_db w) m" "stored_manifest E (sw_db w') m'"
    using v(1,2) v'(1,2) by (auto simp: stored_manifest_def)
  have "sha256 E (manifest_transcript m) = sha256 E (manifest_transcript m')"
    using v(3,4) v'(3,4) head by (auto simp: manifest_verify_def res_simps digest_def)
  then have "manifest_transcript m = manifest_transcript m'"
    using c1 st by (auto simp: manifest_collision_def collision_def)
  then have "sm_inventory_digest m = sm_inventory_digest m'"
    using manifest_transcript_eq [OF stored_manifest_wf [OF typed(1) st(1)] stored_manifest_wf [OF typed(2) st(2)],
      of "[]" "[]"] by (cases m; cases m') auto
  then have "inventory_transcript (head_inventory (sw_db w)) = inventory_transcript (head_inventory (sw_db w'))"
    using v(6) v'(6) c2 inventory_of_heads [OF v(5)] inventory_of_heads [OF v'(5)]
    by (auto simp: inventory_digest_def collision_def digest_def)
  then have inv: "head_inventory (sw_db w) = head_inventory (sw_db w')"
    using head_inventory_sized [OF v(5)] head_inventory_sized [OF v'(5)] by (subst (asm) inventory_transcript_eq) auto
  have "fmlookup docs i = fmlookup docs' i"
    using same_heads [OF v(5) v'(5) inv typed c3] by simp
  then show ?thesis using v(7) v'(7) by simp
qed

end
