(* ===== verification/Paging.thy ===== *)
theory Paging
  imports Store_Laws
begin

text \<open>
  Listings come in pages: the client passes the cursor of a page to get the next one.  The
  contract of such a listing is stated once and met by both listings of the store, the
  key-ordered \<open>paginate\<close> and the newest-first history pages.
\<close>

section \<open>The contract of a paged listing\<close>

inductive pages :: "('c option \<Rightarrow> 'a list \<times> 'c option) \<Rightarrow> 'c option \<Rightarrow> 'a list list \<Rightarrow> bool"
  for page where
  last_page: "page cursor = (items, None) \<Longrightarrow> pages page cursor [items]"
| more_pages: "page cursor = (items, Some c) \<Longrightarrow> pages page (Some c) rest \<Longrightarrow>
    pages page cursor (items # rest)"

inductive_cases pages_cases: "pages page cursor ps"

locale paged_listing =
  fixes page :: "'p \<Rightarrow> 'c option \<Rightarrow> 'a list \<times> 'c option"
    and remaining :: "'p \<Rightarrow> 'c option \<Rightarrow> 'a list"
    and limit :: "'p \<Rightarrow> nat"
    and valid :: "'p \<Rightarrow> bool"
  assumes limit_pos: "valid p \<Longrightarrow> 0 < limit p"
    and page_items: "valid p \<Longrightarrow> fst (page p c) = take (limit p) (remaining p c)"
    and page_end: "valid p \<Longrightarrow> snd (page p c) = None \<longleftrightarrow> length (remaining p c) \<le> limit p"
    and page_next: "valid p \<Longrightarrow> snd (page p c) = Some c' \<Longrightarrow>
      remaining p (Some c') = drop (limit p) (remaining p c)"
begin

lemma pages_exist:
  assumes "valid p"
  shows "\<exists>ps. pages (page p) c ps \<and> concat ps = remaining p c \<and> (\<forall>items \<in> set ps. length items \<le> limit p)"
proof (induction "length (remaining p c)" arbitrary: c rule: less_induct)
  case less
  show ?case
  proof (cases "snd (page p c)")
    case None
    then have "page p c = (remaining p c, None)" "length (remaining p c) \<le> limit p"
      using page_items [OF assms, of c] page_end [OF assms, of c] by (simp_all add: prod_eq_iff)
    then show ?thesis using pages.last_page [of "page p" c "remaining p c"]
      by (intro exI [of _ "[remaining p c]"]) simp
  next
    case (Some c')
    have rest: "remaining p (Some c') = drop (limit p) (remaining p c)" by (rule page_next [OF assms Some])
    have long: "limit p < length (remaining p c)" using page_end [OF assms, of c] Some by simp
    have "length (remaining p (Some c')) < length (remaining p c)"
      using long limit_pos [OF assms] unfolding rest by simp
    from less [OF this] obtain ps where ps: "pages (page p) (Some c') ps"
      "concat ps = remaining p (Some c')" "\<forall>items \<in> set ps. length items \<le> limit p"
      by blast
    have "pages (page p) c (take (limit p) (remaining p c) # ps)"
      using ps(1) Some page_items [OF assms, of c] by (intro pages.more_pages) (simp_all add: prod_eq_iff)
    then show ?thesis using ps(2,3) rest by (intro exI [of _ "take (limit p) (remaining p c) # ps"]) simp
  qed
qed

lemma pages_unique:
  assumes "pages (page p) c ps" and "pages (page p) c ps'"
  shows "ps = ps'"
  using assms
proof (induction arbitrary: ps' rule: pages.induct)
  case (last_page cursor items)
  from last_page(2) show ?case
  proof (rule pages_cases)
    fix items' assume "ps' = [items']" and "page p cursor = (items', None)"
    then show ?thesis using last_page(1) by simp
  next
    fix items' c rest assume "page p cursor = (items', Some c)"
    then show ?thesis using last_page(1) by simp
  qed
next
  case (more_pages cursor items c rest)
  from more_pages(4) show ?case
  proof (rule pages_cases)
    fix items' assume "page p cursor = (items', None)"
    then show ?thesis using more_pages(1) by simp
  next
    fix items' c' rest'
    assume "ps' = items' # rest'" and "page p cursor = (items', Some c')" and "pages (page p) (Some c') rest'"
    then show ?thesis using more_pages(1,3) by simp
  qed
qed

lemma pages_complete:
  assumes "valid p"
  obtains ps where "pages (page p) c ps" and "\<And>ps'. pages (page p) c ps' \<Longrightarrow> ps' = ps"
    and "concat ps = remaining p c" and "\<forall>items \<in> set ps. length items \<le> limit p"
proof -
  from pages_exist [OF assms, of c] obtain ps where ps: "pages (page p) c ps" "concat ps = remaining p c"
    "\<forall>items \<in> set ps. length items \<le> limit p" by blast
  show thesis by (rule that [OF ps(1) _ ps(2,3)]) (rule pages_unique [OF _ ps(1)])
qed

end

section \<open>Listings by key\<close>

abbreviation after_cursor :: "string option \<Rightarrow> string \<Rightarrow> bool" where
  "after_cursor cursor key \<equiv> (case cursor of None \<Rightarrow> True | Some c \<Rightarrow> key > c)"

lemma last_taken: "0 < n \<Longrightarrow> n \<le> length xs \<Longrightarrow> last (take n xs) = xs ! (n - 1)"
  by (subst last_conv_nth) (auto simp: min_def)

lemma filter_beyond:
  assumes "sorted_wrt R xs" and "n < length xs" and "\<And>x y. R x y \<Longrightarrow> \<not> R y x"
  shows "filter (R (xs ! n)) xs = drop (Suc n) xs"
proof -
  have s: "sorted_wrt R (take (Suc n) xs @ drop (Suc n) xs)" using assms(1) by simp
  have n: "xs ! n \<in> set (take (Suc n) xs)" using assms(2) by (force simp: in_set_conv_nth)
  have "filter (R (xs ! n)) (drop (Suc n) xs) = drop (Suc n) xs"
    using s n by (intro filter_True) (auto simp: sorted_wrt_append simp del: append_take_drop_id)
  moreover have "filter (R (xs ! n)) (take (Suc n) xs) = []"
  proof -
    have "\<not> R (xs ! n) (xs ! i)" if "i \<le> n" for i
      using that assms by (cases "i = n") (auto simp: sorted_wrt_iff_nth_less)
    then show ?thesis using assms(2) by (auto simp: filter_empty_conv in_set_conv_nth)
  qed
  ultimately show ?thesis using filter_append [of "R (xs ! n)" "take (Suc n) xs" "drop (Suc n) xs"] by simp
qed

definition key_rest :: "(string \<times> 'a) list \<times> nat \<Rightarrow> string option \<Rightarrow> (string \<times> 'a) list" where
  "key_rest p cursor = filter (\<lambda>(key, _). after_cursor cursor key) (fst p)"

lemma paginate_page:
  "(pg_items (paginate es cursor n), pg_next_cursor (paginate es cursor n)) =
     (map snd (take n (key_rest (es, n) cursor)),
      if length (key_rest (es, n) cursor) \<le> n then None else Some (fst (last (take n (key_rest (es, n) cursor)))))"
  by (auto simp: paginate_def key_rest_def Let_def not_le min_def butlast_take)

lemma key_rest_next:
  assumes "sorted_wrt (<) (map fst (fst p))" and "0 < n" and "n < length (key_rest p cursor)"
  shows "key_rest p (Some (fst (last (take n (key_rest p cursor))))) = drop n (key_rest p cursor)"
proof -
  let ?f = "key_rest p cursor"
  let ?c = "fst (?f ! (n - 1))"
  have s: "sorted_wrt (<) (map fst ?f)" using assms(1) unfolding key_rest_def
    by (simp add: sorted_wrt_map sorted_wrt_filter)
  have l: "fst (last (take n ?f)) = ?c" using assms(2,3) by (simp add: last_taken)
  have "\<forall>x \<in> set ?f. after_cursor cursor (fst x)" unfolding key_rest_def by (auto split: option.splits)
  then have c: "after_cursor cursor ?c" using assms(3) nth_mem [of "n - 1" ?f] by (simp split: option.splits)
  have "key_rest p (Some ?c) = filter (\<lambda>x. fst x > ?c) ?f"
    using c unfolding key_rest_def by (auto simp: split_beta intro!: filter_cong split: option.splits)
  also have "\<dots> = drop n ?f" using filter_beyond [of "\<lambda>x y. fst x < fst y" ?f "n - 1"] s assms(2,3)
    by (simp add: sorted_wrt_map)
  finally show ?thesis using l by simp
qed

definition key_page :: "(string \<times> 'a) list \<times> nat \<Rightarrow> string option \<Rightarrow> 'a list \<times> string option" where
  "key_page p cursor = (let r = paginate (fst p) cursor (snd p) in (pg_items r, pg_next_cursor r))"

interpretation key_listing: paged_listing key_page "\<lambda>p c. map snd (key_rest p c)" snd
  "\<lambda>p. 0 < snd p \<and> sorted_wrt (<) (map fst (fst p))"
proof unfold_locales
  fix p :: "(string \<times> 'a) list \<times> nat" and c c'
  assume v: "0 < snd p \<and> sorted_wrt (<) (map fst (fst p))"
  have page: "key_page p c = (map snd (take (snd p) (key_rest p c)),
      if length (key_rest p c) \<le> snd p then None else Some (fst (last (take (snd p) (key_rest p c)))))"
    using paginate_page [of "fst p" c "snd p"] by (simp add: key_page_def Let_def)
  show "fst (key_page p c) = take (snd p) (map snd (key_rest p c))" by (simp add: page take_map)
  show "snd (key_page p c) = None \<longleftrightarrow> length (map snd (key_rest p c)) \<le> snd p" by (simp add: page)
  show "map snd (key_rest p (Some c')) = drop (snd p) (map snd (key_rest p c))" if "snd (key_page p c) = Some c'"
    using that v key_rest_next [of p "snd p" c] by (auto simp: page drop_map split: if_splits)
qed simp

section \<open>History, newest first\<close>

definition history_rest :: "HistoryLog \<times> SecretAddress option \<times> nat \<Rightarrow> u64 option \<Rightarrow> HistoryEntry list" where
  "history_rest p before = (case p of (log, address, _) \<Rightarrow>
     rev (filter (\<lambda>e. (case address of None \<Rightarrow> True | Some a \<Rightarrow> he_address e = a) \<and>
       (case before of None \<Rightarrow> True | Some b \<Rightarrow> he_seq e < b)) (hl_entries log)))"

definition history_listing ::
  "HistoryLog \<times> SecretAddress option \<times> nat \<Rightarrow> u64 option \<Rightarrow> HistoryEntry list \<times> u64 option" where
  "history_listing p before = (case p of (log, address, n) \<Rightarrow>
     let r = history_page log address before n in (hp_items r, hp_next_before_seq r))"

lemma history_listing_page:
  assumes "history_wf log" and "0 < n"
  shows "history_listing (log, address, n) before =
    (take n (history_rest (log, address, n) before),
     if length (history_rest (log, address, n) before) \<le> n then None
     else Some (he_seq (last (take n (history_rest (log, address, n) before)))))"
proof -
  let ?fs = "filter (\<lambda>e. case before of None \<Rightarrow> True | Some b \<Rightarrow> he_seq e < b)
    (filter (\<lambda>e. case address of None \<Rightarrow> True | Some a \<Rightarrow> he_address e = a) (hl_entries log))"
  have "sorted (map he_seq ?fs)"
    using assms(1) by (intro sorted_filter strict_sorted_imp_sorted) (simp add: history_wf_def)
  then have "sort_key he_seq ?fs = ?fs" by (rule sort_key_id_if_sorted)
  then have eq: "rev (sort_key he_seq ?fs) = history_rest (log, address, n) before"
    by (simp add: history_rest_def conj_commute)
  show ?thesis using assms(2) unfolding history_listing_def history_page_def prod.case Let_def eq
    by (auto simp: take_Cons')
qed

lemma history_rest_narrow:
  assumes "case before of None \<Rightarrow> True | Some b \<Rightarrow> c < b"
  shows "history_rest p (Some c) = filter (\<lambda>x. he_seq x < c) (history_rest p before)"
proof -
  have "he_seq x < c \<longleftrightarrow> he_seq x < c \<and> (case before of None \<Rightarrow> True | Some b \<Rightarrow> he_seq x < b)" for x
    using assms by (cases before) (simp, simp, metis less_trans)
  then have "(\<lambda>x. A x \<and> he_seq x < c) =
    (\<lambda>x. (A x \<and> (case before of None \<Rightarrow> True | Some b \<Rightarrow> he_seq x < b)) \<and> he_seq x < c)" for A
    by (intro ext) blast
  from arg_cong [OF this [of "\<lambda>e. case fst (snd p) of None \<Rightarrow> True | Some a \<Rightarrow> he_address e = a"],
      of "\<lambda>P. rev (filter P (hl_entries (fst p)))"] show ?thesis
    unfolding history_rest_def by (simp only: case_prod_beta option.case rev_filter [symmetric] filter_filter)
qed

lemma history_rest_next:
  assumes "history_wf (fst p)" and "0 < n" and "n < length (history_rest p before)"
  shows "history_rest p (Some (he_seq (last (take n (history_rest p before))))) = drop n (history_rest p before)"
proof -
  obtain log address k where p: "p = (log, address, k)" by (cases p)
  let ?f = "history_rest p before"
  let ?c = "he_seq (?f ! (n - 1))"
  have "sorted_wrt (\<lambda>x y. he_seq y < he_seq x) ?f"
    using assms(1) by (simp add: p history_rest_def history_wf_def sorted_wrt_rev sorted_wrt_map sorted_wrt_filter)
  then have beyond: "filter (\<lambda>x. he_seq x < ?c) ?f = drop n ?f"
    using filter_beyond [of "\<lambda>x y. he_seq y < he_seq x" ?f "n - 1"] assms(2,3) by simp
  have l: "he_seq (last (take n ?f)) = ?c" using assms(2,3) by (simp add: last_taken)
  have "\<forall>x \<in> set ?f. case before of None \<Rightarrow> True | Some b \<Rightarrow> he_seq x < b"
    unfolding history_rest_def p by (auto split: option.splits)
  then have c: "case before of None \<Rightarrow> True | Some b \<Rightarrow> ?c < b" using assms(3) nth_mem [of "n - 1" ?f] by (simp split: option.splits)
  have "history_rest p (Some ?c) = filter (\<lambda>x. he_seq x < ?c) ?f"
    by (rule history_rest_narrow [OF c])
  then show ?thesis using l beyond by simp
qed

interpretation history_paging: paged_listing history_listing history_rest "\<lambda>p. snd (snd p)"
  "\<lambda>p. 0 < snd (snd p) \<and> history_wf (fst p)"
proof unfold_locales
  fix p :: "HistoryLog \<times> SecretAddress option \<times> nat" and c c'
  assume v: "0 < snd (snd p) \<and> history_wf (fst p)"
  have page: "history_listing p c = (take (snd (snd p)) (history_rest p c),
      if length (history_rest p c) \<le> snd (snd p) then None
      else Some (he_seq (last (take (snd (snd p)) (history_rest p c)))))"
    using v history_listing_page [of "fst p" "snd (snd p)" "fst (snd p)" c] by simp
  show "fst (history_listing p c) = take (snd (snd p)) (history_rest p c)" by (simp add: page)
  show "snd (history_listing p c) = None \<longleftrightarrow> length (history_rest p c) \<le> snd (snd p)" by (simp add: page)
  show "history_rest p (Some c') = drop (snd (snd p)) (history_rest p c)" if "snd (history_listing p c) = Some c'"
    using that v history_rest_next [of p "snd (snd p)" c] by (auto simp: page split: if_splits)
qed simp

end
