(* ===== verification/Store_Properties.thy ===== *)
theory Store_Properties
  imports Worker_Laws Startup_Laws Paging Store_Reference
begin

text \<open>
  The properties of the encrypted store: sealing, loading, committing, listing, the command
  loop and the verification at startup.  The witnesses run on the reference store.
\<close>

section \<open>A reference store with one secret\<close>

abbreviation sample_address :: SecretAddress where
  "sample_address \<equiv> Local ''svc'' None"

definition sample_put :: "DocumentOperation list" where
  "sample_put = [Put sample_address ''secret'' None]"

definition sample_worker :: StoreWorker where
  "sample_worker = snd (op_mutate (document_ops reference_store LocalKeyring ''p'') sample_put (Service Expiry) 1
     (empty_worker reference_store))"

definition sample_entries :: entries where
  "sample_entries = fold (apply_entry reference_store) sample_put Map.empty"

lemma sample_put_ok:
  "op_mutate (document_ops reference_store LocalKeyring ''p'') sample_put (Service Expiry) 1
     (empty_worker reference_store) = (Inr (), sample_worker) \<and>
   holds reference_store cdoc_view LocalKeyring ''p'' sample_worker sample_entries \<and>
   store_room reference_store LocalKeyring ''p'' sample_worker 5"
proof -
  have h: "holds reference_store cdoc_view LocalKeyring ''p'' (empty_worker reference_store) Map.empty"
    by (rule reference_holds) (simp add: PERSONAL_SECRET_NAMESPACE_def)
  have fit: "deadlines_fit sample_entries"
    by (auto simp: sample_entries_def deadlines_fit_def sample_put_def split: if_splits)
  have room: "store_room reference_store LocalKeyring ''p'' (empty_worker reference_store) (length sample_put + 5)"
    by (rule reference_room) (simp add: sample_put_def)
  from live_document_store.mutate_live [OF h room fit [unfolded sample_entries_def], where provenance = "Service Expiry" and now = 1]
  obtain w where w: "op_mutate (document_ops reference_store LocalKeyring ''p'') sample_put (Service Expiry) 1
     (empty_worker reference_store) = (Inr (), w)" "store_room reference_store LocalKeyring ''p'' w 5" by blast
  then have "w = sample_worker" by (simp add: sample_worker_def)
  then show ?thesis using w document_store.mutate_ok [OF h w(1)] by (simp add: sample_entries_def)
qed

lemmas sample_holds = sample_put_ok [THEN conjunct2, THEN conjunct1]
lemmas sample_room = sample_put_ok [THEN conjunct2, THEN conjunct2]

lemma sample_consistent: "consistent reference_store sample_worker"
  using sample_room by (simp add: store_room_def)

text \<open>The same store with a row of another table added and more statements behind it.\<close>

definition moved_worker :: StoreWorker where
  "moved_worker = sample_worker\<lparr>sw_io := Suc (sw_io sample_worker),
     sw_db := (sw_db sample_worker)\<lparr>db_meta := fmupd ''extra'' ''row'' (db_meta (sw_db sample_worker))\<rparr>\<rparr>"

lemma sample_loads:
  "\<exists>l w. load_document reference_store (document_id reference_store LocalKeyring ''p'') LocalKeyring (Some ''p'')
     sample_worker = (Inr l, w)"
  "\<exists>l w. load_document reference_store (document_id reference_store LocalKeyring ''p'') LocalKeyring (Some ''p'')
     moved_worker = (Inr l, w)"
proof -
  from sample_holds obtain m where m: "slot reference_store cdoc_view LocalKeyring ''p'' (sw_db sample_worker)
    (sw_verified sample_worker) m" by (auto simp: holds_def)
  have m': "slot reference_store cdoc_view LocalKeyring ''p'' (sw_db moved_worker) (sw_verified moved_worker) m"
    using m by (simp add: slot_def head_at_def absent_def moved_worker_def)
  have a: "anchor_ok reference_store (sw_db sample_worker) (sw_verified sample_worker)"
    using sample_consistent by (simp add: consistent_def undisturbed_def)
  have a': "anchor_ok reference_store (sw_db moved_worker) (sw_verified moved_worker)"
    using a by (simp add: anchor_ok_def moved_worker_def)
  show "\<exists>l w. load_document reference_store (document_id reference_store LocalKeyring ''p'') LocalKeyring (Some ''p'')
     sample_worker = (Inr l, w)" using slot_calm [OF m a reference_calm] by blast
  show "\<exists>l w. load_document reference_store (document_id reference_store LocalKeyring ''p'') LocalKeyring (Some ''p'')
     moved_worker = (Inr l, w)" using slot_calm [OF m' a' reference_calm] by blast
qed

section \<open>Sealed documents\<close>

text \<open>An envelope that claims the context \<open>c'\<close> and carries, in its part \<open>dst\<close>, what the
  part \<open>src\<close> of \<open>e\<close> carries.\<close>

definition sealed_part :: "EncryptedSnapshot \<Rightarrow> SnapshotPart \<Rightarrow> bytes \<times> bytes" where
  "sealed_part e src = (case src of Records \<Rightarrow> (es_nonce e, es_ciphertext e)
     | History \<Rightarrow> (es_history_nonce e, es_history_ciphertext e))"

definition relabelled :: "EncryptedSnapshot \<Rightarrow> SnapshotPart \<Rightarrow> EnvelopeContext \<Rightarrow> SnapshotPart \<Rightarrow> EncryptedSnapshot" where
  "relabelled e src c' dst =
     (let (n, t) = sealed_part e src;
          e' = e\<lparr>es_vault_id := ec_vault_id c', es_document_id := ec_document_id c', es_scope := ec_scope c',
            es_device_key_id := ec_device_key_id c', es_generation := ec_generation c',
            es_key_epoch := ec_key_epoch c'\<rparr>
      in case dst of Records \<Rightarrow> e'\<lparr>es_nonce := n, es_ciphertext := t\<rparr>
         | History \<Rightarrow> e'\<lparr>es_history_nonce := n, es_history_ciphertext := t\<rparr>)"

definition accepts_other_aad :: "aead \<Rightarrow> bytes \<Rightarrow> bytes \<Rightarrow> bytes \<Rightarrow> bool" where
  "accepts_other_aad A key a a' \<longleftrightarrow> a \<noteq> a' \<and>
     (\<exists>n p t. aead_seal A key n a p = Some t \<and> aead_open A key n a' t \<noteq> None)"

lemma decrypt_relabelled:
  assumes "es_version e = ENVELOPE_VERSION" and "es_algorithm e = Aes256Gcm"
  shows "envelope_decrypt A (relabelled e src c' dst) dst key = (case sealed_part e src of (n, t) \<Rightarrow>
    case aead_open A key n (snapshot_header c' Aes256Gcm dst) t of None \<Rightarrow> Inl Crypto | Some q \<Rightarrow> Inr q)"
proof -
  obtain n t where nt: "sealed_part e src = (n, t)" by (cases "sealed_part e src")
  have c: "envelope_context (relabelled e src c' dst) = c'" "es_version (relabelled e src c' dst) = ENVELOPE_VERSION"
    "es_algorithm (relabelled e src c' dst) = Aes256Gcm" "sealed_part (relabelled e src c' dst) dst = (n, t)"
    using assms nt by (cases dst; simp add: relabelled_def envelope_context_def sealed_part_def)+
  show ?thesis unfolding envelope_decrypt_def sealed_part_def [symmetric] c
    by (simp add: nt crypto_decrypt_def provider_for_def split: option.splits)
qed

text \<open>C28: the two parts of an encrypted snapshot open to what was sealed, and to nothing else
  in any other place: an envelope that presents a part under another context (vault,
  document, kind, device, generation or key epoch) or as the other part fails to decrypt,
  unless the cipher accepts a ciphertext under associated data it was not sealed with.\<close>

theorem envelope_bound_to_context:
  assumes "aead_ok A" and "encrypt_snapshot A dr dh c records history key = Inr e"
    and "envelope_wf c" and "envelope_wf c'"
  shows "envelope_decrypt A (relabelled e src c' dst) dst key =
      (if (c', dst) = (c, src) then Inr (case src of Records \<Rightarrow> records | History \<Rightarrow> history) else Inl Crypto) \<or>
    accepts_other_aad A key (snapshot_header c Aes256Gcm src) (snapshot_header c' Aes256Gcm dst)"
proof -
  let ?p = "case src of Records \<Rightarrow> records | History \<Rightarrow> history"
  let ?a = "snapshot_header c Aes256Gcm src" and ?a' = "snapshot_header c' Aes256Gcm dst"
  obtain n t where nt: "sealed_part e src = (n, t)" by (cases "sealed_part e src")
  have s: "aead_seal A key n ?a ?p = Some t" and e: "es_version e = ENVELOPE_VERSION" "es_algorithm e = Aes256Gcm"
    using assms(2) nt by (cases src; auto simp: encrypt_snapshot_Inr sealed_part_def)+
  have d: "envelope_decrypt A (relabelled e src c' dst) dst key =
      (case aead_open A key n ?a' t of None \<Rightarrow> Inl Crypto | Some q \<Rightarrow> Inr q)"
    using decrypt_relabelled [OF e] by (simp add: nt)
  have "?a = ?a' \<longleftrightarrow> (c', dst) = (c, src)" using snapshot_header_eq [OF assms(3,4)] by auto
  then show ?thesis using s d aead_okD [OF assms(1) s]
    by (cases "aead_open A key n ?a' t") (auto simp: accepts_other_aad_def)
qed

text \<open>A cipher whose tag is the end of the associated data, the generation and the epoch.\<close>

definition tag_aead :: aead where
  "tag_aead = \<lparr>aead_seal = (\<lambda>k n a p. if length a < 16 then None else Some (p @ drop (length a - 16) a)),
     aead_open = (\<lambda>k n a c. if length a < 16 \<or> length c < 16 \<or> drop (length c - 16) c \<noteq> drop (length a - 16) a
       then None else Some (take (length c - 16) c))\<rparr>"

lemma tag_aead_ok: "aead_ok tag_aead"
  by (auto simp: aead_ok_def tag_aead_def)

abbreviation sample_context :: "u64 \<Rightarrow> EnvelopeContext" where
  "sample_context g \<equiv> \<lparr>ec_vault_id = replicate 16 (CHR ''v''), ec_document_id = replicate 32 (CHR ''d''),
     ec_scope = LocalKeyring, ec_device_key_id = replicate 32 (CHR ''k''), ec_generation = g, ec_key_epoch = 1\<rparr>"

lemma tag_rejects: "\<not> accepts_other_aad tag_aead key (snapshot_header (sample_context 1) Aes256Gcm Records)
    (snapshot_header (sample_context 2) Aes256Gcm Records)"
proof -
  have "drop (length (x @ be64 (unat g) @ be64 (unat h)) - 16) (x @ be64 (unat g) @ be64 (unat h)) =
      be64 (unat g) @ be64 (unat h)" for x and g h :: u64
    by simp
  then have "drop (length (snapshot_header (sample_context g) Aes256Gcm Records) - 16)
      (snapshot_header (sample_context g) Aes256Gcm Records) = be64 (unat g) @ be64 (unat (1 :: u64))" for g
    unfolding snapshot_header_def by (simp only: append_assoc [symmetric] EnvelopeContext.simps)
  moreover have "be64 (unat (1 :: u64)) \<noteq> be64 (unat (2 :: u64))" unfolding be64_unat_eq by simp
  ultimately show ?thesis
    by (auto simp: accepts_other_aad_def tag_aead_def split: if_splits)
qed

theorem envelope_bound_to_context_witness:
  "\<exists>e. encrypt_snapshot tag_aead (Inr (replicate 12 (CHR ''n''))) (Inr (replicate 12 (CHR ''m''))) (sample_context 1)
      ''records'' ''history'' (replicate 32 (CHR ''k'')) = Inr e \<and>
    envelope_decrypt tag_aead (relabelled e Records (sample_context 2) Records) Records (replicate 32 (CHR ''k'')) =
      Inl Crypto"
proof -
  have wf: "envelope_wf (sample_context 1)" "envelope_wf (sample_context 2)" by (simp_all add: envelope_wf_def)
  obtain e where e: "encrypt_snapshot tag_aead (Inr (replicate 12 (CHR ''n''))) (Inr (replicate 12 (CHR ''m'')))
      (sample_context 1) ''records'' ''history'' (replicate 32 (CHR ''k'')) = Inr e"
    by (auto simp: encrypt_snapshot_Inr tag_aead_def snapshot_header_def)
  have "sample_context 2 \<noteq> sample_context 1" by simp
  with envelope_bound_to_context [OF tag_aead_ok e wf, of Records Records] tag_rejects e show ?thesis by simp
qed

section \<open>Loading and committing\<close>

text \<open>C9: what a document loads to is fixed by the verified state.  Two databases that load the
  same document under the same verified state give the same content, whatever else differs in
  them: stored bytes that were replaced either fail to load or collide under SHA-256 with the
  bytes they replace.\<close>

theorem loaded_document_authentic:
  assumes "sw_verified w1 = sw_verified w2"
    and "load_document E ident kind part w1 = (Inr l1, w1')"
    and "load_document E ident kind part w2 = (Inr l2, w2')"
  shows "l1 = l2 \<or>
    (\<exists>x \<in> stored_blobs (sw_db w1) ident. \<exists>y \<in> stored_blobs (sw_db w2) ident. collision E x y)"
  using load_document_authentic [OF assms(2,3,1)] .

theorem loaded_document_authentic_witness:
  "\<exists>l1 w1 l2 w2. load_document reference_store (document_id reference_store LocalKeyring ''p'') LocalKeyring (Some ''p'')
      sample_worker = (Inr l1, w1) \<and>
    load_document reference_store (document_id reference_store LocalKeyring ''p'') LocalKeyring (Some ''p'')
      moved_worker = (Inr l2, w2) \<and>
    (l1 = l2 \<or> (\<exists>x \<in> stored_blobs (sw_db sample_worker) (document_id reference_store LocalKeyring ''p'').
       \<exists>y \<in> stored_blobs (sw_db moved_worker) (document_id reference_store LocalKeyring ''p'').
       collision reference_store x y))"
proof -
  obtain l1 w1 where l1: "load_document reference_store (document_id reference_store LocalKeyring ''p'') LocalKeyring
    (Some ''p'') sample_worker = (Inr l1, w1)" using sample_loads(1) by blast
  obtain l2 w2 where l2: "load_document reference_store (document_id reference_store LocalKeyring ''p'') LocalKeyring
    (Some ''p'') moved_worker = (Inr l2, w2)" using sample_loads(2) by blast
  have "sw_verified sample_worker = sw_verified moved_worker" by (simp add: moved_worker_def)
  from loaded_document_authentic [OF this l1 l2] l1 l2 show ?thesis by blast
qed

text \<open>C22: a commit is all or nothing.  Whatever fails while it runs, the database is left as
  it was or holds the whole commit; the verified state moves exactly when the commit is
  acknowledged; and an unacknowledged commit is reported as a database error, which ends the
  command loop.\<close>

theorem commit_all_or_nothing:
  "case persist_commit E p w of (r, w') \<Rightarrow>
     (\<exists>e. r = Inl e \<and> sw_db w' = sw_db w \<and> sw_verified w' = sw_verified w) \<or>
     (\<exists>m b. sign_manifest E (next_documents p (sw_verified w)) False = Inr m \<and> to_vec (j_manifest E) m = Inr b \<and>
        sw_db w' = commit_db p m b (sw_db w) \<and>
        (r = Inr () \<and> sw_verified w' = commit_verified E p m b (sw_verified w) \<or>
         (\<exists>e. r = Inl (Database e)) \<and> sw_verified w' = sw_verified w))"
proof (cases "persist_commit E p w")
  case (Pair r w')
  from persist_commit_outcome [OF Pair] show ?thesis
    unfolding Pair by (cases rule: commit_outcome.cases) (auto simp: commit_checked_def)
qed

text \<open>C8: on a consistent store a batch of operations is committed, and every later read of the
  document sees exactly the batch applied to what the document held.\<close>

theorem batch_written_and_read_back:
  assumes "holds E V kind part w M" and "store_room E kind part w (length ops + n)"
    and "deadlines_fit (fold (apply_entry E) ops M)"
  shows "\<exists>w'. store_mutate E (document_id E kind part) kind part ops (context_of E provenance now) w = (Inr (), w') \<and>
    store_room E kind part w' n \<and>
    (\<forall>as later. \<exists>w''. store_get_many E (document_id E kind part) kind part as later w' =
       (rmapM (read_value E (fold (apply_entry E) ops M) later) as, w''))"
proof -
  from live_document_store.mutate_live [OF assms, where provenance = provenance and now = now] obtain w' where
    w': "op_mutate (document_ops E kind part) ops provenance now w = (Inr (), w')" "store_room E kind part w' n" by blast
  have h: "holds E V kind part w' (fold (apply_entry E) ops M)" by (rule document_store.mutate_ok [OF assms(1) w'(1)])
  have "\<exists>w''. op_get_many (document_ops E kind part) as later w' =
      (rmapM (read_value E (fold (apply_entry E) ops M) later) as, w'')" for as later
    using document_store.get_many_ready [OF h live_document_store.room_ready [OF w'(2)]] by blast
  then show ?thesis using w' by (auto simp: document_ops_def)
qed

theorem batch_written_and_read_back_witness:
  "\<exists>w'. store_mutate reference_store (document_id reference_store LocalKeyring ''p'') LocalKeyring ''p''
      [Delete sample_address, Put (Local ''other'' None) ''more'' None] (context_of reference_store (Service Expiry) 2)
      sample_worker = (Inr (), w') \<and>
    (\<exists>w''. store_get_many reference_store (document_id reference_store LocalKeyring ''p'') LocalKeyring ''p''
       [Local ''other'' None] 3 w' = (Inr [Some ''more''], w''))"
proof -
  let ?ops = "[Delete sample_address, Put (Local ''other'' None) ''more'' None]"
  have fit: "deadlines_fit (fold (apply_entry reference_store) ?ops sample_entries)"
    by (auto simp: sample_entries_def deadlines_fit_def sample_put_def split: if_splits)
  have room: "store_room reference_store LocalKeyring ''p'' sample_worker (length ?ops + 3)"
    using sample_room by simp
  from batch_written_and_read_back [OF sample_holds room fit, where provenance = "Service Expiry" and now = 2]
  obtain w' where w': "store_mutate reference_store (document_id reference_store LocalKeyring ''p'') LocalKeyring ''p''
      ?ops (context_of reference_store (Service Expiry) 2) sample_worker = (Inr (), w')"
    "\<forall>as later. \<exists>w''. store_get_many reference_store (document_id reference_store LocalKeyring ''p'') LocalKeyring
       ''p'' as later w' = (rmapM (read_value reference_store
         (fold (apply_entry reference_store) ?ops sample_entries) later) as, w'')" by blast
  have "rmapM (read_value reference_store (fold (apply_entry reference_store) ?ops sample_entries) 3)
      [Local ''other'' None] = Inr [Some ''more'']"
    by (simp add: read_value_def read_entry_def live_def)
  with w' show ?thesis by metis
qed




text \<open>C24: reading a secret gives the stored value while it is live, and removes it from the
  document once its deadline has passed.\<close>

theorem store_get_refines:
  assumes "holds E V kind part w M"
    and "store_get E (document_id E kind part) kind part a now w = (Inr v, w')"
  shows "read_entry E M now a = Inr v \<and> holds E V kind part w' (expire_entry E now a M)"
  using document_store.get_ok [of E V kind part w M a now v w'] assms by (simp add: document_ops_def)

theorem store_get_refines_witness:
  "\<exists>w'. store_get reference_store (document_id reference_store LocalKeyring ''p'') LocalKeyring ''p'' sample_address 5
      sample_worker = (Inr (Some \<lparr>ss_value = ''secret'', ss_expires_at = None\<rparr>), w') \<and>
    holds reference_store cdoc_view LocalKeyring ''p'' w' (expire_entry reference_store 5 sample_address sample_entries)"
proof -
  have e: "sample_entries (storage_key reference_store sample_address) = Some (sample_address, ''secret'', None)"
    by (simp add: sample_entries_def sample_put_def)
  then have "\<exists>w'. op_get (document_ops reference_store LocalKeyring ''p'') sample_address 5 sample_worker =
      (read_entry reference_store sample_entries 5 sample_address, w') \<and>
      holds reference_store cdoc_view LocalKeyring ''p'' w' sample_entries \<and>
      (is_ok (read_entry reference_store sample_entries 5 sample_address) \<longrightarrow>
        store_room reference_store LocalKeyring ''p'' w' 5)"
    by (intro live_document_store.get_live [OF sample_holds sample_room]) (simp add: live_def)
  then obtain w' where "store_get reference_store (document_id reference_store LocalKeyring ''p'') LocalKeyring ''p''
      sample_address 5 sample_worker = (Inr (Some \<lparr>ss_value = ''secret'', ss_expires_at = None\<rparr>), w')"
    using e by (auto simp: document_ops_def read_entry_def live_def)
  with store_get_refines [OF sample_holds this] show ?thesis by blast
qed

section \<open>The command loop\<close>

text \<open>C25: whatever commands the worker receives, in whatever order and with whatever failures,
  either the database rows are still exactly those of the verified state or the worker has
  sealed itself.\<close>

theorem worker_inventory_or_sealed:
  assumes "store_env_ok E V" and "inventory_wf E (sw_db w) (sw_verified w)" and "only_seals turns"
    and "run_worker E turns s w = (replies, s', w')"
  shows "inventory_wf E (sw_db w') (sw_verified w') \<or> ws_sealed s'"
  using run_worker_inventory [OF assms] .

definition sample_turns :: "Turn list" where
  "sample_turns = [Received (Get LocalKeyring ''p'' sample_address 5) 1 1 2, Meanwhile request_shutdown, TimedOut 3]"

definition open_status :: WorkerStatus where
  "open_status = \<lparr>ws_sealed = False, ws_deadline = Some 9, ws_shutdown_complete = False\<rparr>"

theorem worker_inventory_or_sealed_witness:
  "case run_worker reference_store sample_turns open_status sample_worker of (replies, s', w') \<Rightarrow>
     inventory_wf reference_store (sw_db w') (sw_verified w') \<or> ws_sealed s'"
proof -
  obtain replies s' w' where run: "run_worker reference_store sample_turns open_status sample_worker = (replies, s', w')"
    by (cases "run_worker reference_store sample_turns open_status sample_worker") auto
  have i: "inventory_wf reference_store (sw_db sample_worker) (sw_verified sample_worker)"
    using sample_consistent by (simp add: consistent_def)
  have "only_seals sample_turns" by (simp add: only_seals_def sample_turns_def request_shutdown_def)
  from worker_inventory_or_sealed [OF reference_store_ok i this run] run show ?thesis by simp
qed

text \<open>C26: the lease deadline is enforced around every command.  A command received once the
  deadline has passed is not executed, and a command that was running when it passed is
  answered with the sealed error only; in the end the worker is sealed.\<close>

theorem lease_deadline_enforced:
  assumes "ws_deadline s = Some d" and "run_worker E (Received command t1 t2 t3 # turns) s w = (replies, s', w')"
    and "only_seals turns"
  shows "(d \<le> t1 \<or> d \<le> t2 \<longrightarrow> replies = [] \<and> w' = w \<and> ws_sealed s') \<and>
    (d \<le> t3 \<longrightarrow> (\<forall>r \<in> set replies. r = Inl Sealed) \<and> ws_sealed s')"
proof -
  have sealed: "fst (worker_is_sealed t s) \<and> ws_sealed (snd (worker_is_sealed t s))"
    if "ws_deadline s = Some d" "d \<le> t" for t s
    using that by (simp add: worker_is_sealed_def Let_def)
  have kept: "ws_deadline (snd (worker_is_sealed t s)) = ws_deadline s" for t s
    by (simp add: worker_is_sealed_def Let_def)
  have open_only: "ws_sealed (snd (worker_is_sealed t s)) = fst (worker_is_sealed t s)" for t s
    by (simp add: worker_is_sealed_def Let_def)
  define s1 where "s1 = snd (worker_is_sealed t1 s)"
  define s2 where "s2 = snd (worker_is_sealed t2 s1)"
  have s1: "worker_is_sealed t1 s = (fst (worker_is_sealed t1 s), s1)"
    and s2: "worker_is_sealed t2 s1 = (fst (worker_is_sealed t2 s1), s2)" by (simp_all add: s1_def s2_def)
  have d: "ws_deadline s1 = Some d" "ws_deadline s2 = Some d" by (simp_all add: s1_def s2_def kept assms(1))
  show ?thesis
  proof (cases "fst (worker_is_sealed t1 s) \<or> fst (worker_is_sealed t2 s1) \<or> execute_command E command = None")
    case True
    then have "replies = [] \<and> w' = w \<and> ws_sealed s'"
      using assms(2) open_only [of t1 s] open_only [of t2 s1] s1 s2
      by (auto simp: Let_def s1_def s2_def split: prod.splits if_splits option.splits)
    then show ?thesis by simp
  next
    case False
    then have early: "\<not> d \<le> t1" "\<not> d \<le> t2" using sealed [OF assms(1)] sealed [OF d(1)] by blast+
    from False obtain act where act: "execute_command E command = Some act" by auto
    obtain result w2 where r: "act w = (result, w2)" by (cases "act w")
    obtain reply s3 where sr: "send_result t3 result s2 = (reply, s3)" by (cases "send_result t3 result s2")
    obtain rest s4 w4 where run: "run_worker E turns s3 w2 = (rest, s4, w4)" by (cases "run_worker E turns s3 w2") auto
    have eq: "replies = reply # rest \<and> s' = s4 \<and> w' = w4"
      using assms(2) False s1 s2 act r sr run by (auto simp: Let_def split: prod.splits if_splits)
    have "reply = Inl Sealed \<and> rest = [] \<and> ws_sealed s4" if "d \<le> t3"
    proof -
      have "reply = Inl Sealed \<and> ws_sealed s3"
        using sr sealed [OF d(2) that] by (auto simp: send_result_def Let_def split: prod.splits if_splits)
      then show ?thesis using run_worker_sealed [OF _ assms(3) run] by blast
    qed
    then show ?thesis using eq early by auto
  qed
qed

theorem lease_deadline_enforced_witness:
  "case run_worker reference_store [Received (Get LocalKeyring ''p'' sample_address 5) 1 2 10] open_status
     sample_worker of (replies, s', w') \<Rightarrow> (\<forall>r \<in> set replies. r = Inl Sealed) \<and> ws_sealed s'"
proof -
  let ?turn = "Received (Get LocalKeyring ''p'' sample_address 5) 1 2 10"
  obtain replies s' w' where run: "run_worker reference_store [?turn] open_status sample_worker = (replies, s', w')"
    by (cases "run_worker reference_store [?turn] open_status sample_worker") auto
  have d: "ws_deadline open_status = Some 9" by (simp add: open_status_def)
  have "only_seals []" by (simp add: only_seals_def)
  from lease_deadline_enforced [OF d run this] run show ?thesis by simp
qed

section \<open>Startup\<close>

text \<open>C27: the signed manifest fixes the whole store.  Two databases that pass the verification
  at startup with the same manifest identifier hold the same document rows and snapshot
  digests, unless two of their manifests, inventories or heads collide under SHA-256.\<close>

theorem startup_state_determined:
  assumes "verify_current_state E w = (Inr v, w1)" and "verify_current_state E w' = (Inr v', w1')"
    and "typed_store E (sw_db w)" and "typed_store E (sw_db w')" and "vs_head v = vs_head v'"
  shows "(\<forall>i. map_option signed_part (fmlookup (vs_documents v) i) =
      map_option signed_part (fmlookup (vs_documents v') i)) \<or>
    manifest_collision E (sw_db w) (sw_db w') \<or> head_collision E (sw_db w) (sw_db w') \<or>
    collision E (inventory_transcript (head_inventory (sw_db w))) (inventory_transcript (head_inventory (sw_db w')))"
  using startup_determined [OF assms] by blast

definition extra_worker :: StoreWorker where
  "extra_worker = (empty_worker reference_store)\<lparr>sw_db := (sw_db (empty_worker reference_store))\<lparr>db_meta :=
     fmupd ''extra'' ''row'' (db_meta (sw_db (empty_worker reference_store)))\<rparr>\<rparr>"

lemma reference_manifest:
  "sign_manifest reference_store fmempty False = Inr (empty_manifest reference_store) \<and>
   from_slice (j_manifest reference_store) (projr (to_vec (j_manifest reference_store) (empty_manifest reference_store))) =
     Inr (empty_manifest reference_store) \<and> manifest_wf (empty_manifest reference_store)"
proof -
  obtain m where m: "sign_manifest reference_store fmempty False = Inr m"
    by (auto simp: sign_manifest_def manifest_new_def Let_def reference_store_def doc_env.defs reference_signing_def)
  have h: "hash_env_ok reference_store" using reference_store_ok by (simp add: store_env_ok_def)
  have "manifest_wf m" using m h
    by (auto simp: sign_manifest_def manifest_new_def Let_def rbind_Inr manifest_wf_def inventory_digest_def
        digest_def hash_env_ok_def CURRENT_SCHEMA_VERSION_def) (auto simp: reference_store_def doc_env.defs)
  moreover obtain b where b: "to_vec (j_manifest reference_store) m = Inr b"
    using store_json_total(4) [OF reference_store_ok] by blast
  moreover have "from_slice (j_manifest reference_store) b = Inr m" by (rule store_env_okD(10) [OF reference_store_ok b])
  ultimately show ?thesis using m by (simp add: empty_manifest_def)
qed

lemma reference_starts:
  assumes "w = empty_worker reference_store \<or> w = extra_worker"
  shows "\<exists>w'. verify_current_state reference_store w = (Inr (sw_verified (empty_worker reference_store)), w') \<and>
    typed_store reference_store (sw_db w)"
proof -
  let ?E = reference_store and ?m = "empty_manifest reference_store"
  let ?b = "projr (to_vec (j_manifest ?E) ?m)"
  have db: "db_documents (sw_db w) = fmempty" "db_snapshots (sw_db w) = fmempty" "db_heads (sw_db w) = fmempty"
    "fmlookup (db_meta (sw_db w)) ''current-state-manifest'' = Some ?b"
    "fmlookup (db_meta (sw_db w)) ''current-commit-head'' = Some (sm_manifest_id ?m)"
    using assms by (auto simp: empty_worker_def extra_worker_def Let_def fmlookup_of_list)
  have con: "anchor_ok ?E (sw_db (empty_worker ?E)) (sw_verified (empty_worker ?E))"
    using empty_worker_consistent [OF reference_store_ok reference_store_total reference_calm]
    by (simp add: consistent_def undisturbed_def)
  then have len: "length ?b \<le> MAX_MANIFEST_BYTES" "length (sm_manifest_id ?m) = 32"
    by (auto simp: anchor_ok_def empty_worker_def Let_def fmlookup_of_list)
  have ver: "manifest_verify ?E (signer ?E) ?m (device_vault_id ?E) (device_key_id ?E) = Inr ()"
    using reference_manifest reference_store_ok manifest_roundtrip
    by (auto simp: sign_manifest_def store_env_ok_def)
  have nil [simp]: "sorted_list_of_fset {||} = []" by (simp add: sorted_list_of_fset.rep_eq)
  have fc [simp]: "fcard {||} = 0" by (simp add: fcard.rep_eq)
  have count: "sm_document_count ?m = 0" "sm_inventory_digest ?m = inventory_digest ?E []"
    using manifest_new_Inr [OF reference_manifest [THEN conjunct1, unfolded sign_manifest_def]]
    by (simp_all add: inventory_list_def)
  have typed: "typed_store ?E (sw_db w)"
    using reference_manifest db by (auto simp: typed_store_def)
  have fault: "db_fault ?E n = None" "commit_fault ?E n = None" for n
    by (simp_all add: reference_store_def doc_env.defs)
  have manifest: "read_manifest ?E x = (Inr (?m, ?b), x\<lparr>sw_io := Suc (sw_io x)\<rparr>)" if "sw_db x = sw_db w" for x
    using that db len reference_manifest fault by (simp add: read_manifest_ok)
  have head: "current_commit_head ?E x = (Inr (Some (sm_manifest_id ?m)), x\<lparr>sw_io := Suc (sw_io x)\<rparr>)" if "sw_db x = sw_db w" for x
    using that db len fault by (simp add: current_commit_head_ok)
  have q: "query ?E f x = (Inr (f (sw_db x)), x\<lparr>sw_io := Suc (sw_io x)\<rparr>)" for f :: "Db \<Rightarrow> 'x" and x
    by (rule query_step) (rule fault)
  have "\<exists>w'. verify_current_state ?E w = (Inr (sw_verified (empty_worker ?E)), w')"
    unfolding verify_current_state_def transaction_def read_current_heads_def verify_current_payloads_def
      verify_inventory_def document_rows_def
    by (simp add: sbind_def statement_def fault manifest head q ver db count len slift_def sret_def sget_def
        head_rows_def payload_rows_def inventory_list_def commit_or_undo_def empty_worker_def Let_def)
  with typed show ?thesis by blast
qed

theorem startup_state_determined_witness:
  "\<exists>v w1 v' w1'. verify_current_state reference_store (empty_worker reference_store) = (Inr v, w1) \<and>
    verify_current_state reference_store extra_worker = (Inr v', w1') \<and>
   ((\<forall>i. map_option signed_part (fmlookup (vs_documents v) i) =
      map_option signed_part (fmlookup (vs_documents v') i)) \<or>
    manifest_collision reference_store (sw_db (empty_worker reference_store)) (sw_db extra_worker) \<or>
    head_collision reference_store (sw_db (empty_worker reference_store)) (sw_db extra_worker) \<or>
    collision reference_store (inventory_transcript (head_inventory (sw_db (empty_worker reference_store))))
      (inventory_transcript (head_inventory (sw_db extra_worker))))"
proof -
  obtain w1 where a: "verify_current_state reference_store (empty_worker reference_store) =
      (Inr (sw_verified (empty_worker reference_store)), w1)" "typed_store reference_store (sw_db (empty_worker reference_store))"
    using reference_starts by blast
  obtain w2 where b: "verify_current_state reference_store extra_worker =
      (Inr (sw_verified (empty_worker reference_store)), w2)" "typed_store reference_store (sw_db extra_worker)"
    using reference_starts by blast
  from startup_state_determined [OF a(1) b(1) a(2) b(2) refl] a(1) b(1) show ?thesis by blast
qed

section \<open>Listings\<close>

text \<open>C35: following the cursors of a listing ends, and gives every entry exactly once, in key
  order, in pages of at most the limit.\<close>

theorem listing_pages_complete:
  assumes "0 < limit" and "sorted_wrt (<) (map fst entries)"
  shows "\<exists>ps. pages (\<lambda>cursor. (pg_items (paginate entries cursor limit), pg_next_cursor (paginate entries cursor limit)))
      None ps \<and> concat ps = map snd entries \<and> (\<forall>items \<in> set ps. length items \<le> limit)"
proof -
  have "key_page (entries, limit) = (\<lambda>cursor. (pg_items (paginate entries cursor limit),
      pg_next_cursor (paginate entries cursor limit)))" by (rule ext) (simp add: key_page_def Let_def)
  with key_listing.pages_exist [of "(entries, limit)" None] assms show ?thesis
    by (simp add: key_rest_def case_prod_beta)
qed

definition sample_listing :: "(string \<times> nat) list" where
  "sample_listing = [(''a'', 1), (''b'', 2), (''c'', 3)]"

theorem listing_pages_complete_witness:
  "\<exists>ps. pages (\<lambda>cursor. (pg_items (paginate sample_listing cursor 2), pg_next_cursor (paginate sample_listing cursor 2)))
      None ps \<and> concat ps = [1, 2, 3]"
proof -
  have "sorted_wrt (<) (map fst sample_listing)" by (simp add: sample_listing_def)
  from listing_pages_complete [OF _ this, of 2] show ?thesis by (auto simp: sample_listing_def)
qed

text \<open>C36: following the history of an address backwards ends, and gives every recorded entry of
  it exactly once, newest first, in pages of at most the limit.\<close>

theorem history_pages_complete:
  assumes "0 < limit" and "history_wf log"
  shows "\<exists>ps. pages (\<lambda>before. (hp_items (history_page log address before limit),
        hp_next_before_seq (history_page log address before limit))) None ps \<and>
      concat ps = rev (filter (\<lambda>e. case address of None \<Rightarrow> True | Some a \<Rightarrow> he_address e = a) (hl_entries log)) \<and>
      (\<forall>items \<in> set ps. length items \<le> limit)"
proof -
  have "history_listing (log, address, limit) = (\<lambda>before. (hp_items (history_page log address before limit),
      hp_next_before_seq (history_page log address before limit)))"
    by (rule ext) (simp add: history_listing_def Let_def)
  with history_paging.pages_exist [of "(log, address, limit)" None] assms show ?thesis
    by (simp add: history_rest_def)
qed

definition sample_entry :: "u64 \<Rightarrow> HistoryEntry" where
  "sample_entry n = \<lparr>he_version = HISTORY_ENTRY_VERSION, he_seq = n, he_at = n, he_operation = HistoryOperation.Clear,
     he_address = sample_address, he_version_id = None, he_previous_version_id = None, he_evict_at = None,
     he_provenance = Service Expiry, he_device_key_id = []\<rparr>"

definition sample_log :: HistoryLog where
  "sample_log = (history_new LocalKeyring ''p'')\<lparr>hl_next_seq := 3, hl_entries := map sample_entry [0, 1, 2]\<rparr>"

theorem history_pages_complete_witness:
  "\<exists>ps. pages (\<lambda>before. (hp_items (history_page sample_log (Some sample_address) before 2),
      hp_next_before_seq (history_page sample_log (Some sample_address) before 2))) None ps \<and>
    concat ps = map sample_entry [2, 1, 0]"
proof -
  have wf: "history_wf sample_log"
    by (simp add: history_wf_def sample_log_def history_new_def sample_entry_def is_supported_def)
  have "rev (filter (\<lambda>e. case Some sample_address of None \<Rightarrow> True | Some a \<Rightarrow> he_address e = a) (hl_entries sample_log)) =
      map sample_entry [2, 1, 0]"
    by (simp add: sample_log_def sample_entry_def)
  with history_pages_complete [OF _ wf, of 2 "Some sample_address"] show ?thesis by auto
qed

end
