(* ===== verification/Wire.thy ===== *)
theory Wire
  imports Grants Lease
begin

text \<open>
  The messages of the local protocol (\<open>src/src/vault/protocol/wire.rs\<close>): requests with
  their actions and the validation every request passes before it is served, responses with
  the local bound on their delivery, and the client's loop that reads all pages of a
  permission listing.  Constructors carry the suffix of their enum where the bare name is
  taken.  A \<open>WireSecret\<close> is its bytes, a \<open>u16\<close> limit is a natural number.  The browser
  action exists only under the \<open>browser\<close> feature and is left out.
\<close>

section \<open>Bounds\<close>

definition PROTOCOL_VERSION :: nat where "PROTOCOL_VERSION = 18"
definition REQUEST_ID_BYTES :: nat where "REQUEST_ID_BYTES = 16"
definition MAX_MESSAGE_BYTES :: nat where "MAX_MESSAGE_BYTES = 1024 * 1024"
definition MAX_PERMISSION_WAIT_MS :: u64 where "MAX_PERMISSION_WAIT_MS = 5000"
definition SINGLE_USE_GRANT_SECONDS :: u64 where "SINGLE_USE_GRANT_SECONDS = 300"
definition MAX_LIST_PAGE_SIZE :: nat where "MAX_LIST_PAGE_SIZE = 8"
definition MAX_HISTORY_PAGE_SIZE :: nat where "MAX_HISTORY_PAGE_SIZE = 4"
definition MAX_NAMESPACE_BYTES :: nat where "MAX_NAMESPACE_BYTES = 4 * 1024"
definition MAX_MUTATIONS_PER_REQUEST :: nat where "MAX_MUTATIONS_PER_REQUEST = 64"
definition MAX_PERMISSION_ID_BYTES :: nat where "MAX_PERMISSION_ID_BYTES = 128"

section \<open>Addresses and identifiers\<close>

text \<open>A random request identifier, from the bytes the generator yields.\<close>

definition request_id_random :: "(nat \<Rightarrow> string + bytes) \<Rightarrow> RequestId vault_result" where
  "request_id_random fill = map_err Random (fill REQUEST_ID_BYTES)"

record WireSecretAddress =
  wa_item :: string
  wa_field :: "string option"

definition wire_address_resolve :: "WireSecretAddress \<Rightarrow> SecretAddress vault_result" where
  "wire_address_resolve a = address_new (wa_item a) (wa_field a)"

definition wire_address_validate :: "WireSecretAddress \<Rightarrow> unit vault_result" where
  "wire_address_validate a = rbind (wire_address_resolve a) (\<lambda>_. Inr ())"

section \<open>Field validation\<close>

definition validate_namespace :: "bytes \<Rightarrow> unit vault_result" where
  "validate_namespace namespace =
     guard (\<not> (namespace = [] \<or> length namespace > MAX_NAMESPACE_BYTES))
       (Protocol ''document namespace is empty or too long'')"

definition validate_project :: "string \<Rightarrow> unit vault_result" where
  "validate_project project =
     guard (\<not> (project = [] \<or> length project > MAX_APPLICATION_COMPONENT_BYTES))
       (Protocol ''SecretSpec project is empty or too long'')"

definition validate_list_limit :: "nat \<Rightarrow> unit vault_result" where
  "validate_list_limit limit =
     guard (1 \<le> limit \<and> limit \<le> MAX_LIST_PAGE_SIZE)
       (Protocol ''list limit must be between one and 8'')"

definition validate_history_limit :: "nat \<Rightarrow> unit vault_result" where
  "validate_history_limit limit =
     guard (1 \<le> limit \<and> limit \<le> MAX_HISTORY_PAGE_SIZE)
       (Protocol ''history limit must be between one and 4'')"

definition validate_address_cursor :: "'z hash_env_scheme \<Rightarrow> string \<Rightarrow> unit vault_result" where
  "validate_address_cursor H cursor =
     rbind (ok_or (b64_decode H cursor) (Protocol ''invalid address-list cursor'')) (\<lambda>decoded.
     guard (length decoded = 32) (Protocol ''invalid address-list cursor''))"

definition validate_project_address :: "string \<Rightarrow> SecretSpecAddress \<Rightarrow> unit vault_result" where
  "validate_project_address project address =
     rbind (validate_project project) (\<lambda>_.
     rbind (secret_spec_validate address) (\<lambda>_.
     guard (case secret_spec_project address of None \<Rightarrow> True | Some p \<Rightarrow> p = project)
       (Protocol ''SecretSpec convention address belongs to a different project'')))"

definition is_ascii_alphanumeric :: "char \<Rightarrow> bool" where
  "is_ascii_alphanumeric c \<longleftrightarrow> (let b = (of_char c :: nat) in
     48 \<le> b \<and> b \<le> 57 \<or> 65 \<le> b \<and> b \<le> 90 \<or> 97 \<le> b \<and> b \<le> 122)"

definition permission_id_char :: "char \<Rightarrow> bool" where
  "permission_id_char c \<longleftrightarrow> is_ascii_alphanumeric c \<or> c = CHR ''-'' \<or> c = CHR ''_'' \<or> c = CHR ''.''"

definition validate_permission_id :: "string \<Rightarrow> unit vault_result" where
  "validate_permission_id ident =
     guard (\<not> (ident = [] \<or> length ident > MAX_PERMISSION_ID_BYTES \<or> \<not> list_all permission_id_char ident))
       (Protocol ''invalid permission ID'')"

definition validate_transfer :: "VaultEntryMetadata \<Rightarrow> unit vault_result" where
  "validate_transfer entry =
     rbind (case vm_document_kind entry of
         Authorization \<Rightarrow> Inl (Protocol ''that document kind is not portable'')
       | SecretSpecProviderCache \<Rightarrow> Inl (Protocol ''that document kind is not portable'')
       | SecretSpecProject \<Rightarrow>
           guard (as_secret_spec (vm_address entry) \<noteq> None)
             (Protocol ''project transfer entry has a local address'')
       | _ \<Rightarrow>
           guard (as_local (vm_address entry) \<noteq> None)
             (Protocol ''keyring transfer entry has a project address'')) (\<lambda>_.
     rbind (validate_namespace (vm_partition entry)) (\<lambda>_.
     address_validate (vm_address entry)))"

section \<open>Actions\<close>

datatype VaultMutation =
    CheckMutation WireSecretAddress "bytes option"
  | PutMutation WireSecretAddress bytes "u64 option"
  | DeleteMutation WireSecretAddress

fun mutation_validate :: "VaultMutation \<Rightarrow> unit vault_result" where
  "mutation_validate (CheckMutation address _) = wire_address_validate address"
| "mutation_validate (PutMutation address _ _) = wire_address_validate address"
| "mutation_validate (DeleteMutation address) = wire_address_validate address"

datatype VaultAction =
    AuthorizeSecretInputAction string
  | KeyringAccessAction "SecretAddress option" string string PermissionOperation "VaultAction option" "string option"
  | StatusAction
  | ListVaultEntriesAction "string option" nat
  | ExportVaultEntryAction VaultEntryMetadata
  | ImportVaultEntryAction VaultEntryMetadata bytes "u64 option" bool
  | GetAction bytes WireSecretAddress
  | PutAction bytes WireSecretAddress bytes "u64 option"
  | MutateAction bytes "VaultMutation list"
  | DeleteAction bytes WireSecretAddress
  | ClearAction bytes
  | GetProjectAction string SecretSpecAddress
  | PutProjectAction string SecretSpecAddress bytes
  | DeleteProjectAction string SecretSpecAddress
  | ListProjectsAction "string option" nat
  | ListProjectAddressesAction string "string option" nat
  | ListHistoryAction bytes "WireSecretAddress option" "u64 option" nat
  | ListProjectHistoryAction string "SecretSpecAddress option" "u64 option" nat
  | ListCacheHistoryAction string "SecretSpecAddress option" "u64 option" nat
  | GetCacheAction string SecretSpecAddress
  | WriteCacheFromDialogAction string SecretSpecAddress bytes "u64 option"
  | PutCacheAction string SecretSpecAddress bytes "u64 option"
  | DeleteCacheAction string SecretSpecAddress
  | ClearCacheAction string
  | SealAction bytes
  | SealCacheAction string
  | ExportRevisionAction
  | ListPermissionsAction
  | ListPermissionsPageAction u64 string
  | WaitPermissionsAction u64 u64
  | WaitPermissionAction string u64
  | ApprovePermissionAction string bytes "u64 option" bool
  | DenyPermissionAction string
  | RevokePermissionAction string

definition optionally :: "('a \<Rightarrow> unit vault_result) \<Rightarrow> 'a option \<Rightarrow> unit vault_result" where
  "optionally f v = (case v of None \<Rightarrow> Inr () | Some x \<Rightarrow> f x)"

definition peer_name :: "string \<Rightarrow> bool" where
  "peer_name sender \<longleftrightarrow> strip_prefix '':'' sender \<noteq> None \<and> length sender \<le> 255"

definition keyring_item_address :: "SecretAddress \<Rightarrow> bool" where
  "keyring_item_address entry = (case as_local entry of
      None \<Rightarrow> False
    | Some (item, fld) \<Rightarrow> fld = None \<and>
        (case strip_prefix ''item/'' item of
           None \<Rightarrow> False
         | Some ident \<Rightarrow> length ident = 32 \<and> list_all is_ascii_hexdigit ident))"

definition validate_wait :: "u64 \<Rightarrow> unit vault_result" where
  "validate_wait timeout_ms =
     guard (1 \<le> timeout_ms \<and> timeout_ms \<le> MAX_PERMISSION_WAIT_MS)
       (Protocol ''permission wait timeout is outside the supported range'')"

definition bridged_namespace :: "VaultAction \<Rightarrow> bytes option" where
  "bridged_namespace action = (case action of
      GetAction namespace _ \<Rightarrow> Some namespace
    | MutateAction namespace _ \<Rightarrow> Some namespace
    | _ \<Rightarrow> None)"

fun action_validate :: "'z hash_env_scheme \<Rightarrow> VaultAction \<Rightarrow> unit vault_result" where
  "action_validate H (AuthorizeSecretInputAction sender) =
     guard (peer_name sender) (Protocol ''invalid input peer'')"
| "action_validate H (KeyringAccessAction entry sender service operation action pending) =
     rbind (guard (\<not> (\<not> peer_name sender \<or> service = [] \<or> length service > 1024))
       (Protocol ''invalid keyring access target'')) (\<lambda>_.
     rbind (optionally (\<lambda>entry.
         rbind (address_validate entry) (\<lambda>_.
         guard (keyring_item_address entry) (Protocol ''invalid keyring entry''))) entry) (\<lambda>_.
     rbind (optionally validate_permission_id pending) (\<lambda>_.
     rbind (guard (\<not> (pending \<noteq> None \<and> action \<noteq> None)) (Protocol ''invalid keyring wait'')) (\<lambda>_.
     case action of
       None \<Rightarrow> Inr ()
     | Some action \<Rightarrow>
         if bridged_namespace action = Some SECRET_SERVICE_NAMESPACE then action_validate H action
         else Inl (Protocol ''invalid bridged keyring action'')))))"
| "action_validate H StatusAction = Inr ()"
| "action_validate H ListPermissionsAction = Inr ()"
| "action_validate H ExportRevisionAction = Inr ()"
| "action_validate H (ListPermissionsPageAction _ cursor) = validate_permission_id cursor"
| "action_validate H (ListVaultEntriesAction cursor limit) =
     rbind (validate_list_limit limit) (\<lambda>_. optionally (validate_address_cursor H) cursor)"
| "action_validate H (ExportVaultEntryAction entry) = validate_transfer entry"
| "action_validate H (ImportVaultEntryAction entry _ _ _) = validate_transfer entry"
| "action_validate H (WaitPermissionsAction _ timeout_ms) = validate_wait timeout_ms"
| "action_validate H (WaitPermissionAction ident timeout_ms) =
     rbind (validate_wait timeout_ms) (\<lambda>_. validate_permission_id ident)"
| "action_validate H (ApprovePermissionAction ident sig duration_seconds single_use) =
     rbind (validate_permission_id ident) (\<lambda>_.
     rbind (guard (\<not> (single_use \<and> duration_seconds \<noteq> None))
       (Protocol ''a single-use approval takes no duration'')) (\<lambda>_.
     rbind (guard (\<not> (sig = [] \<or> length sig > 16 * 1024))
       (Protocol ''permission signature is empty or too long'')) (\<lambda>_.
     guard (duration_seconds \<noteq> Some 0) (Protocol ''permission duration must be positive''))))"
| "action_validate H (DenyPermissionAction ident) = validate_permission_id ident"
| "action_validate H (RevokePermissionAction ident) = validate_permission_id ident"
| "action_validate H (GetAction namespace address) =
     rbind (validate_namespace namespace) (\<lambda>_. wire_address_validate address)"
| "action_validate H (DeleteAction namespace address) =
     rbind (validate_namespace namespace) (\<lambda>_. wire_address_validate address)"
| "action_validate H (PutAction namespace address _ _) =
     rbind (validate_namespace namespace) (\<lambda>_. wire_address_validate address)"
| "action_validate H (GetProjectAction project address) = validate_project_address project address"
| "action_validate H (PutProjectAction project address _) = validate_project_address project address"
| "action_validate H (DeleteProjectAction project address) = validate_project_address project address"
| "action_validate H (GetCacheAction project address) = validate_project_address project address"
| "action_validate H (WriteCacheFromDialogAction project address _ _) = validate_project_address project address"
| "action_validate H (PutCacheAction project address _ _) = validate_project_address project address"
| "action_validate H (DeleteCacheAction project address) = validate_project_address project address"
| "action_validate H (ListProjectsAction cursor limit) =
     rbind (validate_list_limit limit) (\<lambda>_. optionally validate_project cursor)"
| "action_validate H (ListProjectAddressesAction project cursor limit) =
     rbind (validate_project project) (\<lambda>_.
     rbind (validate_list_limit limit) (\<lambda>_. optionally (validate_address_cursor H) cursor))"
| "action_validate H (ListHistoryAction namespace address _ limit) =
     rbind (validate_namespace namespace) (\<lambda>_.
     rbind (validate_history_limit limit) (\<lambda>_. optionally wire_address_validate address))"
| "action_validate H (ListProjectHistoryAction project address _ limit) =
     rbind (validate_history_limit limit) (\<lambda>_.
     case address of
       Some address \<Rightarrow> validate_project_address project address
     | None \<Rightarrow> validate_project project)"
| "action_validate H (ListCacheHistoryAction project address _ limit) =
     rbind (validate_history_limit limit) (\<lambda>_.
     case address of
       Some address \<Rightarrow> validate_project_address project address
     | None \<Rightarrow> validate_project project)"
| "action_validate H (MutateAction namespace mutations) =
     rbind (validate_namespace namespace) (\<lambda>_.
     rbind (guard (\<not> (mutations = [] \<or> length mutations > MAX_MUTATIONS_PER_REQUEST))
       (Protocol ''mutation request must contain between one and 64 operations'')) (\<lambda>_.
     rforM mutation_validate mutations))"
| "action_validate H (ClearAction namespace) = validate_namespace namespace"
| "action_validate H (SealAction namespace) = validate_namespace namespace"
| "action_validate H (ClearCacheAction project) = validate_project project"
| "action_validate H (SealCacheAction project) = validate_project project"

section \<open>Requests\<close>

record VaultRequest =
  vr_version :: nat
  vr_request_id :: RequestId
  vr_application :: "VaultApplicationContext option"
  vr_action :: VaultAction

definition request_new :: "(nat \<Rightarrow> string + bytes) \<Rightarrow> VaultAction \<Rightarrow> VaultRequest vault_result" where
  "request_new fill action =
     rbind (request_id_random fill) (\<lambda>ident.
     Inr \<lparr>vr_version = PROTOCOL_VERSION, vr_request_id = ident, vr_application = None, vr_action = action\<rparr>)"

definition request_new_with_application ::
  "(nat \<Rightarrow> string + bytes) \<Rightarrow> VaultAction \<Rightarrow> VaultApplicationContext \<Rightarrow> VaultRequest vault_result" where
  "request_new_with_application fill action application =
     rbind (application_validate application) (\<lambda>_.
     rbind (request_id_random fill) (\<lambda>ident.
     Inr \<lparr>vr_version = PROTOCOL_VERSION, vr_request_id = ident, vr_application = Some application,
          vr_action = action\<rparr>))"

definition request_with_id :: "RequestId \<Rightarrow> VaultAction \<Rightarrow> VaultRequest" where
  "request_with_id ident action =
     \<lparr>vr_version = PROTOCOL_VERSION, vr_request_id = ident, vr_application = None, vr_action = action\<rparr>"

definition validate_fields :: "'z hash_env_scheme \<Rightarrow> VaultRequest \<Rightarrow> unit vault_result" where
  "validate_fields H r =
     rbind (guard (vr_version r = PROTOCOL_VERSION) (Protocol ''unsupported request version'')) (\<lambda>_.
     rbind (optionally application_validate (vr_application r)) (\<lambda>_.
     action_validate H (vr_action r)))"

definition request_decode :: "'z hash_env_scheme \<Rightarrow> VaultRequest json \<Rightarrow> bytes \<Rightarrow> VaultRequest vault_result" where
  "request_decode H J b =
     rbind (guard (\<not> length b > MAX_MESSAGE_BYTES) (Protocol ''request is too large'')) (\<lambda>_.
     rbind (map_err Protocol (from_slice J b)) (\<lambda>request.
     rbind (validate_fields H request) (\<lambda>_.
     Inr request)))"

text \<open>The writers that count serialized bytes against a bound.  A serializer hands its output
  over in pieces; each piece either fits what remains or fails the whole message.\<close>

definition bounded_write :: "bytes \<Rightarrow> nat \<Rightarrow> nat option" where
  "bounded_write b remaining = (if length b > remaining then None else Some (remaining - length b))"

fun bounded_writes :: "bytes list \<Rightarrow> nat \<Rightarrow> nat option" where
  "bounded_writes [] remaining = Some remaining"
| "bounded_writes (b # bs) remaining =
     (case bounded_write b remaining of None \<Rightarrow> None | Some remaining \<Rightarrow> bounded_writes bs remaining)"

text \<open>Serialization into locked memory: counted first, then written.  \<open>lock\<close> is the
  allocation of locked storage.\<close>

definition serialize_locked ::
  "(nat \<Rightarrow> unit vault_result) \<Rightarrow> 'a json \<Rightarrow> 'a \<Rightarrow> nat \<Rightarrow> bytes vault_result" where
  "serialize_locked lock J v maximum =
     rbind (map_err Protocol (to_vec J v)) (\<lambda>b.
     rbind (ok_or (bounded_write b maximum) (Protocol ''message exceeds configured bound'')) (\<lambda>remaining.
     rbind (lock (maximum - remaining)) (\<lambda>_.
     Inr b)))"

definition request_encode ::
  "'z hash_env_scheme \<Rightarrow> (nat \<Rightarrow> unit vault_result) \<Rightarrow> VaultRequest json \<Rightarrow> VaultRequest \<Rightarrow> bytes vault_result" where
  "request_encode H lock J r =
     rbind (validate_fields H r) (\<lambda>_. serialize_locked lock J r MAX_MESSAGE_BYTES)"

definition request_validate :: "'z hash_env_scheme \<Rightarrow> VaultRequest json \<Rightarrow> VaultRequest \<Rightarrow> unit vault_result" where
  "request_validate H J r =
     rbind (validate_fields H r) (\<lambda>_.
     case to_vec J r of
       Inl _ \<Rightarrow> Inl (Protocol ''request is too large'')
     | Inr b \<Rightarrow>
         guard (bounded_write b MAX_MESSAGE_BYTES \<noteq> None) (Protocol ''request is too large''))"

section \<open>Responses\<close>

datatype VaultEntryImportStatus = Added | Replaced | KeptExisting
datatype PermissionChange = GrantedChange | DeniedChange | RevokedChange
datatype PermissionWaitStatus = WaitPending | WaitGranted | WaitDenied | WaitExpired

record VaultInteractionReference =
  ir_id :: string
  ir_expires_at :: u64

datatype VaultResponseErrorCode =
    InvalidRequestCode
  | AuthorizationRequiredCode
  | ReplayCode
  | SealedCode
  | ConflictCode
  | InternalCode

record VaultResponseError =
  re_code :: VaultResponseErrorCode
  re_message :: string
  re_interaction :: "VaultInteractionReference option"

datatype VaultResponseBody =
    StatusBody string string string string u64 u64
  | VaultEntriesBody "VaultEntryMetadata list" "string option"
  | VaultEntrySecretBody bytes "u64 option"
  | VaultEntryImportedBody VaultEntryImportStatus
  | SecretBody "bytes option"
  | StoredBody
  | MutatedBody
  | DeletedBody bool
  | ClearedBody nat
  | ProjectsBody "string list" "string option"
  | ProjectAddressesBody "SecretSpecAddress list" "string option"
  | HistoryBody "HistoryEntry list" "u64 option"
  | SealedBody
  | ExportRevisionBody "bytes option"
  | PermissionsBody u64 "Permission list" "string option"
  | PermissionChangedBody PermissionChange
  | PermissionWaitBody PermissionWaitStatus

text \<open>A response may carry a deadline for its delivery and the store's seal signal; neither is
  serialized.\<close>

record VaultResponse =
  rs_version :: nat
  rs_request_id :: RequestId
  rs_result :: "VaultResponseError + VaultResponseBody"
  rs_delivery_deadline :: "instant option"
  rs_delivery_cancelled :: bool

definition response_success :: "RequestId \<Rightarrow> VaultResponseBody \<Rightarrow> VaultResponse" where
  "response_success request_id body =
     \<lparr>rs_version = PROTOCOL_VERSION, rs_request_id = request_id, rs_result = Inr body,
      rs_delivery_deadline = None, rs_delivery_cancelled = False\<rparr>"

definition response_failure :: "RequestId \<Rightarrow> VaultResponseError \<Rightarrow> VaultResponse" where
  "response_failure request_id error =
     \<lparr>rs_version = PROTOCOL_VERSION, rs_request_id = request_id, rs_result = Inl error,
      rs_delivery_deadline = None, rs_delivery_cancelled = False\<rparr>"

definition response_decode :: "VaultResponse json \<Rightarrow> bytes \<Rightarrow> VaultResponse vault_result" where
  "response_decode J b =
     rbind (guard (\<not> length b > MAX_MESSAGE_BYTES) (Protocol ''response is too large'')) (\<lambda>_.
     rbind (map_err Protocol (from_slice J b)) (\<lambda>response.
     rbind (guard (rs_version response = PROTOCOL_VERSION) (Protocol ''unsupported response version'')) (\<lambda>_.
     Inr response)))"

text \<open>\<open>signal\<close> is the value of the seal signal and \<open>now\<close> the clock when the check runs.\<close>

definition check_delivery :: "bool \<Rightarrow> instant \<Rightarrow> VaultResponse \<Rightarrow> unit vault_result" where
  "check_delivery signal now r =
     (if rs_delivery_cancelled r \<and> signal then Inl Sealed
      else if (case rs_delivery_deadline r of None \<Rightarrow> False | Some deadline \<Rightarrow> deadline \<le> now) then Inl Sealed
      else Inr ())"

definition response_encode ::
  "(nat \<Rightarrow> unit vault_result) \<Rightarrow> VaultResponse json \<Rightarrow> bool \<times> instant \<Rightarrow> bool \<times> instant \<Rightarrow> VaultResponse
     \<Rightarrow> bytes vault_result" where
  "response_encode lock J before after r =
     rbind (check_delivery (fst before) (snd before) r) (\<lambda>_.
     rbind (serialize_locked lock J r MAX_MESSAGE_BYTES) (\<lambda>b.
     rbind (check_delivery (fst after) (snd after) r) (\<lambda>_.
     Inr b)))"

section \<open>Reading every page of a permission listing\<close>

definition first_permission_page :: "u64 option \<Rightarrow> VaultAction" where
  "first_permission_page after_revision = (case after_revision of
      None \<Rightarrow> ListPermissionsAction
    | Some after_revision \<Rightarrow> WaitPermissionsAction after_revision MAX_PERMISSION_WAIT_MS)"

definition check_permission_page ::
  "u64 option \<Rightarrow> string option \<Rightarrow> VaultResponseBody \<Rightarrow> (u64 \<times> Permission list \<times> string option) vault_result" where
  "check_permission_page expected_revision cursor body = (case body of
      PermissionsBody revision permissions next_cursor \<Rightarrow>
        rbind (guard (case expected_revision of None \<Rightarrow> True | Some expected \<Rightarrow> expected = revision)
          VaultError.Conflict) (\<lambda>_.
        rbind (guard (\<not> (list_ex (\<lambda>p. case cursor of None \<Rightarrow> False | Some old \<Rightarrow> pm_id p \<le> old) permissions \<or>
            list_ex (\<lambda>(p, q). pm_id p \<ge> pm_id q) (zip permissions (tl permissions))))
          (Protocol ''permission page did not advance'')) (\<lambda>_.
        rbind (guard (\<not> (case next_cursor of
              None \<Rightarrow> False
            | Some next \<Rightarrow> permissions = [] \<or> pm_id (last permissions) \<noteq> next))
          (Protocol ''invalid permission cursor'')) (\<lambda>_.
        Inr (revision, permissions, next_cursor))))
    | _ \<Rightarrow> Inl (Protocol ''unexpected permission-list response''))"

partial_function (option) permission_pages ::
  "(VaultAction \<Rightarrow> ('s, VaultError, VaultResponseBody) action) \<Rightarrow> VaultAction \<Rightarrow> u64 option \<Rightarrow> string option
     \<Rightarrow> Permission list \<Rightarrow> 's \<Rightarrow> ((u64 \<times> Permission list) vault_result \<times> 's) option" where
  "permission_pages request action expected_revision cursor all s =
     (case request action s of
        (Inl e, s) \<Rightarrow> Some (Inl e, s)
      | (Inr body, s) \<Rightarrow>
          (case check_permission_page expected_revision cursor body of
             Inl e \<Rightarrow> Some (Inl e, s)
           | Inr (revision, permissions, next_cursor) \<Rightarrow>
               (case next_cursor of
                  None \<Rightarrow> Some (Inr (revision, all @ permissions), s)
                | Some next \<Rightarrow>
                    permission_pages request (ListPermissionsPageAction revision next) (Some revision)
                      (Some next) (all @ permissions) s)))"

definition read_permission_pages ::
  "(VaultAction \<Rightarrow> ('s, VaultError, VaultResponseBody) action) \<Rightarrow> u64 option \<Rightarrow> 's
     \<Rightarrow> ((u64 \<times> Permission list) vault_result \<times> 's) option" where
  "read_permission_pages request after_revision s =
     permission_pages request (first_permission_page after_revision) None None [] s"

end
