(* ===== verification/Approvals.thy ===== *)
theory Approvals
  imports Wire
begin

text \<open>
  Approval requests (\<open>src/src/vault/protocol/service/approvals.rs\<close>): what a refused request
  asks for, the bounded queue of requests waiting for a person, and the promotion of an
  approved request to a grant.  The queue is the record \<open>PendingApprovals\<close>; \<open>S\<close> is the
  document it is written through to.  Clock readings and the random bytes of a new request are
  arguments.  Adding to an instant is exact; the code would panic beyond 2^63 seconds.
\<close>

section \<open>Bounds\<close>

definition APPROVAL_TTL_SECONDS :: u64 where "APPROVAL_TTL_SECONDS = 7 * 24 * 60 * 60"
definition MAX_PENDING_APPROVALS :: nat where "MAX_PENDING_APPROVALS = 128"
definition MAX_PENDING_PER_CALLER :: nat where "MAX_PENDING_PER_CALLER = 16"
definition APPROVAL_RATE_WINDOW :: duration where "APPROVAL_RATE_WINDOW = 60 * NANOS"
definition MAX_NEW_APPROVALS_PER_CALLER :: nat where "MAX_NEW_APPROVALS_PER_CALLER = 8"
definition MAX_NEW_APPROVALS :: nat where "MAX_NEW_APPROVALS = 128"
definition REQUESTER_GRACE :: duration where "REQUESTER_GRACE = 2 * NANOS"
definition PENDING_VERSION :: nat where "PENDING_VERSION = 1"

definition PERMISSION_CONTROL_NAMESPACE :: bytes where
  "PERMISSION_CONTROL_NAMESPACE = ''factorseal/permissions/v1''"

definition PENDING_DOCUMENT_NAMESPACE :: bytes where
  "PENDING_DOCUMENT_NAMESPACE = ''factorseal/pending-approvals/v1''"

section \<open>What a request asks for\<close>

record ApprovedLifetime =
  al_duration_seconds :: "u64 option"
  al_single_use :: bool

record ApprovalCandidate =
  cd_caller :: CallerIdentity
  cd_application :: VaultApplicationContext
  cd_scope :: DocumentKind
  cd_namespace :: bytes
  cd_address :: "SecretAddress option"
  cd_permission :: GrantPermission
  cd_operation :: PermissionOperation
  cd_expiring_write :: bool

definition operation_permission :: "PermissionOperation \<Rightarrow> GrantPermission" where
  "operation_permission operation = (case operation of
      GetOp \<Rightarrow> GGet | PutOp \<Rightarrow> GPut | DeleteOp \<Rightarrow> GDelete | ClearOp \<Rightarrow> GClear)"

definition for_keyring ::
  "CallerIdentity \<Rightarrow> string \<Rightarrow> SecretAddress option \<Rightarrow> string \<Rightarrow> PermissionOperation \<Rightarrow> ApprovalCandidate" where
  "for_keyring caller service address base_dir operation =
     (let (project, profile) = access_project service in
      \<lparr>cd_caller = caller,
       cd_application = \<lparr>ac_project = Some project, ac_profile = profile, ac_base_dir = Some base_dir,
         ac_reason = Some (''System keyring: '' @ service), ac_requested_permission_duration_seconds = None,
         ac_declared_launch_chain = []\<rparr>,
       cd_scope = LinuxSecretService, cd_namespace = project, cd_address = address,
       cd_permission = operation_permission operation, cd_operation = operation,
       cd_expiring_write = False\<rparr>)"

definition keyring_requirement :: "ApprovalCandidate \<Rightarrow> GrantRequirement" where
  "keyring_requirement c =
     \<lparr>gq_scope = cd_scope c, gq_namespace = Some (cd_namespace c), gq_address = cd_address c,
      gq_project = ac_project (cd_application c), gq_base_dir = ac_base_dir (cd_application c),
      gq_permission = cd_permission c\<rparr>"

definition require_keyring ::
  "'z hash_env_scheme \<Rightarrow> 's store_ops \<Rightarrow> grant_codecs \<Rightarrow> ApprovalCandidate \<Rightarrow> u64
     \<Rightarrow> ('s, VaultError, u64 option) action" where
  "require_keyring H S C c now = require_grant_until H S C (cd_caller c) (keyring_requirement c) now"

text \<open>Only reads, writes and deletions of one cache entry of the declared project can be
  asked for.\<close>

definition project_matches :: "string \<Rightarrow> string \<Rightarrow> SecretSpecAddress \<Rightarrow> bool" where
  "project_matches requested project address \<longleftrightarrow> requested = project \<and>
     (case secret_spec_project address of None \<Rightarrow> True | Some p \<Rightarrow> p = project)"

definition eligible_action ::
  "string \<Rightarrow> VaultAction \<Rightarrow> (string \<times> SecretSpecAddress \<times> GrantPermission \<times> PermissionOperation) option" where
  "eligible_action project action = (case action of
      GetCacheAction requested address \<Rightarrow>
        if project_matches requested project address then Some (requested, address, GGet, GetOp) else None
    | PutCacheAction requested address _ _ \<Rightarrow>
        if project_matches requested project address then Some (requested, address, GPut, PutOp) else None
    | DeleteCacheAction requested address \<Rightarrow>
        if project_matches requested project address then Some (requested, address, GDelete, DeleteOp) else None
    | _ \<Rightarrow> None)"

definition for_request ::
  "CallerIdentity \<Rightarrow> VaultApplicationContext option \<Rightarrow> VaultAction \<Rightarrow> ApprovalCandidate option" where
  "for_request caller application action =
     (case application of
        None \<Rightarrow> None
      | Some application \<Rightarrow>
          (case ac_project application of
             None \<Rightarrow> None
           | Some project \<Rightarrow>
               (case eligible_action project action of
                  None \<Rightarrow> None
                | Some (requested, address, permission, operation) \<Rightarrow>
                    (case address_secret_spec address of
                       Inl _ \<Rightarrow> None
                     | Inr address \<Rightarrow> Some
                         \<lparr>cd_caller = caller, cd_application = application,
                          cd_scope = SecretSpecProviderCache, cd_namespace = requested,
                          cd_address = Some address, cd_permission = permission, cd_operation = operation,
                          cd_expiring_write = (case action of
                              PutCacheAction _ _ _ evict_at \<Rightarrow> evict_at \<noteq> None | _ \<Rightarrow> False)\<rparr>))))"

section \<open>The queue\<close>

record ApprovalRecord =
  ar_summary :: Permission
  ar_caller :: CallerIdentity
  ar_scope :: DocumentKind
  ar_namespace :: bytes
  ar_address :: "SecretAddress option"
  ar_permission :: GrantPermission
  ar_awaited_until :: "instant option"

record StoredApprovals =
  sa_version :: nat
  sa_records :: "ApprovalRecord list"

record ResolvedRecord =
  rr_id :: string
  rr_caller_fingerprint :: bytes
  rr_status :: PermissionWaitStatus
  rr_retain_until :: u64

record PendingApprovals =
  pa_records :: "ApprovalRecord list"
  pa_resolved :: "ResolvedRecord list"
  pa_revision :: u64
  pa_recent_creations :: "(instant \<times> bytes) list"
  pa_unsaved :: bool

definition approvals_default :: PendingApprovals where
  "approvals_default = \<lparr>pa_records = [], pa_resolved = [], pa_revision = 0, pa_recent_creations = [],
     pa_unsaved = False\<rparr>"

definition pending_address :: "SecretAddress vault_result" where
  "pending_address = address_new ''pending'' None"

definition approvals_changed :: "PendingApprovals \<Rightarrow> PendingApprovals" where
  "approvals_changed pa = pa\<lparr>pa_revision := pa_revision pa + 1\<rparr>"

definition push_resolved ::
  "string \<Rightarrow> bytes \<Rightarrow> PermissionWaitStatus \<Rightarrow> u64 \<Rightarrow> PendingApprovals \<Rightarrow> PendingApprovals" where
  "push_resolved ident caller_fingerprint status retain_until pa =
     (let resolved = (if length (pa_resolved pa) = MAX_PENDING_APPROVALS then tl (pa_resolved pa)
            else pa_resolved pa)
      in pa\<lparr>pa_resolved := resolved @ [\<lparr>rr_id = ident, rr_caller_fingerprint = caller_fingerprint,
           rr_status = status, rr_retain_until = retain_until\<rparr>]\<rparr>)"

definition still_pending :: "u64 \<Rightarrow> ApprovalRecord \<Rightarrow> bool" where
  "still_pending now r = (case pm_state (ar_summary r) of
      Pending _ expires_at _ _ _ \<Rightarrow> \<not> expires_at \<le> now
    | Granted _ _ _ \<Rightarrow> False)"

definition newly_expired :: "u64 \<Rightarrow> ApprovalRecord \<Rightarrow> u64 option" where
  "newly_expired now r = (case pm_state (ar_summary r) of
      Pending _ expires_at _ _ _ \<Rightarrow> if expires_at \<le> now then Some expires_at else None
    | Granted _ _ _ \<Rightarrow> None)"

definition approvals_purge_expired :: "'z hash_env_scheme \<Rightarrow> u64 \<Rightarrow> PendingApprovals \<Rightarrow> PendingApprovals" where
  "approvals_purge_expired H now pa =
     (let kept = filter (still_pending now) (pa_records pa);
          pushed = fold (\<lambda>r pa. case newly_expired now r of
              None \<Rightarrow> pa
            | Some expires_at \<Rightarrow> push_resolved (pm_id (ar_summary r)) (fingerprint H (ar_caller r)) WaitExpired
                (saturating_add64 expires_at APPROVAL_TTL_SECONDS) pa)
            (pa_records pa) (pa\<lparr>pa_records := kept\<rparr>);
          pa' = pushed\<lparr>pa_resolved := filter (\<lambda>r. rr_retain_until r > now) (pa_resolved pushed)\<rparr>
      in if length kept \<noteq> length (pa_records pa)
         then pa'\<lparr>pa_revision := pa_revision pa' + 1, pa_unsaved := True\<rparr> else pa')"

section \<open>Restoring and saving\<close>

text \<open>The instant until which a requester is known to wait is not serialized.\<close>

definition stored_record :: "ApprovalRecord \<Rightarrow> ApprovalRecord" where
  "stored_record r = r\<lparr>ar_awaited_until := None\<rparr>"

definition restorable :: "ApprovalRecord \<Rightarrow> bool" where
  "restorable r \<longleftrightarrow> (case pm_state (ar_summary r) of Pending _ _ _ _ _ \<Rightarrow> True | Granted _ _ _ \<Rightarrow> False) \<and>
     is_ok (identity_validate (ar_caller r))"

definition restore ::
  "'z hash_env_scheme \<Rightarrow> StoredApprovals json \<Rightarrow> u64 \<Rightarrow> StoredSecret option vault_result \<Rightarrow> PendingApprovals" where
  "restore H J now found =
     (let stored = (case found of
            Inr (Some secret) \<Rightarrow>
              (case from_slice J (ss_value secret) of
                 Inr stored \<Rightarrow> if sa_version stored = PENDING_VERSION then Some stored else None
               | Inl _ \<Rightarrow> None)
          | _ \<Rightarrow> None)
      in case stored of
           None \<Rightarrow> approvals_default
         | Some stored \<Rightarrow>
             (let records = take MAX_PENDING_APPROVALS
                    (filter restorable (map stored_record (sa_records stored)))
              in approvals_purge_expired H now (approvals_default\<lparr>pa_records := records,
                   pa_unsaved := (length records \<noteq> length (sa_records stored))\<rparr>)))"

definition approvals_load ::
  "'z hash_env_scheme \<Rightarrow> 's store_ops \<Rightarrow> StoredApprovals json \<Rightarrow> u64 \<Rightarrow> 's \<Rightarrow> PendingApprovals \<times> 's" where
  "approvals_load H S J now s = (case pending_address of
      Inl e \<Rightarrow> (restore H J now (Inl e), s)
    | Inr address \<Rightarrow> (let (found, s) = op_get S address now s in (restore H J now found, s)))"

definition latest_expiry :: "ApprovalRecord list \<Rightarrow> u64 option" where
  "latest_expiry records = (case List.map_filter (\<lambda>r. case pm_state (ar_summary r) of
        Pending _ expires_at _ _ _ \<Rightarrow> Some expires_at | Granted _ _ _ \<Rightarrow> None) records of
      [] \<Rightarrow> None
    | e # es \<Rightarrow> Some (foldl max e es))"

definition save_operation ::
  "StoredApprovals json \<Rightarrow> ApprovalRecord list \<Rightarrow> DocumentOperation vault_result" where
  "save_operation J records =
     rbind pending_address (\<lambda>address.
     if records = [] then Inr (DocumentOperation.Delete address)
     else rbind (map_err Protocol (to_vec J \<lparr>sa_version = PENDING_VERSION,
         sa_records = map stored_record records\<rparr>)) (\<lambda>b.
       Inr (DocumentOperation.Put address b (latest_expiry records))))"

definition approvals_save ::
  "'s store_ops \<Rightarrow> StoredApprovals json \<Rightarrow> u64 \<Rightarrow> PendingApprovals \<Rightarrow> 's
     \<Rightarrow> unit vault_result \<times> PendingApprovals \<times> 's" where
  "approvals_save S J now pa s =
     (if \<not> pa_unsaved pa then (Inr (), pa, s)
      else case save_operation J (pa_records pa) of
        Inl e \<Rightarrow> (Inl e, pa, s)
      | Inr operation \<Rightarrow>
          (case op_mutate S [operation] (Service GrantStorage) now s of
             (Inl e, s) \<Rightarrow> (Inl e, pa, s)
           | (Inr _, s) \<Rightarrow> (Inr (), pa\<lparr>pa_unsaved := False\<rparr>, s)))"

section \<open>Creating a request\<close>

definition awaited_max :: "instant option \<Rightarrow> instant \<Rightarrow> instant option" where
  "awaited_max old t = Some (case old of None \<Rightarrow> t | Some o' \<Rightarrow> max o' t)"

definition same_request :: "'z hash_env_scheme \<Rightarrow> ApprovalCandidate \<Rightarrow> ApprovalRecord \<Rightarrow> bool" where
  "same_request H c r \<longleftrightarrow>
     fingerprint H (ar_caller r) = fingerprint H (cd_caller c) \<and>
     pm_application (ar_summary r) = cd_application c \<and>
     ar_address r = cd_address c \<and> ar_namespace r = cd_namespace c \<and> ar_scope r = cd_scope c \<and>
     ar_permission r = cd_permission c \<and>
     (case pm_state (ar_summary r) of
        Pending _ _ _ _ expiring_write \<Rightarrow> expiring_write = cd_expiring_write c
      | Granted _ _ _ \<Rightarrow> False)"

definition recent_window :: "instant \<Rightarrow> (instant \<times> bytes) list \<Rightarrow> (instant \<times> bytes) list" where
  "recent_window now recents = filter (\<lambda>(created, _). now - created < APPROVAL_RATE_WINDOW) recents"

definition approval_limited :: "'z hash_env_scheme \<Rightarrow> bytes \<Rightarrow> PendingApprovals \<Rightarrow> bool" where
  "approval_limited H caller_fingerprint pa \<longleftrightarrow>
     length (pa_records pa) \<ge> MAX_PENDING_APPROVALS \<or>
     length (filter (\<lambda>r. fingerprint H (ar_caller r) = caller_fingerprint) (pa_records pa))
       \<ge> MAX_PENDING_PER_CALLER \<or>
     length (pa_recent_creations pa) \<ge> MAX_NEW_APPROVALS \<or>
     length (filter (\<lambda>(_, caller). caller = caller_fingerprint) (pa_recent_creations pa))
       \<ge> MAX_NEW_APPROVALS_PER_CALLER"

definition pending_summary ::
  "ApprovalCandidate \<Rightarrow> SecretAddress \<Rightarrow> string \<Rightarrow> bytes \<Rightarrow> u64 \<Rightarrow> u64 \<Rightarrow> Permission" where
  "pending_summary c address ident challenge now expires_at =
     \<lparr>pm_target = Some (target_summary (ProjectEntry (cd_scope c) (cd_namespace c) address
        (the (ac_project (cd_application c))) (ac_base_dir (cd_application c)))),
      pm_id = ident, pm_scope = Some (cd_scope c), pm_operation = cd_operation c,
      pm_principal = principal_of (cd_caller c), pm_application = cd_application c,
      pm_state = Pending now expires_at challenge False (cd_expiring_write c)\<rparr>"

definition permission_ident :: "'z hash_env_scheme \<Rightarrow> bytes \<Rightarrow> string" where
  "permission_ident H id_bytes = ''prm_'' @ b64_encode H id_bytes"

definition create_at ::
  "'z hash_env_scheme \<Rightarrow> string + bytes \<Rightarrow> string + bytes \<Rightarrow> ApprovalCandidate \<Rightarrow> u64 \<Rightarrow> instant
     \<Rightarrow> (PendingApprovals, VaultError, VaultInteractionReference) action" where
  "create_at H id_draw challenge_draw c now monotonic_now =
     sbind (smodify (approvals_purge_expired H now)) (\<lambda>_.
     sbind (slift (ok_or (checked_add64 now APPROVAL_TTL_SECONDS) VaultError.Expired)) (\<lambda>expires_at.
     sbind (slift (ok_or (cd_address c) AuthorizationRequired)) (\<lambda>address.
     sbind (slift (guard (cd_operation c \<noteq> ClearOp) AuthorizationRequired)) (\<lambda>_.
     sbind (sget (\<lambda>pa. position_of (same_request H c) (pa_records pa))) (\<lambda>existing.
     case existing of
       Some i \<Rightarrow>
         sbind (sget (\<lambda>pa. pa_records pa ! i)) (\<lambda>r.
         sbind (smodify (\<lambda>pa. pa\<lparr>pa_records := (pa_records pa)[i := r\<lparr>ar_awaited_until :=
           awaited_max (ar_awaited_until r) (monotonic_now + REQUESTER_GRACE)\<rparr>]\<rparr>)) (\<lambda>_.
         sret \<lparr>ir_id = pm_id (ar_summary r), ir_expires_at = pending_expires_at (pm_state (ar_summary r))\<rparr>))
     | None \<Rightarrow>
         sbind (smodify (\<lambda>pa. pa\<lparr>pa_recent_creations := recent_window monotonic_now (pa_recent_creations pa)\<rparr>)) (\<lambda>_.
         sbind (sread (\<lambda>pa. guard (\<not> approval_limited H (fingerprint H (cd_caller c)) pa) ApprovalLimited)) (\<lambda>_.
         sbind (slift (map_err Random id_draw)) (\<lambda>id_bytes.
         sbind (slift (map_err Random challenge_draw)) (\<lambda>challenge.
         let ident = permission_ident H id_bytes in
         sbind (smodify (\<lambda>pa. pa\<lparr>
           pa_records := pa_records pa @ [\<lparr>ar_summary = pending_summary c address ident challenge now expires_at,
             ar_caller = cd_caller c, ar_scope = cd_scope c, ar_namespace = cd_namespace c,
             ar_address = cd_address c, ar_permission = cd_permission c,
             ar_awaited_until = Some (monotonic_now + REQUESTER_GRACE)\<rparr>],
           pa_recent_creations := pa_recent_creations pa @ [(monotonic_now, fingerprint H (cd_caller c))],
           pa_revision := pa_revision pa + 1, pa_unsaved := True\<rparr>)) (\<lambda>_.
         sret \<lparr>ir_id = ident, ir_expires_at = expires_at\<rparr>)))))))))) "

section \<open>Listing, waiting and resolving\<close>

definition listed_record :: "instant \<Rightarrow> ApprovalRecord \<Rightarrow> Permission" where
  "listed_record monotonic_now r = (case pm_state (ar_summary r) of
      Pending created_at expires_at challenge _ expiring_write \<Rightarrow>
        (ar_summary r)\<lparr>pm_state := Pending created_at expires_at challenge
          (case ar_awaited_until r of None \<Rightarrow> False | Some until \<Rightarrow> until > monotonic_now) expiring_write\<rparr>
    | Granted _ _ _ \<Rightarrow> ar_summary r)"

definition list_at ::
  "'z hash_env_scheme \<Rightarrow> u64 \<Rightarrow> instant \<Rightarrow> PendingApprovals \<Rightarrow> (u64 \<times> Permission list) \<times> PendingApprovals" where
  "list_at H now monotonic_now pa =
     (let pa = approvals_purge_expired H now pa
      in ((pa_revision pa, map (listed_record monotonic_now) (pa_records pa)), pa))"

definition owned_by :: "'z hash_env_scheme \<Rightarrow> CallerIdentity \<Rightarrow> string \<Rightarrow> ApprovalRecord \<Rightarrow> bool" where
  "owned_by H caller ident r \<longleftrightarrow>
     pm_id (ar_summary r) = ident \<and> fingerprint H (ar_caller r) = fingerprint H caller"

definition awaited ::
  "'z hash_env_scheme \<Rightarrow> CallerIdentity \<Rightarrow> string \<Rightarrow> instant \<Rightarrow> PendingApprovals \<Rightarrow> PendingApprovals" where
  "awaited H caller ident until pa = (case position_of (owned_by H caller ident) (pa_records pa) of
      None \<Rightarrow> pa
    | Some i \<Rightarrow> (let r = pa_records pa ! i in pa\<lparr>pa_records := (pa_records pa)[i := r\<lparr>ar_awaited_until :=
        awaited_max (ar_awaited_until r) (until + REQUESTER_GRACE)\<rparr>]\<rparr>))"

definition remove_record :: "nat \<Rightarrow> PendingApprovals \<Rightarrow> PendingApprovals" where
  "remove_record i pa = pa\<lparr>pa_records := take i (pa_records pa) @ drop (Suc i) (pa_records pa), pa_unsaved := True\<rparr>"

definition locate :: "string \<Rightarrow> PendingApprovals \<Rightarrow> nat vault_result" where
  "locate ident pa = ok_or (position_of (\<lambda>r. pm_id (ar_summary r) = ident) (pa_records pa))
     (Protocol ''permission is missing or expired'')"

text \<open>A record found by \<open>deny\<close> is pending, as the queue invariant shows; the code calls the
  other case unreachable.\<close>

definition deny :: "'z hash_env_scheme \<Rightarrow> string \<Rightarrow> u64 \<Rightarrow> (PendingApprovals, VaultError, unit) action" where
  "deny H ident now =
     sbind (smodify (approvals_purge_expired H now)) (\<lambda>_.
     sbind (sread (locate ident)) (\<lambda>index.
     sbind (sget (\<lambda>pa. pa_records pa ! index)) (\<lambda>r.
     case pm_state (ar_summary r) of
       Granted _ _ _ \<Rightarrow> slift (Inl WorkerUnavailable)
     | Pending _ expires_at _ _ _ \<Rightarrow>
         sbind (smodify (remove_record index)) (\<lambda>_.
         sbind (smodify (push_resolved ident (fingerprint H (ar_caller r)) WaitDenied
           (saturating_add64 expires_at APPROVAL_TTL_SECONDS))) (\<lambda>_.
         smodify approvals_changed)))))"

definition approval_status ::
  "'z hash_env_scheme \<Rightarrow> CallerIdentity \<Rightarrow> string \<Rightarrow> u64 \<Rightarrow> PendingApprovals
     \<Rightarrow> PermissionWaitStatus option \<times> PendingApprovals" where
  "approval_status H caller ident now pa =
     (let pa = approvals_purge_expired H now pa in
      (if list_ex (owned_by H caller ident) (pa_records pa) then Some WaitPending
       else map_option rr_status (find (\<lambda>r. rr_id r = ident \<and> rr_caller_fingerprint r = fingerprint H caller)
         (pa_resolved pa)), pa))"

text \<open>The checks of an approval and the grant it asks for.\<close>

definition approved_grant ::
  "signing \<Rightarrow> ApprovalRecord \<Rightarrow> bytes \<Rightarrow> ApprovedLifetime \<Rightarrow> u64 \<Rightarrow> (GrantTarget \<times> Permission) vault_result" where
  "approved_grant K r sig lifetime now =
     (case pm_state (ar_summary r) of
        Granted _ _ _ \<Rightarrow> Inl (Protocol ''permission is not pending'')
      | Pending _ _ challenge _ _ \<Rightarrow>
          rbind (verify_signature K CURRENT_SIGNATURE_ALGORITHM
            (permission_payload (pm_id (ar_summary r)) challenge (al_duration_seconds lifetime)
              (al_single_use lifetime)) sig) (\<lambda>_.
          rbind (guard (\<not> (al_single_use lifetime \<and>
              (ar_scope r \<noteq> SecretSpecProviderCache \<or> ar_permission r \<noteq> GPut)))
            (Protocol ''only a SecretSpec write can be approved for one write'')) (\<lambda>_.
          rbind (case (if al_single_use lifetime then Some SINGLE_USE_GRANT_SECONDS
                       else al_duration_seconds lifetime) of
              None \<Rightarrow> Inr None
            | Some duration \<Rightarrow> rbind (ok_or (checked_add64 now duration) VaultError.Expired)
                (\<lambda>t. Inr (Some t))) (\<lambda>expires_at.
          rbind (ok_or (ac_project (pm_application (ar_summary r)))
            (Protocol ''permission has no project'')) (\<lambda>project.
          rbind (ok_or (ar_address r) AuthorizationRequired) (\<lambda>address.
          Inr (ProjectEntry (ar_scope r) (ar_namespace r) address project
                 (ac_base_dir (pm_application (ar_summary r))),
               (ar_summary r)\<lparr>pm_state := Granted now expires_at (al_single_use lifetime)\<rparr>)))))))"

definition approve ::
  "'z hash_env_scheme \<Rightarrow> 's store_ops \<Rightarrow> grant_codecs \<Rightarrow> signing \<Rightarrow> string \<Rightarrow> bytes \<Rightarrow> ApprovedLifetime \<Rightarrow> u64
     \<Rightarrow> Provenance \<Rightarrow> PendingApprovals \<Rightarrow> 's \<Rightarrow> unit vault_result \<times> PendingApprovals \<times> 's" where
  "approve H S C K ident sig lifetime now provenance pa s =
     (let pa = approvals_purge_expired H now pa in
      case locate ident pa of
        Inl e \<Rightarrow> (Inl e, pa, s)
      | Inr index \<Rightarrow>
          (let r = pa_records pa ! index in
           case approved_grant K r sig lifetime now of
             Inl e \<Rightarrow> (Inl e, pa, s)
           | Inr (target, permission) \<Rightarrow>
               (case promote_permission H S C (ar_caller r) target (ar_permission r) permission now provenance s of
                  (Inl e, s) \<Rightarrow> (Inl e, pa, s)
                | (Inr _, s) \<Rightarrow>
                    (Inr (), approvals_changed (push_resolved ident (fingerprint H (ar_caller r)) WaitGranted
                       (saturating_add64 now APPROVAL_TTL_SECONDS) (remove_record index pa)), s))))"

end
