(* ===== verification/Vault_Store.thy ===== *)
theory Vault_Store
  imports Grant_Laws Lease
begin

text \<open>
  The handle the service holds on the store (\<open>src/src/vault/store.rs\<close>, with
  \<open>WorkerControl\<close> and \<open>request\<close> of \<open>store/worker.rs\<close>): every operation is a command sent to
  the store thread and the wait for its reply.  The service serializes its commands, so the
  thread answers them one at a time; what other threads can do meanwhile is request a seal,
  which the oracle \<open>interrupts\<close> says.  Clock readings come from \<open>instants\<close> and
  \<open>system_times\<close>, indexed by how often a clock was read.  The handle is shown to keep the
  laws of a record store, so all that holds of grants holds of grants reached through it.
\<close>

section \<open>Clocks\<close>

record ('d, 'r, 'i) clocked_env = "('d, 'r, 'i) store_env" +
  instants :: "nat \<Rightarrow> instant"
  system_times :: "nat \<Rightarrow> system_time"
  interrupts :: "nat \<Rightarrow> bool"

record StoreHandle =
  sh_status :: WorkerStatus
  sh_worker :: StoreWorker
  sh_ticks :: nat

definition instant_now ::
  "('d, 'r, 'i, 'z) clocked_env_scheme \<Rightarrow> ('s StoreHandle_scheme, 'e, instant) action" where
  "instant_now E s = (Inr (instants E (sh_ticks s)), s\<lparr>sh_ticks := Suc (sh_ticks s)\<rparr>)"

definition system_now ::
  "('d, 'r, 'i, 'z) clocked_env_scheme \<Rightarrow> ('s StoreHandle_scheme, 'e, system_time) action" where
  "system_now E s = (Inr (system_times E (sh_ticks s)), s\<lparr>sh_ticks := Suc (sh_ticks s)\<rparr>)"

section \<open>Commands\<close>

definition store_request ::
  "('d, 'r, 'i, 'z) clocked_env_scheme \<Rightarrow> Command \<Rightarrow> ('s StoreHandle_scheme, VaultError, Reply) action" where
  "store_request E command s =
     (let n = sh_ticks s;
          (replies, status, w) = run_worker E
            [Meanwhile (if interrupts E n then request_shutdown else (\<lambda>status. status)),
             Received command (instants E n) (instants E (n + 1)) (instants E (n + 2))]
            (sh_status s) (sh_worker s);
          (reply, status) = (case replies of
              [] \<Rightarrow> (Inl WorkerUnavailable, status)
            | reply # _ \<Rightarrow>
                if interrupts E (n + 1) then (Inl Sealed, request_shutdown status) else (reply, status))
      in (reply, s\<lparr>sh_status := status, sh_worker := w, sh_ticks := n + 3\<rparr>))"

text \<open>A command's reply channel is typed by the command.\<close>

definition expect :: "(Reply \<Rightarrow> 'a option) \<Rightarrow> Reply \<Rightarrow> 'a vault_result" where
  "expect f reply = ok_or (f reply) WorkerUnavailable"

definition store_call ::
  "('d, 'r, 'i, 'z) clocked_env_scheme \<Rightarrow> Command \<Rightarrow> (Reply \<Rightarrow> 'a option)
     \<Rightarrow> ('s StoreHandle_scheme, VaultError, 'a) action" where
  "store_call E command f = sbind (store_request E command) (\<lambda>reply. slift (expect f reply))"

definition vs_export_revision ::
  "('d, 'r, 'i, 'z) clocked_env_scheme \<Rightarrow> ('s StoreHandle_scheme, VaultError, bytes option) action" where
  "vs_export_revision E = store_call E ExportRevision (\<lambda>r. case r of Revision v \<Rightarrow> Some v | _ \<Rightarrow> None)"

definition vs_delete ::
  "('d, 'r, 'i, 'z) clocked_env_scheme \<Rightarrow> DocumentKind \<Rightarrow> bytes \<Rightarrow> SecretAddress \<Rightarrow> Provenance \<Rightarrow> u64
     \<Rightarrow> ('s StoreHandle_scheme, VaultError, bool) action" where
  "vs_delete E scope namespace address provenance now =
     store_call E (DeleteSecret scope namespace address provenance now)
       (\<lambda>r. case r of Removed v \<Rightarrow> Some v | _ \<Rightarrow> None)"

definition vs_clear ::
  "('d, 'r, 'i, 'z) clocked_env_scheme \<Rightarrow> DocumentKind \<Rightarrow> bytes \<Rightarrow> Provenance \<Rightarrow> u64
     \<Rightarrow> ('s StoreHandle_scheme, VaultError, nat) action" where
  "vs_clear E scope namespace provenance now =
     store_call E (ClearDocument scope namespace provenance now)
       (\<lambda>r. case r of Count v \<Rightarrow> Some v | _ \<Rightarrow> None)"

definition vs_get_with_deadline ::
  "('d, 'r, 'i, 'z) clocked_env_scheme \<Rightarrow> DocumentKind \<Rightarrow> bytes \<Rightarrow> SecretAddress \<Rightarrow> u64
     \<Rightarrow> ('s StoreHandle_scheme, VaultError, StoredSecret option) action" where
  "vs_get_with_deadline E scope namespace address now =
     store_call E (Get scope namespace address now) (\<lambda>r. case r of Secret v \<Rightarrow> Some v | _ \<Rightarrow> None)"

definition vs_get_at ::
  "('d, 'r, 'i, 'z) clocked_env_scheme \<Rightarrow> DocumentKind \<Rightarrow> bytes \<Rightarrow> SecretAddress \<Rightarrow> u64
     \<Rightarrow> ('s StoreHandle_scheme, VaultError, bytes option) action" where
  "vs_get_at E scope namespace address now =
     sbind (vs_get_with_deadline E scope namespace address now) (\<lambda>v. sret (map_option ss_value v))"

definition vs_export_at ::
  "('d, 'r, 'i, 'z) clocked_env_scheme \<Rightarrow> DocumentKind \<Rightarrow> bytes \<Rightarrow> SecretAddress \<Rightarrow> u64
     \<Rightarrow> ('s StoreHandle_scheme, VaultError, StoredSecret option) action" where
  "vs_export_at E scope namespace address now = vs_get_with_deadline E scope namespace address now"

definition vs_get_many ::
  "('d, 'r, 'i, 'z) clocked_env_scheme \<Rightarrow> DocumentKind \<Rightarrow> bytes \<Rightarrow> SecretAddress list \<Rightarrow> u64
     \<Rightarrow> ('s StoreHandle_scheme, VaultError, bytes option list) action" where
  "vs_get_many E scope namespace addresses now =
     store_call E (GetMany scope namespace addresses now) (\<lambda>r. case r of Values v \<Rightarrow> Some v | _ \<Rightarrow> None)"

definition vs_put_at ::
  "('d, 'r, 'i, 'z) clocked_env_scheme \<Rightarrow> DocumentKind \<Rightarrow> bytes \<Rightarrow> SecretAddress \<Rightarrow> bytes \<Rightarrow> u64 option
     \<Rightarrow> Provenance \<Rightarrow> u64 \<Rightarrow> ('s StoreHandle_scheme, VaultError, unit) action" where
  "vs_put_at E scope namespace address v evict_at provenance now =
     store_call E (PutSecret scope namespace address v evict_at provenance now)
       (\<lambda>r. case r of Done \<Rightarrow> Some () | _ \<Rightarrow> None)"

definition vs_mutate ::
  "('d, 'r, 'i, 'z) clocked_env_scheme \<Rightarrow> DocumentKind \<Rightarrow> bytes \<Rightarrow> DocumentOperation list \<Rightarrow> Provenance \<Rightarrow> u64
     \<Rightarrow> ('s StoreHandle_scheme, VaultError, unit) action" where
  "vs_mutate E scope namespace operations provenance now =
     store_call E (Mutate scope namespace operations provenance now)
       (\<lambda>r. case r of Done \<Rightarrow> Some () | _ \<Rightarrow> None)"

definition vs_purge_expired_at ::
  "('d, 'r, 'i, 'z) clocked_env_scheme \<Rightarrow> u64 \<Rightarrow> ('s StoreHandle_scheme, VaultError, nat) action" where
  "vs_purge_expired_at E now =
     store_call E (PurgeExpired now) (\<lambda>r. case r of Count v \<Rightarrow> Some v | _ \<Rightarrow> None)"

definition vs_list_projects ::
  "('d, 'r, 'i, 'z) clocked_env_scheme \<Rightarrow> string option \<Rightarrow> nat \<Rightarrow> u64
     \<Rightarrow> ('s StoreHandle_scheme, VaultError, string StorePage) action" where
  "vs_list_projects E cursor limit now =
     store_call E (ListProjects cursor limit now) (\<lambda>r. case r of Projects v \<Rightarrow> Some v | _ \<Rightarrow> None)"

definition vs_list_project_addresses ::
  "('d, 'r, 'i, 'z) clocked_env_scheme \<Rightarrow> string \<Rightarrow> string option \<Rightarrow> nat \<Rightarrow> u64
     \<Rightarrow> ('s StoreHandle_scheme, VaultError, SecretSpecAddress StorePage) action" where
  "vs_list_project_addresses E project cursor limit now =
     store_call E (ListProjectAddresses project cursor limit now)
       (\<lambda>r. case r of Addresses v \<Rightarrow> Some v | _ \<Rightarrow> None)"

definition vs_list_vault_entries ::
  "('d, 'r, 'i, 'z) clocked_env_scheme \<Rightarrow> string option \<Rightarrow> nat \<Rightarrow> u64
     \<Rightarrow> ('s StoreHandle_scheme, VaultError, VaultEntryMetadata StorePage) action" where
  "vs_list_vault_entries E cursor limit now =
     store_call E (ListVaultEntries cursor limit now)
       (\<lambda>r. case r of VaultEntries v \<Rightarrow> Some v | _ \<Rightarrow> None)"

definition vs_list_history ::
  "('d, 'r, 'i, 'z) clocked_env_scheme \<Rightarrow> DocumentKind \<Rightarrow> bytes \<Rightarrow> SecretAddress option \<Rightarrow> u64 option \<Rightarrow> nat
     \<Rightarrow> ('s StoreHandle_scheme, VaultError, HistoryPage) action" where
  "vs_list_history E scope namespace address before_seq limit =
     store_call E (ListHistory scope namespace address before_seq limit)
       (\<lambda>r. case r of Entries v \<Rightarrow> Some v | _ \<Rightarrow> None)"

section \<open>Sealing\<close>

definition vs_request_seal :: "'s StoreHandle_scheme \<Rightarrow> 's StoreHandle_scheme" where
  "vs_request_seal s = s\<lparr>sh_status := request_shutdown (sh_status s)\<rparr>"

text \<open>\<open>shutdown\<close> requests the seal and waits for the thread to end.\<close>

definition vs_seal :: "'s StoreHandle_scheme \<Rightarrow> 's StoreHandle_scheme" where
  "vs_seal s = s\<lparr>sh_status := (request_shutdown (sh_status s))\<lparr>ws_shutdown_complete := True\<rparr>\<rparr>"

definition vs_is_sealed ::
  "('d, 'r, 'i, 'z) clocked_env_scheme \<Rightarrow> ('s StoreHandle_scheme, 'e, bool) action" where
  "vs_is_sealed E s =
     (let n = sh_ticks s;
          status = (if interrupts E n then request_shutdown (sh_status s) else sh_status s);
          (sealed, status) = worker_is_sealed (instants E n) status
      in (Inr sealed, s\<lparr>sh_status := status, sh_ticks := Suc n\<rparr>))"

definition vs_set_deadline ::
  "('d, 'r, 'i, 'z) clocked_env_scheme \<Rightarrow> instant \<Rightarrow> ('s StoreHandle_scheme, VaultError, unit) action" where
  "vs_set_deadline E deadline s =
     (let (r, status) = set_deadline (instants E (sh_ticks s)) deadline (sh_status s)
      in (r, s\<lparr>sh_status := status, sh_ticks := Suc (sh_ticks s)\<rparr>))"

definition vs_deadline :: "'s StoreHandle_scheme \<Rightarrow> instant option" where
  "vs_deadline s = ws_deadline (sh_status s)"

definition vs_is_shutdown_complete :: "'s StoreHandle_scheme \<Rightarrow> bool" where
  "vs_is_shutdown_complete s = ws_shutdown_complete (sh_status s)"

section \<open>The calls a grant document needs\<close>

definition service_ops ::
  "('d, 'r, 'i, 'z) clocked_env_scheme \<Rightarrow> DocumentKind \<Rightarrow> bytes \<Rightarrow> 's StoreHandle_scheme store_ops" where
  "service_ops E scope namespace = \<lparr>
     op_get = vs_get_with_deadline E scope namespace,
     op_get_many = vs_get_many E scope namespace,
     op_mutate = vs_mutate E scope namespace\<rparr>"

section \<open>What a command does\<close>

lemma store_request_cases:
  assumes "store_request E command s = (r, s')"
  obtains (refused) e where "r = Inl e" and "sh_worker s' = sh_worker s"
    and "e = WorkerUnavailable \<or> e = Sealed"
  | (ran) act q where "execute_command E command = Some act" and "act (sh_worker s) = (q, sh_worker s')"
    and "r = q \<or> r = Inl Sealed"
  using assms unfolding store_request_def
  by (fastforce simp: Let_def send_result_def split: prod.splits if_splits option.splits)

lemma store_request_ok:
  assumes "store_request E command s = (Inr r, s')"
  shows "\<exists>act. execute_command E command = Some act \<and> act (sh_worker s) = (Inr r, sh_worker s')"
  using assms by (cases rule: store_request_cases) auto

lemma store_request_frame:
  assumes "store_request E command s = (r, s')"
  shows "s' = s\<lparr>sh_status := sh_status s', sh_worker := sh_worker s', sh_ticks := sh_ticks s + 3\<rparr>"
  using assms by (auto simp: store_request_def Let_def split: prod.splits list.splits if_splits)

text \<open>A handle is ready when nothing seals the store from here on: the seal is not set, no
  thread will request one, every later clock reading is before the deadline, and the worker
  meets no database failure.\<close>

definition unsealed :: "('d, 'r, 'i, 'z) clocked_env_scheme \<Rightarrow> 's StoreHandle_scheme \<Rightarrow> bool" where
  "unsealed E s \<longleftrightarrow> \<not> ws_sealed (sh_status s) \<and>
     (\<forall>n \<ge> sh_ticks s. \<not> interrupts E n \<and>
       (case ws_deadline (sh_status s) of None \<Rightarrow> True | Some deadline \<Rightarrow> instants E n < deadline))"

definition handle_ready :: "('d, 'r, 'i, 'z) clocked_env_scheme \<Rightarrow> 's StoreHandle_scheme \<Rightarrow> bool" where
  "handle_ready E s \<longleftrightarrow> unsealed E s \<and> undisturbed E (sh_worker s)"

definition handle_room ::
  "('d, 'r, 'i, 'z) clocked_env_scheme \<Rightarrow> DocumentKind \<Rightarrow> bytes \<Rightarrow> 's StoreHandle_scheme \<Rightarrow> nat \<Rightarrow> bool" where
  "handle_room E kind part s n \<longleftrightarrow> unsealed E s \<and> store_room E kind part (sh_worker s) n"

definition handle_holds ::
  "('d, 'r, 'i, 'z) clocked_env_scheme \<Rightarrow> ('d \<Rightarrow> am_view) \<Rightarrow> DocumentKind \<Rightarrow> bytes \<Rightarrow> 's StoreHandle_scheme
     \<Rightarrow> entries \<Rightarrow> bool" where
  "handle_holds E V kind part s M \<longleftrightarrow> holds E V kind part (sh_worker s) M"

lemma unsealed_is_sealed:
  assumes "unsealed E s" and "sh_ticks s \<le> n"
  shows "worker_is_sealed (instants E n) (sh_status s) = (False, sh_status s)"
  using assms by (auto simp: unsealed_def worker_is_sealed_def split: option.splits)

lemma unsealed_later:
  assumes "unsealed E s" and "sh_status s' = sh_status s" and "sh_ticks s \<le> sh_ticks s'"
  shows "unsealed E s'"
  using assms unfolding unsealed_def by auto

lemma store_request_unsealed:
  assumes "unsealed E s" and "execute_command E command = Some act" and "act (sh_worker s) = (q, w')"
  shows "store_request E command s = (q, s\<lparr>sh_status := (if fatal_result q
      then (sh_status s)\<lparr>ws_sealed := True\<rparr> else sh_status s), sh_worker := w', sh_ticks := sh_ticks s + 3\<rparr>)"
proof -
  have "\<not> interrupts E (sh_ticks s)" "\<not> interrupts E (Suc (sh_ticks s))"
    using assms(1) by (simp_all add: unsealed_def)
  then show ?thesis
    using assms unsealed_is_sealed [OF assms(1)]
    by (simp add: store_request_def send_result_def Let_def)
qed

text \<open>A command whose reply wraps the value of a worker operation.\<close>

definition answers ::
  "('d, 'r, 'i, 'z) clocked_env_scheme \<Rightarrow> Command \<Rightarrow> (Reply \<Rightarrow> 'a option) \<Rightarrow> 'a store_action \<Rightarrow> bool" where
  "answers E command f m \<longleftrightarrow>
     (\<exists>g. execute_command E command = Some (sbind m (\<lambda>v. sret (g v))) \<and> (\<forall>v. f (g v) = Some v))"

lemma answersI:
  "execute_command E command = Some (sbind m (\<lambda>v. sret (g v))) \<Longrightarrow> (\<And>v. f (g v) = Some v) \<Longrightarrow>
     answers E command f m"
  unfolding answers_def by blast

lemma store_call_ok:
  assumes "answers E command f m" and "store_call E command f s = (Inr v, s')"
  shows "m (sh_worker s) = (Inr v, sh_worker s')"
proof -
  from assms(1) obtain g where g: "execute_command E command = Some (sbind m (\<lambda>v. sret (g v)))"
    "\<And>v. f (g v) = Some v" unfolding answers_def by blast
  from assms(2) obtain r where r: "store_request E command s = (Inr r, s')" "f r = Some v"
    by (auto simp: store_call_def res_simps expect_def)
  with store_request_ok [OF r(1)] g show ?thesis by (auto simp: res_simps)
qed

lemma store_call_worker:
  assumes "answers E command f m" and "store_call E command f s = (r, s')"
  shows "sh_worker s' = sh_worker s \<or> (\<exists>q. m (sh_worker s) = (q, sh_worker s'))"
proof -
  from assms(1) obtain g where g: "execute_command E command = Some (sbind m (\<lambda>v. sret (g v)))"
    unfolding answers_def by blast
  obtain q s1 where q: "store_request E command s = (q, s1)" by (cases "store_request E command s")
  then have "s' = s1" using assms(2)
    by (cases q) (auto simp: store_call_def sbind_def slift_def)
  with q show ?thesis
    by (cases rule: store_request_cases) (auto simp: g sbind_def split: prod.splits sum.splits)
qed

lemma store_call_unsealed:
  assumes "unsealed E s" and "answers E command f m" and "m (sh_worker s) = (q, w')"
  shows "store_call E command f s = (q, s\<lparr>sh_status := (if fatal_result q
      then (sh_status s)\<lparr>ws_sealed := True\<rparr> else sh_status s), sh_worker := w', sh_ticks := sh_ticks s + 3\<rparr>)"
proof -
  from assms(2) obtain g where g: "execute_command E command = Some (sbind m (\<lambda>v. sret (g v)))"
    "\<And>v. f (g v) = Some v" unfolding answers_def by blast
  have "sbind m (\<lambda>v. sret (g v)) (sh_worker s) = (case q of Inl e \<Rightarrow> Inl e | Inr v \<Rightarrow> Inr (g v), w')"
    using assms(3) by (cases q) simp_all
  from store_request_unsealed [OF assms(1) g(1) this] show ?thesis
    using g(2) by (cases q) (simp_all add: store_call_def expect_def fatal_result_def)
qed

lemma answers_calls:
  "answers E (Get scope namespace address now) (\<lambda>r. case r of Secret v \<Rightarrow> Some v | _ \<Rightarrow> None)
     (store_get E (document_id E scope namespace) scope namespace address now)"
  "answers E (GetMany scope namespace addresses now) (\<lambda>r. case r of Values v \<Rightarrow> Some v | _ \<Rightarrow> None)
     (store_get_many E (document_id E scope namespace) scope namespace addresses now)"
  "answers E (Mutate scope namespace operations provenance now) (\<lambda>r. case r of Done \<Rightarrow> Some () | _ \<Rightarrow> None)
     (store_mutate E (document_id E scope namespace) scope namespace operations (context_of E provenance now))"
  "answers E (PutSecret scope namespace address v evict_at provenance now) (\<lambda>r. case r of Done \<Rightarrow> Some () | _ \<Rightarrow> None)
     (store_put E (document_id E scope namespace) scope namespace address v evict_at (context_of E provenance now))"
  "answers E (DeleteSecret scope namespace address provenance now) (\<lambda>r. case r of Removed v \<Rightarrow> Some v | _ \<Rightarrow> None)
     (store_delete E (document_id E scope namespace) scope namespace address (context_of E provenance now))"
  "answers E (ListHistory scope namespace within before_seq limit) (\<lambda>r. case r of Entries v \<Rightarrow> Some v | _ \<Rightarrow> None)
     (list_history E (document_id E scope namespace) scope namespace within before_seq limit)"
  by (auto intro!: answersI)

text \<open>The handle keeps the laws of the document it reaches.\<close>

interpretation service_store: record_store E "service_ops E kind part" "handle_holds E V kind part" "handle_ready E"
  for E :: "('d, 'r, 'i, 'z) clocked_env_scheme" and V kind part
proof unfold_locales
  fix s :: "'s StoreHandle_scheme" and M a now v s'
  assume "handle_holds E V kind part s M" and "op_get (service_ops E kind part) a now s = (Inr v, s')"
  then show "read_entry E M now a = Inr v \<and> handle_holds E V kind part s' (expire_entry E now a M)"
    using document_store.get_ok [of E V kind part "sh_worker s" M a now v "sh_worker s'"]
    by (auto simp: handle_holds_def service_ops_def document_ops_def vs_get_with_deadline_def
        dest: store_call_ok [OF answers_calls(1)])
next
  fix s :: "'s StoreHandle_scheme" and M as now r s'
  assume h: "handle_holds E V kind part s M" and "op_get_many (service_ops E kind part) as now s = (r, s')"
  then have "sh_worker s' = sh_worker s \<or> (\<exists>q. op_get_many (document_ops E kind part) as now (sh_worker s) = (q, sh_worker s'))"
    by (auto simp: service_ops_def document_ops_def vs_get_many_def dest: store_call_worker [OF answers_calls(2)])
  then show "handle_holds E V kind part s' M"
    using h document_store.get_many_rep [of E V kind part "sh_worker s" M as now _ "sh_worker s'"]
    by (auto simp: handle_holds_def)
next
  fix s :: "'s StoreHandle_scheme" and M as now vs s'
  assume "handle_holds E V kind part s M" and "op_get_many (service_ops E kind part) as now s = (Inr vs, s')"
  then show "rmapM (read_value E M now) as = Inr vs"
    using document_store.get_many_ok [of E V kind part "sh_worker s" M as now vs "sh_worker s'"]
    by (auto simp: handle_holds_def service_ops_def document_ops_def vs_get_many_def
        dest: store_call_ok [OF answers_calls(2)])
next
  fix s :: "'s StoreHandle_scheme" and M as now
  assume h: "handle_holds E V kind part s M" and r: "handle_ready E s"
  from document_store.get_many_ready [of E V kind part "sh_worker s" M as now] h r obtain w' where
    w': "store_get_many E (document_id E kind part) kind part as now (sh_worker s) = (rmapM (read_value E M now) as, w')"
      "is_ok (rmapM (read_value E M now) as) \<longrightarrow> undisturbed E w'"
    by (auto simp: handle_holds_def handle_ready_def document_ops_def)
  show "\<exists>s'. op_get_many (service_ops E kind part) as now s = (rmapM (read_value E M now) as, s') \<and>
      (is_ok (rmapM (read_value E M now) as) \<longrightarrow> handle_ready E s')"
    using store_call_unsealed [OF _ answers_calls(2) w'(1)] r w'(2)
    by (auto simp: service_ops_def vs_get_many_def handle_ready_def unsealed_def fatal_result_def is_ok_iff)
next
  fix s :: "'s StoreHandle_scheme" and M ops provenance now u s'
  assume "handle_holds E V kind part s M" and "op_mutate (service_ops E kind part) ops provenance now s = (Inr u, s')"
  then show "handle_holds E V kind part s' (fold (apply_entry E) ops M)"
    using document_store.mutate_ok [of E V kind part "sh_worker s" M ops provenance now u "sh_worker s'"]
    by (auto simp: handle_holds_def service_ops_def document_ops_def vs_mutate_def
        dest: store_call_ok [OF answers_calls(3)])
qed

interpretation live_service_store: live_record_store E "service_ops E kind part" "handle_holds E V kind part"
    "handle_ready E" "handle_room E kind part"
  for E :: "('d, 'r, 'i, 'z) clocked_env_scheme" and V kind part
proof unfold_locales
  fix s :: "'s StoreHandle_scheme" and n
  assume "handle_room E kind part s n"
  then show "handle_ready E s"
    using live_document_store.room_ready by (auto simp: handle_room_def handle_ready_def)
next
  fix s :: "'s StoreHandle_scheme" and n k
  assume "handle_room E kind part s n" and "k \<le> n"
  then show "handle_room E kind part s k"
    using live_document_store.room_less by (auto simp: handle_room_def)
next
  fix s :: "'s StoreHandle_scheme" and M n as now vs s'
  assume h: "handle_holds E V kind part s M" and r: "handle_room E kind part s n"
    and run: "op_get_many (service_ops E kind part) as now s = (Inr vs, s')"
  obtain q w' where m: "store_get_many E (document_id E kind part) kind part as now (sh_worker s) = (q, w')"
    by (cases "store_get_many E (document_id E kind part) kind part as now (sh_worker s)")
  from store_call_unsealed [OF _ answers_calls(2) m] r run have q: "q = Inr vs" "sh_worker s' = w'"
    "unsealed E s'"
    by (auto simp: handle_room_def service_ops_def vs_get_many_def unsealed_def fatal_result_def)
  with m h r live_document_store.room_get_many [of E V kind part "sh_worker s" M n as now vs w']
  show "handle_room E kind part s' n"
    by (auto simp: handle_room_def handle_holds_def document_ops_def)
next
  fix s :: "'s StoreHandle_scheme" and M n a now
  assume h: "handle_holds E V kind part s M" and r: "handle_room E kind part s n"
    and l: "\<forall>a' v e. M (storage_key E a) = Some (a', v, e) \<longrightarrow> live now e"
  from live_document_store.get_live [of E V kind part "sh_worker s" M n a now] h r l obtain w' where
    w': "store_get E (document_id E kind part) kind part a now (sh_worker s) = (read_entry E M now a, w')"
      "holds E V kind part w' M" "is_ok (read_entry E M now a) \<longrightarrow> store_room E kind part w' n"
    by (auto simp: handle_room_def handle_holds_def document_ops_def)
  show "\<exists>s'. op_get (service_ops E kind part) a now s = (read_entry E M now a, s') \<and>
      handle_holds E V kind part s' M \<and> (is_ok (read_entry E M now a) \<longrightarrow> handle_room E kind part s' n)"
    using store_call_unsealed [OF _ answers_calls(1) w'(1)] r w'(2,3)
    by (auto simp: service_ops_def vs_get_with_deadline_def handle_room_def handle_holds_def unsealed_def
        fatal_result_def is_ok_iff)
next
  fix s :: "'s StoreHandle_scheme" and M ops n provenance now
  assume h: "handle_holds E V kind part s M" and r: "handle_room E kind part s (length ops + n)"
    and f: "deadlines_fit (fold (apply_entry E) ops M)"
  from live_document_store.mutate_live [of E V kind part "sh_worker s" M ops n provenance now] h r f obtain w' where
    w': "store_mutate E (document_id E kind part) kind part ops (context_of E provenance now) (sh_worker s) = (Inr (), w')"
      "store_room E kind part w' n"
    by (auto simp: handle_room_def handle_holds_def document_ops_def)
  show "\<exists>s'. op_mutate (service_ops E kind part) ops provenance now s = (Inr (), s') \<and> handle_room E kind part s' n"
    using store_call_unsealed [OF _ answers_calls(3) w'(1)] r w'(2)
    by (auto simp: service_ops_def vs_mutate_def handle_room_def unsealed_def fatal_result_def)
qed

text \<open>A sealed store answers nothing and changes nothing.\<close>

lemma store_request_sealed:
  assumes "ws_sealed (sh_status s)" and "store_request E command s = (r, s')"
  shows "r = Inl WorkerUnavailable \<and> sh_worker s' = sh_worker s \<and> ws_sealed (sh_status s')"
  using assms by (auto simp: store_request_def request_shutdown_def worker_is_sealed_def Let_def split: if_splits option.splits)

lemma store_call_sealed:
  assumes "ws_sealed (sh_status s)" and "store_call E command f s = (r, s')"
  shows "r = Inl WorkerUnavailable \<and> sh_worker s' = sh_worker s \<and> ws_sealed (sh_status s')"
proof -
  obtain q s1 where q: "store_request E command s = (q, s1)" by (cases "store_request E command s")
  from store_request_sealed [OF assms(1) q] q assms(2) show ?thesis by (simp add: store_call_def)
qed

text \<open>Reading from one document leaves every document as it was, whatever the outcome.\<close>

lemma get_many_keeps:
  assumes "vs_get_many E kind part as now s = (r, s')"
  shows "sw_db (sh_worker s') = sw_db (sh_worker s) \<and> sw_verified (sh_worker s') = sw_verified (sh_worker s)"
  using store_call_worker [OF answers_calls(2) assms [unfolded vs_get_many_def]]
    store_isD [OF store_is_reads(1)] by auto

end
