(* ===== verification/Actions.thy ===== *)
theory Actions
  imports Approvals Vault_Store
begin

text \<open>
  The grant-checked operations of the service (\<open>src/src/vault/protocol/service/actions.rs\<close>).
  Every operation checks the caller's grant against the store, narrows the time until which
  its answer is valid, and only then reads or writes.  The cell \<open>valid_until\<close> is a field of
  the state; the request's clock reads the clocks of the environment.
\<close>

section \<open>The environment of the service\<close>

record ('d, 'r, 'i) service_env = "('d, 'r, 'i) clocked_env" +
  codecs :: grant_codecs
  j_pending :: "StoredApprovals json"
  j_request :: "VaultRequest json"
  j_permission :: "Permission json"
  j_portable :: "PortableItem json"
  service_entropy :: "nat \<Rightarrow> nat \<Rightarrow> string + bytes"
  lock_memory :: "nat \<Rightarrow> unit vault_result"
  keyring_peer :: "string \<Rightarrow> (CallerIdentity \<times> string) vault_result"
  personal_decode :: "string \<Rightarrow> bytes \<Rightarrow> 'i option"
  personal_encode :: "'i \<Rightarrow> bytes option"
  hardware_backend :: string

record ActionState = StoreHandle +
  as_valid_until :: "u64 option"

definition grant_store_ops :: "('d, 'r, 'i, 'z) clocked_env_scheme \<Rightarrow> 's StoreHandle_scheme store_ops" where
  "grant_store_ops E = service_ops E Authorization GRANT_DOCUMENT_NAMESPACE"

section \<open>The request's clock\<close>

definition clock_new ::
  "('d, 'r, 'i, 'z) clocked_env_scheme \<Rightarrow> u64 \<Rightarrow> instant \<Rightarrow> ('s StoreHandle_scheme, 'e, RequestTime) action" where
  "clock_new E wall monotonic =
     sbind (system_now E) (\<lambda>system_started.
     sbind (instant_now E) (\<lambda>started.
     sret (request_time_new wall monotonic system_started started)))"

definition clock_sample ::
  "('d, 'r, 'i, 'z) clocked_env_scheme \<Rightarrow> RequestTime \<Rightarrow> ('s StoreHandle_scheme, 'e, u64 \<times> instant) action" where
  "clock_sample E rt =
     sbind (instant_now E) (\<lambda>monotonic_now.
     sbind (system_now E) (\<lambda>system_now.
     sbind (instant_now E) (\<lambda>fallback.
     sret (sample_at rt monotonic_now system_now fallback))))"

definition clock_wall ::
  "('d, 'r, 'i, 'z) clocked_env_scheme \<Rightarrow> RequestTime \<Rightarrow> ('s StoreHandle_scheme, 'e, u64) action" where
  "clock_wall E rt = sbind (clock_sample E rt) (\<lambda>sample. sret (fst sample))"

definition clock_deadline ::
  "('d, 'r, 'i, 'z) clocked_env_scheme \<Rightarrow> RequestTime \<Rightarrow> u64 \<Rightarrow> ('s StoreHandle_scheme, 'e, instant) action" where
  "clock_deadline E rt wall =
     sbind (instant_now E) (\<lambda>now.
     sbind (system_now E) (\<lambda>system_now.
     sret (deadline_at rt wall now system_now)))"

definition clock_check ::
  "('d, 'r, 'i, 'z) clocked_env_scheme \<Rightarrow> RequestTime \<Rightarrow> u64 option
     \<Rightarrow> ('s StoreHandle_scheme, VaultError, unit) action" where
  "clock_check E rt deadline =
     sbind (instant_now E) (\<lambda>monotonic_now.
     sbind (system_now E) (\<lambda>system_now.
     slift (time_check rt monotonic_now system_now deadline)))"

text \<open>\<open>clock.check(valid_until.get())\<close> and \<open>tighten(valid_until, deadline)\<close>.\<close>

definition check_valid_until ::
  "('d, 'r, 'i, 'z) clocked_env_scheme \<Rightarrow> RequestTime \<Rightarrow> ('s ActionState_scheme, VaultError, unit) action" where
  "check_valid_until E rt = sbind (sget as_valid_until) (clock_check E rt)"

definition tighten_until :: "u64 option \<Rightarrow> ('s ActionState_scheme, 'e, unit) action" where
  "tighten_until deadline = smodify (\<lambda>s. s\<lparr>as_valid_until := tighten (as_valid_until s) deadline\<rparr>)"

definition stry :: "('s, 'e, 'a) action \<Rightarrow> ('s, 'f, 'e + 'a) action" where
  "stry m s = (let (r, s) = m s in (Inr r, s))"

definition validate_evict_at :: "u64 option \<Rightarrow> u64 \<Rightarrow> unit vault_result" where
  "validate_evict_at evict_at now =
     guard (\<not> (case evict_at of None \<Rightarrow> False | Some deadline \<Rightarrow> deadline < now)) VaultError.Expired"

section \<open>Scopes\<close>

definition NETWORK_MANAGER_NAMESPACE :: bytes where
  "NETWORK_MANAGER_NAMESPACE = ''factorseal/network-manager/v1''"

definition namespace_scope :: "bytes \<Rightarrow> DocumentKind" where
  "namespace_scope namespace =
     (if namespace = SECRET_SERVICE_NAMESPACE then LinuxSecretService
      else if namespace = NETWORK_MANAGER_NAMESPACE then NetworkManagerWifi
      else LocalKeyring)"

definition scope_action :: "VaultAction \<Rightarrow> DocumentKind" where
  "scope_action action = (case action of
      GetProjectAction _ _ \<Rightarrow> SecretSpecProject
    | PutProjectAction _ _ _ \<Rightarrow> SecretSpecProject
    | DeleteProjectAction _ _ \<Rightarrow> SecretSpecProject
    | ListProjectsAction _ _ \<Rightarrow> SecretSpecProject
    | ListProjectAddressesAction _ _ _ \<Rightarrow> SecretSpecProject
    | ListProjectHistoryAction _ _ _ _ \<Rightarrow> SecretSpecProject
    | GetCacheAction _ _ \<Rightarrow> SecretSpecProviderCache
    | PutCacheAction _ _ _ _ \<Rightarrow> SecretSpecProviderCache
    | DeleteCacheAction _ _ \<Rightarrow> SecretSpecProviderCache
    | ClearCacheAction _ \<Rightarrow> SecretSpecProviderCache
    | SealCacheAction _ \<Rightarrow> SecretSpecProviderCache
    | ListCacheHistoryAction _ _ _ _ \<Rightarrow> SecretSpecProviderCache
    | GetAction namespace _ \<Rightarrow> namespace_scope namespace
    | PutAction namespace _ _ _ \<Rightarrow> namespace_scope namespace
    | MutateAction namespace _ \<Rightarrow> namespace_scope namespace
    | DeleteAction namespace _ \<Rightarrow> namespace_scope namespace
    | ClearAction namespace \<Rightarrow> namespace_scope namespace
    | SealAction namespace \<Rightarrow> namespace_scope namespace
    | ListHistoryAction namespace _ _ _ \<Rightarrow> namespace_scope namespace
    | _ \<Rightarrow> LocalKeyring)"

section \<open>Checks\<close>

record ActionContext =
  ax_caller :: CallerIdentity
  ax_scope :: DocumentKind
  ax_clock :: RequestTime
  ax_provenance :: Provenance
  ax_base_dir :: "string option"

definition accept_deadline ::
  "('d, 'r, 'i, 'z) service_env_scheme \<Rightarrow> ActionContext \<Rightarrow> u64 option
     \<Rightarrow> ('s ActionState_scheme, VaultError, unit) action" where
  "accept_deadline E x deadline =
     sbind (tighten_until deadline) (\<lambda>_. check_valid_until E (ax_clock x))"

definition require_requirement ::
  "('d, 'r, 'i, 'z) service_env_scheme \<Rightarrow> ActionContext \<Rightarrow> GrantRequirement
     \<Rightarrow> ('s ActionState_scheme, VaultError, unit) action" where
  "require_requirement E x q =
     sbind (clock_wall E (ax_clock x)) (\<lambda>now.
     sbind (require_grant_until E (grant_store_ops E) (codecs E) (ax_caller x) q now) (accept_deadline E x))"

definition require ::
  "('d, 'r, 'i, 'z) service_env_scheme \<Rightarrow> ActionContext \<Rightarrow> bytes \<Rightarrow> SecretAddress option \<Rightarrow> GrantPermission
     \<Rightarrow> ('s ActionState_scheme, VaultError, unit) action" where
  "require E x namespace address permission =
     require_requirement E x \<lparr>gq_scope = ax_scope x, gq_namespace = Some namespace, gq_address = address,
       gq_project = None, gq_base_dir = None, gq_permission = permission\<rparr>"

definition project_requirement ::
  "ActionContext \<Rightarrow> string \<Rightarrow> SecretAddress option \<Rightarrow> GrantPermission \<Rightarrow> GrantRequirement" where
  "project_requirement x project address permission =
     \<lparr>gq_scope = ax_scope x, gq_namespace = Some project, gq_address = address,
      gq_project = Some project, gq_base_dir = ax_base_dir x, gq_permission = permission\<rparr>"

definition require_project ::
  "('d, 'r, 'i, 'z) service_env_scheme \<Rightarrow> ActionContext \<Rightarrow> string \<Rightarrow> SecretAddress option \<Rightarrow> GrantPermission
     \<Rightarrow> ('s ActionState_scheme, VaultError, unit) action" where
  "require_project E x project address permission =
     require_requirement E x (project_requirement x project address permission)"

definition require_kind ::
  "('d, 'r, 'i, 'z) service_env_scheme \<Rightarrow> ActionContext \<Rightarrow> GrantPermission
     \<Rightarrow> ('s ActionState_scheme, VaultError, unit) action" where
  "require_kind E x permission =
     require_requirement E x \<lparr>gq_scope = ax_scope x, gq_namespace = None, gq_address = None,
       gq_project = None, gq_base_dir = None, gq_permission = permission\<rparr>"

section \<open>Reading and writing\<close>

definition read_secret ::
  "('d, 'r, 'i, 'z) service_env_scheme \<Rightarrow> ActionContext \<Rightarrow> bytes \<Rightarrow> SecretAddress
     \<Rightarrow> ('s ActionState_scheme, VaultError, VaultResponseBody) action" where
  "read_secret E x namespace address =
     sbind (clock_wall E (ax_clock x)) (\<lambda>now.
     sbind (vs_get_with_deadline E (ax_scope x) namespace address now) (\<lambda>found.
     case found of
       None \<Rightarrow> sret (SecretBody None)
     | Some secret \<Rightarrow>
         sbind (accept_deadline E x (ss_expires_at secret)) (\<lambda>_.
         sret (SecretBody (Some (ss_value secret))))))"

definition get ::
  "('d, 'r, 'i, 'z) service_env_scheme \<Rightarrow> ActionContext \<Rightarrow> bytes \<Rightarrow> WireSecretAddress
     \<Rightarrow> ('s ActionState_scheme, VaultError, VaultResponseBody) action" where
  "get E x namespace address =
     sbind (slift (wire_address_resolve address)) (\<lambda>address.
     sbind (require E x namespace (Some address) GGet) (\<lambda>_.
     read_secret E x namespace address))"

definition get_secret_spec ::
  "('d, 'r, 'i, 'z) service_env_scheme \<Rightarrow> ActionContext \<Rightarrow> string \<Rightarrow> SecretSpecAddress
     \<Rightarrow> ('s ActionState_scheme, VaultError, VaultResponseBody) action" where
  "get_secret_spec E x project address =
     sbind (slift (address_secret_spec address)) (\<lambda>address.
     sbind (require_project E x project (Some address) GGet) (\<lambda>_.
     read_secret E x project address))"

definition write_secret ::
  "('d, 'r, 'i, 'z) service_env_scheme \<Rightarrow> ActionContext \<Rightarrow> bytes \<Rightarrow> SecretAddress \<Rightarrow> bytes \<Rightarrow> u64 option
     \<Rightarrow> ('s ActionState_scheme, VaultError, VaultResponseBody) action" where
  "write_secret E x namespace address v evict_at =
     sbind (clock_wall E (ax_clock x)) (\<lambda>now.
     sbind (vs_put_at E (ax_scope x) namespace address v evict_at (ax_provenance x) now) (\<lambda>_.
     sret StoredBody))"

definition put ::
  "('d, 'r, 'i, 'z) service_env_scheme \<Rightarrow> ActionContext \<Rightarrow> bytes \<Rightarrow> WireSecretAddress \<Rightarrow> bytes \<Rightarrow> u64 option
     \<Rightarrow> ('s ActionState_scheme, VaultError, VaultResponseBody) action" where
  "put E x namespace address v evict_at =
     sbind (slift (wire_address_resolve address)) (\<lambda>address.
     sbind (require E x namespace (Some address) GPut) (\<lambda>_.
     sbind (clock_wall E (ax_clock x)) (\<lambda>now.
     sbind (slift (validate_evict_at evict_at now)) (\<lambda>_.
     write_secret E x namespace address v evict_at))))"

definition put_secret_spec ::
  "('d, 'r, 'i, 'z) service_env_scheme \<Rightarrow> ActionContext \<Rightarrow> string \<Rightarrow> SecretSpecAddress \<Rightarrow> bytes \<Rightarrow> u64 option
     \<Rightarrow> ('s ActionState_scheme, VaultError, VaultResponseBody) action" where
  "put_secret_spec E x project address v evict_at =
     sbind (slift (address_secret_spec address)) (\<lambda>address.
     sbind (clock_wall E (ax_clock x)) (\<lambda>now.
     sbind (slift (validate_evict_at evict_at now)) (\<lambda>_.
     sbind (clock_wall E (ax_clock x)) (\<lambda>now.
     sbind (require_grant_consuming E (grant_store_ops E) (codecs E) (ax_caller x)
       (project_requirement x project (Some address) GPut) now (ax_provenance x)) (\<lambda>deadline.
     sbind (accept_deadline E x deadline) (\<lambda>_.
     write_secret E x project address v evict_at))))))"

definition remove_secret ::
  "('d, 'r, 'i, 'z) service_env_scheme \<Rightarrow> ActionContext \<Rightarrow> bytes \<Rightarrow> SecretAddress
     \<Rightarrow> ('s ActionState_scheme, VaultError, VaultResponseBody) action" where
  "remove_secret E x namespace address =
     sbind (clock_wall E (ax_clock x)) (\<lambda>now.
     sbind (vs_delete E (ax_scope x) namespace address (ax_provenance x) now) (\<lambda>existed.
     sret (DeletedBody existed)))"

definition delete ::
  "('d, 'r, 'i, 'z) service_env_scheme \<Rightarrow> ActionContext \<Rightarrow> bytes \<Rightarrow> WireSecretAddress
     \<Rightarrow> ('s ActionState_scheme, VaultError, VaultResponseBody) action" where
  "delete E x namespace address =
     sbind (slift (wire_address_resolve address)) (\<lambda>address.
     sbind (require E x namespace (Some address) GDelete) (\<lambda>_.
     remove_secret E x namespace address))"

definition delete_secret_spec ::
  "('d, 'r, 'i, 'z) service_env_scheme \<Rightarrow> ActionContext \<Rightarrow> string \<Rightarrow> SecretSpecAddress
     \<Rightarrow> ('s ActionState_scheme, VaultError, VaultResponseBody) action" where
  "delete_secret_spec E x project address =
     sbind (slift (address_secret_spec address)) (\<lambda>address.
     sbind (require_project E x project (Some address) GDelete) (\<lambda>_.
     remove_secret E x project address))"

definition clear ::
  "('d, 'r, 'i, 'z) service_env_scheme \<Rightarrow> ActionContext \<Rightarrow> bytes
     \<Rightarrow> ('s ActionState_scheme, VaultError, VaultResponseBody) action" where
  "clear E x namespace =
     sbind (require E x namespace None GClear) (\<lambda>_.
     sbind (clock_wall E (ax_clock x)) (\<lambda>now.
     sbind (vs_clear E (ax_scope x) namespace (ax_provenance x) now) (\<lambda>entries.
     sret (ClearedBody entries))))"

section \<open>Batches\<close>

definition prepare_mutation ::
  "('d, 'r, 'i, 'z) service_env_scheme \<Rightarrow> ActionContext \<Rightarrow> bytes \<Rightarrow> VaultMutation
     \<Rightarrow> ('s ActionState_scheme, VaultError, DocumentOperation list) action" where
  "prepare_mutation E x namespace mutation = (case mutation of
      CheckMutation address expected_sha256 \<Rightarrow>
        sbind (slift (wire_address_resolve address)) (\<lambda>address.
        sbind (require E x namespace (Some address) GGet) (\<lambda>_.
        sbind (clock_wall E (ax_clock x)) (\<lambda>now.
        sbind (vs_get_with_deadline E (ax_scope x) namespace address now) (\<lambda>current.
        sbind (case current of None \<Rightarrow> sret () | Some current \<Rightarrow> accept_deadline E x (ss_expires_at current)) (\<lambda>_.
        sbind (slift (guard (map_option (\<lambda>c. sha256 E (ss_value c)) current = expected_sha256)
          VaultError.Conflict)) (\<lambda>_.
        sret []))))))
    | PutMutation address v evict_at \<Rightarrow>
        sbind (slift (wire_address_resolve address)) (\<lambda>address.
        sbind (require E x namespace (Some address) GPut) (\<lambda>_.
        sbind (clock_wall E (ax_clock x)) (\<lambda>now.
        sbind (slift (validate_evict_at evict_at now)) (\<lambda>_.
        sret [DocumentOperation.Put address v evict_at]))))
    | DeleteMutation address \<Rightarrow>
        sbind (slift (wire_address_resolve address)) (\<lambda>address.
        sbind (require E x namespace (Some address) GDelete) (\<lambda>_.
        sret [DocumentOperation.Delete address])))"

fun prepare_mutations ::
  "('d, 'r, 'i, 'z) service_env_scheme \<Rightarrow> ActionContext \<Rightarrow> bytes \<Rightarrow> VaultMutation list
     \<Rightarrow> ('s ActionState_scheme, VaultError, DocumentOperation list) action" where
  "prepare_mutations E x namespace [] = sret []"
| "prepare_mutations E x namespace (mutation # mutations) =
     sbind (prepare_mutation E x namespace mutation) (\<lambda>operations.
     sbind (prepare_mutations E x namespace mutations) (\<lambda>rest.
     sret (operations @ rest)))"

definition mutate ::
  "('d, 'r, 'i, 'z) service_env_scheme \<Rightarrow> ActionContext \<Rightarrow> bytes \<Rightarrow> VaultMutation list
     \<Rightarrow> ('s ActionState_scheme, VaultError, VaultResponseBody) action" where
  "mutate E x namespace mutations =
     sbind (prepare_mutations E x namespace mutations) (\<lambda>operations.
     sbind (clock_wall E (ax_clock x)) (\<lambda>now.
     sbind (vs_mutate E (ax_scope x) namespace operations (ax_provenance x) now) (\<lambda>_.
     sret MutatedBody)))"

section \<open>Listings and history\<close>

definition action_list_projects ::
  "('d, 'r, 'i, 'z) service_env_scheme \<Rightarrow> ActionContext \<Rightarrow> string option \<Rightarrow> nat
     \<Rightarrow> ('s ActionState_scheme, VaultError, VaultResponseBody) action" where
  "action_list_projects E x cursor limit =
     sbind (require_kind E x GList) (\<lambda>_.
     sbind (clock_wall E (ax_clock x)) (\<lambda>now.
     sbind (vs_list_projects E cursor limit now) (\<lambda>page.
     sret (ProjectsBody (pg_items page) (pg_next_cursor page)))))"

definition action_list_project_addresses ::
  "('d, 'r, 'i, 'z) service_env_scheme \<Rightarrow> ActionContext \<Rightarrow> string \<Rightarrow> string option \<Rightarrow> nat
     \<Rightarrow> ('s ActionState_scheme, VaultError, VaultResponseBody) action" where
  "action_list_project_addresses E x project cursor limit =
     sbind (require_project E x project None GList) (\<lambda>_.
     sbind (clock_wall E (ax_clock x)) (\<lambda>now.
     sbind (vs_list_project_addresses E project cursor limit now) (\<lambda>page.
     sret (ProjectAddressesBody (pg_items page) (pg_next_cursor page)))))"

definition manager_requirement :: GrantRequirement where
  "manager_requirement = \<lparr>gq_scope = Authorization, gq_namespace = Some PERMISSION_CONTROL_NAMESPACE,
     gq_address = None, gq_project = None, gq_base_dir = None, gq_permission = GManagePermissions\<rparr>"

definition redact_entry :: "PermissionPrincipal \<Rightarrow> HistoryEntry \<Rightarrow> HistoryEntry" where
  "redact_entry reader entry = (case he_provenance entry of
      Caller who _ \<Rightarrow> if who \<noteq> reader then entry\<lparr>he_provenance := Redacted\<rparr> else entry
    | _ \<Rightarrow> entry)"

definition redact_history ::
  "('d, 'r, 'i, 'z) service_env_scheme \<Rightarrow> ActionContext \<Rightarrow> HistoryEntry list
     \<Rightarrow> ('s ActionState_scheme, VaultError, HistoryEntry list) action" where
  "redact_history E x entries =
     sbind (clock_wall E (ax_clock x)) (\<lambda>now.
     sbind (stry (require_grant_until E (grant_store_ops E) (codecs E) (ax_caller x) manager_requirement now)) (\<lambda>found.
     case found of
       Inr deadline \<Rightarrow> sbind (accept_deadline E x deadline) (\<lambda>_. sret entries)
     | Inl error \<Rightarrow>
         if error = AuthorizationRequired
         then sret (map (redact_entry (principal_of (ax_caller x))) entries)
         else slift (Inl error)))"

definition action_list_history ::
  "('d, 'r, 'i, 'z) service_env_scheme \<Rightarrow> ActionContext \<Rightarrow> bytes \<Rightarrow> SecretAddress option \<Rightarrow> u64 option \<Rightarrow> nat
     \<Rightarrow> ('s ActionState_scheme, VaultError, VaultResponseBody) action" where
  "action_list_history E x namespace address before_seq limit =
     sbind (vs_list_history E (ax_scope x) namespace address before_seq limit) (\<lambda>page.
     sbind (redact_history E x (hp_items page)) (\<lambda>entries.
     sret (HistoryBody entries (hp_next_before_seq page))))"

definition option_transpose :: "('a \<Rightarrow> 'e + 'b) \<Rightarrow> 'a option \<Rightarrow> 'e + 'b option" where
  "option_transpose f v = (case v of None \<Rightarrow> Inr None | Some x \<Rightarrow> rbind (f x) (\<lambda>y. Inr (Some y)))"

definition local_history ::
  "('d, 'r, 'i, 'z) service_env_scheme \<Rightarrow> ActionContext \<Rightarrow> bytes \<Rightarrow> WireSecretAddress option \<Rightarrow> u64 option \<Rightarrow> nat
     \<Rightarrow> ('s ActionState_scheme, VaultError, VaultResponseBody) action" where
  "local_history E x namespace address cursor limit =
     sbind (slift (option_transpose wire_address_resolve address)) (\<lambda>address.
     sbind (require E x namespace None GList) (\<lambda>_.
     action_list_history E x namespace address cursor limit))"

definition project_history ::
  "('d, 'r, 'i, 'z) service_env_scheme \<Rightarrow> ActionContext \<Rightarrow> string \<Rightarrow> SecretSpecAddress option \<Rightarrow> u64 option \<Rightarrow> nat
     \<Rightarrow> ('s ActionState_scheme, VaultError, VaultResponseBody) action" where
  "project_history E x project address cursor limit =
     sbind (slift (option_transpose address_secret_spec address)) (\<lambda>address.
     sbind (require_project E x project None GList) (\<lambda>_.
     action_list_history E x project address cursor limit))"

definition seal_vault ::
  "('d, 'r, 'i, 'z) service_env_scheme \<Rightarrow> ActionContext \<Rightarrow> bytes
     \<Rightarrow> ('s ActionState_scheme, VaultError, VaultResponseBody) action" where
  "seal_vault E x namespace =
     sbind (require E x namespace None GSeal) (\<lambda>_.
     sbind (smodify vs_seal) (\<lambda>_.
     sret SealedBody))"

section \<open>Dispatch\<close>

text \<open>The operation of an action and whether its success refreshes the lease.  The actions the
  service handles itself do not reach this function; the code marks them unreachable.\<close>

definition refreshing ::
  "('s, VaultError, VaultResponseBody) action \<Rightarrow> ('s, VaultError, VaultResponseBody \<times> bool) action" where
  "refreshing m = sbind m (\<lambda>body. sret (body, True))"

definition execute_action ::
  "('d, 'r, 'i, 'z) service_env_scheme \<Rightarrow> CallerIdentity \<Rightarrow> VaultAction \<Rightarrow> u64 \<times> u64 \<Rightarrow> Provenance
     \<Rightarrow> string option \<Rightarrow> RequestTime \<Rightarrow> ('s ActionState_scheme, VaultError, VaultResponseBody \<times> bool) action" where
  "execute_action E caller action lease_deadlines provenance base_dir clock =
     (let x = \<lparr>ax_caller = caller, ax_scope = scope_action action, ax_clock = clock,
            ax_provenance = provenance, ax_base_dir = base_dir\<rparr> in
      case action of
        StatusAction \<Rightarrow>
          sret (StatusBody (b64_encode E (installation_id E)) (b64_encode E (device_vault_id E))
            (b64_encode E (device_key_id E)) (hardware_backend E) (fst lease_deadlines) (snd lease_deadlines),
            False)
      | GetAction namespace address \<Rightarrow> refreshing (get E x namespace address)
      | PutAction namespace address v evict_at \<Rightarrow> refreshing (put E x namespace address v evict_at)
      | MutateAction namespace mutations \<Rightarrow> refreshing (mutate E x namespace mutations)
      | DeleteAction namespace address \<Rightarrow> refreshing (delete E x namespace address)
      | ClearAction namespace \<Rightarrow> refreshing (clear E x namespace)
      | SealAction namespace \<Rightarrow> sbind (seal_vault E x namespace) (\<lambda>body. sret (body, False))
      | GetProjectAction project address \<Rightarrow> refreshing (get_secret_spec E x project address)
      | GetCacheAction project address \<Rightarrow> refreshing (get_secret_spec E x project address)
      | PutProjectAction project address v \<Rightarrow> refreshing (put_secret_spec E x project address v None)
      | PutCacheAction project address v evict_at \<Rightarrow> refreshing (put_secret_spec E x project address v evict_at)
      | DeleteProjectAction project address \<Rightarrow> refreshing (delete_secret_spec E x project address)
      | DeleteCacheAction project address \<Rightarrow> refreshing (delete_secret_spec E x project address)
      | ListProjectsAction cursor limit \<Rightarrow> refreshing (action_list_projects E x cursor limit)
      | ListProjectAddressesAction project cursor limit \<Rightarrow>
          refreshing (action_list_project_addresses E x project cursor limit)
      | ListHistoryAction namespace address cursor limit \<Rightarrow>
          refreshing (local_history E x namespace address cursor limit)
      | ListProjectHistoryAction project address cursor limit \<Rightarrow>
          refreshing (project_history E x project address cursor limit)
      | ListCacheHistoryAction project address cursor limit \<Rightarrow>
          refreshing (project_history E x project address cursor limit)
      | ClearCacheAction project \<Rightarrow> refreshing (clear E x project)
      | SealCacheAction project \<Rightarrow> sbind (seal_vault E x project) (\<lambda>body. sret (body, False))
      | _ \<Rightarrow> slift (Inl WorkerUnavailable))"

end
