(* ===== verification/Service_State.thy ===== *)
theory Service_State
  imports Actions
begin

text \<open>
  The state one service keeps behind its mutex
  (\<open>src/src/vault/protocol/service/state.rs\<close>): the store handle, the lease, the replay window,
  the approval queue and the last permission listing.  A request holds the mutex while it runs,
  so its effect is a function of the state.  A wait releases the mutex: at its \<open>n\<close>th wake-up
  the state is what \<open>wakes n\<close> makes of it, and a loop that has not returned after \<open>fuel\<close>
  rounds is still waiting, the result \<open>None\<close>.
\<close>

record ServiceState = ActionState +
  ls_poisoned :: bool
  ls_lease :: UnsealLease
  ls_replay :: ReplayWindow
  ls_approvals :: PendingApprovals
  ls_granted_permissions :: "Permission list"
  ls_last_purge_at :: u64
  ls_rng :: nat

type_synonym 'a service_action = "(ServiceState, VaultError, 'a) action"

definition pending_store_ops :: "('d, 'r, 'i, 'z) clocked_env_scheme \<Rightarrow> 's StoreHandle_scheme store_ops" where
  "pending_store_ops E = service_ops E Authorization PENDING_DOCUMENT_NAMESPACE"

section \<open>Opening\<close>

definition lease_new ::
  "('d, 'r, 'i, 'z) clocked_env_scheme \<Rightarrow> u64 \<Rightarrow> UnsealLeasePolicy \<Rightarrow> (StoreHandle, VaultError, UnsealLease) action" where
  "lease_new E now policy = sbind (instant_now E) (\<lambda>monotonic_now. slift (lease_new_at now monotonic_now policy))"

definition service_new ::
  "('d, 'r, 'i, 'z) service_env_scheme \<Rightarrow> u64 \<Rightarrow> UnsealLeasePolicy \<Rightarrow> StoreHandle \<Rightarrow> ServiceState vault_result" where
  "service_new E now policy s =
     (case sbind (lease_new E now policy) (\<lambda>lease.
           sbind (vs_set_deadline E (lease_expires_at lease)) (\<lambda>_. sret lease)) s of
        (Inl e, s) \<Rightarrow> Inl e
      | (Inr lease, s) \<Rightarrow>
          (let (approvals, s) = approvals_load E (pending_store_ops E) (j_pending E) now s in
           Inr \<lparr>sh_status = sh_status s, sh_worker = sh_worker s, sh_ticks = sh_ticks s, as_valid_until = None,
             ls_poisoned = False, ls_lease = lease, ls_replay = replay_new, ls_approvals = approvals,
             ls_granted_permissions = [], ls_last_purge_at = now, ls_rng = 0\<rparr>))"

section \<open>Liveness\<close>

text \<open>\<open>store.is_sealed() || lease.is_expired(now.max(Instant::now()))\<close>, and sealing when it holds.\<close>

definition lease_over :: "('d, 'r, 'i, 'z) service_env_scheme \<Rightarrow> instant \<Rightarrow> bool service_action" where
  "lease_over E now =
     sbind (vs_is_sealed E) (\<lambda>sealed.
     if sealed then sret True
     else sbind (instant_now E) (\<lambda>t. sget (\<lambda>s. lease_is_expired (ls_lease s) (max now t))))"

definition seal_if_over :: "('d, 'r, 'i, 'z) service_env_scheme \<Rightarrow> instant \<Rightarrow> unit service_action" where
  "seal_if_over E now =
     sbind (lease_over E now) (\<lambda>over.
     if over then sbind (smodify vs_seal) (\<lambda>_. slift (Inl Sealed)) else sret ())"

definition lock_live :: "('d, 'r, 'i, 'z) service_env_scheme \<Rightarrow> instant \<Rightarrow> unit service_action" where
  "lock_live E now =
     sbind (vs_is_sealed E) (\<lambda>sealed.
     if sealed then slift (Inl Sealed)
     else sbind (sread (\<lambda>s. guard (\<not> ls_poisoned s) WorkerUnavailable)) (\<lambda>_.
       seal_if_over E now))"

definition check_live :: "('d, 'r, 'i, 'z) service_env_scheme \<Rightarrow> instant \<Rightarrow> unit service_action" where
  "check_live E now = lock_live E now"

definition state_seal :: "ServiceState \<Rightarrow> ServiceState" where
  "state_seal s = vs_seal (vs_request_seal s)"

definition touch :: "('d, 'r, 'i, 'z) service_env_scheme \<Rightarrow> u64 \<times> instant \<Rightarrow> unit service_action" where
  "touch E sample =
     sbind (seal_if_over E (snd sample)) (\<lambda>_.
     sbind (\<lambda>s. let (r, lease) = lease_touch (fst sample) (snd sample) (ls_lease s) in (r, s\<lparr>ls_lease := lease\<rparr>)) (\<lambda>_.
     sbind (sget (\<lambda>s. lease_expires_at (ls_lease s))) (vs_set_deadline E)))"

definition consume :: "RequestId \<Rightarrow> unit service_action" where
  "consume request_id s = (let (r, replay) = replay_consume request_id (ls_replay s) in (r, s\<lparr>ls_replay := replay\<rparr>))"

definition lease_deadlines :: "ServiceState \<Rightarrow> u64 \<times> u64" where
  "lease_deadlines s = (idle_deadline (ls_lease s), absolute_deadline (ls_lease s))"

text \<open>The maintenance timer.\<close>

definition expire_if_needed ::
  "('d, 'r, 'i, 'z) service_env_scheme \<Rightarrow> u64 \<Rightarrow> instant \<Rightarrow> bool service_action" where
  "expire_if_needed E now monotonic_now =
     sbind (clock_new E now monotonic_now) (\<lambda>clock.
     sbind (vs_is_sealed E) (\<lambda>sealed.
     if sealed then sret True
     else sbind (sread (\<lambda>s. guard (\<not> ls_poisoned s) WorkerUnavailable)) (\<lambda>_.
       sbind (vs_is_sealed E) (\<lambda>sealed.
       if sealed then sret True
       else sbind (clock_sample E clock) (\<lambda>(now, monotonic_now).
         sbind (instant_now E) (\<lambda>t.
         sbind (sget (\<lambda>s. lease_is_expired (ls_lease s) (max monotonic_now t))) (\<lambda>expired.
         if expired then sbind (smodify vs_seal) (\<lambda>_. sret True)
         else sbind (sget (\<lambda>s. ls_last_purge_at s \<noteq> now)) (\<lambda>due.
           if due then
             sbind (vs_purge_expired_at E now) (\<lambda>_.
             sbind (smodify (\<lambda>s. s\<lparr>ls_last_purge_at := now\<rparr>)) (\<lambda>_. sret False))
           else sret False))))))))"

section \<open>Approvals and permissions\<close>

definition save_approvals :: "('d, 'r, 'i, 'z) service_env_scheme \<Rightarrow> u64 \<Rightarrow> ServiceState \<Rightarrow> ServiceState" where
  "save_approvals E now s =
     (let (_, approvals, s) = approvals_save (pending_store_ops E) (j_pending E) now (ls_approvals s) s
      in s\<lparr>ls_approvals := approvals\<rparr>)"

definition create_approval ::
  "('d, 'r, 'i, 'z) service_env_scheme \<Rightarrow> ApprovalCandidate \<Rightarrow> u64 \<Rightarrow> VaultInteractionReference service_action" where
  "create_approval E candidate now =
     sbind (sget (\<lambda>s. pa_revision (ls_approvals s))) (\<lambda>revision.
     sbind (instant_now E) (\<lambda>monotonic_now s.
     (let (interaction, approvals) = create_at E (service_entropy E (ls_rng s) 16)
            (service_entropy E (Suc (ls_rng s)) 32) candidate now monotonic_now (ls_approvals s);
          s = s\<lparr>ls_approvals := approvals, ls_rng := ls_rng s + 2\<rparr>
      in (interaction, if pa_revision approvals \<noteq> revision then save_approvals E now s else s))))"

definition list_permissions ::
  "('d, 'r, 'i, 'z) service_env_scheme \<Rightarrow> u64 \<Rightarrow> (u64 \<times> Permission list) service_action" where
  "list_permissions E now =
     sbind (instant_now E) (\<lambda>monotonic_now.
     sbind (\<lambda>s. let ((_, permissions), approvals) = list_at E now monotonic_now (ls_approvals s)
       in (Inr permissions, s\<lparr>ls_approvals := approvals\<rparr>)) (\<lambda>permissions.
     sbind (smodify (save_approvals E now)) (\<lambda>_.
     sbind (list_granted_permissions E (grant_store_ops E) (codecs E) now) (\<lambda>granted.
     let granted = sort_key pm_id granted in
     sbind (smodify (\<lambda>s. if granted \<noteq> ls_granted_permissions s
       then s\<lparr>ls_granted_permissions := granted, ls_approvals := approvals_changed (ls_approvals s)\<rparr> else s)) (\<lambda>_.
     sget (\<lambda>s. (pa_revision (ls_approvals s), sort_key pm_id (permissions @ granted))))))))"

definition deny_approval :: "('d, 'r, 'i, 'z) service_env_scheme \<Rightarrow> string \<Rightarrow> u64 \<Rightarrow> unit service_action" where
  "deny_approval E ident now =
     sbind (\<lambda>s. let (r, approvals) = deny E ident now (ls_approvals s) in (r, s\<lparr>ls_approvals := approvals\<rparr>)) (\<lambda>_.
     smodify (save_approvals E now))"

definition revoke_granted ::
  "('d, 'r, 'i, 'z) service_env_scheme \<Rightarrow> string \<Rightarrow> u64 \<Rightarrow> Provenance \<Rightarrow> unit service_action" where
  "revoke_granted E ident now provenance =
     sbind (revoke_permission E (grant_store_ops E) (codecs E) ident now provenance) (\<lambda>_.
     smodify (\<lambda>s. s\<lparr>ls_approvals := approvals_changed (ls_approvals s)\<rparr>))"

definition approve_pending ::
  "('d, 'r, 'i, 'z) service_env_scheme \<Rightarrow> string \<Rightarrow> bytes \<Rightarrow> ApprovedLifetime \<Rightarrow> u64 \<Rightarrow> Provenance \<Rightarrow> unit service_action" where
  "approve_pending E ident sig lifetime now provenance =
     sbind (\<lambda>s. let (r, approvals, s) = approve E (grant_store_ops E) (codecs E) (signer E) ident sig lifetime now
         provenance (ls_approvals s) s in (r, s\<lparr>ls_approvals := approvals\<rparr>)) (\<lambda>_.
     smodify (save_approvals E now))"

definition permission_status ::
  "('d, 'r, 'i, 'z) service_env_scheme \<Rightarrow> CallerIdentity \<Rightarrow> string \<Rightarrow> u64 \<Rightarrow> PermissionWaitStatus service_action" where
  "permission_status E caller ident now s =
     (let (status, approvals) = approval_status E caller ident now (ls_approvals s)
      in (ok_or status (Protocol ''permission does not belong to this caller''), s\<lparr>ls_approvals := approvals\<rparr>))"

section \<open>Waiting\<close>

definition wake :: "(nat \<Rightarrow> ServiceState \<Rightarrow> ServiceState) \<Rightarrow> nat \<Rightarrow> unit service_action" where
  "wake wakes n s =
     (let s' = (wakes n s)\<lparr>as_valid_until := as_valid_until s\<rparr>
      in (guard (\<not> ls_poisoned s') WorkerUnavailable, s'))"

fun wait_permission_loop ::
  "('d, 'r, 'i, 'z) service_env_scheme \<Rightarrow> (nat \<Rightarrow> ServiceState \<Rightarrow> ServiceState) \<Rightarrow> CallerIdentity \<Rightarrow> string
     \<Rightarrow> instant \<Rightarrow> RequestTime \<Rightarrow> nat \<Rightarrow> PermissionWaitStatus option service_action" where
  "wait_permission_loop E wakes caller ident deadline clock 0 = sret None"
| "wait_permission_loop E wakes caller ident deadline clock (Suc fuel) =
     sbind (seal_if_over E 0) (\<lambda>_.
     sbind (clock_wall E clock) (\<lambda>current_now.
     sbind (permission_status E caller ident current_now) (\<lambda>status.
     if status \<noteq> WaitPending then sret (Some status)
     else sbind (instant_now E) (\<lambda>t.
       if deadline < t then sret (Some WaitPending)
       else sbind (wake wakes fuel) (\<lambda>_.
         wait_permission_loop E wakes caller ident deadline clock fuel)))))"

definition wait_for_permission ::
  "('d, 'r, 'i, 'z) service_env_scheme \<Rightarrow> (nat \<Rightarrow> ServiceState \<Rightarrow> ServiceState) \<Rightarrow> nat \<Rightarrow> CallerIdentity \<Rightarrow> string
     \<Rightarrow> duration \<Rightarrow> RequestTime \<Rightarrow> PermissionWaitStatus option service_action" where
  "wait_for_permission E wakes fuel caller ident timeout clock =
     sbind (instant_now E) (\<lambda>started.
     sbind (slift (ok_or (instant_checked_add started timeout)
       (Protocol ''permission wait timeout overflows''))) (\<lambda>deadline.
     sbind (smodify (\<lambda>s. s\<lparr>ls_approvals := awaited E caller ident deadline (ls_approvals s)\<rparr>)) (\<lambda>_.
     wait_permission_loop E wakes caller ident deadline clock fuel)))"

definition manager_deadline ::
  "('d, 'r, 'i, 'z) service_env_scheme \<Rightarrow> CallerIdentity \<Rightarrow> u64 \<Rightarrow> ('s StoreHandle_scheme, VaultError, u64 option) action" where
  "manager_deadline E caller now =
     require_grant_until E (grant_store_ops E) (codecs E) caller manager_requirement now"

definition permission_expiry :: "Permission \<Rightarrow> u64 option" where
  "permission_expiry p = (case pm_state p of
      Pending _ expires_at _ _ _ \<Rightarrow> Some expires_at
    | Granted _ expires_at _ \<Rightarrow> expires_at)"

definition next_expiry :: "Permission list \<Rightarrow> u64 option \<Rightarrow> u64 option" where
  "next_expiry permissions manager_expiry =
     (case List.map_filter permission_expiry permissions @ (case manager_expiry of None \<Rightarrow> [] | Some e \<Rightarrow> [e]) of
        [] \<Rightarrow> None
      | e # es \<Rightarrow> Some (foldl min e es))"

fun wait_approvals_loop ::
  "('d, 'r, 'i, 'z) service_env_scheme \<Rightarrow> (nat \<Rightarrow> ServiceState \<Rightarrow> ServiceState) \<Rightarrow> CallerIdentity \<Rightarrow> u64
     \<Rightarrow> instant \<Rightarrow> RequestTime \<Rightarrow> nat \<Rightarrow> (u64 \<times> Permission list) option service_action" where
  "wait_approvals_loop E wakes caller after_revision deadline clock 0 = sret None"
| "wait_approvals_loop E wakes caller after_revision deadline clock (Suc fuel) =
     sbind (seal_if_over E 0) (\<lambda>_.
     sbind (clock_wall E clock) (\<lambda>now.
     sbind (manager_deadline E caller now) (\<lambda>manager_expiry.
     sbind (clock_wall E clock) (\<lambda>now.
     sbind (list_permissions E now) (\<lambda>current.
     if fst current \<noteq> after_revision then sret (Some current)
     else sbind (case next_expiry (snd current) manager_expiry of
           None \<Rightarrow> sret deadline
         | Some expiry \<Rightarrow> sbind (clock_deadline E clock expiry) (\<lambda>t. sret (min deadline t))) (\<lambda>wake_at.
       sbind (instant_now E) (\<lambda>t.
       if wake_at < t then
         sbind (instant_now E) (\<lambda>t.
         if t < deadline then wait_approvals_loop E wakes caller after_revision deadline clock fuel
         else sret (Some current))
       else sbind (wake wakes fuel) (\<lambda>_.
         wait_approvals_loop E wakes caller after_revision deadline clock fuel))))))))"

definition wait_for_approvals ::
  "('d, 'r, 'i, 'z) service_env_scheme \<Rightarrow> (nat \<Rightarrow> ServiceState \<Rightarrow> ServiceState) \<Rightarrow> nat \<Rightarrow> CallerIdentity \<Rightarrow> u64
     \<Rightarrow> duration \<Rightarrow> RequestTime \<Rightarrow> (u64 \<times> Permission list) option service_action" where
  "wait_for_approvals E wakes fuel caller after_revision timeout clock =
     sbind (instant_now E) (\<lambda>started.
     sbind (slift (ok_or (instant_checked_add started timeout)
       (Protocol ''permission wait timeout overflows''))) (\<lambda>deadline.
     wait_approvals_loop E wakes caller after_revision deadline clock fuel))"

end
