(* ===== verification/Service.thy ===== *)
theory Service
  imports Service_State
begin

text \<open>
  The request processor behind every transport (\<open>src/src/vault/protocol/service.rs\<close>) and the
  grants a trusted host issues in process (\<open>service/authorization.rs\<close>).  \<open>handle_at\<close> is the
  whole path of one request: validation, the live lock, replay protection, dispatch, approval
  of what was refused, and the final check that the vault is still unsealed and the answer
  still valid.  A request that still waits has no response yet.
\<close>

section \<open>Failures\<close>

datatype RequestFailure =
    Failed VaultError "VaultInteractionReference option"
  | StillWaiting

type_synonym 'a request_action = "(ServiceState, RequestFailure, 'a) action"

definition fallible :: "'a service_action \<Rightarrow> 'a request_action" where
  "fallible m s = (case m s of (Inl e, s) \<Rightarrow> (Inl (Failed e None), s) | (Inr x, s) \<Rightarrow> (Inr x, s))"

definition settled :: "'a option \<Rightarrow> 'a request_action" where
  "settled v = slift (ok_or v StillWaiting)"

definition response_error_with_interaction ::
  "VaultError \<Rightarrow> VaultInteractionReference option \<Rightarrow> VaultResponseError" where
  "response_error_with_interaction error interaction =
     (let code = (case error of
            AuthorizationRequired \<Rightarrow> AuthorizationRequiredCode
          | ApprovalLimited \<Rightarrow> AuthorizationRequiredCode
          | Replay \<Rightarrow> ReplayCode
          | Sealed \<Rightarrow> SealedCode
          | WorkerUnavailable \<Rightarrow> SealedCode
          | AgentUnreachable _ \<Rightarrow> SealedCode
          | VaultError.Conflict \<Rightarrow> ConflictCode
          | EmptyAddress _ \<Rightarrow> InvalidRequestCode
          | AddressTooLong _ _ \<Rightarrow> InvalidRequestCode
          | VaultError.Expired \<Rightarrow> InvalidRequestCode
          | Protocol _ \<Rightarrow> InvalidRequestCode
          | _ \<Rightarrow> InternalCode);
          message = (case code of
            InvalidRequestCode \<Rightarrow> ''the request is invalid''
          | AuthorizationRequiredCode \<Rightarrow>
              if error = ApprovalLimited then ''approval request limit reached; retry later''
              else ''application authorization is required''
          | ReplayCode \<Rightarrow> ''the request was already consumed''
          | SealedCode \<Rightarrow> ''the vault is sealed''
          | ConflictCode \<Rightarrow> ''the secret has unresolved concurrent values''
          | InternalCode \<Rightarrow> ''the vault could not complete the request'')
      in \<lparr>re_code = code, re_message = message, re_interaction = interaction\<rparr>)"

definition response_error :: "VaultError \<Rightarrow> VaultResponseError" where
  "response_error error = response_error_with_interaction error None"

section \<open>Permission pages\<close>

fun fill_page ::
  "Permission json \<Rightarrow> Permission list \<Rightarrow> nat \<Rightarrow> Permission list \<Rightarrow> (Permission list \<times> string option) vault_result" where
  "fill_page J [] remaining page = Inr (page, None)"
| "fill_page J (p # ps) remaining page =
     rbind (map_err Protocol (to_vec J p)) (\<lambda>b.
     let size = length b + 1 in
     if size > remaining then
       (if page = [] then Inl (Protocol ''permission exceeds page budget'')
        else Inr (page, Some (pm_id (last page))))
     else fill_page J ps (remaining - size) (page @ [p]))"

definition permission_page ::
  "Permission json \<Rightarrow> u64 \<Rightarrow> Permission list \<Rightarrow> string option \<Rightarrow> VaultResponseBody vault_result" where
  "permission_page J revision permissions cursor =
     rbind (fill_page J (filter (\<lambda>p. case cursor of None \<Rightarrow> True | Some cursor \<Rightarrow> pm_id p > cursor) permissions)
       (MAX_MESSAGE_BYTES - 4096) []) (\<lambda>(page, next_cursor).
     Inr (PermissionsBody revision page next_cursor))"

section \<open>Permission managers\<close>

definition require_live_manager ::
  "('d, 'r, 'i, 'z) service_env_scheme \<Rightarrow> CallerIdentity \<Rightarrow> RequestTime \<Rightarrow> ('s ActionState_scheme, VaultError, unit) action" where
  "require_live_manager E caller clock =
     sbind (clock_wall E clock) (\<lambda>now.
     sbind (manager_deadline E caller now) (\<lambda>deadline.
     sbind (tighten_until deadline) (\<lambda>_.
     check_valid_until E clock)))"

text \<open>The tails of the handlers: refresh the lease after checking the answer's validity.\<close>

definition check_and_touch :: "('d, 'r, 'i, 'z) service_env_scheme \<Rightarrow> RequestTime \<Rightarrow> u64 service_action" where
  "check_and_touch E clock =
     sbind (clock_sample E clock) (\<lambda>sample.
     sbind (check_valid_until E clock) (\<lambda>_.
     sbind (touch E sample) (\<lambda>_. sret (fst sample))))"

definition sample_and_touch :: "('d, 'r, 'i, 'z) service_env_scheme \<Rightarrow> RequestTime \<Rightarrow> unit service_action" where
  "sample_and_touch E clock = sbind (clock_sample E clock) (touch E)"

definition export_revision ::
  "('d, 'r, 'i, 'z) service_env_scheme \<Rightarrow> CallerIdentity \<Rightarrow> u64 \<Rightarrow> RequestTime \<Rightarrow> VaultResponseBody service_action" where
  "export_revision E caller now clock =
     sbind (require_live_manager E caller clock) (\<lambda>_.
     sbind (vs_purge_expired_at E now) (\<lambda>_.
     sbind (vs_export_revision E) (\<lambda>revision.
     sret (ExportRevisionBody revision))))"

definition inventory ::
  "('d, 'r, 'i, 'z) service_env_scheme \<Rightarrow> CallerIdentity \<Rightarrow> string option \<Rightarrow> nat \<Rightarrow> RequestTime
     \<Rightarrow> VaultResponseBody service_action" where
  "inventory E caller cursor limit clock =
     sbind (require_live_manager E caller clock) (\<lambda>_.
     sbind (clock_wall E clock) (\<lambda>now.
     sbind (vs_list_vault_entries E cursor limit now) (\<lambda>page.
     sbind (check_and_touch E clock) (\<lambda>_.
     sret (VaultEntriesBody (pg_items page) (pg_next_cursor page))))))"

section \<open>Portable entries\<close>

definition secret_service_index ::
  "('d, 'r, 'i, 'z) service_env_scheme \<Rightarrow> u64 \<Rightarrow> ('s StoreHandle_scheme, VaultError, Index) action" where
  "secret_service_index E now =
     sbind (slift (address_new INDEX_ITEM None)) (\<lambda>address.
     sbind (vs_get_at E LinuxSecretService SECRET_SERVICE_NAMESPACE address now) (\<lambda>b.
     slift (index_decode (j_index E) b)))"

definition export_entry ::
  "('d, 'r, 'i, 'z) service_env_scheme \<Rightarrow> CallerIdentity \<Rightarrow> VaultEntryMetadata \<Rightarrow> u64 \<Rightarrow> RequestTime
     \<Rightarrow> VaultResponseBody service_action" where
  "export_entry E caller entry now clock =
     sbind (require_live_manager E caller clock) (\<lambda>_.
     sbind (vs_export_at E (vm_document_kind entry) (vm_partition entry) (vm_address entry) now) (\<lambda>found.
     sbind (slift (ok_or found (InvalidData ''vault entry disappeared during export''))) (\<lambda>secret.
     sbind (tighten_until (ss_expires_at secret)) (\<lambda>_.
     sbind (check_and_touch E clock) (\<lambda>now.
     sbind (if vm_document_kind entry = LinuxSecretService then
         sbind (secret_service_index E now) (\<lambda>index.
         sbind (slift (ok_or (find (\<lambda>item. item_address item = Inr (vm_address entry)) (ix_items index))
           (InvalidData ''keyring value has no index entry''))) (\<lambda>item.
         slift (portable_encode (lock_memory E) (j_portable E) (portable_new item (ss_value secret)))))
       else sret (ss_value secret)) (\<lambda>v.
     sret (VaultEntrySecretBody v (ss_expires_at secret))))))))"

text \<open>The import of a desktop keyring item replaces the item and its index entry in one batch,
  after checking that the batch would pass as a request.\<close>

definition upsert_item :: "IndexItem \<Rightarrow> Index \<Rightarrow> nat option \<Rightarrow> Index" where
  "upsert_item item index position = (case position of
      Some i \<Rightarrow> index\<lparr>ix_items := (ix_items index)[i := item]\<rparr>
    | None \<Rightarrow> index\<lparr>ix_items := ix_items index @ [item]\<rparr>)"

definition import_request ::
  "string \<Rightarrow> bytes \<Rightarrow> bytes \<Rightarrow> VaultAction" where
  "import_request item v index_bytes = MutateAction SECRET_SERVICE_NAMESPACE
     [PutMutation \<lparr>wa_item = item, wa_field = None\<rparr> v None,
      PutMutation \<lparr>wa_item = INDEX_ITEM, wa_field = None\<rparr> index_bytes None]"

definition import_secret_service_item ::
  "('d, 'r, 'i, 'z) service_env_scheme \<Rightarrow> VaultEntryMetadata \<Rightarrow> bytes \<Rightarrow> u64 option \<Rightarrow> bool \<Rightarrow> Provenance \<Rightarrow> u64
     \<Rightarrow> VaultEntryImportStatus service_action" where
  "import_secret_service_item E entry v evict_at replace_existing provenance now =
     sbind (slift (guard (\<not> (vm_partition entry \<noteq> SECRET_SERVICE_NAMESPACE \<or> evict_at \<noteq> None))
       (Protocol ''unsupported portable keyring partition or expiry''))) (\<lambda>_.
     sbind (slift (portable_decode (j_portable E) v (vm_address entry))) (\<lambda>portable.
     sbind (secret_service_index E now) (\<lambda>index.
     let existing = position_of (\<lambda>item. ii_id item = ii_id (pi_item portable)) (ix_items index) in
     if existing \<noteq> None \<and> \<not> replace_existing then sret KeptExisting
     else
       sbind (slift (map_err InvalidData (to_vec (j_index E) (upsert_item (pi_item portable) index existing)))) (\<lambda>index_bytes.
       sbind (slift (ok_or (as_local (vm_address entry)) (Protocol ''invalid keyring address''))) (\<lambda>(item, _).
       sbind (slift (lock_memory E (length (pi_value portable)))) (\<lambda>_.
       sbind (slift (lock_memory E (length index_bytes))) (\<lambda>_.
       sbind (\<lambda>s. (map_err Random (service_entropy E (ls_rng s) REQUEST_ID_BYTES), s\<lparr>ls_rng := Suc (ls_rng s)\<rparr>)) (\<lambda>ident.
       sbind (slift (request_validate E (j_request E)
         (request_with_id ident (import_request item (pi_value portable) index_bytes)))) (\<lambda>_.
       sbind (slift (address_new INDEX_ITEM None)) (\<lambda>index_address.
       sbind (vs_mutate E LinuxSecretService SECRET_SERVICE_NAMESPACE
         [DocumentOperation.Put (vm_address entry) (pi_value portable) None,
          DocumentOperation.Put index_address index_bytes None] provenance now) (\<lambda>_.
       sret (if existing \<noteq> None then Replaced else Added))))))))))))"

definition personal_import ::
  "('d, 'r, 'i, 'z) service_env_scheme \<Rightarrow> VaultEntryMetadata \<Rightarrow> bytes \<Rightarrow> u64 option
     \<Rightarrow> (SecretAddress \<times> bytes) vault_result" where
  "personal_import E entry v evict_at =
     (if vm_document_kind entry = LocalKeyring \<and> vm_partition entry = PERSONAL_SECRET_NAMESPACE then
        rbind (ok_or (as_local (vm_address entry)) (Protocol ''invalid personal address'')) (\<lambda>(title, fld).
        rbind (guard (\<not> (fld \<noteq> None \<or> evict_at \<noteq> None))
          (Protocol ''personal items cannot have fields or expiry'')) (\<lambda>_.
        rbind (ok_or (personal_decode E title v) (Protocol ''invalid personal item'')) (\<lambda>item.
        rbind (address_new (item_id (personal E) item) None) (\<lambda>address.
        rbind (ok_or (personal_encode E item) (Protocol ''invalid personal item'')) (\<lambda>b.
        rbind (lock_memory E (length b)) (\<lambda>_.
        Inr (address, b)))))))
      else Inr (vm_address entry, v))"

definition import_entry ::
  "('d, 'r, 'i, 'z) service_env_scheme \<Rightarrow> CallerIdentity \<Rightarrow> VaultEntryMetadata \<Rightarrow> bytes \<Rightarrow> u64 option \<Rightarrow> bool
     \<Rightarrow> Provenance \<Rightarrow> u64 \<Rightarrow> RequestTime \<Rightarrow> VaultResponseBody service_action" where
  "import_entry E caller entry v evict_at replace_existing provenance now clock =
     sbind (require_live_manager E caller clock) (\<lambda>_.
     sbind (slift (validate_evict_at evict_at now)) (\<lambda>_.
     if vm_document_kind entry = LinuxSecretService then
       sbind (import_secret_service_item E entry v evict_at replace_existing provenance now) (\<lambda>status.
       sbind (check_and_touch E clock) (\<lambda>_.
       sret (VaultEntryImportedBody status)))
     else
       sbind (slift (personal_import E entry v evict_at)) (\<lambda>(address, v).
       sbind (vs_get_at E (vm_document_kind entry) (vm_partition entry) address now) (\<lambda>existing.
       sbind (if existing \<noteq> None \<and> \<not> replace_existing then sret KeptExisting
         else sbind (vs_put_at E (vm_document_kind entry) (vm_partition entry) address v evict_at provenance now) (\<lambda>_.
           sret (if existing \<noteq> None then Replaced else Added))) (\<lambda>status.
       sbind (check_and_touch E clock) (\<lambda>_.
       sret (VaultEntryImportedBody status)))))))"

definition write_cache_from_dialog ::
  "('d, 'r, 'i, 'z) service_env_scheme \<Rightarrow> CallerIdentity \<Rightarrow> string \<Rightarrow> SecretSpecAddress \<Rightarrow> bytes \<Rightarrow> u64 option
     \<Rightarrow> Provenance \<Rightarrow> u64 \<Rightarrow> RequestTime \<Rightarrow> VaultResponseBody service_action" where
  "write_cache_from_dialog E caller project address v evict_at provenance now clock =
     sbind (require_live_manager E caller clock) (\<lambda>_.
     sbind (slift (validate_evict_at evict_at now)) (\<lambda>_.
     sbind (slift (guard (case secret_spec_project address of None \<Rightarrow> True | Some declared \<Rightarrow> declared = project)
       (Protocol ''secret project mismatch''))) (\<lambda>_.
     sbind (slift (address_secret_spec address)) (\<lambda>address.
     sbind (vs_put_at E SecretSpecProviderCache project address v evict_at provenance now) (\<lambda>_.
     sbind (check_valid_until E clock) (\<lambda>_.
     sbind (sample_and_touch E clock) (\<lambda>_.
     sret StoredBody)))))))"

section \<open>The desktop keyring bridge\<close>

definition bridge_requirement :: GrantRequirement where
  "bridge_requirement = \<lparr>gq_scope = LinuxSecretService, gq_namespace = Some SECRET_SERVICE_NAMESPACE,
     gq_address = None, gq_project = None, gq_base_dir = None, gq_permission = GGet\<rparr>"

definition authorize_secret_input ::
  "('d, 'r, 'i, 'z) service_env_scheme \<Rightarrow> CallerIdentity \<Rightarrow> string \<Rightarrow> u64 \<Rightarrow> RequestTime
     \<Rightarrow> VaultResponseBody service_action" where
  "authorize_secret_input E caller sender now clock =
     sbind (require_grant_until E (grant_store_ops E) (codecs E) caller bridge_requirement now) (\<lambda>deadline.
     sbind (tighten_until deadline) (\<lambda>_.
     sbind (slift (keyring_peer E sender)) (\<lambda>(peer, _).
     sbind (require_live_manager E peer clock) (\<lambda>_.
     sret (PermissionWaitBody WaitGranted)))))"

text \<open>A request refused for lack of a grant becomes an approval request, when it may be asked
  for, and the failure names it.\<close>

definition ask_approval ::
  "('d, 'r, 'i, 'z) service_env_scheme \<Rightarrow> ApprovalCandidate \<Rightarrow> u64 \<Rightarrow> 'a request_action" where
  "ask_approval E candidate now =
     sbind (fallible (create_approval E candidate now)) (\<lambda>interaction.
     slift (Inl (Failed AuthorizationRequired (Some interaction))))"

definition keyring_access ::
  "('d, 'r, 'i, 'z) service_env_scheme \<Rightarrow> (nat \<Rightarrow> ServiceState \<Rightarrow> ServiceState) \<Rightarrow> nat \<Rightarrow> CallerIdentity
     \<Rightarrow> SecretAddress option \<Rightarrow> string \<Rightarrow> string \<Rightarrow> PermissionOperation \<Rightarrow> VaultAction option \<Rightarrow> string option
     \<Rightarrow> u64 \<Rightarrow> RequestTime \<Rightarrow> VaultResponseBody request_action" where
  "keyring_access E wakes fuel caller entry sender service operation action pending now clock =
     sbind (fallible (require_grant_until E (grant_store_ops E) (codecs E) caller bridge_requirement now)) (\<lambda>broker_deadline.
     sbind (tighten_until broker_deadline) (\<lambda>_.
     sbind (fallible (check_valid_until E clock)) (\<lambda>_.
     sbind (fallible (slift (keyring_peer E sender))) (\<lambda>(peer, base_dir).
     case pending of
       Some ident \<Rightarrow>
         sbind (fallible (wait_for_permission E wakes fuel peer ident (NANOS div 1000) clock)) (\<lambda>status.
         sbind (settled status) (\<lambda>status.
         sret (PermissionWaitBody status)))
     | None \<Rightarrow>
         let candidate = for_keyring peer service entry base_dir operation in
         sbind (stry (require_keyring E (grant_store_ops E) (codecs E) candidate now)) (\<lambda>found.
         case found of
           Inl error \<Rightarrow>
             if error = AuthorizationRequired then ask_approval E candidate now
             else slift (Inl (Failed error None))
         | Inr deadline \<Rightarrow>
             sbind (tighten_until deadline) (\<lambda>_.
             sbind (fallible (check_valid_until E clock)) (\<lambda>_.
             case action of
               None \<Rightarrow> sret (PermissionWaitBody WaitGranted)
             | Some action \<Rightarrow>
                 sbind (sget lease_deadlines) (\<lambda>deadlines.
                 sbind (fallible (execute_action E caller action deadlines (provenance_caller peer None) None clock)) (\<lambda>(body, refresh).
                 sbind (fallible (check_valid_until E clock)) (\<lambda>_.
                 sbind (if refresh then fallible (sample_and_touch E clock) else sret ()) (\<lambda>_.
                 sret body)))))))))))"

section \<open>Permission requests\<close>

definition list_permission_page ::
  "('d, 'r, 'i, 'z) service_env_scheme \<Rightarrow> CallerIdentity \<Rightarrow> (u64 \<times> string) option \<Rightarrow> u64 \<Rightarrow> RequestTime
     \<Rightarrow> VaultResponseBody service_action" where
  "list_permission_page E caller continued now clock =
     sbind (require_live_manager E caller clock) (\<lambda>_.
     sbind (list_permissions E now) (\<lambda>(revision, permissions).
     sbind (slift (guard (case continued of None \<Rightarrow> True | Some (expected, _) \<Rightarrow> revision = expected)
       VaultError.Conflict)) (\<lambda>_.
     slift (permission_page (j_permission E) revision permissions (map_option snd continued)))))"

definition from_millis :: "u64 \<Rightarrow> duration" where
  "from_millis ms = unat ms * (NANOS div 1000)"

definition wait_permissions ::
  "('d, 'r, 'i, 'z) service_env_scheme \<Rightarrow> (nat \<Rightarrow> ServiceState \<Rightarrow> ServiceState) \<Rightarrow> nat \<Rightarrow> CallerIdentity \<Rightarrow> u64 \<Rightarrow> u64
     \<Rightarrow> RequestTime \<Rightarrow> VaultResponseBody request_action" where
  "wait_permissions E wakes fuel caller after_revision timeout_ms clock =
     sbind (fallible (require_live_manager E caller clock)) (\<lambda>_.
     sbind (fallible (wait_for_approvals E wakes fuel caller after_revision (from_millis timeout_ms) clock)) (\<lambda>found.
     sbind (settled found) (\<lambda>(revision, permissions).
     fallible (slift (permission_page (j_permission E) revision permissions None)))))"

definition wait_permission ::
  "('d, 'r, 'i, 'z) service_env_scheme \<Rightarrow> (nat \<Rightarrow> ServiceState \<Rightarrow> ServiceState) \<Rightarrow> nat \<Rightarrow> CallerIdentity \<Rightarrow> string \<Rightarrow> u64
     \<Rightarrow> RequestTime \<Rightarrow> VaultResponseBody request_action" where
  "wait_permission E wakes fuel caller ident timeout_ms clock =
     sbind (fallible (wait_for_permission E wakes fuel caller ident (from_millis timeout_ms) clock)) (\<lambda>status.
     sbind (settled status) (\<lambda>status.
     sret (PermissionWaitBody status)))"

definition deny_permission_request ::
  "('d, 'r, 'i, 'z) service_env_scheme \<Rightarrow> CallerIdentity \<Rightarrow> string \<Rightarrow> RequestTime \<Rightarrow> VaultResponseBody service_action" where
  "deny_permission_request E caller ident clock =
     sbind (require_live_manager E caller clock) (\<lambda>_.
     sbind (clock_wall E clock) (\<lambda>now.
     sbind (deny_approval E ident now) (\<lambda>_.
     sret (PermissionChangedBody DeniedChange))))"

definition approve_permission_request ::
  "('d, 'r, 'i, 'z) service_env_scheme \<Rightarrow> CallerIdentity \<Rightarrow> string \<Rightarrow> bytes \<Rightarrow> ApprovedLifetime \<Rightarrow> Provenance
     \<Rightarrow> RequestTime \<Rightarrow> VaultResponseBody service_action" where
  "approve_permission_request E caller ident sig lifetime provenance clock =
     sbind (require_live_manager E caller clock) (\<lambda>_.
     sbind (clock_wall E clock) (\<lambda>now.
     sbind (approve_pending E ident sig lifetime now provenance) (\<lambda>_.
     sbind (sample_and_touch E clock) (\<lambda>_.
     sret (PermissionChangedBody GrantedChange)))))"

definition revoke_permission_request ::
  "('d, 'r, 'i, 'z) service_env_scheme \<Rightarrow> CallerIdentity \<Rightarrow> string \<Rightarrow> Provenance \<Rightarrow> RequestTime
     \<Rightarrow> VaultResponseBody service_action" where
  "revoke_permission_request E caller ident provenance clock =
     sbind (require_live_manager E caller clock) (\<lambda>_.
     sbind (clock_wall E clock) (\<lambda>now.
     sbind (revoke_granted E ident now provenance) (\<lambda>_.
     sbind (sample_and_touch E clock) (\<lambda>_.
     sret (PermissionChangedBody RevokedChange)))))"

section \<open>One request\<close>

definition other_action ::
  "('d, 'r, 'i, 'z) service_env_scheme \<Rightarrow> CallerIdentity \<Rightarrow> VaultApplicationContext option \<Rightarrow> VaultAction
     \<Rightarrow> ApprovalCandidate option \<Rightarrow> Provenance \<Rightarrow> u64 \<Rightarrow> RequestTime \<Rightarrow> VaultResponseBody request_action" where
  "other_action E caller application action approval provenance now clock =
     sbind (sget lease_deadlines) (\<lambda>deadlines.
     sbind (stry (execute_action E caller action deadlines provenance
       (case application of None \<Rightarrow> None | Some context \<Rightarrow> ac_base_dir context) clock)) (\<lambda>result.
     case result of
       Inr (body, refresh_lease) \<Rightarrow>
         if refresh_lease then sbind (fallible (check_and_touch E clock)) (\<lambda>_. sret body) else sret body
     | Inl error \<Rightarrow>
         (case approval of
            Some candidate \<Rightarrow>
              if error = AuthorizationRequired then ask_approval E candidate now
              else slift (Inl (Failed error None))
          | None \<Rightarrow> slift (Inl (Failed error None)))))"

definition dispatch ::
  "('d, 'r, 'i, 'z) service_env_scheme \<Rightarrow> (nat \<Rightarrow> ServiceState \<Rightarrow> ServiceState) \<Rightarrow> nat \<Rightarrow> CallerIdentity
     \<Rightarrow> VaultApplicationContext option \<Rightarrow> VaultAction \<Rightarrow> ApprovalCandidate option \<Rightarrow> Provenance \<Rightarrow> u64 \<Rightarrow> RequestTime
     \<Rightarrow> VaultResponseBody request_action" where
  "dispatch E wakes fuel caller application action approval provenance now clock = (case action of
      ExportRevisionAction \<Rightarrow> fallible (export_revision E caller now clock)
    | ListVaultEntriesAction cursor limit \<Rightarrow> fallible (inventory E caller cursor limit clock)
    | ExportVaultEntryAction entry \<Rightarrow> fallible (export_entry E caller entry now clock)
    | ImportVaultEntryAction entry v evict_at replace_existing \<Rightarrow>
        fallible (import_entry E caller entry v evict_at replace_existing provenance now clock)
    | WriteCacheFromDialogAction project address v evict_at \<Rightarrow>
        fallible (write_cache_from_dialog E caller project address v evict_at provenance now clock)
    | AuthorizeSecretInputAction sender \<Rightarrow> fallible (authorize_secret_input E caller sender now clock)
    | KeyringAccessAction entry sender service operation action pending \<Rightarrow>
        keyring_access E wakes fuel caller entry sender service operation action pending now clock
    | ListPermissionsAction \<Rightarrow> fallible (list_permission_page E caller None now clock)
    | ListPermissionsPageAction revision cursor \<Rightarrow>
        fallible (list_permission_page E caller (Some (revision, cursor)) now clock)
    | WaitPermissionsAction after_revision timeout_ms \<Rightarrow>
        wait_permissions E wakes fuel caller after_revision timeout_ms clock
    | WaitPermissionAction ident timeout_ms \<Rightarrow> wait_permission E wakes fuel caller ident timeout_ms clock
    | DenyPermissionAction ident \<Rightarrow> fallible (deny_permission_request E caller ident clock)
    | ApprovePermissionAction ident sig duration_seconds single_use \<Rightarrow>
        fallible (approve_permission_request E caller ident sig
          \<lparr>al_duration_seconds = duration_seconds, al_single_use = single_use\<rparr> provenance clock)
    | RevokePermissionAction ident \<Rightarrow> fallible (revoke_permission_request E caller ident provenance clock)
    | _ \<Rightarrow> other_action E caller application action approval provenance now clock)"

definition handle_inner ::
  "('d, 'r, 'i, 'z) service_env_scheme \<Rightarrow> (nat \<Rightarrow> ServiceState \<Rightarrow> ServiceState) \<Rightarrow> nat \<Rightarrow> CallerIdentity
     \<Rightarrow> VaultRequest \<Rightarrow> RequestTime \<Rightarrow> VaultResponseBody request_action" where
  "handle_inner E wakes fuel caller request clock =
     sbind (fallible (slift (identity_validate caller))) (\<lambda>_.
     sbind (fallible (slift (request_validate E (j_request E) request))) (\<lambda>_.
     let application = vr_application request;
         approval = for_request caller application (vr_action request);
         provenance = provenance_caller caller application in
     sbind (fallible (clock_sample E clock)) (\<lambda>sample.
     sbind (fallible (lock_live E (snd sample))) (\<lambda>_.
     sbind (fallible (clock_wall E clock)) (\<lambda>now.
     sbind (fallible (consume (vr_request_id request))) (\<lambda>_.
     dispatch E wakes fuel caller application (vr_action request) approval provenance now clock))))))"

text \<open>The outcome of a request after the final checks.\<close>

definition final_check ::
  "('d, 'r, 'i, 'z) service_env_scheme \<Rightarrow> RequestTime \<Rightarrow> VaultResponseError + VaultResponseBody \<Rightarrow> ServiceState
     \<Rightarrow> (VaultResponseError + VaultResponseBody) \<times> ServiceState" where
  "final_check E clock result s =
     (if result = Inr SealedBody then (Inr SealedBody, state_seal s)
      else case sbind (clock_sample E clock) (\<lambda>sample. check_live E (snd sample)) s of
        (Inl _, s) \<Rightarrow> (Inl (response_error Sealed), s)
      | (Inr _, s) \<Rightarrow>
          (case result of
             Inl e \<Rightarrow> (Inl e, s)
           | Inr body \<Rightarrow>
               (case check_valid_until E clock s of
                  (Inl _, s) \<Rightarrow> (Inl (response_error VaultError.Expired), s)
                | (Inr _, s) \<Rightarrow> (Inr body, s))))"

definition delivery_deadline ::
  "('d, 'r, 'i, 'z) service_env_scheme \<Rightarrow> RequestTime \<Rightarrow> VaultResponseError + VaultResponseBody
     \<Rightarrow> (ServiceState, VaultError, instant option) action" where
  "delivery_deadline E clock result = (case result of
      Inr body \<Rightarrow>
        if body = SealedBody then sret None
        else
          sbind (sget vs_deadline) (\<lambda>lease.
          sbind (sget as_valid_until) (\<lambda>valid_until.
          case valid_until of
            None \<Rightarrow> sret lease
          | Some deadline \<Rightarrow>
              sbind (clock_deadline E clock deadline) (\<lambda>t.
              sret (Some (case lease of None \<Rightarrow> t | Some l \<Rightarrow> min l t)))))
    | Inl _ \<Rightarrow> sret None)"

definition handle_at ::
  "('d, 'r, 'i, 'z) service_env_scheme \<Rightarrow> (nat \<Rightarrow> ServiceState \<Rightarrow> ServiceState) \<Rightarrow> nat \<Rightarrow> CallerIdentity
     \<Rightarrow> VaultRequest \<Rightarrow> u64 \<Rightarrow> instant \<Rightarrow> ServiceState \<Rightarrow> VaultResponse option \<times> ServiceState" where
  "handle_at E wakes fuel caller request now monotonic_now s =
     (case (sbind (smodify (\<lambda>s. s\<lparr>as_valid_until := None\<rparr>)) (\<lambda>_. clock_new E now monotonic_now)) s of
        (Inl (e :: VaultError), s) \<Rightarrow> (None, s)
      | (Inr clock, s) \<Rightarrow>
          (let (outcome, s) = handle_inner E wakes fuel caller request clock s in
           case outcome of
             Inl StillWaiting \<Rightarrow> (None, s)
           | _ \<Rightarrow>
               (let result = (case outcome of
                      Inr body \<Rightarrow> Inr body
                    | Inl (Failed e interaction) \<Rightarrow> Inl (response_error_with_interaction e interaction)
                    | Inl StillWaiting \<Rightarrow> Inl (response_error WorkerUnavailable));
                    (result, s) = final_check E clock result s;
                    (deadline, s) = delivery_deadline E clock result s
                in (Some \<lparr>rs_version = PROTOCOL_VERSION, rs_request_id = vr_request_id request, rs_result = result,
                      rs_delivery_deadline = (case deadline of Inr d \<Rightarrow> d | Inl _ \<Rightarrow> None),
                      rs_delivery_cancelled = (case deadline of Inr d \<Rightarrow> d \<noteq> None | Inl _ \<Rightarrow> False)\<rparr>, s))))"

definition handle ::
  "('d, 'r, 'i, 'z) service_env_scheme \<Rightarrow> (nat \<Rightarrow> ServiceState \<Rightarrow> ServiceState) \<Rightarrow> nat \<Rightarrow> CallerIdentity
     \<Rightarrow> VaultRequest \<Rightarrow> u64 \<Rightarrow> ServiceState \<Rightarrow> VaultResponse option \<times> ServiceState" where
  "handle E wakes fuel caller request now s =
     handle_at E wakes fuel caller request now (instants E (sh_ticks s)) (s\<lparr>sh_ticks := Suc (sh_ticks s)\<rparr>)"

section \<open>Grants issued in process\<close>

datatype GrantAuthorizationTarget =
    KindTarget DocumentKind
  | NamespaceAuthorization DocumentKind bytes
  | EntryAuthorization DocumentKind bytes WireSecretAddress
  | PermissionManagement

record GrantAuthorization =
  ga_caller :: CallerIdentity
  ga_target :: GrantAuthorizationTarget
  ga_permissions :: "GrantPermission list"
  ga_expires_at :: "u64 option"

definition authorization_target :: "GrantAuthorizationTarget \<Rightarrow> GrantTarget vault_result" where
  "authorization_target target = (case target of
      KindTarget kind \<Rightarrow> Inr (Kind kind)
    | NamespaceAuthorization scope namespace \<Rightarrow> Inr (Namespace scope namespace)
    | PermissionManagement \<Rightarrow> Inr (Namespace Authorization PERMISSION_CONTROL_NAMESPACE)
    | EntryAuthorization scope namespace address \<Rightarrow>
        rbind (wire_address_resolve address) (\<lambda>entry. Inr (Entry scope namespace entry)))"

definition prepare_authorization ::
  "('d, 'r, 'i, 'z) service_env_scheme \<Rightarrow> u64 \<Rightarrow> GrantAuthorization \<Rightarrow> PreparedGrant list vault_result" where
  "prepare_authorization E now grant =
     rbind (authorization_target (ga_target grant)) (\<lambda>target.
     prepare_grant E (codecs E) (ga_caller grant) target (ga_permissions grant) (ga_expires_at grant) now)"

definition touch_now :: "('d, 'r, 'i, 'z) service_env_scheme \<Rightarrow> u64 \<Rightarrow> unit service_action" where
  "touch_now E now = sbind (instant_now E) (\<lambda>t. touch E (now, t))"

definition authorize_batch ::
  "('d, 'r, 'i, 'z) service_env_scheme \<Rightarrow> GrantAuthorization list \<Rightarrow> u64 \<Rightarrow> unit service_action" where
  "authorize_batch E grants now =
     sbind (instant_now E) (\<lambda>t.
     sbind (lock_live E t) (\<lambda>_.
     sbind (slift (rmapM (prepare_authorization E now) grants)) (\<lambda>prepared.
     sbind (store_prepared_grants (grant_store_ops E) (concat prepared) now) (\<lambda>_.
     touch_now E now))))"

definition authorize ::
  "('d, 'r, 'i, 'z) service_env_scheme \<Rightarrow> CallerIdentity \<Rightarrow> GrantAuthorizationTarget \<Rightarrow> GrantPermission list
     \<Rightarrow> u64 option \<Rightarrow> u64 \<Rightarrow> unit service_action" where
  "authorize E caller target permissions expires_at now =
     authorize_batch E [\<lparr>ga_caller = caller, ga_target = target, ga_permissions = permissions,
       ga_expires_at = expires_at\<rparr>] now"

definition authorize_document_kind ::
  "('d, 'r, 'i, 'z) service_env_scheme \<Rightarrow> CallerIdentity \<Rightarrow> DocumentKind \<Rightarrow> GrantPermission list \<Rightarrow> u64 option
     \<Rightarrow> u64 \<Rightarrow> unit service_action" where
  "authorize_document_kind E caller kind permissions expires_at now =
     authorize E caller (KindTarget kind) permissions expires_at now"

definition authorize_permission_manager ::
  "('d, 'r, 'i, 'z) service_env_scheme \<Rightarrow> CallerIdentity \<Rightarrow> u64 \<Rightarrow> unit service_action" where
  "authorize_permission_manager E caller now =
     authorize E caller (NamespaceAuthorization Authorization PERMISSION_CONTROL_NAMESPACE)
       [GManagePermissions] None now"

definition authorize_entry ::
  "('d, 'r, 'i, 'z) service_env_scheme \<Rightarrow> CallerIdentity \<Rightarrow> bytes \<Rightarrow> WireSecretAddress \<Rightarrow> GrantPermission list
     \<Rightarrow> u64 option \<Rightarrow> u64 \<Rightarrow> unit service_action" where
  "authorize_entry E caller namespace address permissions expires_at now =
     authorize E caller (EntryAuthorization LocalKeyring namespace address) permissions expires_at now"

definition authorize_cache_entry ::
  "('d, 'r, 'i, 'z) service_env_scheme \<Rightarrow> CallerIdentity \<Rightarrow> bytes \<Rightarrow> WireSecretAddress \<Rightarrow> GrantPermission list
     \<Rightarrow> u64 option \<Rightarrow> u64 \<Rightarrow> unit service_action" where
  "authorize_cache_entry E caller namespace address permissions expires_at now =
     authorize E caller (EntryAuthorization SecretSpecProviderCache namespace address) permissions expires_at now"

definition authorize_namespace ::
  "('d, 'r, 'i, 'z) service_env_scheme \<Rightarrow> CallerIdentity \<Rightarrow> bytes \<Rightarrow> GrantPermission list \<Rightarrow> u64 option
     \<Rightarrow> u64 \<Rightarrow> unit service_action" where
  "authorize_namespace E caller namespace permissions expires_at now =
     authorize E caller (NamespaceAuthorization LocalKeyring namespace) permissions expires_at now"

definition authorize_cache_namespace ::
  "('d, 'r, 'i, 'z) service_env_scheme \<Rightarrow> CallerIdentity \<Rightarrow> bytes \<Rightarrow> GrantPermission list \<Rightarrow> u64 option
     \<Rightarrow> u64 \<Rightarrow> unit service_action" where
  "authorize_cache_namespace E caller namespace permissions expires_at now =
     authorize E caller (NamespaceAuthorization SecretSpecProviderCache namespace) permissions expires_at now"

definition authorize_exclusive ::
  "('d, 'r, 'i, 'z) service_env_scheme \<Rightarrow> CallerIdentity \<Rightarrow> GrantTarget \<Rightarrow> GrantPermission list
     \<Rightarrow> u64 \<Rightarrow> unit service_action" where
  "authorize_exclusive E caller target permissions now =
     sbind (instant_now E) (\<lambda>t.
     sbind (lock_live E t) (\<lambda>_.
     sbind (store_exclusive_grant E (grant_store_ops E) (codecs E) caller target permissions now) (\<lambda>_.
     touch_now E now)))"

definition authorize_secret_service_namespace ::
  "('d, 'r, 'i, 'z) service_env_scheme \<Rightarrow> CallerIdentity \<Rightarrow> bytes \<Rightarrow> GrantPermission list
     \<Rightarrow> u64 \<Rightarrow> unit service_action" where
  "authorize_secret_service_namespace E caller namespace permissions now =
     authorize_exclusive E caller (Namespace LinuxSecretService namespace) permissions now"

definition authorize_network_manager_host ::
  "('d, 'r, 'i, 'z) service_env_scheme \<Rightarrow> CallerIdentity \<Rightarrow> u64 \<Rightarrow> unit service_action" where
  "authorize_network_manager_host E caller now =
     authorize_exclusive E caller (Namespace NetworkManagerWifi NETWORK_MANAGER_NAMESPACE)
       [GGet, GPut, GDelete] now"

definition SECRET_SERVICE_PERMISSIONS :: "GrantPermission list" where
  "SECRET_SERVICE_PERMISSIONS = [GGet, GPut, GDelete, GSeal]"

definition authorize_secret_service_host ::
  "('d, 'r, 'i, 'z) service_env_scheme \<Rightarrow> CallerIdentity \<Rightarrow> u64 \<Rightarrow> unit service_action" where
  "authorize_secret_service_host E caller now =
     sbind (authorize_secret_service_namespace E caller SECRET_SERVICE_NAMESPACE SECRET_SERVICE_PERMISSIONS now) (\<lambda>_.
     authorize_network_manager_host E caller now)"

end
