(* ===== verification/Service_Laws.thy ===== *)
theory Service_Laws
  imports Service Grant_Laws Worker_Laws
begin

text \<open>
  Laws of the service layer: which part of the state each operation leaves alone, what a
  successful grant check proves about the stored grants, and how a request passes through the
  stages of \<open>handle_at\<close>.
\<close>

section \<open>What the operations leave alone\<close>

definition untimed :: "('s StoreHandle_scheme \<Rightarrow> bool) \<Rightarrow> bool" where
  "untimed I \<longleftrightarrow> (\<forall>s n. I s \<longrightarrow> sh_ticks s \<le> n \<longrightarrow> I (s\<lparr>sh_ticks := n\<rparr>))"

definition outside :: "('s StoreHandle_scheme \<Rightarrow> bool) \<Rightarrow> bool" where
  "outside I \<longleftrightarrow> (\<forall>s a b n. I s \<longrightarrow> sh_ticks s \<le> n \<longrightarrow> I (s\<lparr>sh_status := a, sh_worker := b, sh_ticks := n\<rparr>))"

definition docs_are :: "Db \<Rightarrow> VerifiedStoreState \<Rightarrow> 's StoreHandle_scheme \<Rightarrow> bool" where
  "docs_are db v s \<longleftrightarrow> sw_db (sh_worker s) = db \<and> sw_verified (sh_worker s) = v"

text \<open>An invariant that only reading the clocks and the documents keeps.\<close>

definition readable :: "('s StoreHandle_scheme \<Rightarrow> bool) \<Rightarrow> bool" where
  "readable I \<longleftrightarrow> (\<forall>s a b n. I s \<longrightarrow> sh_ticks s \<le> n \<longrightarrow> sw_db b = sw_db (sh_worker s) \<longrightarrow>
     sw_verified b = sw_verified (sh_worker s) \<longrightarrow> I (s\<lparr>sh_status := a, sh_worker := b, sh_ticks := n\<rparr>))"

lemma readable_untimed: "readable I \<Longrightarrow> untimed I"
  unfolding untimed_def
proof (intro allI impI)
  fix s n
  assume "readable I" and "I s" and "sh_ticks s \<le> n"
  then have "I (s\<lparr>sh_status := sh_status s, sh_worker := sh_worker s, sh_ticks := n\<rparr>)" unfolding readable_def by blast
  then show "I (s\<lparr>sh_ticks := n\<rparr>)" by simp
qed

lemma readable_step:
  assumes "readable I" and "I s" and "sh_ticks s \<le> sh_ticks s'"
    and "s' = s\<lparr>sh_status := sh_status s', sh_worker := sh_worker s', sh_ticks := sh_ticks s'\<rparr>"
    and "sw_db (sh_worker s') = sw_db (sh_worker s)" and "sw_verified (sh_worker s') = sw_verified (sh_worker s)"
  shows "I s'"
  using assms unfolding readable_def by metis

lemma outside_step:
  assumes "outside I" and "I s" and "sh_ticks s \<le> sh_ticks s'"
    and "s' = s\<lparr>sh_status := sh_status s', sh_worker := sh_worker s', sh_ticks := sh_ticks s'\<rparr>"
  shows "I s'"
  using assms unfolding outside_def by metis

lemma outside_readable: "outside I \<Longrightarrow> readable I"
  unfolding readable_def outside_def by blast

lemma readable_docs: "readable (docs_are db v)"
  by (simp add: readable_def docs_are_def)

lemma readable_conj: "readable I \<Longrightarrow> readable J \<Longrightarrow> readable (\<lambda>s. I s \<and> J s)"
  unfolding readable_def by blast

lemma preserves_clock [preserves_intros]:
  assumes "untimed I"
  shows "preserves I (instant_now E)" "preserves I (system_now E)"
  using assms by (auto simp: untimed_def instant_now_def system_now_def intro!: preservesI)

lemma preserves_clocks [preserves_intros]:
  assumes "untimed I"
  shows "preserves I (clock_new E wall t)" "preserves I (clock_sample E rt)" "preserves I (clock_wall E rt)"
    "preserves I (clock_deadline E rt w)" "preserves I (clock_check E rt d)"
  using assms
  by (simp_all add: clock_new_def clock_sample_def clock_wall_def clock_deadline_def clock_check_def preserves_intros)

lemma preserves_check_valid_until [preserves_intros]:
  assumes "untimed I"
  shows "preserves I (check_valid_until E rt)"
  using assms by (simp add: check_valid_until_def preserves_intros)

lemma is_sealed_frame:
  assumes "vs_is_sealed E s = (r, s')"
  shows "s' = s\<lparr>sh_status := sh_status s', sh_worker := sh_worker s', sh_ticks := sh_ticks s'\<rparr>"
    and "sh_worker s' = sh_worker s" and "sh_ticks s' = Suc (sh_ticks s)"
  using assms by (auto simp: vs_is_sealed_def Let_def split: prod.splits)

lemma preserves_is_sealed [preserves_intros]:
  assumes "readable I"
  shows "preserves I (vs_is_sealed E)"
  by (rule preservesI) (rule readable_step [OF assms _ _ is_sealed_frame(1)], simp_all add: is_sealed_frame)

lemma store_call_request:
  assumes "store_call E command f s = (r, s')"
  obtains q where "store_request E command s = (q, s')"
  using assms by (cases "store_request E command s") (auto simp: store_call_def sbind_def slift_def split: sum.splits)

lemma store_call_frame:
  assumes "store_call E command f s = (r, s')"
  shows "s' = s\<lparr>sh_status := sh_status s', sh_worker := sh_worker s', sh_ticks := sh_ticks s'\<rparr>"
    and "sh_ticks s \<le> sh_ticks s'"
proof -
  obtain q where "store_request E command s = (q, s')" using assms by (rule store_call_request)
  from store_request_frame [OF this] have f:
    "s' = s\<lparr>sh_status := sh_status s', sh_worker := sh_worker s', sh_ticks := sh_ticks s + 3\<rparr>" .
  then have t: "sh_ticks s' = sh_ticks s + 3" by (metis StoreHandle.select_convs(3) StoreHandle.surjective StoreHandle.update_convs(3))
  then show "s' = s\<lparr>sh_status := sh_status s', sh_worker := sh_worker s', sh_ticks := sh_ticks s'\<rparr>" using f by simp
  show "sh_ticks s \<le> sh_ticks s'" using t by simp
qed

lemma preserves_store_call [preserves_intros]:
  assumes "outside I"
  shows "preserves I (store_call E command f)"
  by (rule preservesI) (erule (1) outside_step [OF assms _ store_call_frame(2) store_call_frame(1)])

lemma preserves_get_many [preserves_intros]:
  assumes "readable I"
  shows "preserves I (vs_get_many E kind part as now)"
proof (rule preservesI)
  fix s r s'
  assume "I s" and run: "vs_get_many E kind part as now s = (r, s')"
  from run have "store_call E (GetMany kind part as now) (\<lambda>r. case r of Values v \<Rightarrow> Some v | _ \<Rightarrow> None) s = (r, s')"
    by (simp add: vs_get_many_def)
  from store_call_frame [OF this] get_many_keeps [OF run] show "I s'"
    using readable_step [OF assms \<open>I s\<close>] by blast
qed

lemma preserves_find_grant [preserves_intros]:
  assumes "readable I"
  shows "preserves I (find_grant H (grant_store_ops E) C caller q now)"
  unfolding find_grant_def Let_def grant_store_ops_def service_ops_def using assms
  by (simp add: preserves_intros)

lemma preserves_case_found [preserves_intros]:
  "(\<And>e. preserves I (f e)) \<Longrightarrow> (\<And>d e. preserves I (g d e)) \<Longrightarrow> preserves I h \<Longrightarrow>
     preserves I (case x of Reusable e \<Rightarrow> f e | SingleUse d e \<Rightarrow> g d e | NoGrant \<Rightarrow> h)"
  by (cases x) simp_all

lemma preserves_require_grant_until [preserves_intros]:
  assumes "readable I"
  shows "preserves I (require_grant_until H (grant_store_ops E) C caller q now)"
  unfolding require_grant_until_def using assms by (intro preserves_intros) auto

text \<open>Invariants a check keeps: it reads, and narrows the validity of the answer.\<close>

definition check_stable :: "('s ActionState_scheme \<Rightarrow> bool) \<Rightarrow> bool" where
  "check_stable I \<longleftrightarrow> readable I \<and> (\<forall>s d. I s \<longrightarrow> I (s\<lparr>as_valid_until := tighten (as_valid_until s) d\<rparr>))"

lemma check_stableD: "check_stable I \<Longrightarrow> readable I" "check_stable I \<Longrightarrow> untimed I"
  by (simp_all add: check_stable_def readable_untimed)

lemma preserves_tighten [preserves_intros]: "check_stable I \<Longrightarrow> preserves I (tighten_until d)"
  unfolding tighten_until_def by (rule preserves_smodify) (simp add: check_stable_def)

lemma preserves_accept [preserves_intros]: "check_stable I \<Longrightarrow> preserves I (accept_deadline E x d)"
  by (simp add: accept_deadline_def preserves_intros check_stableD)

lemma preserves_require [preserves_intros]:
  assumes "check_stable I"
  shows "preserves I (require_requirement E x q)" "preserves I (require E x n a p)"
    "preserves I (require_project E x pr a p)" "preserves I (require_kind E x p)"
    "preserves I (require_live_manager E caller rt)"
  using assms
  by (simp_all add: require_requirement_def require_def require_project_def require_kind_def
      require_live_manager_def manager_deadline_def preserves_intros check_stableD)

lemma check_stable_docs: "check_stable (docs_are db v)"
  by (simp add: check_stable_def readable_docs) (simp add: docs_are_def)

definition same_docs :: "'s StoreHandle_scheme \<Rightarrow> 't StoreHandle_scheme \<Rightarrow> bool" where
  "same_docs s s' \<longleftrightarrow> sw_db (sh_worker s') = sw_db (sh_worker s) \<and> sw_verified (sh_worker s') = sw_verified (sh_worker s)"

lemma same_docs_refl [simp]: "same_docs s s"
  by (simp add: same_docs_def)

lemma same_docs_trans [trans]: "same_docs s s' \<Longrightarrow> same_docs s' s'' \<Longrightarrow> same_docs s s''"
  by (simp add: same_docs_def)

lemma preserves_same_docs: "(\<And>db v. preserves (docs_are db v) m) \<Longrightarrow> m s = (r, s') \<Longrightarrow> same_docs s s'"
  by (metis docs_are_def preservesD same_docs_def)

lemma same_docs_holds: "same_docs s s' \<Longrightarrow> handle_holds E V kind part s M \<Longrightarrow> handle_holds E V kind part s' M"
  by (simp add: same_docs_def handle_holds_def holds_reader)

lemma require_same_docs:
  "require_requirement E x q s = (r, s') \<Longrightarrow> same_docs s s'"
  "require_live_manager E caller rt s = (r, s') \<Longrightarrow> same_docs s s'"
  "require_grant_until H (grant_store_ops E) C caller q now t = (d, t') \<Longrightarrow> same_docs t t'"
  by (erule preserves_same_docs [rotated], simp add: preserves_intros check_stable_docs readable_docs)+

section \<open>What a passed check proves\<close>

text \<open>\<open>tight d s\<close>: the answer is not valid beyond \<open>d\<close>.\<close>

definition tight :: "u64 option \<Rightarrow> 's ActionState_scheme \<Rightarrow> bool" where
  "tight d s = (case d of None \<Rightarrow> True | Some d \<Rightarrow> (case as_valid_until s of None \<Rightarrow> False | Some v \<Rightarrow> v \<le> d))"

lemma check_stable_tight: "check_stable (tight d)"
  unfolding check_stable_def readable_def tight_def
  by (auto simp: tighten_def split: option.splits intro: order_trans [OF min.cobounded1])

lemma tighten_tight: "tighten_until d s = (Inr u, s') \<Longrightarrow> tight d s'"
  by (auto simp: tighten_until_def tight_def tighten_def split: option.splits)

definition granted_until ::
  "('d, 'r, 'i, 'z) service_env_scheme \<Rightarrow> entries \<Rightarrow> CallerIdentity \<Rightarrow> GrantRequirement \<Rightarrow> u64 \<Rightarrow> u64 option \<Rightarrow> bool" where
  "granted_until E M caller q now e \<longleftrightarrow> (\<exists>t\<in>set (requirement_targets q). \<exists>g.
     usable E (codecs E) M now (fingerprint E caller) (grant_target_digest E t) (gq_permission q) g \<and>
     \<not> ag_single_use g \<and> ag_expires_at g = e)"

abbreviation grants_are ::
  "('d, 'r, 'i, 'z) service_env_scheme \<Rightarrow> ('d \<Rightarrow> am_view) \<Rightarrow> 's StoreHandle_scheme \<Rightarrow> entries \<Rightarrow> bool" where
  "grants_are E V s M \<equiv> handle_holds E V Authorization GRANT_DOCUMENT_NAMESPACE s M"

lemma require_grant_until_granted:
  assumes "grants_are E V s M" and "require_grant_until E (grant_store_ops E) (codecs E) caller q now s = (Inr e, s')"
  shows "granted_until E M caller q now e"
proof -
  from service_store.require_grant_until_ok [OF assms(1) assms(2) [unfolded grant_store_ops_def]]
  have "lookup_grant E (codecs E) M caller q now = Inr (Reusable e)" by blast
  from lookup_reusable [OF this] show ?thesis by (auto simp: granted_until_def target_digests_def)
qed

lemma check_valid_until_ok:
  assumes "check_valid_until E rt s = (Inr u, s')"
  shows "time_check rt (instants E (sh_ticks s)) (system_times E (Suc (sh_ticks s))) (as_valid_until s) = Inr ()"
    and "s' = s\<lparr>sh_ticks := sh_ticks s + 2\<rparr>"
  using assms by (auto simp: check_valid_until_def clock_check_def instant_now_def system_now_def res_simps)

lemma accept_deadline_tight:
  assumes "accept_deadline E x d s = (Inr u, s')"
  shows "tight d s'"
proof -
  from assms obtain s1 where s1: "tighten_until d s = (Inr () :: VaultError + unit, s1)" "check_valid_until E (ax_clock x) s1 = (Inr u, s')"
    by (auto simp: accept_deadline_def res_simps)
  have "preserves (tight d) (check_valid_until E (ax_clock x))"
    by (simp add: preserves_intros check_stableD(2) [OF check_stable_tight])
  then show ?thesis using s1 tighten_tight preservesD by metis
qed

lemma require_requirement_granted:
  assumes "grants_are E V s M" and "require_requirement E x q s = (Inr u, s')"
  shows "\<exists>now e. granted_until E M (ax_caller x) q now e \<and> tight e s' \<and> same_docs s s'"
proof -
  from assms(2) obtain now s1 e s2 where s: "clock_wall E (ax_clock x) s = (Inr now :: VaultError + u64, s1)"
    "require_grant_until E (grant_store_ops E) (codecs E) (ax_caller x) q now s1 = (Inr e, s2)"
    "accept_deadline E x e s2 = (Inr u, s')" by (auto simp: require_requirement_def res_simps)
  have "same_docs s s1" using s(1)
    by (rule preserves_same_docs [rotated]) (simp add: preserves_intros readable_untimed readable_docs)
  then have "granted_until E M (ax_caller x) q now e"
    using require_grant_until_granted [OF _ s(2)] same_docs_holds assms(1) by blast
  then show ?thesis using accept_deadline_tight [OF s(3)] require_same_docs(1) [OF assms(2)] by blast
qed

lemma require_live_manager_granted:
  assumes "grants_are E V s M" and "require_live_manager E caller rt s = (Inr u, s')"
  shows "\<exists>now e. granted_until E M caller manager_requirement now e \<and> tight e s' \<and> same_docs s s'"
proof -
  from assms(2) obtain now s1 e s2 s3 where s: "clock_wall E rt s = (Inr now :: VaultError + u64, s1)"
    "require_grant_until E (grant_store_ops E) (codecs E) caller manager_requirement now s1 = (Inr e, s2)"
    "tighten_until e s2 = (Inr () :: VaultError + unit, s3)" "check_valid_until E rt s3 = (Inr u, s')"
    by (auto simp: require_live_manager_def manager_deadline_def res_simps)
  have "same_docs s s1" using s(1)
    by (rule preserves_same_docs [rotated]) (simp add: preserves_intros readable_untimed readable_docs)
  then have "granted_until E M caller manager_requirement now e"
    using require_grant_until_granted [OF _ s(2)] same_docs_holds assms(1) by blast
  moreover have "tight e s'"
    using tighten_tight [OF s(3)] s(4) preservesD [OF preserves_check_valid_until [OF check_stableD(2) [OF check_stable_tight]]] by blast
  ultimately show ?thesis using require_same_docs(2) [OF assms(2)] by blast
qed

section \<open>Reads\<close>

lemma get_with_deadline_ok:
  assumes "handle_holds E V kind part s D" and "vs_get_with_deadline E kind part a now s = (Inr v, s')"
  shows "read_entry E D now a = Inr v"
  using service_store.get_ok [OF assms(1), of a now v s'] assms(2) by (simp add: service_ops_def)

definition authorized_read ::
  "('d, 'r, 'i, 'z) service_env_scheme \<Rightarrow> entries \<Rightarrow> entries \<Rightarrow> CallerIdentity \<Rightarrow> GrantRequirement \<Rightarrow> SecretAddress
     \<Rightarrow> bytes \<Rightarrow> 's ActionState_scheme \<Rightarrow> bool" where
  "authorized_read E M D caller q a v s \<longleftrightarrow> (\<exists>now e later e'. granted_until E M caller q now e \<and> tight e s \<and>
     D (storage_key E a) = Some (a, v, e') \<and> live later e' \<and> tight e' s)"

lemma clock_same_docs: "clock_wall E rt s = (r, s') \<Longrightarrow> same_docs s s'"
  by (erule preserves_same_docs [rotated]) (simp add: preserves_intros readable_untimed readable_docs)

lemma read_secret_ok:
  assumes "handle_holds E V (ax_scope x) namespace s D" and "read_secret E x namespace a s = (Inr body, s')"
  shows "(body = SecretBody None) \<or>
    (\<exists>v later e. body = SecretBody (Some v) \<and> D (storage_key E a) = Some (a, v, e) \<and> live later e \<and> tight e s')"
proof -
  from assms(2) obtain now s1 found s2 where s: "clock_wall E (ax_clock x) s = (Inr now :: VaultError + u64, s1)"
    "vs_get_with_deadline E (ax_scope x) namespace a now s1 = (Inr found, s2)"
    "(case found of None \<Rightarrow> sret (SecretBody None) | Some secret \<Rightarrow>
       sbind (accept_deadline E x (ss_expires_at secret)) (\<lambda>_. sret (SecretBody (Some (ss_value secret))))) s2 = (Inr body, s')"
    by (auto simp: read_secret_def res_simps)
  have r: "read_entry E D now a = Inr found"
    using get_with_deadline_ok [OF same_docs_holds [OF clock_same_docs [OF s(1)] assms(1)] s(2)] .
  show ?thesis
  proof (cases found)
    case (Some secret)
    then obtain u where "accept_deadline E x (ss_expires_at secret) s2 = (Inr u, s')" "body = SecretBody (Some (ss_value secret))"
      using s(3) by (auto simp: res_simps)
    moreover have "D (storage_key E a) = Some (a, ss_value secret, ss_expires_at secret) \<and> live now (ss_expires_at secret)"
      using r Some by (auto simp: read_entry_def split: option.splits if_splits)
    ultimately show ?thesis using accept_deadline_tight by blast
  qed (use s(3) in simp)
qed

lemma outside_tight: "outside (tight d)"
  by (auto simp: outside_def tight_def split: option.splits)

lemma preserves_read_secret_tight:
  assumes "read_secret E x namespace a s = (r, s')" and "tight d s"
  shows "tight d s'"
proof -
  have "preserves (tight d) (read_secret E x namespace a)"
    unfolding read_secret_def vs_get_with_deadline_def
    by (intro preserves_intros preserves_case_option) (auto intro: preserves_intros check_stableD check_stable_tight outside_tight)
  then show ?thesis using assms preservesD by metis
qed

lemma authorized_after_read:
  assumes "grants_are E V s M" and "handle_holds E V (ax_scope x) namespace s D"
    and "require_requirement E x q s = (Inr u, s1)" and "read_secret E x namespace a s1 = (Inr body, s')"
  shows "body = SecretBody None \<or> (\<exists>v. body = SecretBody (Some v) \<and> authorized_read E M D (ax_caller x) q a v s')"
proof -
  from require_requirement_granted [OF assms(1,3)] obtain now e where
    g: "granted_until E M (ax_caller x) q now e" "tight e s1" "same_docs s s1" by blast
  have "tight e s'" using preserves_read_secret_tight [OF assms(4) g(2)] .
  with read_secret_ok [OF same_docs_holds [OF g(3) assms(2)] assms(4)] g(1) show ?thesis
    unfolding authorized_read_def by blast
qed

definition read_requirement ::
  "VaultApplicationContext option \<Rightarrow> VaultAction \<Rightarrow> (GrantRequirement \<times> DocumentKind \<times> bytes \<times> SecretAddress) option" where
  "read_requirement application action = (case action of
      GetAction namespace address \<Rightarrow>
        Some (\<lparr>gq_scope = namespace_scope namespace, gq_namespace = Some namespace,
          gq_address = Some (Local (wa_item address) (wa_field address)), gq_project = None, gq_base_dir = None,
          gq_permission = GGet\<rparr>, namespace_scope namespace, namespace, Local (wa_item address) (wa_field address))
    | GetProjectAction project address \<Rightarrow>
        Some (\<lparr>gq_scope = SecretSpecProject, gq_namespace = Some project, gq_address = Some (SecretSpec address),
          gq_project = Some project, gq_base_dir = (case application of None \<Rightarrow> None | Some c \<Rightarrow> ac_base_dir c),
          gq_permission = GGet\<rparr>, SecretSpecProject, project, SecretSpec address)
    | GetCacheAction project address \<Rightarrow>
        Some (\<lparr>gq_scope = SecretSpecProviderCache, gq_namespace = Some project, gq_address = Some (SecretSpec address),
          gq_project = Some project, gq_base_dir = (case application of None \<Rightarrow> None | Some c \<Rightarrow> ac_base_dir c),
          gq_permission = GGet\<rparr>, SecretSpecProviderCache, project, SecretSpec address)
    | _ \<Rightarrow> None)"

lemma wire_address_resolve_ok: "wire_address_resolve a = Inr b \<Longrightarrow> b = Local (wa_item a) (wa_field a)"
  by (auto simp: wire_address_resolve_def address_new_def res_simps simp del: address_validate.simps)

lemma address_secret_spec_ok: "address_secret_spec a = Inr b \<Longrightarrow> b = SecretSpec a"
  by (auto simp: address_secret_spec_def res_simps)

text \<open>Whatever the action, a secret in its answer was read under a grant to the caller.\<close>

lemma execute_action_read:
  assumes "grants_are E V s M" and "execute_action E caller action ld provenance base_dir clock s = (Inr (SecretBody (Some v), r), s')"
    and "base_dir = (case application of None \<Rightarrow> None | Some c \<Rightarrow> ac_base_dir c)"
  shows "\<exists>q kind part a. read_requirement application action = Some (q, kind, part, a) \<and>
    (\<forall>D. handle_holds E V kind part s D \<longrightarrow> authorized_read E M D caller q a v s')"
proof (cases action)
  case (GetAction namespace address)
  let ?x = "\<lparr>ax_caller = caller, ax_scope = scope_action action, ax_clock = clock, ax_provenance = provenance, ax_base_dir = base_dir\<rparr>"
  from assms(2) GetAction obtain a s1 u where "wire_address_resolve address = Inr a"
    "require_requirement E ?x \<lparr>gq_scope = namespace_scope namespace, gq_namespace = Some namespace, gq_address = Some a,
       gq_project = None, gq_base_dir = None, gq_permission = GGet\<rparr> s = (Inr u, s1)"
    "read_secret E ?x namespace a s1 = (Inr (SecretBody (Some v)), s')"
    by (auto simp: execute_action_def Let_def refreshing_def get_def require_def scope_action_def res_simps)
  with authorized_after_read [OF assms(1) _ this(2,3)] GetAction show ?thesis
    by (auto simp: read_requirement_def scope_action_def dest!: wire_address_resolve_ok)
next
  case (GetProjectAction project address)
  let ?x = "\<lparr>ax_caller = caller, ax_scope = scope_action action, ax_clock = clock, ax_provenance = provenance, ax_base_dir = base_dir\<rparr>"
  from assms(2) GetProjectAction obtain a s1 u where "address_secret_spec address = Inr a"
    "require_requirement E ?x (project_requirement ?x project (Some a) GGet) s = (Inr u, s1)"
    "read_secret E ?x project a s1 = (Inr (SecretBody (Some v)), s')"
    by (auto simp: execute_action_def Let_def refreshing_def get_secret_spec_def require_project_def res_simps)
  with authorized_after_read [OF assms(1) _ this(2,3)] GetProjectAction assms(3) show ?thesis
    by (auto simp: read_requirement_def scope_action_def project_requirement_def dest!: address_secret_spec_ok)
next
  case (GetCacheAction project address)
  let ?x = "\<lparr>ax_caller = caller, ax_scope = scope_action action, ax_clock = clock, ax_provenance = provenance, ax_base_dir = base_dir\<rparr>"
  from assms(2) GetCacheAction obtain a s1 u where "address_secret_spec address = Inr a"
    "require_requirement E ?x (project_requirement ?x project (Some a) GGet) s = (Inr u, s1)"
    "read_secret E ?x project a s1 = (Inr (SecretBody (Some v)), s')"
    by (auto simp: execute_action_def Let_def refreshing_def get_secret_spec_def require_project_def res_simps)
  with authorized_after_read [OF assms(1) _ this(2,3)] GetCacheAction assms(3) show ?thesis
    by (auto simp: read_requirement_def scope_action_def project_requirement_def dest!: address_secret_spec_ok)
qed (use assms(2) in \<open>auto simp: execute_action_def Let_def refreshing_def put_def write_secret_def mutate_def delete_def
      remove_secret_def clear_def seal_vault_def put_secret_spec_def delete_secret_spec_def action_list_projects_def
      action_list_project_addresses_def local_history_def project_history_def action_list_history_def res_simps\<close>)

end
