(* ===== verification/Request_Laws.thy ===== *)
theory Request_Laws
  imports Service_Laws
begin

text \<open>The stages of \<open>handle_at\<close> in service.rs: what an answered request went through, what each stage keeps of the
  state, and what the answer therefore says about the documents, the lease and the clock.\<close>

section \<open>The stages of a request\<close>

definition steady :: "(ServiceState \<Rightarrow> bool) \<Rightarrow> bool" where
  "steady I \<longleftrightarrow> readable I \<and> (\<forall>s l. I s \<longrightarrow> I (s\<lparr>ls_lease := l\<rparr>)) \<and> (\<forall>s w. I s \<longrightarrow> I (s\<lparr>ls_replay := w\<rparr>))"

lemma steadyD: "steady I \<Longrightarrow> readable I" "steady I \<Longrightarrow> untimed I"
  by (simp_all add: steady_def readable_untimed)

lemma preserves_seal:
  assumes "readable I"
  shows "preserves I (smodify vs_seal)"
proof (rule preserves_smodify)
  fix s
  assume "I s"
  then show "I (vs_seal s)"
    by (rule readable_step [OF assms]) (simp_all add: vs_seal_def)
qed

lemma set_deadline_frame:
  assumes "vs_set_deadline E d s = (r, s')"
  shows "s' = s\<lparr>sh_status := sh_status s', sh_worker := sh_worker s', sh_ticks := sh_ticks s'\<rparr>"
    "sh_worker s' = sh_worker s" "sh_ticks s' = Suc (sh_ticks s)"
  using assms by (cases "set_deadline (instants E (sh_ticks s)) d (sh_status s)", auto simp: vs_set_deadline_def)+

lemma preserves_set_deadline:
  assumes "readable I"
  shows "preserves I (vs_set_deadline E d)"
  by (rule preservesI) (rule readable_step [OF assms _ _ set_deadline_frame(1)], simp_all add: set_deadline_frame)

lemma preserves_lease [preserves_intros]:
  assumes "steady I"
  shows "preserves I (lease_over E t)" "preserves I (seal_if_over E t)" "preserves I (lock_live E t)"
    "preserves I (check_live E t)" "preserves I (touch E smp)" "preserves I (check_and_touch E rt)"
    "preserves I (sample_and_touch E rt)" "preserves I (consume ident)"
proof -
  note [preserves_intros] = preserves_seal [OF steadyD(1) [OF assms]] preserves_set_deadline [OF steadyD(1) [OF assms]]
    steadyD [OF assms]
  have lease: "preserves I (\<lambda>s. case lease_touch a b (ls_lease s) of (r, lease) \<Rightarrow> (r, s\<lparr>ls_lease := lease\<rparr>))" for a b
    using assms by (auto simp: steady_def Let_def split: prod.splits intro!: preservesI)
  show 1: "preserves I (lease_over E t)" for t by (simp add: lease_over_def preserves_intros)
  show 2: "preserves I (seal_if_over E t)" for t by (simp add: seal_if_over_def preserves_intros 1)
  show 3: "preserves I (lock_live E t)" by (simp add: lock_live_def preserves_intros 2)
  then show "preserves I (check_live E t)" by (simp add: check_live_def)
  show 4: "preserves I (touch E smp)" for smp by (simp add: touch_def preserves_intros 2 lease)
  show "preserves I (check_and_touch E rt)" by (simp add: check_and_touch_def preserves_intros 4)
  show "preserves I (sample_and_touch E rt)" by (simp add: sample_and_touch_def preserves_intros 4)
  show "preserves I (consume ident)"
    using assms by (auto simp: steady_def consume_def Let_def split: prod.splits intro!: preservesI)
qed

lemma steady_facts:
  "steady (tight d)" "steady (docs_are db v)" "steady (\<lambda>s. n \<le> sh_ticks s)"
  "steady (\<lambda>s. ls_approvals s = pa)" "steady (\<lambda>s. as_valid_until s = w)"
  by (auto simp: steady_def readable_def docs_are_def tight_def split: option.splits)

lemma fallible_ok [res_simps]: "fallible m s = (Inr x, s') \<longleftrightarrow> m s = (Inr x, s')"
  by (auto simp: fallible_def split: prod.splits sum.splits)

lemma fallible_err [res_simps]:
  "fallible m s = (Inl f, s') \<longleftrightarrow> (\<exists>e. f = Failed e None \<and> m s = (Inl e, s'))"
  by (auto simp: fallible_def split: prod.splits sum.splits)

lemma stry_eq [res_simps]: "stry m s = (Inr r, s') \<longleftrightarrow> m s = (r, s')"
  by (auto simp: stry_def split: prod.splits)

lemma settled_ok [res_simps]: "settled v s = (Inr x, s') \<longleftrightarrow> v = Some x \<and> s' = s"
  by (auto simp: settled_def res_simps)

definition request_clock :: "('d, 'r, 'i, 'z) service_env_scheme \<Rightarrow> u64 \<Rightarrow> instant \<Rightarrow> ServiceState \<Rightarrow> RequestTime" where
  "request_clock E now t s =
     request_time_new now t (system_times E (sh_ticks s)) (instants E (Suc (sh_ticks s)))"

definition entered :: "ServiceState \<Rightarrow> ServiceState" where
  "entered s = s\<lparr>as_valid_until := None, sh_ticks := sh_ticks s + 2\<rparr>"

lemma enter_request:
  "sbind (smodify (\<lambda>s. s\<lparr>as_valid_until := None\<rparr>)) (\<lambda>_. clock_new E now t) s = (Inr (request_clock E now t s), entered s)"
  by (simp add: clock_new_def instant_now_def system_now_def sbind_def smodify_def sret_def slift_def request_clock_def
      entered_def)

lemma handle_at_unfold:
  "handle_at E wakes fuel caller request now t s =
     (let clock = request_clock E now t s;
          (outcome, s) = handle_inner E wakes fuel caller request clock (entered s) in
      case outcome of
        Inl StillWaiting \<Rightarrow> (None, s)
      | _ \<Rightarrow>
          (let result = (case outcome of
                 Inr body \<Rightarrow> Inr body
               | Inl (Failed e interaction) \<Rightarrow> Inl (response_error_with_interaction e interaction)
               | Inl StillWaiting \<Rightarrow> Inl (response_error WorkerUnavailable));
               (result, s) = final_check E clock result s;
               (deadline, s) = delivery_deadline E clock result s
           in (Some \<lparr>rs_version = PROTOCOL_VERSION, rs_request_id = vr_request_id request, rs_result = result,
                 rs_delivery_deadline = (case deadline of Inr d \<Rightarrow> d | Inl _ \<Rightarrow> None),
                 rs_delivery_cancelled = (case deadline of Inr d \<Rightarrow> d \<noteq> None | Inl _ \<Rightarrow> False)\<rparr>, s)))"
  unfolding handle_at_def enter_request by (simp only: Let_def prod.case sum.case)

lemma final_check_ok:
  assumes "final_check E clock result s = (Inr body, s')" and "body \<noteq> SealedBody"
  obtains smp s1 s2 where "result = Inr body" "clock_sample E clock s = (Inr smp :: VaultError + _, s1)"
    "check_live E (snd smp) s1 = (Inr (), s2)" "check_valid_until E clock s2 = (Inr (), s')"
  using assms
  by (auto simp: final_check_def res_simps split: if_splits sum.splits prod.splits)

lemma handle_at_ok:
  assumes "handle_at E wakes fuel caller request now t s = (Some r, s')" and "rs_result r = Inr body"
    and "body \<noteq> SealedBody"
  obtains s1 smp s2 s3 s4 d where
    "handle_inner E wakes fuel caller request (request_clock E now t s) (entered s) = (Inr body, s1)"
    "clock_sample E (request_clock E now t s) s1 = (Inr smp :: VaultError + _, s2)"
    "check_live E (snd smp) s2 = (Inr (), s3)" "check_valid_until E (request_clock E now t s) s3 = (Inr (), s4)"
    "delivery_deadline E (request_clock E now t s) (Inr body) s4 = (d, s')"
    "rs_delivery_deadline r = (case d of Inr d \<Rightarrow> d | Inl _ \<Rightarrow> None)"
    "rs_delivery_cancelled r = (case d of Inr d \<Rightarrow> d \<noteq> None | Inl _ \<Rightarrow> False)"
proof -
  obtain outcome s1 where inner: "handle_inner E wakes fuel caller request (request_clock E now t s) (entered s) = (outcome, s1)"
    by (cases "handle_inner E wakes fuel caller request (request_clock E now t s) (entered s)")
  define result where "result = (case outcome of Inr body \<Rightarrow> Inr body
      | Inl (Failed e interaction) \<Rightarrow> Inl (response_error_with_interaction e interaction)
      | Inl StillWaiting \<Rightarrow> Inl (response_error WorkerUnavailable))"
  obtain q s4 where q: "final_check E (request_clock E now t s) result s1 = (q, s4)"
    by (cases "final_check E (request_clock E now t s) result s1")
  obtain d s5 where d: "delivery_deadline E (request_clock E now t s) q s4 = (d, s5)"
    by (cases "delivery_deadline E (request_clock E now t s) q s4")
  have "outcome \<noteq> Inl StillWaiting" using assms(1) inner by (auto simp: handle_at_unfold)
  then have r: "r = \<lparr>rs_version = PROTOCOL_VERSION, rs_request_id = vr_request_id request, rs_result = q,
      rs_delivery_deadline = (case d of Inr d \<Rightarrow> d | Inl _ \<Rightarrow> None),
      rs_delivery_cancelled = (case d of Inr d \<Rightarrow> d \<noteq> None | Inl _ \<Rightarrow> False)\<rparr>" "s' = s5"
    using assms(1) inner q d unfolding result_def
    by (auto simp: handle_at_unfold Let_def split: sum.splits RequestFailure.splits)
  with assms(2) have "q = Inr body" by simp
  with q assms(3) obtain smp s2 s3 where f: "result = Inr body"
    "clock_sample E (request_clock E now t s) s1 = (Inr smp :: VaultError + _, s2)"
    "check_live E (snd smp) s2 = (Inr (), s3)" "check_valid_until E (request_clock E now t s) s3 = (Inr (), s4)"
    by (auto elim: final_check_ok)
  from f(1) have "outcome = Inr body" by (auto simp: result_def split: sum.splits RequestFailure.splits)
  then show thesis using that inner f(2-4) d r \<open>q = Inr body\<close> by auto
qed

lemma handle_inner_ok:
  assumes "handle_inner E wakes fuel caller request clock s = (Inr body, s')"
  obtains smp s1 s2 now s3 s4 where "identity_validate caller = Inr ()" "request_validate E (j_request E) request = Inr ()"
    "clock_sample E clock s = (Inr smp :: VaultError + _, s1)" "lock_live E (snd smp) s1 = (Inr (), s2)"
    "clock_wall E clock s2 = (Inr now :: VaultError + _, s3)" "consume (vr_request_id request) s3 = (Inr (), s4)"
    "dispatch E wakes fuel caller (vr_application request) (vr_action request)
      (for_request caller (vr_application request) (vr_action request))
      (provenance_caller caller (vr_application request)) now clock s4 = (Inr body, s')"
  using assms unfolding handle_inner_def Let_def by (auto simp: res_simps)

section \<open>Reads that reach the client\<close>

lemma preserves_stry [preserves_intros]: "preserves I m \<Longrightarrow> preserves I (stry m)"
  by (auto simp: preserves_def stry_def split: prod.splits)

lemma preserves_fallible [preserves_intros]: "preserves I m \<Longrightarrow> preserves I (fallible m)"
  by (auto simp: preserves_def fallible_def split: prod.splits sum.splits)

text \<open>Invariants of the part of the state outside the store that an action keeps: it may only
  narrow the validity of the answer.\<close>

definition tame :: "('s ActionState_scheme \<Rightarrow> bool) \<Rightarrow> bool" where
  "tame I \<longleftrightarrow> check_stable I \<and> outside I"

lemma tameD: "tame I \<Longrightarrow> check_stable I" "tame I \<Longrightarrow> outside I" "tame I \<Longrightarrow> readable I" "tame I \<Longrightarrow> untimed I"
  by (simp_all add: tame_def check_stableD)

lemma tame_facts: "tame (tight d)" "tame (\<lambda>s. n \<le> sh_ticks s)"
  by (simp_all add: tame_def check_stable_tight outside_tight) (simp_all add: check_stable_def readable_def outside_def)

lemma preserves_store_calls [preserves_intros]:
  assumes "outside I"
  shows "preserves I (vs_get_with_deadline E k p a n)" "preserves I (vs_put_at E k p a v e prov n)"
    "preserves I (vs_delete E k p a prov n)" "preserves I (vs_clear E k p prov n)" "preserves I (vs_mutate E k p ops prov n)"
    "preserves I (vs_list_projects E cur l n)" "preserves I (vs_list_project_addresses E pr cur l n)"
    "preserves I (vs_list_history E k p ao before l)"
  using assms
  by (simp_all add: vs_get_with_deadline_def vs_put_at_def vs_delete_def vs_clear_def vs_mutate_def vs_list_projects_def
      vs_list_project_addresses_def vs_list_history_def preserves_store_call)

lemma preserves_registry [preserves_intros]:
  assumes "outside I"
  shows "preserves I (load_permission_registry (grant_store_ops E) C now)"
    "preserves I (write_registry (grant_store_ops E) C rg ops prov now)"
  using assms unfolding load_permission_registry_def write_registry_def grant_store_ops_def service_ops_def
  by (simp_all add: preserves_intros)

lemma preserves_require_consuming [preserves_intros]:
  assumes "outside I"
  shows "preserves I (require_grant_consuming E (grant_store_ops E) C caller q now prov)"
  unfolding require_grant_consuming_def consume_grant_def Let_def
  by (intro preserves_intros) (simp_all add: preserves_intros assms outside_readable [OF assms])

lemma preserves_mutations [preserves_intros]:
  assumes "tame I"
  shows "preserves I (prepare_mutation E x ns m)" "preserves I (prepare_mutations E x ns ms)"
proof -
  show *: "preserves I (prepare_mutation E x ns m)" for m
    by (cases m) (simp_all add: prepare_mutation_def preserves_intros tameD [OF assms])
  show "preserves I (prepare_mutations E x ns ms)"
    by (induction ms) (simp_all only: prepare_mutations.simps preserves_intros *)
qed

lemma preserves_read_secret [preserves_intros]: "tame I \<Longrightarrow> preserves I (read_secret E x ns a)"
  by (simp add: read_secret_def preserves_intros tameD)

lemma preserves_case_sum [preserves_intros]:
  "(\<And>e. preserves I (f e)) \<Longrightarrow> (\<And>x. preserves I (g x)) \<Longrightarrow> preserves I (case r of Inl e \<Rightarrow> f e | Inr x \<Rightarrow> g x)"
  by (cases r) simp_all

lemma preserves_history [preserves_intros]:
  assumes "tame I"
  shows "preserves I (redact_history E x es)" "preserves I (action_list_history E x ns a b l)"
    "preserves I (local_history E x ns wa b l)" "preserves I (project_history E x pr sa b l)"
  by (simp_all add: redact_history_def action_list_history_def local_history_def project_history_def preserves_intros
      tameD [OF assms])

lemma preserves_execute_action [preserves_intros]:
  assumes "tame I"
  shows "preserves I (execute_action E caller action ld provenance base_dir clock)"
proof -
  have seal: "preserves I (smodify vs_seal)" by (rule preserves_seal [OF tameD(3) [OF assms]])
  show ?thesis
    unfolding execute_action_def Let_def refreshing_def get_def get_secret_spec_def put_def put_secret_spec_def delete_def
      delete_secret_spec_def clear_def mutate_def write_secret_def remove_secret_def seal_vault_def action_list_projects_def
      action_list_project_addresses_def
    by (cases action) (simp_all add: preserves_intros tameD [OF assms] assms seal)
qed

lemma authorized_read_kept:
  assumes "authorized_read E M D caller q a v s" and "\<And>d. tight d s \<Longrightarrow> tight d s'"
  shows "authorized_read E M D caller q a v s'"
  using assms unfolding authorized_read_def by blast

definition stays :: "(ServiceState, 'e, 'a) action \<Rightarrow> bool" where
  "stays m \<longleftrightarrow> (\<forall>I. steady I \<longrightarrow> preserves I m)"

lemma staysD: "stays m \<Longrightarrow> steady I \<Longrightarrow> preserves I m"
  unfolding stays_def by blast

lemma stays_keeps:
  assumes "stays m" and "m s = (r, s')"
  shows "tight d s \<Longrightarrow> tight d s'" "same_docs s s'" "sh_ticks s \<le> sh_ticks s'"
    by (rule preservesD [OF staysD [OF assms(1) steady_facts(1)] assms(2)], assumption)
      (rule preserves_same_docs [OF staysD [OF assms(1) steady_facts(2)] assms(2)],
       rule preservesD [OF staysD [OF assms(1) steady_facts(3)] assms(2) order_refl])

lemma stays_steps:
  "stays (clock_sample E c)" "stays (clock_wall E c)" "stays (lock_live E t)" "stays (check_live E t)" "stays (touch E smp)"
  "stays (check_and_touch E c)" "stays (sample_and_touch E c)" "stays (consume ident)" "stays (check_valid_until E c)"
  by (simp_all add: stays_def preserves_intros steadyD)

lemma stry_step [simp]: "m s = (r, s') \<Longrightarrow> stry m s = (Inr r, s')"
  by (simp add: stry_def)

lemma ask_approval_fails: "ask_approval E candidate now s \<noteq> (Inr x, s')"
  by (auto simp: ask_approval_def res_simps)

lemma other_action_ok:
  assumes "other_action E caller application action approval provenance now clock s = (Inr body, s')"
  obtains r s1 where "execute_action E caller action (lease_deadlines s) provenance
      (case application of None \<Rightarrow> None | Some c \<Rightarrow> ac_base_dir c) clock s = (Inr (body, r), s1)"
    "if r then \<exists>n. check_and_touch E clock s1 = (Inr n, s') else s' = s1"
proof -
  obtain x s1 where x: "execute_action E caller action (lease_deadlines s) provenance
      (case application of None \<Rightarrow> None | Some c \<Rightarrow> ac_base_dir c) clock s = (x, s1)" by fastforce
  with assms show thesis
    by (cases x) (auto simp: other_action_def ask_approval_fails res_simps that split: if_splits option.splits)
qed

lemma other_action_read:
  assumes "grants_are E V s M"
    and "other_action E caller application action approval provenance now clock s = (Inr (SecretBody (Some v)), s')"
  shows "\<exists>q kind part a. read_requirement application action = Some (q, kind, part, a) \<and>
    (\<forall>D. handle_holds E V kind part s D \<longrightarrow> authorized_read E M D caller q a v s') \<and> sh_ticks s \<le> sh_ticks s'"
proof -
  from assms(2) obtain r s1 where x: "execute_action E caller action (lease_deadlines s) provenance
      (case application of None \<Rightarrow> None | Some c \<Rightarrow> ac_base_dir c) clock s = (Inr (SecretBody (Some v), r), s1)"
    and t: "if r then \<exists>n. check_and_touch E clock s1 = (Inr n, s') else s' = s1"
    by (rule other_action_ok)
  have "tight d s1 \<Longrightarrow> tight d s'" for d
    using t stays_keeps(1) [OF stays_steps(6)] by (auto split: if_splits)
  moreover have "sh_ticks s \<le> sh_ticks s1"
    by (rule preservesD [OF preserves_execute_action [OF tame_facts(2)] x order_refl])
  then have "sh_ticks s \<le> sh_ticks s'"
    using t stays_keeps(3) [OF stays_steps(6)] order_trans by (fastforce split: if_splits)
  ultimately show ?thesis using execute_action_read [OF assms(1) x] by (blast intro: authorized_read_kept)
qed

definition granted_live ::
  "('d, 'r, 'i, 'z) service_env_scheme \<Rightarrow> entries \<Rightarrow> CallerIdentity \<Rightarrow> GrantRequirement \<Rightarrow> u64 \<Rightarrow> bool" where
  "granted_live E M caller q wall \<longleftrightarrow> (\<exists>now e. granted_until E M caller q now e \<and> live wall e)"

definition released ::
  "('d, 'r, 'i, 'z) service_env_scheme \<Rightarrow> entries \<Rightarrow> entries \<Rightarrow> CallerIdentity \<Rightarrow> GrantRequirement \<Rightarrow> SecretAddress
     \<Rightarrow> bytes \<Rightarrow> u64 \<Rightarrow> bool" where
  "released E M D caller q a v wall \<longleftrightarrow> granted_live E M caller q wall \<and>
     (\<exists>e. D (storage_key E a) = Some (a, v, e) \<and> live wall e)"

definition wall_at :: "('d, 'r, 'i, 'z) clocked_env_scheme \<Rightarrow> RequestTime \<Rightarrow> nat \<Rightarrow> u64" where
  "wall_at E clock i = fst (sample_at clock (instants E i) (system_times E (Suc i)) (instants E i))"

lemma tight_live:
  assumes "check_valid_until E clock s = (Inr u, s')" and "tight d s"
  shows "live (wall_at E clock (sh_ticks s)) d"
  using check_valid_until_ok(1) [OF assms(1)] assms(2)
  by (auto simp: tight_def live_def time_check_def wall_at_def split: option.splits if_splits)

lemma authorized_released:
  assumes "check_valid_until E clock s = (Inr u, s')" and "authorized_read E M D caller q a v s"
  shows "released E M D caller q a v (wall_at E clock (sh_ticks s))"
  using assms(2) tight_live [OF assms(1)] unfolding authorized_read_def released_def granted_live_def by blast

definition granted_tight ::
  "('d, 'r, 'i, 'z) service_env_scheme \<Rightarrow> entries \<Rightarrow> CallerIdentity \<Rightarrow> GrantRequirement \<Rightarrow> 's ActionState_scheme \<Rightarrow> bool" where
  "granted_tight E M caller q s \<longleftrightarrow> (\<exists>now e. granted_until E M caller q now e \<and> tight e s)"

lemma granted_tight_kept:
  assumes "granted_tight E M caller q s" and "\<And>d. tight d s \<Longrightarrow> tight d s'"
  shows "granted_tight E M caller q s'"
  using assms unfolding granted_tight_def by blast

lemma granted_tight_live:
  assumes "check_valid_until E clock s = (Inr u, s')" and "granted_tight E M caller q s"
  shows "granted_live E M caller q (wall_at E clock (sh_ticks s))"
  using assms(2) tight_live [OF assms(1)] unfolding granted_tight_def granted_live_def by blast

text \<open>A grant looked up at the start of a handler, and the validity of the answer narrowed to it.\<close>

lemma checked_grant:
  assumes "grants_are E V s M" and "require_grant_until E (grant_store_ops E) (codecs E) caller q now s = (Inr e, s1)"
    and "tighten_until e s1 = (Inr u, s2)"
  shows "granted_tight E M caller q s2" "same_docs s s2" "grants_are E V s2 M" "\<And>d. tight d s \<Longrightarrow> tight d s2"
    "sh_ticks s \<le> sh_ticks s2"
proof -
  have s2: "s2 = s1\<lparr>as_valid_until := tighten (as_valid_until s1) e\<rparr>" using assms(3) by (simp add: tighten_until_def)
  show "granted_tight E M caller q s2"
    using require_grant_until_granted [OF assms(1,2)] tighten_tight [OF assms(3)] unfolding granted_tight_def by blast
  show d: "same_docs s s2" using require_same_docs(3) [OF assms(2)] s2 by (simp add: same_docs_def)
  then show "grants_are E V s2 M" using assms(1) by (rule same_docs_holds)
  fix d
  assume "tight d s"
  then have "tight d s1"
    using assms(2) preservesD [OF preserves_require_grant_until [OF check_stableD(1) [OF check_stable_tight]]] by metis
  then show "tight d s2" unfolding s2 using check_stable_tight by (auto simp: check_stable_def)
next
  show "sh_ticks s \<le> sh_ticks s2"
    using preservesD [OF preserves_require_grant_until [OF tameD(3) [OF tame_facts(2)]] assms(2) order_refl] assms(3)
    by (auto simp: tighten_until_def)
qed

lemma checked_valid:
  assumes "check_valid_until E clock s = (Inr u, s')"
  shows "same_docs s s'" "tight d s \<Longrightarrow> tight d s'" "sh_ticks s \<le> sh_ticks s'"
  unfolding check_valid_until_ok(2) [OF assms] by (auto simp: same_docs_def tight_def split: option.splits)

lemma keyring_access_ok:
  assumes "keyring_access E wakes fuel caller entry sender service operation action pending now clock s = (Inr body, s')"
    and "\<And>status. body \<noteq> PermissionWaitBody status"
  obtains e s1 s2 s3 peer base e' s4 s5 s6 act r s7 s8 where
    "require_grant_until E (grant_store_ops E) (codecs E) caller bridge_requirement now s = (Inr e, s1)"
    "tighten_until e s1 = (Inr () :: RequestFailure + _, s2)" "check_valid_until E clock s2 = (Inr (), s3)"
    "keyring_peer E sender = Inr (peer, base)" "pending = None" "action = Some act"
    "require_grant_until E (grant_store_ops E) (codecs E) peer
      (keyring_requirement (for_keyring peer service entry base operation)) now s3 = (Inr e', s4)"
    "tighten_until e' s4 = (Inr () :: RequestFailure + _, s5)" "check_valid_until E clock s5 = (Inr (), s6)"
    "execute_action E caller act (lease_deadlines s6) (provenance_caller peer None) None clock s6 = (Inr (body, r), s7)"
    "check_valid_until E clock s7 = (Inr (), s8)" "if r then sample_and_touch E clock s8 = (Inr (), s') else s' = s8"
proof -
  from assms obtain e s1 s2 s3 u peer base where
    b: "require_grant_until E (grant_store_ops E) (codecs E) caller bridge_requirement now s = (Inr e, s1)"
      "tighten_until e s1 = (Inr u :: RequestFailure + _, s2)" "check_valid_until E clock s2 = (Inr (), s3)"
      "keyring_peer E sender = Inr (peer, base)" and p: "pending = None"
    and rest: "(let candidate = for_keyring peer service entry base operation in
         sbind (stry (require_keyring E (grant_store_ops E) (codecs E) candidate now)) (\<lambda>found.
         case found of
           Inl error \<Rightarrow>
             if error = AuthorizationRequired then ask_approval E candidate now
             else slift (Inl (Failed error None))
         | Inr deadline \<Rightarrow>
             sbind (tighten_until deadline) (\<lambda>_.
             sbind (fallible (check_valid_until E clock)) (\<lambda>_.
             case action of
               None \<Rightarrow> sret (PermissionWaitBody WaitGranted)
             | Some action \<Rightarrow>
                 sbind (sget lease_deadlines) (\<lambda>deadlines.
                 sbind (fallible (execute_action E caller action deadlines (provenance_caller peer None) None clock)) (\<lambda>(body, refresh).
                 sbind (fallible (check_valid_until E clock)) (\<lambda>_.
                 sbind (if refresh then fallible (sample_and_touch E clock) else sret ()) (\<lambda>_.
                 sret body)))))))) s3 = (Inr body, s')"
    unfolding keyring_access_def by (cases pending) (auto simp: res_simps)
  define c where "c = for_keyring peer service entry base operation"
  have c: "cd_caller c = peer" by (simp add: c_def for_keyring_def split: prod.splits)
  define tail where "tail action =
      sbind (sget lease_deadlines) (\<lambda>deadlines.
      sbind (fallible (execute_action E caller action deadlines (provenance_caller peer None) None clock)) (\<lambda>(body, refresh).
      sbind (fallible (check_valid_until E clock)) (\<lambda>_.
      sbind (if refresh then fallible (sample_and_touch E clock) else sret ()) (\<lambda>_.
      sret body))))" for action
  obtain found s4 where found: "require_grant_until E (grant_store_ops E) (codecs E) peer (keyring_requirement c) now s3 = (found, s4)"
    by fastforce
  with rest assms(2) obtain e' s5 s6 act where
    k: "found = Inr e'" "tighten_until e' s4 = (Inr () :: RequestFailure + _, s5)" "check_valid_until E clock s5 = (Inr (), s6)"
      "action = Some act" "tail act s6 = (Inr body, s')"
    unfolding c_def [symmetric] Let_def require_keyring_def c tail_def [symmetric]
    by (cases found) (auto simp: ask_approval_fails res_simps split: if_splits option.splits)
  from k(5) obtain r s7 s8 where
    x: "execute_action E caller act (lease_deadlines s6) (provenance_caller peer None) None clock s6 = (Inr (body, r), s7)"
      "check_valid_until E clock s7 = (Inr (), s8)" and t: "if r then sample_and_touch E clock s8 = (Inr (), s') else s' = s8"
    by (auto simp: tail_def res_simps split: if_splits)
  show thesis using that [OF b(1) _ b(3,4) p k(4) found [unfolded k(1) c_def] k(2,3) x t] b(2) by simp
qed

lemma keyring_access_read:
  assumes "grants_are E V s M"
    and "keyring_access E wakes fuel caller entry sender service operation action pending now clock s =
      (Inr (SecretBody (Some v)), s')"
  shows "\<exists>act peer base q kind part a. action = Some act \<and> pending = None \<and> keyring_peer E sender = Inr (peer, base) \<and>
    granted_tight E M caller bridge_requirement s' \<and>
    granted_tight E M peer (keyring_requirement (for_keyring peer service entry base operation)) s' \<and>
    read_requirement None act = Some (q, kind, part, a) \<and>
    (\<forall>D. handle_holds E V kind part s D \<longrightarrow> authorized_read E M D caller q a v s') \<and> sh_ticks s \<le> sh_ticks s'"
proof -
  from assms(2) obtain e s1 s2 s3 peer base e' s4 s5 s6 act r s7 s8 where
    b: "require_grant_until E (grant_store_ops E) (codecs E) caller bridge_requirement now s = (Inr e, s1)"
      "tighten_until e s1 = (Inr () :: RequestFailure + _, s2)" "check_valid_until E clock s2 = (Inr (), s3)"
      "keyring_peer E sender = Inr (peer, base)" and p: "pending = None"
    and k: "require_grant_until E (grant_store_ops E) (codecs E) peer
        (keyring_requirement (for_keyring peer service entry base operation)) now s3 = (Inr e', s4)"
      "tighten_until e' s4 = (Inr () :: RequestFailure + _, s5)" "check_valid_until E clock s5 = (Inr (), s6)"
      "action = Some act"
    and x: "execute_action E caller act (lease_deadlines s6) (provenance_caller peer None) None clock s6 =
        (Inr (SecretBody (Some v), r), s7)" "check_valid_until E clock s7 = (Inr (), s8)"
    and t: "if r then sample_and_touch E clock s8 = (Inr (), s') else s' = s8"
    by (rule keyring_access_ok) auto
  note one = checked_grant [OF assms(1) b(1,2)]
  have g3: "grants_are E V s3 M" by (rule same_docs_holds [OF checked_valid(1) [OF b(3)] one(3)])
  note two = checked_grant [OF g3 k(1,2)]
  have docs: "same_docs s s6"
    using one(2) checked_valid(1) [OF b(3)] two(2) checked_valid(1) [OF k(3)] same_docs_trans by blast
  have late: "tight d s8 \<Longrightarrow> tight d s'" for d
    using t stays_keeps(1) [OF stays_steps(7)] by (auto split: if_splits)
  have "tight d s6 \<Longrightarrow> tight d s7" for d
    by (rule preservesD [OF preserves_execute_action [OF tame_facts(1)] x(1)])
  then have after: "tight d s6 \<Longrightarrow> tight d s'" for d using checked_valid(2) [OF x(2)] late by blast
  have bridge: "granted_tight E M caller bridge_requirement s'"
    using one(1) by (rule granted_tight_kept) (use checked_valid(2) [OF b(3)] two(4) checked_valid(2) [OF k(3)] after in blast)
  have peer: "granted_tight E M peer (keyring_requirement (for_keyring peer service entry base operation)) s'"
    using two(1) by (rule granted_tight_kept) (use checked_valid(2) [OF k(3)] after in blast)
  obtain q kind part a where q: "read_requirement None act = Some (q, kind, part, a)"
      "\<And>D. handle_holds E V kind part s6 D \<Longrightarrow> authorized_read E M D caller q a v s7"
    using execute_action_read [OF same_docs_holds [OF docs assms(1)] x(1), where application = None] by auto
  have read: "authorized_read E M D caller q a v s'" if "handle_holds E V kind part s D" for D
    using q(2) [OF same_docs_holds [OF docs that]]
    by (rule authorized_read_kept) (use checked_valid(2) [OF x(2)] late in blast)
  have "sh_ticks s6 \<le> sh_ticks s7"
    by (rule preservesD [OF preserves_execute_action [OF tame_facts(2)] x(1) order_refl])
  moreover have "sh_ticks s8 \<le> sh_ticks s'"
    using t stays_keeps(3) [OF stays_steps(7)] by (auto split: if_splits)
  ultimately have "sh_ticks s \<le> sh_ticks s'"
    using one(5) checked_valid(3) [OF b(3)] two(5) checked_valid(3) [OF k(3)] checked_valid(3) [OF x(2)] by linarith
  with bridge peer read show ?thesis using p b(4) k(4) q(1) by blast
qed

lemmas handler_defs = export_revision_def inventory_def export_entry_def write_cache_from_dialog_def
  authorize_secret_input_def list_permission_page_def wait_permissions_def wait_permission_def
  deny_permission_request_def approve_permission_request_def revoke_permission_request_def

lemma import_entry_body:
  "import_entry E caller entry v evict_at replace_existing provenance now clock s = (Inr body, s') \<Longrightarrow>
     \<exists>status. body = VaultEntryImportedBody status"
  by (auto simp: import_entry_def res_simps split: if_splits)

lemma permission_page_body: "permission_page J revision ps cursor = Inr body \<Longrightarrow> \<exists>page c. body = PermissionsBody revision page c"
  by (auto simp: permission_page_def res_simps)

text \<open>The action whose answer carries the secret: the desktop keyring bridge wraps it.\<close>

definition read_action :: "VaultRequest \<Rightarrow> VaultApplicationContext option \<times> VaultAction" where
  "read_action request = (case vr_action request of
      KeyringAccessAction _ _ _ _ (Some action) _ \<Rightarrow> (None, action)
    | action \<Rightarrow> (vr_application request, action))"

definition bridged_read ::
  "('d, 'r, 'i, 'z) service_env_scheme \<Rightarrow> entries \<Rightarrow> CallerIdentity \<Rightarrow> VaultAction \<Rightarrow> (CallerIdentity \<Rightarrow> GrantRequirement \<Rightarrow> bool)
     \<Rightarrow> bool" where
  "bridged_read E M caller action granted = (case action of
      KeyringAccessAction entry sender service operation _ pending \<Rightarrow> pending = None \<and>
        (\<exists>peer base. keyring_peer E sender = Inr (peer, base) \<and> granted caller bridge_requirement \<and>
           granted peer (keyring_requirement (for_keyring peer service entry base operation)))
    | _ \<Rightarrow> True)"

lemma dispatch_read:
  assumes "grants_are E V s M"
    and "dispatch E wakes fuel caller (vr_application request) (vr_action request) approval provenance now clock s =
      (Inr (SecretBody (Some v)), s')"
  shows "\<exists>q kind part a. case_prod read_requirement (read_action request) = Some (q, kind, part, a) \<and>
    bridged_read E M caller (vr_action request) (\<lambda>who q. granted_tight E M who q s') \<and>
    (\<forall>D. handle_holds E V kind part s D \<longrightarrow> authorized_read E M D caller q a v s') \<and> sh_ticks s \<le> sh_ticks s'"
proof (cases "vr_action request")
  case (KeyringAccessAction entry sender service operation action pending)
  with assms(2) keyring_access_read [OF assms(1), of wakes fuel caller entry sender service operation action pending now clock]
  show ?thesis by (fastforce simp: dispatch_def read_action_def bridged_read_def)
qed (use assms(2) other_action_read [OF assms(1), of caller "vr_application request" "vr_action request" approval provenance now clock v s']
  in \<open>auto simp: dispatch_def handler_defs res_simps read_action_def bridged_read_def
    dest: import_entry_body permission_page_body\<close>)

lemma bridged_read_mono:
  assumes "bridged_read E M caller action granted" and "\<And>who q. granted who q \<Longrightarrow> granted' who q"
  shows "bridged_read E M caller action granted'"
  using assms by (cases action) (auto simp: bridged_read_def)

lemma inner_before_dispatch:
  assumes "clock_sample E clock s = (Inr smp :: VaultError + _, s1)" and "lock_live E t s1 = (Inr (), s2)"
    and "clock_wall E clock s2 = (Inr now :: VaultError + _, s3)" and "consume ident s3 = (Inr (), s4)"
  shows "same_docs s s4" "sh_ticks s \<le> sh_ticks s4"
  using stays_keeps(2,3) [OF stays_steps(1) assms(1)] stays_keeps(2,3) [OF stays_steps(3) assms(2)]
    stays_keeps(2,3) [OF stays_steps(2) assms(3)] stays_keeps(2,3) [OF stays_steps(8) assms(4)]
  by (auto simp: same_docs_def)

text \<open>Computing the delivery deadline reads the clock only when the answer has a deadline.\<close>

lemma delivery_deadline_reads:
  assumes "delivery_deadline E clock (Inr body) s = (d, s')" and "body \<noteq> SealedBody"
  shows "s' = s\<lparr>sh_ticks := sh_ticks s + (if as_valid_until s = None then 0 else 2)\<rparr>"
  using assms by (auto simp: delivery_deadline_def clock_deadline_def instant_now_def system_now_def sbind_def split: option.splits)

text \<open>The reading \<open>i\<close> of the clock is the one of the final check: the two clocks of that check and, when the answer has
  a deadline, the two of the delivery deadline are the only ones read from it on.\<close>

definition final_reading :: "nat \<Rightarrow> 's ActionState_scheme \<Rightarrow> bool" where
  "final_reading i s \<longleftrightarrow> sh_ticks s = i + (if as_valid_until s = None then 2 else 4)"

lemma final_reading:
  assumes "check_valid_until E clock s = (Inr u, s1)" and "delivery_deadline E clock (Inr body) s1 = (d, s')"
    and "body \<noteq> SealedBody"
  shows "final_reading (sh_ticks s) s'"
  using check_valid_until_ok(2) [OF assms(1)] delivery_deadline_reads [OF assms(2,3)] by (simp add: final_reading_def)

lemma handle_at_read:
  assumes "grants_are E V s M" and "handle_at E wakes fuel caller request now t s = (Some r, s')"
    and "rs_result r = Inr (SecretBody (Some v))"
  shows "\<exists>i q kind part a. sh_ticks s \<le> i \<and> final_reading i s' \<and> case_prod read_requirement (read_action request) = Some (q, kind, part, a) \<and>
    bridged_read E M caller (vr_action request)
      (\<lambda>who q. granted_live E M who q (wall_at E (request_clock E now t s) i)) \<and>
    (\<forall>D. handle_holds E V kind part s D \<longrightarrow> released E M D caller q a v (wall_at E (request_clock E now t s) i))"
proof -
  let ?clock = "request_clock E now t s"
  from assms(2,3) obtain s1 smp s2 s3 s4 d where inner: "handle_inner E wakes fuel caller request ?clock (entered s) = (Inr (SecretBody (Some v)), s1)"
    and tail: "clock_sample E ?clock s1 = (Inr smp :: VaultError + _, s2)" "check_live E (snd smp) s2 = (Inr (), s3)"
      "check_valid_until E ?clock s3 = (Inr (), s4)" "delivery_deadline E ?clock (Inr (SecretBody (Some v))) s4 = (d, s')"
    by (rule handle_at_ok) simp
  from inner obtain smp0 t1 t2 now' t3 t4 where pre: "clock_sample E ?clock (entered s) = (Inr smp0 :: VaultError + _, t1)"
      "lock_live E (snd smp0) t1 = (Inr (), t2)" "clock_wall E ?clock t2 = (Inr now' :: VaultError + _, t3)"
      "consume (vr_request_id request) t3 = (Inr (), t4)"
    and d: "dispatch E wakes fuel caller (vr_application request) (vr_action request)
      (for_request caller (vr_application request) (vr_action request))
      (provenance_caller caller (vr_application request)) now' ?clock t4 = (Inr (SecretBody (Some v)), s1)"
    by (rule handle_inner_ok)
  note before = inner_before_dispatch [OF pre]
  have docs: "same_docs s t4" using before(1) by (simp add: same_docs_def entered_def)
  from dispatch_read [OF same_docs_holds [OF docs assms(1)] d] obtain q kind part a where
    q: "case_prod read_requirement (read_action request) = Some (q, kind, part, a)"
      "bridged_read E M caller (vr_action request) (\<lambda>who q. granted_tight E M who q s1)"
      "\<And>D. handle_holds E V kind part t4 D \<Longrightarrow> authorized_read E M D caller q a v s1" "sh_ticks t4 \<le> sh_ticks s1" by blast
  have tight: "tight d s1 \<Longrightarrow> tight d s3" for d
    using stays_keeps(1) [OF stays_steps(1) tail(1)] stays_keeps(1) [OF stays_steps(4) tail(2)] by blast
  have "sh_ticks s \<le> sh_ticks s3"
    using stays_keeps(3) [OF stays_steps(1) tail(1)] stays_keeps(3) [OF stays_steps(4) tail(2)] q(4) before(2)
    by (simp add: entered_def)
  moreover have "bridged_read E M caller (vr_action request) (\<lambda>who q. granted_live E M who q (wall_at E ?clock (sh_ticks s3)))"
    using q(2) by (rule bridged_read_mono) (blast intro: granted_tight_live [OF tail(3)] granted_tight_kept tight)
  moreover have "released E M D caller q a v (wall_at E ?clock (sh_ticks s3))" if "handle_holds E V kind part s D" for D
    by (rule authorized_released [OF tail(3)], rule authorized_read_kept [OF q(3)])
      (rule same_docs_holds [OF docs that], rule tight)
  moreover have "final_reading (sh_ticks s3) s'" by (rule final_reading [OF tail(3,4)]) simp
  ultimately show ?thesis using q(1) by blast
qed

end
