(* ===== verification/Refusal_Laws.thy ===== *)
theory Refusal_Laws
  imports Request_Laws
begin

text \<open>Requests without the grant they need: which grant each action of wire.rs needs first, and that the
  service answers such a request with an error, without a change to a document.\<close>

definition permitted ::
  "('d, 'r, 'i, 'z) service_env_scheme \<Rightarrow> entries \<Rightarrow> CallerIdentity \<Rightarrow> GrantRequirement \<Rightarrow> u64 \<Rightarrow> bool" where
  "permitted E M caller q now \<longleftrightarrow> (\<exists>t\<in>set (requirement_targets q). \<exists>g.
     usable E (codecs E) M now (fingerprint E caller) (grant_target_digest E t) (gq_permission q) g)"

lemma granted_permitted: "granted_until E M caller q now e \<Longrightarrow> permitted E M caller q now"
  unfolding granted_until_def permitted_def by blast

definition local_requirement ::
  "DocumentKind \<Rightarrow> bytes \<Rightarrow> SecretAddress option \<Rightarrow> GrantPermission \<Rightarrow> GrantRequirement" where
  "local_requirement kind namespace address permission = \<lparr>gq_scope = kind, gq_namespace = Some namespace,
     gq_address = address, gq_project = None, gq_base_dir = None, gq_permission = permission\<rparr>"

definition mutation_requirement :: "bytes \<Rightarrow> VaultMutation \<Rightarrow> GrantRequirement" where
  "mutation_requirement namespace m = (case m of
      CheckMutation a _ \<Rightarrow> local_requirement (namespace_scope namespace) namespace (Some (Local (wa_item a) (wa_field a))) GGet
    | PutMutation a _ _ \<Rightarrow> local_requirement (namespace_scope namespace) namespace (Some (Local (wa_item a) (wa_field a))) GPut
    | DeleteMutation a \<Rightarrow> local_requirement (namespace_scope namespace) namespace (Some (Local (wa_item a) (wa_field a))) GDelete)"

text \<open>The grant an action needs first.  Only the status and the outcome of an own approval request are
  available without one; a batch needs the grant of each of its mutations, in order.\<close>

definition required_grant :: "VaultApplicationContext option \<Rightarrow> VaultAction \<Rightarrow> GrantRequirement option" where
  "required_grant application action =
     (let base_dir = (case application of None \<Rightarrow> None | Some c \<Rightarrow> ac_base_dir c);
          in_project = (\<lambda>kind project address permission.
            \<lparr>gq_scope = kind, gq_namespace = Some project, gq_address = address, gq_project = Some project,
             gq_base_dir = base_dir, gq_permission = permission\<rparr>);
          at = (\<lambda>a. Some (Local (wa_item a) (wa_field a))) in
      case action of
        StatusAction \<Rightarrow> None
      | WaitPermissionAction _ _ \<Rightarrow> None
      | GetAction n a \<Rightarrow> Some (local_requirement (namespace_scope n) n (at a) GGet)
      | PutAction n a _ _ \<Rightarrow> Some (local_requirement (namespace_scope n) n (at a) GPut)
      | MutateAction n ms \<Rightarrow> (case ms of [] \<Rightarrow> None | m # _ \<Rightarrow> Some (mutation_requirement n m))
      | DeleteAction n a \<Rightarrow> Some (local_requirement (namespace_scope n) n (at a) GDelete)
      | ClearAction n \<Rightarrow> Some (local_requirement (namespace_scope n) n None GClear)
      | SealAction n \<Rightarrow> Some (local_requirement (namespace_scope n) n None GSeal)
      | ListHistoryAction n _ _ _ \<Rightarrow> Some (local_requirement (namespace_scope n) n None GList)
      | ClearCacheAction p \<Rightarrow> Some (local_requirement SecretSpecProviderCache p None GClear)
      | SealCacheAction p \<Rightarrow> Some (local_requirement SecretSpecProviderCache p None GSeal)
      | GetProjectAction p a \<Rightarrow> Some (in_project SecretSpecProject p (Some (SecretSpec a)) GGet)
      | GetCacheAction p a \<Rightarrow> Some (in_project SecretSpecProviderCache p (Some (SecretSpec a)) GGet)
      | PutProjectAction p a _ \<Rightarrow> Some (in_project SecretSpecProject p (Some (SecretSpec a)) GPut)
      | PutCacheAction p a _ _ \<Rightarrow> Some (in_project SecretSpecProviderCache p (Some (SecretSpec a)) GPut)
      | DeleteProjectAction p a \<Rightarrow> Some (in_project SecretSpecProject p (Some (SecretSpec a)) GDelete)
      | DeleteCacheAction p a \<Rightarrow> Some (in_project SecretSpecProviderCache p (Some (SecretSpec a)) GDelete)
      | ListProjectsAction _ _ \<Rightarrow> Some \<lparr>gq_scope = SecretSpecProject, gq_namespace = None, gq_address = None,
          gq_project = None, gq_base_dir = None, gq_permission = GList\<rparr>
      | ListProjectAddressesAction p _ _ \<Rightarrow> Some (in_project SecretSpecProject p None GList)
      | ListProjectHistoryAction p _ _ _ \<Rightarrow> Some (in_project SecretSpecProject p None GList)
      | ListCacheHistoryAction p _ _ _ \<Rightarrow> Some (in_project SecretSpecProviderCache p None GList)
      | AuthorizeSecretInputAction _ \<Rightarrow> Some bridge_requirement
      | KeyringAccessAction _ _ _ _ _ _ \<Rightarrow> Some bridge_requirement
      | _ \<Rightarrow> Some manager_requirement)"

section \<open>Refusing computations\<close>

definition refuses ::
  "('d, 'r, 'i, 'z) service_env_scheme \<Rightarrow> ('d \<Rightarrow> am_view) \<Rightarrow> entries \<Rightarrow> ('s StoreHandle_scheme, 'e, 'a) action \<Rightarrow> bool" where
  "refuses E V M m \<longleftrightarrow> (\<forall>s r s'. grants_are E V s M \<longrightarrow> m s = (r, s') \<longrightarrow> \<not> is_ok r \<and> same_docs s s')"

lemma refusesD: "refuses E V M m \<Longrightarrow> grants_are E V s M \<Longrightarrow> m s = (r, s') \<Longrightarrow> \<not> is_ok r \<and> same_docs s s'"
  unfolding refuses_def by blast

definition reader :: "('s StoreHandle_scheme, 'e, 'a) action \<Rightarrow> bool" where
  "reader m \<longleftrightarrow> (\<forall>s r s'. m s = (r, s') \<longrightarrow> same_docs s s')"

lemma readerI: "(\<And>db v. preserves (docs_are db v) m) \<Longrightarrow> reader m"
  unfolding reader_def using preserves_same_docs by blast

lemma reader_intros:
  "reader (slift r)" "reader (sget f)" "reader (clock_wall E c)" "reader (check_valid_until E c)"
  by (rule readerI, simp add: preserves_intros readable_untimed readable_docs)+

lemma refuses_sbind: "refuses E V M m \<Longrightarrow> refuses E V M (sbind m f)"
  unfolding refuses_def by (auto simp: sbind_def is_ok_def split: sum.splits prod.splits)

lemma refuses_after:
  assumes "reader m" and "\<And>x. refuses E V M (f x)"
  shows "refuses E V M (sbind m f)"
  unfolding refuses_def
proof (intro allI impI)
  fix s r s'
  assume g: "grants_are E V s M" and run: "sbind m f s = (r, s')"
  obtain q t where m: "m s = (q, t)" by fastforce
  have t: "same_docs s t" using assms(1) m by (auto simp: reader_def)
  show "\<not> is_ok r \<and> same_docs s s'"
  proof (cases q)
    case (Inr x)
    then have "f x t = (r, s')" using run m by simp
    then show ?thesis using assms(2) same_docs_holds [OF t g] same_docs_trans [OF t] unfolding refuses_def by blast
  qed (use run m t in auto)
qed

lemma refuses_slift: "(\<And>x. r = Inr x \<Longrightarrow> refuses E V M (f x)) \<Longrightarrow> refuses E V M (sbind (slift r) f)"
  by (cases r) (auto simp: refuses_def slift_def sbind_def)

lemma refuses_fallible: "refuses E V M m \<Longrightarrow> refuses E V M (fallible m)"
  unfolding refuses_def by (auto simp: fallible_def is_ok_def split: sum.splits prod.splits)

lemma refuses_until:
  assumes "\<forall>now. \<not> permitted E M caller q now"
  shows "refuses E V M (require_grant_until E (grant_store_ops E) (codecs E) caller q now)"
  unfolding refuses_def
proof (intro allI impI)
  fix s r s'
  assume g: "grants_are E V s M" and run: "require_grant_until E (grant_store_ops E) (codecs E) caller q now s = (r, s')"
  show "\<not> is_ok r \<and> same_docs s s'"
    using assms require_same_docs(3) [OF run] require_grant_until_granted [OF g] granted_permitted run
    by (cases r) fastforce+
qed

lemma refuses_require:
  assumes "\<forall>now. \<not> permitted E M (ax_caller x) q now"
  shows "refuses E V M (require_requirement E x q)"
  unfolding require_requirement_def
  by (intro refuses_after reader_intros refuses_sbind refuses_until assms)

lemma refuses_manager:
  assumes "\<forall>now. \<not> permitted E M caller manager_requirement now"
  shows "refuses E V M (require_live_manager E caller clock)"
  unfolding require_live_manager_def manager_deadline_def
  by (intro refuses_after reader_intros refuses_sbind refuses_until assms)

lemma refuses_consuming:
  assumes "\<forall>now. \<not> permitted E M caller q now"
  shows "refuses E V M (require_grant_consuming E (grant_store_ops E) (codecs E) caller q now provenance)"
  unfolding refuses_def
proof (intro allI impI)
  fix s r s'
  assume g: "grants_are E V s M"
    and run: "require_grant_consuming E (grant_store_ops E) (codecs E) caller q now provenance s = (r, s')"
  obtain f s1 where f: "find_grant E (grant_store_ops E) (codecs E) caller q now s = (f, s1)" by fastforce
  have docs: "same_docs s s1" using f by (rule preserves_same_docs [rotated]) (simp add: preserves_intros readable_docs)
  have "f = Inr NoGrant \<or> \<not> is_ok f"
  proof (cases f)
    case (Inr found)
    then have l: "lookup_grant E (codecs E) M caller q now = Inr found"
      using service_store.find_grant_ok [OF g] f unfolding grant_store_ops_def by blast
    then have "found = NoGrant"
      using assms lookup_reusable [of E "codecs E" M caller q now] lookup_single_use [of E "codecs E" M caller q now]
      by (cases found) (fastforce simp: permitted_def target_digests_def)+
    with Inr show ?thesis by simp
  qed simp
  then show "\<not> is_ok r \<and> same_docs s s'"
    using run f docs by (cases f) (auto simp: require_grant_consuming_def sbind_def)
qed

lemmas refusal_intros = refuses_require refuses_manager refuses_consuming refuses_until

text \<open>Every action needs the grant \<open>required_grant\<close> names before it touches a document.\<close>

lemma resolved_refused:
  assumes "\<forall>now. \<not> permitted E M (ax_caller x) (local_requirement (ax_scope x) namespace
      (Some (Local (wa_item a) (wa_field a))) p) now"
  shows "refuses E V M (sbind (slift (wire_address_resolve a)) (\<lambda>address.
      sbind (require E x namespace (Some address) p) (f address)))"
  by (intro refuses_slift refuses_sbind)
    (use assms in \<open>auto simp: require_def local_requirement_def dest!: wire_address_resolve_ok intro!: refuses_require\<close>)

lemma named_refused:
  assumes "\<forall>now. \<not> permitted E M (ax_caller x) (project_requirement x project (Some (SecretSpec a)) p) now"
  shows "refuses E V M (sbind (slift (address_secret_spec a)) (\<lambda>address.
      sbind (require_project E x project (Some address) p) (f address)))"
  by (intro refuses_slift refuses_sbind)
    (use assms in \<open>auto simp: require_project_def dest!: address_secret_spec_ok intro!: refuses_require\<close>)

lemma mutation_refused:
  assumes "\<forall>now. \<not> permitted E M (ax_caller x) (mutation_requirement namespace m) now" and "ax_scope x = namespace_scope namespace"
  shows "refuses E V M (prepare_mutation E x namespace m)"
  using assms by (cases m) (auto simp: prepare_mutation_def mutation_requirement_def intro!: resolved_refused)

lemma put_secret_spec_refused:
  assumes "\<forall>now. \<not> permitted E M (ax_caller x) (project_requirement x project (Some (SecretSpec a)) GPut) now"
  shows "refuses E V M (put_secret_spec E x project a v e)"
  unfolding put_secret_spec_def
proof (rule refuses_slift)
  fix address
  assume "address_secret_spec a = Inr address"
  then have "\<forall>now. \<not> permitted E M (ax_caller x) (project_requirement x project (Some address) GPut) now"
    using assms by (auto dest!: address_secret_spec_ok)
  then show "refuses E V M (sbind (clock_wall E (ax_clock x)) (\<lambda>now. sbind (slift (validate_evict_at e now)) (\<lambda>_.
      sbind (clock_wall E (ax_clock x)) (\<lambda>now.
      sbind (require_grant_consuming E (grant_store_ops E) (codecs E) (ax_caller x)
        (project_requirement x project (Some address) GPut) now (ax_provenance x)) (\<lambda>deadline.
      sbind (accept_deadline E x deadline) (\<lambda>_. write_secret E x project address v e))))))"
    by (rule refuses_after [OF reader_intros(3) refuses_slift [OF refuses_after [OF reader_intros(3)
          refuses_sbind [OF refuses_consuming]]]])
qed

lemma required_refused:
  assumes "\<forall>now. \<not> permitted E M (ax_caller x) (local_requirement (ax_scope x) namespace None p) now"
  shows "refuses E V M (require E x namespace None p)"
  using assms by (auto simp: require_def local_requirement_def intro!: refuses_require)

lemma project_refused:
  assumes "\<forall>now. \<not> permitted E M (ax_caller x) (project_requirement x project None p) now"
  shows "refuses E V M (require_project E x project None p)"
  using assms by (auto simp: require_project_def intro!: refuses_require)

lemma local_operations_refused:
  "\<forall>now. \<not> permitted E M (ax_caller x) (local_requirement (ax_scope x) n (Some (Local (wa_item a) (wa_field a))) GGet) now \<Longrightarrow>
     refuses E V M (get E x n a)"
  "\<forall>now. \<not> permitted E M (ax_caller x) (local_requirement (ax_scope x) n (Some (Local (wa_item a) (wa_field a))) GPut) now \<Longrightarrow>
     refuses E V M (put E x n a v e)"
  "\<forall>now. \<not> permitted E M (ax_caller x) (local_requirement (ax_scope x) n (Some (Local (wa_item a) (wa_field a))) GDelete) now \<Longrightarrow>
     refuses E V M (delete E x n a)"
  "\<forall>now. \<not> permitted E M (ax_caller x) (local_requirement (ax_scope x) n None GClear) now \<Longrightarrow> refuses E V M (clear E x n)"
  "\<forall>now. \<not> permitted E M (ax_caller x) (local_requirement (ax_scope x) n None GSeal) now \<Longrightarrow> refuses E V M (seal_vault E x n)"
  "\<forall>now. \<not> permitted E M (ax_caller x) (local_requirement (ax_scope x) n None GList) now \<Longrightarrow>
     refuses E V M (local_history E x n ao b l)"
  unfolding get_def put_def delete_def clear_def seal_vault_def local_history_def
  by (intro resolved_refused refuses_sbind required_refused refuses_slift, assumption)+

lemma project_operations_refused:
  "\<forall>now. \<not> permitted E M (ax_caller x) (project_requirement x p (Some (SecretSpec a)) GGet) now \<Longrightarrow>
     refuses E V M (get_secret_spec E x p a)"
  "\<forall>now. \<not> permitted E M (ax_caller x) (project_requirement x p (Some (SecretSpec a)) GDelete) now \<Longrightarrow>
     refuses E V M (delete_secret_spec E x p a)"
  "\<forall>now. \<not> permitted E M (ax_caller x) (project_requirement x p None GList) now \<Longrightarrow>
     refuses E V M (action_list_project_addresses E x p c l)"
  "\<forall>now. \<not> permitted E M (ax_caller x) (project_requirement x p None GList) now \<Longrightarrow>
     refuses E V M (project_history E x p ao b l)"
  unfolding get_secret_spec_def delete_secret_spec_def action_list_project_addresses_def project_history_def
  by (intro named_refused refuses_sbind project_refused refuses_slift, assumption)+

lemma mutate_refused:
  assumes "\<forall>now. \<not> permitted E M (ax_caller x) (mutation_requirement namespace m) now" and "ax_scope x = namespace_scope namespace"
  shows "refuses E V M (mutate E x namespace (m # ms))"
  unfolding mutate_def prepare_mutations.simps by (intro refuses_sbind mutation_refused assms)

lemma list_projects_refused:
  assumes "\<forall>now. \<not> permitted E M (ax_caller x) \<lparr>gq_scope = ax_scope x, gq_namespace = None, gq_address = None,
       gq_project = None, gq_base_dir = None, gq_permission = GList\<rparr> now"
  shows "refuses E V M (action_list_projects E x c l)"
  unfolding action_list_projects_def require_kind_def by (intro refuses_sbind refuses_require assms)

lemma refuses_error: "refuses E V M (slift (Inl e))"
  by (simp add: refuses_def slift_def)

lemma execute_action_refused:
  assumes "required_grant application action = Some q" and "\<forall>now. \<not> permitted E M caller q now"
    and "base_dir = (case application of None \<Rightarrow> None | Some c \<Rightarrow> ac_base_dir c)"
  shows "refuses E V M (execute_action E caller action ld provenance base_dir clock)"
  using assms unfolding execute_action_def refreshing_def Let_def
  by (cases action)
    (auto simp: required_grant_def scope_action_def project_requirement_def Let_def split: list.splits
      intro!: refuses_sbind refuses_error local_operations_refused project_operations_refused put_secret_spec_refused
        mutate_refused list_projects_refused)

section \<open>Refused requests\<close>

definition declines ::
  "('d, 'r, 'i, 'z) service_env_scheme \<Rightarrow> ('d \<Rightarrow> am_view) \<Rightarrow> entries \<Rightarrow> 'a request_action \<Rightarrow> bool" where
  "declines E V M m \<longleftrightarrow> (\<forall>s r s'. grants_are E V s M \<longrightarrow> m s = (r, s') \<longrightarrow> (\<exists>e i. r = Inl (Failed e i)) \<and> same_docs s s')"

lemma declines_fallible: "refuses E V M m \<Longrightarrow> declines E V M (fallible m)"
  unfolding refuses_def declines_def by (fastforce simp: fallible_def is_ok_def split: sum.splits prod.splits)

lemma declines_sbind: "declines E V M m \<Longrightarrow> declines E V M (sbind m f)"
  unfolding declines_def by (fastforce simp: sbind_def split: sum.splits prod.splits)

lemma ask_approval_failed: "ask_approval E candidate now s = (r, s') \<Longrightarrow> \<exists>e i. r = Inl (Failed e i)"
  by (cases r) (auto simp: ask_approval_def res_simps)

lemma other_action_refused:
  assumes "grants_are E V s M" and "required_grant application action = Some q" and "\<forall>now. \<not> permitted E M caller q now"
    and "other_action E caller application action approval provenance now clock s = (r, s')"
  shows "(\<exists>e i. r = Inl (Failed e i)) \<and> (approval = None \<longrightarrow> same_docs s s')"
proof -
  obtain x s1 where x: "execute_action E caller action (lease_deadlines s) provenance
      (case application of None \<Rightarrow> None | Some c \<Rightarrow> ac_base_dir c) clock s = (x, s1)" by fastforce
  then have "\<not> is_ok x \<and> same_docs s s1" by (rule refusesD [OF execute_action_refused [OF assms(2,3) refl] assms(1)])
  then obtain e where "x = Inl e" "same_docs s s1" by (cases x) auto
  with assms(4) x show ?thesis
    by (auto simp: other_action_def res_simps slift_def dest: ask_approval_failed split: option.splits if_splits)
qed

lemma manager_handlers_refused:
  assumes "\<forall>now. \<not> permitted E M caller manager_requirement now"
  shows "refuses E V M (export_revision E caller now clock)" "refuses E V M (inventory E caller cursor limit clock)"
    "refuses E V M (export_entry E caller entry now clock)"
    "refuses E V M (import_entry E caller entry v evict_at replace_existing provenance now clock)"
    "refuses E V M (write_cache_from_dialog E caller project address v evict_at provenance now clock)"
    "refuses E V M (list_permission_page E caller continued now clock)"
    "refuses E V M (deny_permission_request E caller ident clock)"
    "refuses E V M (approve_permission_request E caller ident sig lifetime provenance clock)"
    "refuses E V M (revoke_permission_request E caller ident provenance clock)"
    "declines E V M (wait_permissions E wakes fuel caller after_revision timeout_ms clock)"
  unfolding handler_defs import_entry_def by (intro refuses_sbind declines_sbind declines_fallible refuses_manager assms)+

lemma dispatch_refused:
  assumes "grants_are E V s M" and "required_grant application action = Some q" and "\<forall>now. \<not> permitted E M caller q now"
    and "dispatch E wakes fuel caller application action approval provenance now clock s = (r, s')"
  shows "(\<exists>e i. r = Inl (Failed e i)) \<and> (approval = None \<longrightarrow> same_docs s s')"
proof -
  have direct: "?thesis" if "declines E V M (dispatch E wakes fuel caller application action approval provenance now clock)"
    using that assms(1,4) unfolding declines_def by blast
  have bridge: "declines E V M (dispatch E wakes fuel caller application action approval provenance now clock)"
    if "\<forall>now. \<not> permitted E M caller bridge_requirement now" "(\<exists>sender. action = AuthorizeSecretInputAction sender) \<or>
      (\<exists>en se sv op ac pe. action = KeyringAccessAction en se sv op ac pe)"
    using that by (auto simp: dispatch_def authorize_secret_input_def keyring_access_def
        intro!: declines_sbind declines_fallible refuses_sbind refuses_until)
  show ?thesis
    using assms other_action_refused [OF assms(1-3), of approval provenance now clock r s'] direct bridge
      manager_handlers_refused(1-9) [of E M caller, THEN declines_fallible] manager_handlers_refused(10) [of E M caller]
    by (cases action) (auto simp: required_grant_def dispatch_def Let_def)
qed

text \<open>The whole request: the error reaches the client.  An application that declares a project may be offered an
  approval request, which is then stored; nothing else changes.\<close>

definition declined ::
  "bool \<Rightarrow> ('d, 'r, 'i, 'z) service_env_scheme \<Rightarrow> ('d \<Rightarrow> am_view) \<Rightarrow> entries \<Rightarrow> 'a request_action \<Rightarrow> bool" where
  "declined b E V M m \<longleftrightarrow> (\<forall>s r s'. grants_are E V s M \<longrightarrow> m s = (r, s') \<longrightarrow>
     (\<exists>e i. r = Inl (Failed e i)) \<and> (b \<longrightarrow> same_docs s s'))"

lemma declined_after:
  assumes "stays m" and "\<And>x. declined b E V M (f x)"
  shows "declined b E V M (sbind (fallible m) f)"
  unfolding declined_def
proof (intro allI impI)
  fix s r s'
  assume g: "grants_are E V s M" and run: "sbind (fallible m) f s = (r, s')"
  obtain q t where m: "m s = (q, t)" by fastforce
  have t: "same_docs s t" by (rule stays_keeps(2) [OF assms(1) m])
  show "(\<exists>e i. r = Inl (Failed e i)) \<and> (b \<longrightarrow> same_docs s s')"
  proof (cases q)
    case (Inr x)
    then have "f x t = (r, s')" using run m by (simp add: fallible_def sbind_def)
    then show ?thesis
      using assms(2) same_docs_holds [OF t g] same_docs_trans [OF t] unfolding declined_def by blast
  qed (use run m t in \<open>auto simp: fallible_def sbind_def\<close>)
qed

lemma stays_slift: "stays (slift r)"
  by (simp add: stays_def preserves_intros)

lemma handle_inner_refused:
  assumes "required_grant (vr_application request) (vr_action request) = Some q" and "\<forall>now. \<not> permitted E M caller q now"
  shows "declined (for_request caller (vr_application request) (vr_action request) = None) E V M
    (handle_inner E wakes fuel caller request clock)"
proof -
  have "declined (for_request caller (vr_application request) (vr_action request) = None) E V M
      (dispatch E wakes fuel caller (vr_application request) (vr_action request)
        (for_request caller (vr_application request) (vr_action request)) provenance now clock)" for provenance now
    unfolding declined_def using dispatch_refused [OF _ assms] by blast
  then show ?thesis
    unfolding handle_inner_def Let_def by (intro declined_after stays_slift stays_steps)
qed

lemma final_check_error:
  assumes "final_check E clock (Inl e) s = (r, s')"
  shows "\<exists>e'. r = Inl e'" "same_docs s s'"
proof -
  have "stays (sbind (clock_sample E clock) (\<lambda>smp. check_live E (snd smp)))"
    by (simp add: stays_def preserves_intros steadyD)
  then show "\<exists>e'. r = Inl e'" "same_docs s s'"
    using assms stays_keeps(2) [OF \<open>stays _\<close>]
    by (auto simp: final_check_def split: sum.splits prod.splits)
qed

lemma handle_at_refused:
  assumes "grants_are E V s M" and "required_grant (vr_application request) (vr_action request) = Some q"
    and "\<forall>now. \<not> permitted E M caller q now"
  shows "\<exists>r s'. handle_at E wakes fuel caller request now t s = (Some r, s') \<and> \<not> is_ok (rs_result r) \<and>
    (for_request caller (vr_application request) (vr_action request) = None \<longrightarrow> same_docs s s')"
proof -
  let ?b = "for_request caller (vr_application request) (vr_action request) = None"
  let ?clock = "request_clock E now t s"
  have docs: "same_docs s (entered s)" by (simp add: same_docs_def entered_def)
  obtain o1 s1 where inner: "handle_inner E wakes fuel caller request ?clock (entered s) = (o1, s1)" by fastforce
  with handle_inner_refused [OF assms(2,3), of V wakes fuel ?clock] same_docs_holds [OF docs assms(1)]
  obtain e i where o1: "o1 = Inl (Failed e i)" "?b \<longrightarrow> same_docs (entered s) s1" unfolding declined_def by meson
  obtain o2 s2 where f: "final_check E ?clock (Inl (response_error_with_interaction e i)) s1 = (o2, s2)" by fastforce
  from final_check_error [OF f] obtain e' where o2: "o2 = Inl e'" "same_docs s1 s2" by blast
  have "?b \<longrightarrow> same_docs s s2" using docs o1(2) o2(2) same_docs_trans by blast
  then show ?thesis using inner o1(1) f o2(1) by (auto simp: handle_at_unfold Let_def delivery_deadline_def)
qed

end
