(* ===== verification/Service_Progress.thy ===== *)
theory Service_Progress
  imports Request_Laws
begin

text \<open>An unsealed vault answers: a request that keeps within the lease, to a store without failures, with the grant
  it needs, is served.\<close>

section \<open>A request within its lease\<close>

definition sample_n :: "('d, 'r, 'i, 'z) clocked_env_scheme \<Rightarrow> RequestTime \<Rightarrow> nat \<Rightarrow> u64 \<times> instant" where
  "sample_n E clock n = sample_at clock (instants E n) (system_times E (Suc n)) (instants E (n + 2))"

definition in_time :: "('d, 'r, 'i, 'z) clocked_env_scheme \<Rightarrow> RequestTime \<Rightarrow> instant \<Rightarrow> duration \<Rightarrow> nat \<Rightarrow> bool" where
  "in_time E clock T idle n \<longleftrightarrow> \<not> interrupts E n \<and> instants E n < T \<and> snd (sample_n E clock n) < T \<and>
     T \<le> snd (sample_n E clock n) + idle \<and> (snd (sample_n E clock n) + idle) div NANOS < 2 ^ 63 \<and>
     checked_add64 (fst (sample_n E clock n)) (as_secs idle) \<noteq> None"

text \<open>From here on every reading of the clocks is before \<open>T\<close>, which neither the lease nor a lease refreshed
  meanwhile ends before.\<close>

definition calm_time :: "('d, 'r, 'i, 'z) clocked_env_scheme \<Rightarrow> RequestTime \<Rightarrow> instant \<Rightarrow> ServiceState \<Rightarrow> bool" where
  "calm_time E clock T s \<longleftrightarrow> \<not> ls_poisoned s \<and> \<not> ws_sealed (sh_status s) \<and>
     (case ws_deadline (sh_status s) of None \<Rightarrow> True | Some d \<Rightarrow> T \<le> d) \<and> T \<le> lease_expires_at (ls_lease s) \<and>
     (\<forall>n \<ge> sh_ticks s. in_time E clock T (l_idle_timeout (ls_lease s)) n)"

lemma calm_in_time: "calm_time E clock T s \<Longrightarrow> sh_ticks s \<le> n \<Longrightarrow> in_time E clock T (l_idle_timeout (ls_lease s)) n"
  by (simp add: calm_time_def)

lemma calm_unsealed: "calm_time E clock T s \<Longrightarrow> unsealed E s"
  by (force simp: calm_time_def in_time_def unsealed_def split: option.splits)

lemma calm_later:
  assumes "calm_time E clock T s" and "sh_status s' = sh_status s" and "ls_lease s' = ls_lease s"
    and "ls_poisoned s' = ls_poisoned s" and "sh_ticks s \<le> sh_ticks s'"
  shows "calm_time E clock T s'"
  using assms unfolding calm_time_def by auto

lemma clock_sample_step: "clock_sample E clock s = (Inr (sample_n E clock (sh_ticks s)), s\<lparr>sh_ticks := sh_ticks s + 3\<rparr>)"
  by (simp add: clock_sample_def instant_now_def system_now_def sbind_def sample_n_def numeral_eq_Suc)

lemma clock_wall_step: "clock_wall E clock s = (Inr (wall_at E clock (sh_ticks s)), s\<lparr>sh_ticks := sh_ticks s + 3\<rparr>)"
  by (simp add: clock_wall_def clock_sample_step wall_at_def sample_n_def sample_at_def Let_def)

lemma wall_sample: "wall_at E clock n = fst (sample_n E clock n)"
  by (simp add: wall_at_def sample_n_def sample_at_def Let_def)

lemma is_sealed_calm:
  assumes "calm_time E clock T s"
  shows "vs_is_sealed E s = (Inr False, s\<lparr>sh_ticks := Suc (sh_ticks s)\<rparr>)"
  using unsealed_is_sealed [OF calm_unsealed [OF assms] order_refl] calm_unsealed [OF assms]
  by (simp add: vs_is_sealed_def unsealed_def)

lemma seal_if_over_calm:
  assumes "calm_time E clock T s" and "t < T"
  shows "seal_if_over E t s = (Inr (), s\<lparr>sh_ticks := sh_ticks s + 2\<rparr>)"
proof -
  have "instants E (Suc (sh_ticks s)) < T" "T \<le> lease_expires_at (ls_lease s)"
    using assms(1) by (auto simp: calm_time_def in_time_def)
  then have "\<not> lease_is_expired (ls_lease s) (max t (instants E (Suc (sh_ticks s))))"
    using assms(2) by (auto simp: lease_expired_iff)
  then show ?thesis
    by (simp add: seal_if_over_def lease_over_def is_sealed_calm [OF assms(1)] instant_now_def sbind_def)
qed

lemma lock_live_calm:
  assumes "calm_time E clock T s" and "t < T"
  shows "lock_live E t s = (Inr (), s\<lparr>sh_ticks := sh_ticks s + 3\<rparr>)"
proof -
  have "calm_time E clock T (s\<lparr>sh_ticks := Suc (sh_ticks s)\<rparr>)" by (rule calm_later [OF assms(1)]) simp_all
  from seal_if_over_calm [OF this assms(2)] have "seal_if_over E t (s\<lparr>sh_ticks := Suc (sh_ticks s)\<rparr>) =
      (Inr (), s\<lparr>sh_ticks := sh_ticks s + 3\<rparr>)" by simp
  moreover have "\<not> ls_poisoned s" using assms(1) by (simp add: calm_time_def)
  ultimately show ?thesis by (simp add: lock_live_def is_sealed_calm [OF assms(1)] sbind_def slift_def)
qed

lemma touch_calm:
  assumes "calm_time E clock T s" and "in_time E clock T (l_idle_timeout (ls_lease s)) n"
  shows "\<exists>s'. touch E (sample_n E clock n) s = (Inr (), s') \<and> calm_time E clock T s' \<and> same_docs s s' \<and>
    sh_worker s' = sh_worker s \<and> as_valid_until s' = as_valid_until s \<and> sh_ticks s \<le> sh_ticks s'"
proof -
  let ?t = "snd (sample_n E clock n)" and ?l = "ls_lease s"
  have c: "?t < T" "T \<le> lease_expires_at ?l" "T \<le> ?t + l_idle_timeout ?l" "(?t + l_idle_timeout ?l) div NANOS < 2 ^ 63"
    using assms by (auto simp: calm_time_def in_time_def)
  from assms obtain idle where idle: "checked_add64 (fst (sample_n E clock n)) (as_secs (l_idle_timeout ?l)) = Some idle"
    by (auto simp: in_time_def)
  define l where "l = ?l\<lparr>idle_deadline := min idle (absolute_deadline ?l),
    idle_expires_at := min (?t + l_idle_timeout ?l) (absolute_expires_at ?l)\<rparr>"
  have t: "lease_touch (fst (sample_n E clock n)) ?t ?l = (Inr (), l)"
    using c idle by (simp add: lease_touch_def lease_expired_iff instant_checked_add_def l_def Let_def)
  have l: "T \<le> lease_expires_at l" "l_idle_timeout l = l_idle_timeout ?l" using c by (auto simp: l_def lease_expires_at_def)
  have d: "set_deadline (instants E (sh_ticks s + 2)) (lease_expires_at l) (sh_status s) =
      (Inr (), (sh_status s)\<lparr>ws_deadline := Some (lease_expires_at l)\<rparr>)"
  proof -
    have "instants E (sh_ticks s + 2) < T" "\<not> ws_sealed (sh_status s)"
      "case ws_deadline (sh_status s) of None \<Rightarrow> True | Some d \<Rightarrow> T \<le> d" using assms(1) by (simp_all add: calm_time_def in_time_def)
    then show ?thesis by (auto simp: set_deadline_def split: option.splits)
  qed
  have "touch E (sample_n E clock n) s = (Inr (), s\<lparr>ls_lease := l,
      sh_status := (sh_status s)\<lparr>ws_deadline := Some (lease_expires_at l)\<rparr>, sh_ticks := sh_ticks s + 3\<rparr>)"
    using seal_if_over_calm [OF assms(1) c(1)] t d
    by (simp add: touch_def sbind_def vs_set_deadline_def)
  moreover have "calm_time E clock T (s\<lparr>ls_lease := l,
      sh_status := (sh_status s)\<lparr>ws_deadline := Some (lease_expires_at l)\<rparr>, sh_ticks := sh_ticks s + 3\<rparr>)"
    using assms(1) l by (auto simp: calm_time_def)
  ultimately show ?thesis by (auto simp: same_docs_def)
qed

section \<open>The documents a request reads\<close>

lemma store_room_docs:
  assumes "store_room E kind part w n" and "sw_db w' = sw_db w" and "sw_verified w' = sw_verified w" and "undisturbed E w'"
  shows "store_room E kind part w' n"
  using assms by (simp add: store_room_def consistent_def)

definition going ::
  "('d, 'r, 'i, 'z) service_env_scheme \<Rightarrow> ('d \<Rightarrow> am_view) \<Rightarrow> RequestTime \<Rightarrow> instant \<Rightarrow> entries \<Rightarrow> DocumentKind \<Rightarrow> bytes
     \<Rightarrow> entries \<Rightarrow> ServiceState \<Rightarrow> bool" where
  "going E V clock T M kind part D s \<longleftrightarrow> calm_time E clock T s \<and> grants_are E V s M \<and> handle_holds E V kind part s D \<and>
     store_room E kind part (sh_worker s) 0"

lemma going_ready:
  assumes "going E V clock T M kind part D s"
  shows "handle_ready E s" "handle_room E kind part s 0"
  using assms calm_unsealed by (auto simp: going_def handle_ready_def handle_room_def store_room_def consistent_def)

definition deadline_is :: "instant option \<Rightarrow> 's StoreHandle_scheme \<Rightarrow> bool" where
  "deadline_is d s \<longleftrightarrow> ws_deadline (sh_status s) = d"

lemma deadline_store_call [preserves_intros]: "preserves (deadline_is d) (store_call E command f)"
proof (rule preservesI)
  fix s r s'
  assume d: "deadline_is d s" and c: "store_call E command f s = (r, s')"
  obtain q where q: "store_request E command s = (q, s')" by (rule store_call_request [OF c])
  then show "deadline_is d s'"
    using d by (auto simp: deadline_is_def store_request_def worker_is_sealed_def send_result_def request_shutdown_def Let_def
        split: if_splits option.splits prod.splits)
qed

lemma deadline_find_grant: "preserves (deadline_is d) (find_grant H (grant_store_ops E) C caller q now)"
  unfolding find_grant_def Let_def grant_store_ops_def service_ops_def vs_get_many_def by (simp add: preserves_intros)

lemma going_step:
  assumes "going E V clock T M kind part D s" and "same_docs s s'" and "handle_ready E s'" and "deadline_is (ws_deadline (sh_status s)) s'"
    and "ls_lease s' = ls_lease s" and "ls_poisoned s' = ls_poisoned s" and "sh_ticks s \<le> sh_ticks s'"
  shows "going E V clock T M kind part D s'"
proof -
  have "calm_time E clock T s'"
    using assms unfolding going_def calm_time_def deadline_is_def handle_ready_def unsealed_def by auto
  then show ?thesis
    using assms same_docs_holds [OF assms(2)] store_room_docs [of E kind part "sh_worker s" 0 "sh_worker s'"]
    unfolding going_def handle_ready_def same_docs_def by blast
qed

lemma lease_outside: "outside (\<lambda>s. ls_lease s = l \<and> ls_poisoned s = b \<and> as_valid_until s = v)"
  by (simp add: outside_def)

lemma find_going:
  assumes "going E V clock T M kind part D s" and "lookup_grant E (codecs E) M caller q now = Inr found"
  shows "\<exists>s'. find_grant E (grant_store_ops E) (codecs E) caller q now s = (Inr found, s') \<and>
    going E V clock T M kind part D s' \<and> as_valid_until s' = as_valid_until s \<and> sh_ticks s \<le> sh_ticks s'"
proof -
  have g: "grants_are E V s M" using assms(1) by (simp add: going_def)
  from service_store.find_grant_ready [OF g going_ready(1) [OF assms(1)], of "codecs E" caller q now] assms(2)
  obtain s' where s': "find_grant E (grant_store_ops E) (codecs E) caller q now s = (Inr found, s')" "handle_ready E s'"
    by (auto simp: grant_store_ops_def)
  obtain r where run: "require_grant_until E (grant_store_ops E) (codecs E) caller q now s = (r, s')"
    using s'(1) by (cases found) (simp_all add: require_grant_until_def)
  have f: "ls_lease s' = ls_lease s \<and> ls_poisoned s' = ls_poisoned s \<and> as_valid_until s' = as_valid_until s"
    by (rule preservesD [OF preserves_find_grant [OF outside_readable [OF lease_outside]] s'(1)]) simp
  have d: "deadline_is (ws_deadline (sh_status s)) s'"
    by (rule preservesD [OF deadline_find_grant s'(1)]) (simp add: deadline_is_def)
  have n: "sh_ticks s \<le> sh_ticks s'"
    by (rule preservesD [OF preserves_find_grant [OF tameD(3) [OF tame_facts(2)]] s'(1) order_refl])
  show ?thesis using s'(1) going_step [OF assms(1) require_same_docs(3) [OF run] s'(2) d] f n by blast
qed

lemma require_going:
  assumes "going E V clock T M kind part D s" and "lookup_grant E (codecs E) M caller q now = Inr (Reusable e)"
  shows "\<exists>s'. require_grant_until E (grant_store_ops E) (codecs E) caller q now s = (Inr e, s') \<and>
    going E V clock T M kind part D s' \<and> as_valid_until s' = as_valid_until s \<and> sh_ticks s \<le> sh_ticks s'"
  using find_going [OF assms] by (auto simp: require_grant_until_def)

lemma read_going:
  assumes "going E V clock T M kind part D s" and "D (storage_key E a) = Some (a, v, e)" and "live now e"
  shows "\<exists>s'. vs_get_with_deadline E kind part a now s = (Inr (Some \<lparr>ss_value = v, ss_expires_at = e\<rparr>), s') \<and>
    calm_time E clock T s' \<and> as_valid_until s' = as_valid_until s \<and> sh_ticks s \<le> sh_ticks s'"
proof -
  have h: "handle_holds E V kind part s D" using assms(1) by (simp add: going_def)
  have r: "read_entry E D now a = Inr (Some \<lparr>ss_value = v, ss_expires_at = e\<rparr>)" using assms(2,3) by (simp add: read_entry_def)
  from live_service_store.get_live [OF h going_ready(2) [OF assms(1)], of a now] assms(2,3) r
  obtain s' where s': "vs_get_with_deadline E kind part a now s = (Inr (Some \<lparr>ss_value = v, ss_expires_at = e\<rparr>), s')"
    "handle_room E kind part s' 0" by (auto simp: service_ops_def)
  have f: "ls_lease s' = ls_lease s \<and> ls_poisoned s' = ls_poisoned s \<and> as_valid_until s' = as_valid_until s"
    by (rule preservesD [OF preserves_store_calls(1) [OF lease_outside] s'(1)]) simp
  have d: "deadline_is (ws_deadline (sh_status s)) s'"
    by (rule preservesD [OF deadline_store_call s'(1) [unfolded vs_get_with_deadline_def]]) (simp add: deadline_is_def)
  have n: "sh_ticks s \<le> sh_ticks s'"
    by (rule preservesD [OF preserves_store_calls(1) [OF tameD(2) [OF tame_facts(2)]] s'(1) order_refl])
  have "calm_time E clock T s'"
    using assms(1) s'(2) f d n unfolding going_def calm_time_def deadline_is_def handle_room_def unsealed_def by auto
  then show ?thesis using s'(1) f n by blast
qed

section \<open>A read that is served\<close>

definition still_valid :: "('d, 'r, 'i, 'z) clocked_env_scheme \<Rightarrow> RequestTime \<Rightarrow> 's ActionState_scheme \<Rightarrow> bool" where
  "still_valid E clock s \<longleftrightarrow> (\<forall>n \<ge> sh_ticks s. live (wall_at E clock n) (as_valid_until s))"

lemma still_valid_later:
  "still_valid E clock s \<Longrightarrow> as_valid_until s' = as_valid_until s \<Longrightarrow> sh_ticks s \<le> sh_ticks s' \<Longrightarrow> still_valid E clock s'"
  by (simp add: still_valid_def)

lemma check_valid_step:
  assumes "still_valid E clock s"
  shows "check_valid_until E clock s = (Inr (), s\<lparr>sh_ticks := sh_ticks s + 2\<rparr>)"
proof -
  have "live (wall_at E clock (sh_ticks s)) (as_valid_until s)" using assms by (simp add: still_valid_def)
  then show ?thesis
    by (auto simp: check_valid_until_def clock_check_def instant_now_def system_now_def sbind_def slift_def time_check_def
        live_def wall_at_def split: option.splits)
qed

lemma live_tighten: "live now a \<Longrightarrow> live now b \<Longrightarrow> live now (tighten a b)"
  by (auto simp: live_def tighten_def split: option.splits)

lemma accept_step:
  assumes "still_valid E (ax_clock x) s" and "\<forall>n \<ge> sh_ticks s. live (wall_at E (ax_clock x) n) d"
  shows "\<exists>s'. accept_deadline E x d s = (Inr (), s') \<and> still_valid E (ax_clock x) s' \<and>
    s' = s\<lparr>as_valid_until := tighten (as_valid_until s) d, sh_ticks := sh_ticks s + 2\<rparr>"
proof -
  let ?s = "s\<lparr>as_valid_until := tighten (as_valid_until s) d\<rparr>"
  have v: "still_valid E (ax_clock x) ?s" using assms by (auto simp: still_valid_def intro: live_tighten)
  then show ?thesis
    using check_valid_step [OF v] by (auto simp: accept_deadline_def tighten_until_def sbind_def still_valid_def)
qed

lemma going_valid:
  assumes "going E V clock T M kind part D s"
  shows "going E V clock T M kind part D (s\<lparr>as_valid_until := v, sh_ticks := sh_ticks s + n\<rparr>)"
  using assms by (simp add: going_def calm_time_def handle_holds_def)

lemma require_step:
  assumes "going E V (ax_clock x) T M kind part D s" and "still_valid E (ax_clock x) s"
    and "\<forall>n \<ge> sh_ticks s. lookup_grant E (codecs E) M (ax_caller x) q (wall_at E (ax_clock x) n) = Inr (Reusable e) \<and>
      live (wall_at E (ax_clock x) n) e"
  shows "\<exists>s'. require_requirement E x q s = (Inr (), s') \<and> going E V (ax_clock x) T M kind part D s' \<and>
    still_valid E (ax_clock x) s' \<and> sh_ticks s \<le> sh_ticks s'"
proof -
  let ?s = "s\<lparr>sh_ticks := sh_ticks s + 3\<rparr>"
  have g: "going E V (ax_clock x) T M kind part D ?s" using going_valid [OF assms(1), where v = "as_valid_until s" and n = 3] by simp
  obtain s1 where s1: "require_grant_until E (grant_store_ops E) (codecs E) (ax_caller x) q (wall_at E (ax_clock x) (sh_ticks s)) ?s
      = (Inr e, s1)" "going E V (ax_clock x) T M kind part D s1" "as_valid_until s1 = as_valid_until ?s" "sh_ticks ?s \<le> sh_ticks s1"
    using require_going [OF g] assms(3) by blast
  have v: "still_valid E (ax_clock x) s1" using assms(2) s1(3,4) by (simp add: still_valid_def)
  obtain s2 where s2: "accept_deadline E x e s1 = (Inr (), s2)" "still_valid E (ax_clock x) s2"
      "s2 = s1\<lparr>as_valid_until := tighten (as_valid_until s1) e, sh_ticks := sh_ticks s1 + 2\<rparr>"
    using accept_step [OF v, of e] assms(3) s1(4) by auto
  have "going E V (ax_clock x) T M kind part D s2" unfolding s2(3) by (rule going_valid [OF s1(2)])
  moreover have "require_requirement E x q s = (Inr (), s2)"
    using s1(1) s2(1) by (simp add: require_requirement_def sbind_def clock_wall_step)
  moreover have "sh_ticks s \<le> sh_ticks s2" using s1(4) s2(3) by simp
  ultimately show ?thesis using s2(2) by blast
qed

lemma read_secret_step:
  assumes "going E V (ax_clock x) T M (ax_scope x) part D s" and "still_valid E (ax_clock x) s"
    and "D (storage_key E a) = Some (a, v, e)" and "\<forall>n \<ge> sh_ticks s. live (wall_at E (ax_clock x) n) e"
  shows "\<exists>s'. read_secret E x part a s = (Inr (SecretBody (Some v)), s') \<and> calm_time E (ax_clock x) T s' \<and>
    still_valid E (ax_clock x) s'"
proof -
  let ?s = "s\<lparr>sh_ticks := sh_ticks s + 3\<rparr>"
  have g: "going E V (ax_clock x) T M (ax_scope x) part D ?s" using going_valid [OF assms(1), where v = "as_valid_until s" and n = 3] by simp
  obtain s1 where s1: "vs_get_with_deadline E (ax_scope x) part a (wall_at E (ax_clock x) (sh_ticks s)) ?s =
      (Inr (Some \<lparr>ss_value = v, ss_expires_at = e\<rparr>), s1)" "calm_time E (ax_clock x) T s1"
      "as_valid_until s1 = as_valid_until ?s" "sh_ticks ?s \<le> sh_ticks s1"
    using read_going [OF g assms(3)] assms(4) by blast
  have v: "still_valid E (ax_clock x) s1" using assms(2) s1(3,4) by (simp add: still_valid_def)
  obtain s2 where s2: "accept_deadline E x e s1 = (Inr (), s2)" "still_valid E (ax_clock x) s2"
      "s2 = s1\<lparr>as_valid_until := tighten (as_valid_until s1) e, sh_ticks := sh_ticks s1 + 2\<rparr>"
    using accept_step [OF v, of e] assms(4) s1(4) by auto
  have "calm_time E (ax_clock x) T s2" by (rule calm_later [OF s1(2)]) (simp_all add: s2(3))
  with s1 s2 show ?thesis by (auto simp: read_secret_def sbind_def clock_wall_step)
qed

lemma execute_read_step:
  assumes "read_requirement application action = Some (q, kind, part, a)" and "action_validate E action = Inr ()"
    and "going E V clock T M kind part D s" and "still_valid E clock s"
    and "\<forall>n \<ge> sh_ticks s. lookup_grant E (codecs E) M caller q (wall_at E clock n) = Inr (Reusable e) \<and>
      live (wall_at E clock n) e"
    and "D (storage_key E a) = Some (a, v, e')" and "\<forall>n \<ge> sh_ticks s. live (wall_at E clock n) e'"
  shows "\<exists>s'. execute_action E caller action ld provenance (case application of None \<Rightarrow> None | Some c \<Rightarrow> ac_base_dir c) clock s =
    (Inr (SecretBody (Some v), True), s') \<and> calm_time E clock T s' \<and> still_valid E clock s'"
proof -
  let ?x = "\<lparr>ax_caller = caller, ax_scope = scope_action action, ax_clock = clock, ax_provenance = provenance,
    ax_base_dir = (case application of None \<Rightarrow> None | Some c \<Rightarrow> ac_base_dir c)\<rparr>"
  have k: "kind = scope_action action"
    using assms(1) by (auto simp: read_requirement_def scope_action_def split: VaultAction.splits)
  obtain s1 where s1: "require_requirement E ?x q s = (Inr (), s1)" "going E V clock T M kind part D s1"
      "still_valid E clock s1" "sh_ticks s \<le> sh_ticks s1"
    using require_step [of E V ?x T M kind part D s q e] assms(3-5) by auto
  obtain s2 where s2: "read_secret E ?x part a s1 = (Inr (SecretBody (Some v)), s2)" "calm_time E clock T s2" "still_valid E clock s2"
    using read_secret_step [of E V ?x T M part D s1 a v e'] s1 assms(6,7) k by auto
  have "execute_action E caller action ld provenance (case application of None \<Rightarrow> None | Some c \<Rightarrow> ac_base_dir c) clock s =
      (Inr (SecretBody (Some v), True), s2)"
    using assms(1,2) s1(1) s2(1)
    by (cases action) (auto simp: read_requirement_def execute_action_def refreshing_def get_def get_secret_spec_def require_def
        require_project_def project_requirement_def scope_action_def Let_def sbind_def slift_def action_validate.simps
        wire_address_validate_def validate_project_address_def wire_address_resolve_def address_new_def address_secret_spec_def
        res_simps simp del: address_validate.simps)
  with s2 show ?thesis by blast
qed

lemma consume_step:
  assumes "ident \<notin> rw_set (ls_replay s)"
  shows "\<exists>w. consume ident s = (Inr (), s\<lparr>ls_replay := w\<rparr>)"
  using assms by (auto simp: consume_def replay_consume_def Let_def split: list.splits)

lemma going_replay: "going E V clock T M kind part D s \<Longrightarrow> going E V clock T M kind part D (s\<lparr>ls_replay := w\<rparr>)"
  by (simp add: going_def calm_time_def handle_holds_def)

lemma calm_sample: "calm_time E clock T s \<Longrightarrow> sh_ticks s \<le> n \<Longrightarrow> snd (sample_n E clock n) < T"
  by (simp add: calm_time_def in_time_def)

lemma calm_ticks: "calm_time E clock T s \<Longrightarrow> calm_time E clock T (s\<lparr>sh_ticks := sh_ticks s + n\<rparr>)"
  by (erule calm_later) simp_all

lemma check_and_touch_step:
  assumes "calm_time E clock T s" and "still_valid E clock s"
  shows "\<exists>n s'. check_and_touch E clock s = (Inr n, s') \<and> calm_time E clock T s' \<and> still_valid E clock s'"
proof -
  let ?s = "s\<lparr>sh_ticks := sh_ticks s + 3\<rparr>"
  have v: "still_valid E clock ?s" using assms(2) by (simp add: still_valid_def)
  have "calm_time E clock T (s\<lparr>sh_ticks := sh_ticks s + 5\<rparr>)" by (rule calm_ticks [OF assms(1)])
  from touch_calm [OF this, of "sh_ticks s"] calm_in_time [OF assms(1) order_refl]
  have "\<exists>s'. touch E (sample_n E clock (sh_ticks s)) (s\<lparr>sh_ticks := sh_ticks s + 5\<rparr>) = (Inr (), s') \<and> calm_time E clock T s' \<and>
      as_valid_until s' = as_valid_until s \<and> sh_ticks s \<le> sh_ticks s'" by fastforce
  then obtain s' where s': "touch E (sample_n E clock (sh_ticks s)) (s\<lparr>sh_ticks := sh_ticks s + 5\<rparr>) = (Inr (), s')"
    "calm_time E clock T s'" "as_valid_until s' = as_valid_until s" "sh_ticks s \<le> sh_ticks s'" by blast
  have "check_and_touch E clock s = (Inr (fst (sample_n E clock (sh_ticks s))), s')"
    using s'(1) check_valid_step [OF v] by (simp add: check_and_touch_def clock_sample_step sbind_def add.commute)
  then show ?thesis using s' still_valid_later [OF assms(2)] by blast
qed

lemma final_check_step:
  assumes "calm_time E clock T s" and "still_valid E clock s" and "body \<noteq> SealedBody"
  shows "\<exists>s'. final_check E clock (Inr body) s = (Inr body, s') \<and> calm_time E clock T s' \<and> still_valid E clock s'"
proof -
  let ?s = "s\<lparr>sh_ticks := sh_ticks s + 3\<rparr>"
  have live: "check_live E (snd (sample_n E clock (sh_ticks s))) ?s = (Inr (), s\<lparr>sh_ticks := sh_ticks s + 6\<rparr>)"
    using lock_live_calm [OF calm_ticks [OF assms(1)] calm_sample [OF assms(1) order_refl], of 3] by (simp add: check_live_def)
  have v: "still_valid E clock (s\<lparr>sh_ticks := sh_ticks s + 6\<rparr>)" using assms(2) by (simp add: still_valid_def)
  have "final_check E clock (Inr body) s = (Inr body, s\<lparr>sh_ticks := sh_ticks s + 8\<rparr>)"
    using live check_valid_step [OF v] assms(3) by (simp add: final_check_def sbind_def clock_sample_step)
  then show ?thesis using calm_ticks [OF assms(1)] assms(2) by (fastforce simp: still_valid_def)
qed

lemma delivery_total: "\<exists>d s'. delivery_deadline E clock (Inr body) s = (Inr d, s')"
  by (auto simp: delivery_deadline_def sbind_def clock_deadline_def instant_now_def system_now_def split: option.splits)

lemma handle_served:
  assumes "going E V (request_clock E now t s) T M kind part D s" and "identity_validate caller = Inr ()"
    and "request_validate E (j_request E) request = Inr ()" and "vr_request_id request \<notin> rw_set (ls_replay s)"
    and "\<And>approval provenance now' c s. dispatch E wakes fuel caller (vr_application request) (vr_action request) approval provenance now' c s =
      other_action E caller (vr_application request) (vr_action request) approval provenance now' c s"
    and "\<not> P SealedBody"
    and "\<And>s'. going E V (request_clock E now t s) T M kind part D s' \<Longrightarrow> still_valid E (request_clock E now t s) s' \<Longrightarrow>
      sh_ticks s \<le> sh_ticks s' \<Longrightarrow>
      \<exists>body s''. execute_action E caller (vr_action request) (lease_deadlines s') (provenance_caller caller (vr_application request))
        (case vr_application request of None \<Rightarrow> None | Some c \<Rightarrow> ac_base_dir c) (request_clock E now t s) s' = (Inr (body, True), s'') \<and>
        P body \<and> calm_time E (request_clock E now t s) T s'' \<and> still_valid E (request_clock E now t s) s''"
  shows "\<exists>r s' body. handle_at E wakes fuel caller request now t s = (Some r, s') \<and> rs_result r = Inr body \<and> P body"
proof -
  let ?c = "request_clock E now t s"
  obtain w where w: "consume (vr_request_id request) (s\<lparr>as_valid_until := None, sh_ticks := sh_ticks s + 11\<rparr>) =
      (Inr (), s\<lparr>as_valid_until := None, sh_ticks := sh_ticks s + 11, ls_replay := w\<rparr>)"
    using consume_step [of "vr_request_id request" "s\<lparr>as_valid_until := None, sh_ticks := sh_ticks s + 11\<rparr>"] assms(4) by auto
  let ?s = "s\<lparr>as_valid_until := None, sh_ticks := sh_ticks s + 11, ls_replay := w\<rparr>"
  have g: "going E V ?c T M kind part D ?s" by (rule going_replay [OF going_valid [OF assms(1)]])
  have v: "still_valid E ?c ?s" by (simp add: still_valid_def live_def)
  obtain body s1 where s1: "execute_action E caller (vr_action request) (lease_deadlines ?s)
      (provenance_caller caller (vr_application request))
      (case vr_application request of None \<Rightarrow> None | Some c \<Rightarrow> ac_base_dir c) ?c ?s = (Inr (body, True), s1)"
      "calm_time E ?c T s1" "still_valid E ?c s1" "P body"
    using assms(7) [OF g v] by auto
  obtain n s2 where s2: "check_and_touch E ?c s1 = (Inr n, s2)" "calm_time E ?c T s2" "still_valid E ?c s2"
    using check_and_touch_step [OF s1(2,3)] by blast
  obtain s3 where s3: "final_check E ?c (Inr body) s2 = (Inr body, s3)"
    using final_check_step [OF s2(2,3), of body] s1(4) assms(6) by fastforce
  obtain d s4 where s4: "delivery_deadline E ?c (Inr body) s3 = (Inr d, s4)" using delivery_total by metis
  have disp: "dispatch E wakes fuel caller (vr_application request) (vr_action request) approval
      (provenance_caller caller (vr_application request)) now' ?c ?s = (Inr body, s2)" for approval now'
    unfolding assms(5) using s1(1) s2(1) by (simp add: other_action_def sbind_def fallible_def)
  have "lock_live E (snd (sample_n E ?c (sh_ticks s + 2))) (s\<lparr>as_valid_until := None, sh_ticks := sh_ticks s + 5\<rparr>) =
      (Inr (), s\<lparr>as_valid_until := None, sh_ticks := sh_ticks s + 8\<rparr>)"
  proof -
    have c: "calm_time E ?c T s" using assms(1) by (simp add: going_def)
    have "calm_time E ?c T (s\<lparr>as_valid_until := None, sh_ticks := sh_ticks s + 5\<rparr>)" by (rule calm_later [OF c]) simp_all
    from lock_live_calm [OF this calm_sample [OF c]] show ?thesis by simp
  qed
  then have "handle_inner E wakes fuel caller request ?c (entered s) = (Inr body, s2)"
    using assms(2,3) w disp
    by (simp add: handle_inner_def Let_def sbind_def fallible_def slift_def clock_sample_step clock_wall_step entered_def add.commute)
  then show ?thesis using s3 s4 s1(4) by (simp add: handle_at_unfold)
qed

lemma handle_read_served:
  assumes "going E V (request_clock E now t s) T M kind part D s" and "identity_validate caller = Inr ()"
    and "request_validate E (j_request E) request = Inr ()" and "vr_request_id request \<notin> rw_set (ls_replay s)"
    and "read_requirement (vr_application request) (vr_action request) = Some (q, kind, part, a)"
    and "\<forall>n \<ge> sh_ticks s. lookup_grant E (codecs E) M caller q (wall_at E (request_clock E now t s) n) = Inr (Reusable e) \<and>
      live (wall_at E (request_clock E now t s) n) e"
    and "D (storage_key E a) = Some (a, v, e')" and "\<forall>n \<ge> sh_ticks s. live (wall_at E (request_clock E now t s) n) e'"
  shows "\<exists>r s'. handle_at E wakes fuel caller request now t s = (Some r, s') \<and> rs_result r = Inr (SecretBody (Some v))"
proof -
  let ?c = "request_clock E now t s"
  have other: "dispatch E wakes fuel caller (vr_application request) (vr_action request) approval provenance now' c s =
      other_action E caller (vr_application request) (vr_action request) approval provenance now' c s" for approval provenance now' c s
    using assms(5) by (cases "vr_action request") (auto simp: read_requirement_def dispatch_def)
  have av: "action_validate E (vr_action request) = Inr ()"
    using assms(3) by (auto simp: request_validate_def validate_fields_def res_simps)
  have run: "\<exists>body s''. execute_action E caller (vr_action request) (lease_deadlines s') (provenance_caller caller (vr_application request))
      (case vr_application request of None \<Rightarrow> None | Some c \<Rightarrow> ac_base_dir c) ?c s' = (Inr (body, True), s'') \<and>
      body = SecretBody (Some v) \<and> calm_time E ?c T s'' \<and> still_valid E ?c s''"
    if g: "going E V ?c T M kind part D s'" "still_valid E ?c s'" "sh_ticks s \<le> sh_ticks s'" for s'
    using execute_read_step [OF assms(5) av g(1,2) _ assms(7), of caller e "lease_deadlines s'"
        "provenance_caller caller (vr_application request)"] assms(6,8) g(3) by auto
  from handle_served [where P = "\<lambda>body. body = SecretBody (Some v)", OF assms(1-4) other _ run] show ?thesis by auto
qed

end
