(* ===== verification/Redaction_Laws.thy ===== *)
theory Redaction_Laws
  imports Refusal_Laws Service_Progress
begin

text \<open>What a history shows to a caller who does not manage permissions: the writers of other identities are
  withheld.\<close>

definition own_or_withheld :: "PermissionPrincipal \<Rightarrow> HistoryEntry \<Rightarrow> bool" where
  "own_or_withheld me entry = (case he_provenance entry of Caller who _ \<Rightarrow> who = me | _ \<Rightarrow> True)"

lemma redact_entry_own: "own_or_withheld me (redact_entry me entry)"
  by (auto simp: own_or_withheld_def redact_entry_def split: Provenance.splits)

lemma list_history_same_docs:
  assumes "vs_list_history E k p a b l s = (r, s')"
  shows "same_docs s s'"
  using store_call_worker [OF answers_calls(6) assms [unfolded vs_list_history_def]] store_isD [OF store_is_reads(2)]
  by (auto simp: same_docs_def)

lemma redact_history_own:
  assumes "grants_are E V s M" and "\<forall>t. \<not> permitted E M (ax_caller x) manager_requirement t"
    and "redact_history E x entries s = (Inr shown, s')"
  shows "\<forall>entry\<in>set shown. own_or_withheld (principal_of (ax_caller x)) entry"
proof -
  from assms(3) obtain now s1 found s2 where
    s: "clock_wall E (ax_clock x) s = (Inr now :: VaultError + _, s1)"
      "require_grant_until E (grant_store_ops E) (codecs E) (ax_caller x) manager_requirement now s1 = (found, s2)"
      "(case found of Inr deadline \<Rightarrow> sbind (accept_deadline E x deadline) (\<lambda>_. sret entries)
        | Inl error \<Rightarrow> if error = AuthorizationRequired then sret (map (redact_entry (principal_of (ax_caller x))) entries)
            else slift (Inl error)) s2 = (Inr shown, s')"
    unfolding redact_history_def sbind_ok stry_eq by blast
  have "grants_are E V s1 M" by (rule same_docs_holds [OF clock_same_docs [OF s(1)] assms(1)])
  from refusesD [OF refuses_until [OF assms(2)] this s(2)] have "\<not> is_ok found" by blast
  then have "shown = map (redact_entry (principal_of (ax_caller x))) entries"
    using s(3) by (cases found) (auto simp: slift_def split: if_splits)
  then show ?thesis by (auto simp: redact_entry_own)
qed

lemma list_history_own:
  assumes "grants_are E V s M" and "\<forall>t. \<not> permitted E M (ax_caller x) manager_requirement t"
    and "action_list_history E x namespace address before limit s = (Inr body, s')"
  shows "\<exists>shown next. body = HistoryBody shown next \<and> (\<forall>entry\<in>set shown. own_or_withheld (principal_of (ax_caller x)) entry)"
proof -
  from assms(3) obtain page s1 shown s2 where
    s: "vs_list_history E (ax_scope x) namespace address before limit s = (Inr page, s1)"
      "redact_history E x (hp_items page) s1 = (Inr shown, s2)" "body = HistoryBody shown (hp_next_before_seq page)"
    by (auto simp: action_list_history_def res_simps)
  have "grants_are E V s1 M" by (rule same_docs_holds [OF list_history_same_docs [OF s(1)] assms(1)])
  from redact_history_own [OF this assms(2) s(2)] s(3) show ?thesis by blast
qed

lemma execute_history_own:
  assumes "grants_are E V s M" and "\<forall>t. \<not> permitted E M caller manager_requirement t"
    and "execute_action E caller action ld provenance base_dir clock s = (Inr (HistoryBody shown next, r), s')"
  shows "\<forall>entry\<in>set shown. own_or_withheld (principal_of caller) entry"
proof -
  let ?x = "\<lparr>ax_caller = caller, ax_scope = scope_action action, ax_clock = clock, ax_provenance = provenance, ax_base_dir = base_dir\<rparr>"
  have req: "\<forall>entry\<in>set shown. own_or_withheld (principal_of caller) entry"
    if "require_requirement E ?x q s = (Inr u, s1)"
      "action_list_history E ?x namespace address before limit s1 = (Inr (HistoryBody shown next), s')"
    for q u s1 namespace address before limit
    using list_history_own [OF same_docs_holds [OF require_same_docs(1) [OF that(1)] assms(1)] _ that(2)] assms(2) by auto
  show ?thesis
    using assms(3) req
    by (cases action)
      (auto simp: execute_action_def Let_def refreshing_def get_def get_secret_spec_def read_secret_def put_def write_secret_def mutate_def
        delete_def remove_secret_def clear_def seal_vault_def put_secret_spec_def delete_secret_spec_def action_list_projects_def
        action_list_project_addresses_def local_history_def project_history_def require_def require_project_def res_simps
        split: option.splits)
qed

lemma keyring_history_own:
  assumes "grants_are E V s M" and "\<forall>t. \<not> permitted E M caller manager_requirement t"
    and "keyring_access E wakes fuel caller entry sender service operation action pending now clock s =
      (Inr (HistoryBody shown next), s')"
  shows "\<forall>entry\<in>set shown. own_or_withheld (principal_of caller) entry"
proof -
  from assms(3) obtain e s1 s2 s3 e' s4 s5 s6 act peer c r s7 where
    b: "require_grant_until E (grant_store_ops E) (codecs E) caller bridge_requirement now s = (Inr e, s1)"
      "tighten_until e s1 = (Inr () :: RequestFailure + _, s2)" "check_valid_until E clock s2 = (Inr (), s3)"
    and k: "require_grant_until E (grant_store_ops E) (codecs E) peer c now s3 = (Inr e', s4)"
      "tighten_until e' s4 = (Inr () :: RequestFailure + _, s5)" "check_valid_until E clock s5 = (Inr (), s6)"
    and x: "execute_action E caller act (lease_deadlines s6) (provenance_caller peer None) None clock s6 =
        (Inr (HistoryBody shown next, r), s7)"
    by (rule keyring_access_ok) auto
  note one = checked_grant [OF assms(1) b(1,2)]
  have g3: "grants_are E V s3 M" by (rule same_docs_holds [OF checked_valid(1) [OF b(3)] one(3)])
  note two = checked_grant [OF g3 k(1,2)]
  have "grants_are E V s6 M" by (rule same_docs_holds [OF checked_valid(1) [OF k(3)] two(3)])
  from execute_history_own [OF this assms(2) x] show ?thesis .
qed

lemma dispatch_history_own:
  assumes "grants_are E V s M" and "\<forall>t. \<not> permitted E M caller manager_requirement t"
    and "dispatch E wakes fuel caller application action approval provenance now clock s = (Inr (HistoryBody shown next), s')"
  shows "\<forall>entry\<in>set shown. own_or_withheld (principal_of caller) entry"
proof -
  have other: ?thesis
    if "other_action E caller application action approval provenance now clock s = (Inr (HistoryBody shown next), s')"
    using that by (rule other_action_ok) (rule execute_history_own [OF assms(1,2)])
  show ?thesis
    using assms(3) other
    by (cases action)
      (auto simp: dispatch_def handler_defs res_simps dest: import_entry_body permission_page_body
        intro: keyring_history_own [OF assms(1,2), THEN bspec])
qed

lemma handle_at_history_own:
  assumes "grants_are E V s M" and "\<forall>t. \<not> permitted E M caller manager_requirement t"
    and "handle_at E wakes fuel caller request now t s = (Some r, s')" and "rs_result r = Inr (HistoryBody shown next)"
  shows "\<forall>entry\<in>set shown. own_or_withheld (principal_of caller) entry"
proof -
  let ?clock = "request_clock E now t s"
  from assms(3,4) obtain s1 where inner:
    "handle_inner E wakes fuel caller request ?clock (entered s) = (Inr (HistoryBody shown next), s1)" by (rule handle_at_ok) simp
  from inner obtain smp0 t1 t2 now' t3 t4 where pre: "clock_sample E ?clock (entered s) = (Inr smp0 :: VaultError + _, t1)"
      "lock_live E (snd smp0) t1 = (Inr (), t2)" "clock_wall E ?clock t2 = (Inr now' :: VaultError + _, t3)"
      "consume (vr_request_id request) t3 = (Inr (), t4)"
    and d: "dispatch E wakes fuel caller (vr_application request) (vr_action request)
      (for_request caller (vr_application request) (vr_action request))
      (provenance_caller caller (vr_application request)) now' ?clock t4 = (Inr (HistoryBody shown next), s1)"
    by (rule handle_inner_ok)
  have "same_docs s t4" using inner_before_dispatch(1) [OF pre] by (simp add: same_docs_def entered_def)
  from dispatch_history_own [OF same_docs_holds [OF this assms(1)] assms(2) d] show ?thesis .
qed

section \<open>A history that is shown\<close>

lemma list_history_total:
  assumes "store_room E kind part w n"
  shows "\<exists>page k. list_history E (document_id E kind part) kind part a b l w = (Inr page, w\<lparr>sw_io := k\<rparr>) \<and> sw_io w \<le> k"
proof -
  obtain log where u: "undisturbed E w" and log: "history_at E kind part (sw_db w) (sw_verified w) log"
    using assms by (auto simp: store_room_def consistent_def)
  from log show ?thesis
    unfolding history_at_def
  proof (elim disjE exE conjE)
    assume "absent (sw_db w) (sw_verified w) (document_id E kind part)"
    from load_head_calm_none [OF _ this, of E kind] u show ?thesis
      by (auto simp: list_history_def load_history_def undisturbed_def sbind_def)
  next
    fix h b'
    assume "head_at E (sw_db w) (sw_verified w) (document_id E kind part) kind h"
      and "decrypt_history (cipher E) (dh_envelope h) (dh_data_key h) = Inr b'" "history_load (j_log E) b' kind (Some part) = Inr log"
    with load_head_calm_some [OF _ this(1)] u show ?thesis
      by (auto simp: list_history_def load_history_def undisturbed_def sbind_def slift_def)
  qed
qed

lemma list_history_going:
  assumes "going E V clock T M kind part D s"
  shows "\<exists>page s'. vs_list_history E kind part a b l s = (Inr page, s') \<and> going E V clock T M kind part D s' \<and>
    as_valid_until s' = as_valid_until s \<and> sh_ticks s \<le> sh_ticks s'"
proof -
  have room: "store_room E kind part (sh_worker s) 0" and un: "unsealed E s"
    using going_ready(2) [OF assms] by (simp_all add: handle_room_def)
  obtain page k where p: "list_history E (document_id E kind part) kind part a b l (sh_worker s) =
      (Inr page, (sh_worker s)\<lparr>sw_io := k\<rparr>)" "sw_io (sh_worker s) \<le> k"
    using list_history_total [OF room] by blast
  let ?s = "s\<lparr>sh_worker := (sh_worker s)\<lparr>sw_io := k\<rparr>, sh_ticks := sh_ticks s + 3\<rparr>"
  have run: "vs_list_history E kind part a b l s = (Inr page, ?s)"
    using store_call_unsealed [OF un answers_calls(6) p(1)] by (simp add: vs_list_history_def fatal_result_def)
  have "store_room E kind part ((sh_worker s)\<lparr>sw_io := k\<rparr>) 0" by (rule store_room_step [OF room]) (simp_all add: p(2))
  then have "going E V clock T M kind part D ?s"
    using assms by (simp add: going_def calm_time_def handle_holds_def holds_def)
  with run show ?thesis by auto
qed

lemma action_history_step:
  assumes "going E V (ax_clock x) T M (ax_scope x) part D s" and "still_valid E (ax_clock x) s"
    and "\<forall>n \<ge> sh_ticks s. lookup_grant E (codecs E) M (ax_caller x) manager_requirement (wall_at E (ax_clock x) n) = Inr NoGrant"
  shows "\<exists>shown next s'. action_list_history E x part a b l s = (Inr (HistoryBody shown next), s') \<and>
    calm_time E (ax_clock x) T s' \<and> still_valid E (ax_clock x) s'"
proof -
  obtain page s1 where s1: "vs_list_history E (ax_scope x) part a b l s = (Inr page, s1)" "going E V (ax_clock x) T M (ax_scope x) part D s1"
      "as_valid_until s1 = as_valid_until s" "sh_ticks s \<le> sh_ticks s1"
    using list_history_going [OF assms(1)] by blast
  let ?s = "s1\<lparr>sh_ticks := sh_ticks s1 + 3\<rparr>" and ?now = "wall_at E (ax_clock x) (sh_ticks s1)"
  have g: "going E V (ax_clock x) T M (ax_scope x) part D ?s" using going_valid [OF s1(2), where v = "as_valid_until s1" and n = 3] by simp
  have "lookup_grant E (codecs E) M (ax_caller x) manager_requirement ?now = Inr NoGrant" using assms(3) s1(4) by simp
  from find_going [OF g this] obtain s2 where s2:
    "find_grant E (grant_store_ops E) (codecs E) (ax_caller x) manager_requirement ?now ?s = (Inr NoGrant, s2)"
    "going E V (ax_clock x) T M (ax_scope x) part D s2" "as_valid_until s2 = as_valid_until ?s" "sh_ticks ?s \<le> sh_ticks s2" by blast
  have "require_grant_until E (grant_store_ops E) (codecs E) (ax_caller x) manager_requirement ?now ?s = (Inl AuthorizationRequired, s2)"
    using s2(1) by (simp add: require_grant_until_def sbind_def slift_def)
  then have "action_list_history E x part a b l s = (Inr (HistoryBody (map (redact_entry (principal_of (ax_caller x))) (hp_items page))
      (hp_next_before_seq page)), s2)"
    using s1(1) by (simp add: action_list_history_def redact_history_def stry_def sbind_def clock_wall_step)
  moreover have "still_valid E (ax_clock x) s2" by (rule still_valid_later [OF assms(2)]) (use s1 s2 in simp_all)
  moreover have "calm_time E (ax_clock x) T s2" using s2(2) by (simp add: going_def)
  ultimately show ?thesis by blast
qed

lemma execute_history_step:
  assumes "going E V clock T M kind part D s" and "still_valid E clock s" and "kind = namespace_scope part"
    and "\<forall>n \<ge> sh_ticks s. lookup_grant E (codecs E) M caller (local_requirement kind part None GList) (wall_at E clock n) = Inr (Reusable e) \<and>
      live (wall_at E clock n) e"
    and "\<forall>n \<ge> sh_ticks s. lookup_grant E (codecs E) M caller manager_requirement (wall_at E clock n) = Inr NoGrant"
  shows "\<exists>shown next s'. execute_action E caller (ListHistoryAction part None b l) ld provenance base_dir clock s =
    (Inr (HistoryBody shown next, True), s') \<and> calm_time E clock T s' \<and> still_valid E clock s'"
proof -
  let ?x = "\<lparr>ax_caller = caller, ax_scope = kind, ax_clock = clock, ax_provenance = provenance, ax_base_dir = base_dir\<rparr>"
  obtain s1 where s1: "require_requirement E ?x (local_requirement kind part None GList) s = (Inr (), s1)" "going E V clock T M kind part D s1"
      "still_valid E clock s1" "sh_ticks s \<le> sh_ticks s1"
    using require_step [of E V ?x T M kind part D s "local_requirement kind part None GList" e] assms by auto
  obtain shown nxt s2 where s2: "action_list_history E ?x part None b l s1 = (Inr (HistoryBody shown nxt), s2)"
      "calm_time E clock T s2" "still_valid E clock s2"
    using action_history_step [of E V ?x T M part D s1 None b l] s1 assms(5) by auto
  have "execute_action E caller (ListHistoryAction part None b l) ld provenance base_dir clock s = (Inr (HistoryBody shown nxt, True), s2)"
    using s1(1) s2(1) assms(3)
    by (simp add: execute_action_def refreshing_def local_history_def require_def local_requirement_def scope_action_def Let_def sbind_def
        slift_def option_transpose_def)
  with s2 show ?thesis by blast
qed

end
