(* ===== verification/Lifecycle_Laws.thy ===== *)
theory Lifecycle_Laws
  imports Refusal_Laws
begin

text \<open>The end of a lease and repeated requests: a vault that is sealed, or whose lease has ended, answers every
  request with the same error and touches no document, and a request identifier works once.\<close>

section \<open>After the lease\<close>

definition lease_ended :: "('d, 'r, 'i, 'z) clocked_env_scheme \<Rightarrow> ServiceState \<Rightarrow> bool" where
  "lease_ended E s \<longleftrightarrow> ws_sealed (sh_status s) \<or> (\<forall>n \<ge> sh_ticks s. lease_expires_at (ls_lease s) \<le> instants E n)"

lemma lease_ended_later:
  "lease_ended E s \<Longrightarrow> lease_ended E (s\<lparr>sh_ticks := sh_ticks s + n\<rparr>)"
  "lease_ended E s \<Longrightarrow> lease_ended E (s\<lparr>as_valid_until := v\<rparr>)"
  by (auto simp: lease_ended_def)

lemma is_sealed_result:
  "vs_is_sealed E s = (Inr (ws_sealed (sh_status (snd (vs_is_sealed E s :: ('e + bool) \<times> _)))),
     s\<lparr>sh_status := sh_status (snd (vs_is_sealed E s :: ('e + bool) \<times> _)), sh_ticks := Suc (sh_ticks s)\<rparr>)"
  "ws_sealed (sh_status s) \<Longrightarrow> ws_sealed (sh_status (snd (vs_is_sealed E s :: ('e + bool) \<times> _)))"
  by (simp_all add: vs_is_sealed_def Let_def worker_is_sealed_def request_shutdown_def)

lemma is_sealed_cases:
  obtains status where "vs_is_sealed E s = (Inr (ws_sealed status) :: 'e + bool, s\<lparr>sh_status := status, sh_ticks := Suc (sh_ticks s)\<rparr>)"
    "ws_sealed (sh_status s) \<Longrightarrow> ws_sealed status"
  using is_sealed_result by blast

lemma lock_live_ended:
  assumes "lease_ended E s"
  shows "\<exists>e s'. lock_live E t s = (Inl e, s') \<and> lease_ended E s' \<and> sh_worker s' = sh_worker s \<and>
    ls_poisoned s' = ls_poisoned s \<and> (\<not> ls_poisoned s \<longrightarrow> ws_sealed (sh_status s'))"
proof -
  obtain st1 where a: "vs_is_sealed E s = (Inr (ws_sealed st1) :: VaultError + bool, s\<lparr>sh_status := st1, sh_ticks := Suc (sh_ticks s)\<rparr>)"
    "ws_sealed (sh_status s) \<Longrightarrow> ws_sealed st1" by (rule is_sealed_cases) blast
  let ?s1 = "s\<lparr>sh_status := st1, sh_ticks := Suc (sh_ticks s)\<rparr>"
  have e1: "lease_ended E ?s1" using assms a(2) by (auto simp: lease_ended_def)
  obtain st2 where b: "vs_is_sealed E ?s1 = (Inr (ws_sealed st2) :: VaultError + bool, ?s1\<lparr>sh_status := st2, sh_ticks := Suc (sh_ticks ?s1)\<rparr>)"
    "ws_sealed st1 \<Longrightarrow> ws_sealed st2" by (rule is_sealed_cases [of E ?s1]) auto
  show ?thesis
  proof (cases "ws_sealed st1")
    case True
    then show ?thesis using a(1) e1 by (auto simp: lock_live_def sbind_def slift_def)
  next
    case False
    then have x: "\<forall>n \<ge> sh_ticks s. lease_expires_at (ls_lease s) \<le> instants E n" using assms a(2) by (auto simp: lease_ended_def)
    show ?thesis
    proof (cases "ls_poisoned s")
      case True
      then show ?thesis using a(1) False e1 by (auto simp: lock_live_def sbind_def slift_def)
    next
      case np: False
      have "seal_if_over E t ?s1 = (Inl Sealed, vs_seal (?s1\<lparr>sh_status := st2, sh_ticks := (if ws_sealed st2 then Suc (Suc (sh_ticks s)) else Suc (Suc (Suc (sh_ticks s))))\<rparr>))"
      proof -
        have "lease_expires_at (ls_lease s) \<le> max t (instants E (Suc (Suc (sh_ticks s))))" using x by (simp add: le_max_iff_disj)
        then show ?thesis
          using b(1) by (auto simp: seal_if_over_def lease_over_def sbind_def instant_now_def lease_expired_iff slift_def)
      qed
      then show ?thesis
        using a(1) False np
        by (auto simp: lock_live_def sbind_def slift_def vs_seal_def lease_ended_def request_shutdown_def)
    qed
  qed
qed

lemma clock_sample_ended:
  assumes "lease_ended E s" and "clock_sample E clock s = (r, s')"
  shows "is_ok r" "lease_ended E s'" "sh_worker s' = sh_worker s" "ls_poisoned s' = ls_poisoned s"
    "sh_status s' = sh_status s"
  using assms by (auto simp: clock_sample_def sbind_def instant_now_def system_now_def lease_ended_def)

lemma handle_inner_ended:
  assumes "lease_ended E s"
  shows "\<exists>e s'. handle_inner E wakes fuel caller request clock s = (Inl (Failed e None), s') \<and> lease_ended E s' \<and>
    sh_worker s' = sh_worker s \<and> ls_poisoned s' = ls_poisoned s"
proof (cases "identity_validate caller")
  case (Inr u)
  show ?thesis
  proof (cases "request_validate E (j_request E) request")
    case (Inr u')
    obtain smp s1 where s1: "clock_sample E clock s = (Inr smp :: VaultError + _, s1)" "lease_ended E s1"
      "sh_worker s1 = sh_worker s" "ls_poisoned s1 = ls_poisoned s"
      using clock_sample_ended [OF assms] by (metis is_ok_iff surj_pair)
    from lock_live_ended [OF s1(2), of "snd smp"] show ?thesis
      using s1 Inr \<open>identity_validate caller = Inr u\<close>
      by (auto simp: handle_inner_def sbind_def fallible_def slift_def Let_def)
  qed (use assms Inr in \<open>auto simp: handle_inner_def sbind_def fallible_def slift_def\<close>)
qed (use assms in \<open>auto simp: handle_inner_def sbind_def fallible_def slift_def\<close>)

lemma final_check_ended:
  assumes "lease_ended E s"
  shows "\<exists>s'. final_check E clock (Inl e) s = (Inl (response_error Sealed), s') \<and> sh_worker s' = sh_worker s \<and>
    (\<not> ls_poisoned s \<longrightarrow> ws_sealed (sh_status s'))"
proof -
  obtain smp s1 where s1: "clock_sample E clock s = (Inr smp :: VaultError + _, s1)" "lease_ended E s1"
    "sh_worker s1 = sh_worker s" "ls_poisoned s1 = ls_poisoned s"
    using clock_sample_ended [OF assms] by (metis is_ok_iff surj_pair)
  from lock_live_ended [OF s1(2), of "snd smp"] show ?thesis
    using s1 by (auto simp: final_check_def check_live_def sbind_def)
qed

lemma handle_at_ended:
  assumes "lease_ended E s"
  shows "\<exists>r s'. handle_at E wakes fuel caller request now t s = (Some r, s') \<and> rs_result r = Inl (response_error Sealed) \<and>
    sh_worker s' = sh_worker s \<and> (\<not> ls_poisoned s \<longrightarrow> ws_sealed (sh_status s'))"
proof -
  have e: "lease_ended E (entered s)" using assms by (auto simp: lease_ended_def entered_def)
  obtain x s1 where i: "handle_inner E wakes fuel caller request (request_clock E now t s) (entered s) = (Inl (Failed x None), s1)"
    "lease_ended E s1" "sh_worker s1 = sh_worker s" "ls_poisoned s1 = ls_poisoned s"
    using handle_inner_ended [OF e, of wakes fuel caller request "request_clock E now t s"] by (auto simp: entered_def)
  from final_check_ended [OF i(2), of "request_clock E now t s" "response_error_with_interaction x None"]
  show ?thesis using i by (auto simp: handle_at_unfold delivery_deadline_def)
qed

section \<open>Repeated requests\<close>

lemma preserves_lock_live:
  assumes "readable I"
  shows "preserves I (lock_live E t)"
  using assms
  by (simp add: lock_live_def seal_if_over_def lease_over_def preserves_intros preserves_seal readable_untimed)

definition seen :: "RequestId \<Rightarrow> ServiceState \<Rightarrow> bool" where
  "seen ident s \<longleftrightarrow> ident \<in> rw_set (ls_replay s)"

lemma readable_seen: "readable (seen ident)"
  by (simp add: readable_def seen_def)

lemma consume_seen: "seen ident s \<Longrightarrow> consume ident s = (Inl Replay, s)"
  by (simp add: seen_def consume_def replay_consume_def)

lemma handle_inner_replayed:
  assumes "seen (vr_request_id request) s" and "handle_inner E wakes fuel caller request clock s = (r, s')"
  shows "(\<exists>e. r = Inl (Failed e None)) \<and> same_docs s s' \<and> seen (vr_request_id request) s'"
proof -
  let ?seen = "seen (vr_request_id request)"
  have go: "(\<exists>e. r = Inl (Failed e None)) \<and> same_docs s s' \<and> ?seen s'"
    if "sbind (fallible m) f s = (r, s')" "stays m" "preserves ?seen m" "?seen s"
      "\<And>x s1. m s = (Inr x, s1) \<Longrightarrow> ?seen s1 \<Longrightarrow> f x s1 = (r, s') \<Longrightarrow> (\<exists>e. r = Inl (Failed e None)) \<and> same_docs s1 s' \<and> ?seen s'"
    for m :: "'x service_action" and f :: "'x \<Rightarrow> VaultResponseBody request_action" and s r s'
  proof -
    obtain q s1 where q: "m s = (q, s1)" by fastforce
    have k: "?seen s1" "same_docs s s1" using preservesD [OF that(3) q that(4)] stays_keeps(2) [OF that(2) q] by blast+
    show ?thesis
    proof (cases q)
      case (Inr x)
      then have "f x s1 = (r, s')" using that(1) q by (simp add: sbind_def fallible_def)
      then show ?thesis using that(5) [OF q [unfolded Inr] k(1)] same_docs_trans [OF k(2)] by blast
    qed (use that(1) q k in \<open>auto simp: sbind_def fallible_def\<close>)
  qed
  note p = preserves_clocks(2,3) [OF readable_untimed [OF readable_seen]] preserves_lock_live [OF readable_seen] preserves_basic(2)
  show ?thesis
    using assms(2) unfolding handle_inner_def Let_def
    by (rule go [OF _ stays_slift p(4) assms(1)])
      (erule go [OF _ stays_slift p(4)], assumption,
       erule go [OF _ stays_steps(1) p(1)], assumption,
       erule go [OF _ stays_steps(3) p(3)], assumption,
       erule go [OF _ stays_steps(2) p(2)], assumption,
       auto simp: consume_seen fallible_def)
qed

lemma handle_at_replayed:
  assumes "vr_request_id request \<in> rw_set (ls_replay s)"
  shows "\<exists>r s'. handle_at E wakes fuel caller request now t s = (Some r, s') \<and> \<not> is_ok (rs_result r) \<and> same_docs s s'"
proof -
  have e: "seen (vr_request_id request) (entered s)" using assms by (simp add: seen_def entered_def)
  obtain o1 s1 where i: "handle_inner E wakes fuel caller request (request_clock E now t s) (entered s) = (o1, s1)" by fastforce
  from handle_inner_replayed [OF e i] obtain x where o1: "o1 = Inl (Failed x None)" "same_docs (entered s) s1" by blast
  obtain o2 s2 where f: "final_check E (request_clock E now t s) (Inl (response_error_with_interaction x None)) s1 = (o2, s2)" by fastforce
  from final_check_error [OF f] obtain e' where o2: "o2 = Inl e'" "same_docs s1 s2" by blast
  have "same_docs s s2" using o1(2) o2(2) by (simp add: same_docs_def entered_def)
  then show ?thesis using i o1(1) f o2(1) by (auto simp: handle_at_unfold delivery_deadline_def)
qed

end
