(* ===== verification/Service_Reference.thy ===== *)
theory Service_Reference
  imports Grant_Properties Redaction_Laws Lifecycle_Laws
begin

text \<open>A concrete environment of the service, in which every contract assumed of the external crates holds, and a
  vault in it that holds one secret and one grant of a given permission.  The properties of the service are applied to requests to it.\<close>

section \<open>Codecs\<close>

instance CallerIdentity_ext :: (countable) countable
proof (rule countable_classI)
  fix x y :: "'a CallerIdentity_scheme"
  let ?f = "\<lambda>c :: 'a CallerIdentity_scheme. to_nat
    (ci_platform c, ci_user_id c, ci_application_id c, ci_executable_digest c, ci_signer_id c, CallerIdentity.more c)"
  assume "?f x = ?f y"
  then show "x = y" by simp
qed

instance ApprovalRecord_ext :: (countable) countable
proof (rule countable_classI)
  fix x y :: "'a ApprovalRecord_scheme"
  let ?f = "\<lambda>c :: 'a ApprovalRecord_scheme. to_nat
    (ar_summary c, ar_caller c, ar_scope c, ar_namespace c, ar_address c, ar_permission c, ar_awaited_until c,
     ApprovalRecord.more c)"
  assume "?f x = ?f y"
  then show "x = y" by simp
qed

instance StoredApprovals_ext :: (countable) countable
proof (rule countable_classI)
  fix x y :: "'a StoredApprovals_scheme"
  let ?f = "\<lambda>c :: 'a StoredApprovals_scheme. to_nat (sa_version c, sa_records c, StoredApprovals.more c)"
  assume "?f x = ?f y"
  then show "x = y" by simp
qed

section \<open>The environment\<close>

definition reference_service :: "(cdoc, unit, unit) service_env" where
  "reference_service = clocked_env.extend (store_env.extend reference_store
     \<lparr>instants = (\<lambda>_. 5), system_times = (\<lambda>_. 0), interrupts = (\<lambda>_. False)\<rparr>)
     \<lparr>codecs = reference_codecs,
      j_pending = count_json,
      j_request = \<lparr>to_vec = (\<lambda>_. Inr []), from_slice = (\<lambda>_. Inl [])\<rparr>,
      j_permission = \<lparr>to_vec = (\<lambda>p. Inr (pm_id p)), from_slice = (\<lambda>_. Inl [])\<rparr>,
      j_portable = \<lparr>to_vec = (\<lambda>_. Inl []), from_slice = (\<lambda>_. Inl [])\<rparr>,
      service_entropy = (\<lambda>n k. Inr (replicate k (char_of n))), lock_memory = (\<lambda>_. Inr ()),
      keyring_peer = (\<lambda>_. Inl AuthorizationRequired), personal_decode = (\<lambda>_ _. None), personal_encode = (\<lambda>_. None),
      hardware_backend = ''tpm''\<rparr>"

lemmas reference_service_defs = reference_service_def clocked_env.defs store_env.defs reference_store_def doc_env.defs
  reference_env_def

lemma service_store_ok: "store_env_ok reference_service cdoc_view"
proof -
  have "doc_env_ok reference_service cdoc_view"
    using reference_env_ok(1) by (simp add: doc_env_ok_def reference_service_defs)
  moreover have "hash_env_ok reference_service"
    using reference_env_ok(2) by (simp add: hash_env_ok_def reference_service_defs)
  ultimately show ?thesis
    using reference_store_ok by (simp add: store_env_ok_def reference_service_defs)
qed

lemma service_store_total: "provider_total reference_service"
proof -
  have "sign_manifest reference_service ds r = sign_manifest reference_store ds r" for ds r
    by (simp add: sign_manifest_def manifest_new_def Let_def inventory_digest_def digest_def reference_service_defs)
  then show ?thesis using reference_store_total by (simp add: provider_total_def reference_service_defs)
qed

lemma service_calm: "calm reference_service n"
  by (simp add: calm_def reference_service_defs)

lemma service_hash: "sha256 reference_service x = take 32 (rev x @ replicate 32 (CHR 0x00))"
    "b64_encode reference_service x = x"
  by (simp_all add: reference_service_defs)

lemma service_fields [simp]: "codecs reference_service = reference_codecs" "instants reference_service n = 5"
    "system_times reference_service n = 0" "\<not> interrupts reference_service n"
  by (simp_all add: reference_service_defs)

section \<open>A vault with one grant and one secret\<close>

definition service_grant :: "GrantPermission \<Rightarrow> AccessGrant" where
  "service_grant p = \<lparr>ag_version = GRANT_VERSION, ag_caller_fingerprint = fingerprint reference_service reference_caller,
     ag_target_digest = grant_target_digest reference_service (Kind LocalKeyring), ag_permissions = {|p|},
     ag_expires_at = None, ag_single_use = False\<rparr>"

definition service_grant_address :: "GrantPermission \<Rightarrow> SecretAddress" where
  "service_grant_address p = Local (''grant/'' @ fingerprint reference_service reference_caller @ ''/'' @
     grant_target_digest reference_service (Kind LocalKeyring) @ ''/'' @ permission_name p) None"

definition service_grant_bytes :: "GrantPermission \<Rightarrow> bytes" where
  "service_grant_bytes p = projr (to_vec (j_grant reference_codecs) (service_grant p))"

lemma service_grant_read: "from_slice (j_grant reference_codecs) (service_grant_bytes p) = Inr (service_grant p)"
proof -
  have "json_ok (j_grant reference_codecs)" by (simp add: reference_codecs_def)
  then show ?thesis unfolding json_ok_def service_grant_bytes_def by (metis sum.sel(2))
qed

definition service_put_grant :: "GrantPermission \<Rightarrow> DocumentOperation list" where
  "service_put_grant p = [Put (service_grant_address p) (service_grant_bytes p) None]"

definition service_put_secret :: "DocumentOperation list" where
  "service_put_secret = [Put (Local ''svc'' None) ''secret'' None]"

definition service_grants :: "GrantPermission \<Rightarrow> entries" where
  "service_grants p = fold (apply_entry reference_service) (service_put_grant p) Map.empty"

definition service_secrets :: entries where
  "service_secrets = fold (apply_entry reference_service) service_put_secret Map.empty"

lemma service_ids:
  "document_id reference_service Authorization GRANT_DOCUMENT_NAMESPACE \<noteq> document_id reference_service LocalKeyring ''p''"
  by (simp add: document_id_def document_id_transcript_def reference_service_defs lp_def DOCUMENT_ID_DOMAIN_def
      GRANT_DOCUMENT_NAMESPACE_def)

definition service_worker :: "GrantPermission \<Rightarrow> StoreWorker" where
  "service_worker p = (let w0 = empty_worker reference_service;
       w1 = snd (op_mutate (document_ops reference_service Authorization GRANT_DOCUMENT_NAMESPACE) (service_put_grant p) (Service Expiry) 1 w0)
     in snd (op_mutate (document_ops reference_service LocalKeyring ''p'') service_put_secret (Service Expiry) 1 w1))"

lemma service_worker_holds:
  "holds reference_service cdoc_view Authorization GRANT_DOCUMENT_NAMESPACE (service_worker p) (service_grants p)"
  "holds reference_service cdoc_view LocalKeyring ''p'' (service_worker p) service_secrets"
  "store_room reference_service LocalKeyring ''p'' (service_worker p) 5"
proof -
  let ?E = reference_service and ?G = "document_id reference_service Authorization GRANT_DOCUMENT_NAMESPACE"
  let ?P = "document_id reference_service LocalKeyring ''p''" and ?w = "empty_worker reference_service"
  note room = empty_worker_room [OF service_store_ok service_store_total service_calm]
  have h: "holds ?E cdoc_view Authorization GRANT_DOCUMENT_NAMESPACE ?w Map.empty" "holds ?E cdoc_view LocalKeyring ''p'' ?w Map.empty"
    by (rule empty_worker_holds [OF service_store_ok], simp add: PERSONAL_SECRET_NAMESPACE_def)+
  have fit: "deadlines_fit (service_grants p)" "deadlines_fit service_secrets"
    by (auto simp: service_grants_def service_secrets_def service_put_grant_def service_put_secret_def deadlines_fit_def
        split: if_splits)
  from live_document_store.mutate_live [OF h(1) room fit(1) [unfolded service_grants_def], where n = 5 and provenance = "Service Expiry" and now = 1]
  obtain w1 where w1: "op_mutate (document_ops ?E Authorization GRANT_DOCUMENT_NAMESPACE) (service_put_grant p) (Service Expiry) 1 ?w = (Inr (), w1)"
    "store_room ?E Authorization GRANT_DOCUMENT_NAMESPACE w1 5" by (auto simp: service_put_grant_def)
  have g1: "holds ?E cdoc_view Authorization GRANT_DOCUMENT_NAMESPACE w1 (service_grants p)"
    using document_store.mutate_ok [OF h(1) w1(1)] by (simp add: service_grants_def)
  have run1: "store_mutate ?E ?G Authorization GRANT_DOCUMENT_NAMESPACE (service_put_grant p) (context_of ?E (Service Expiry) 1) ?w = (Inr (), w1)"
    using w1(1) by (simp add: document_ops_def)
  have "absent (sw_db ?w) (sw_verified ?w) ?P" by (simp add: absent_def empty_worker_def Let_def)
  then have p1: "holds ?E cdoc_view LocalKeyring ''p'' w1 Map.empty" "absent (sw_db w1) (sw_verified w1) ?P"
    using store_mutate_other [OF h(2) service_ids run1] by blast+
  have "consistent ?E w1" using w1(2) by (simp add: store_room_def)
  then have "store_room ?E LocalKeyring ''p'' w1 (length service_put_secret + 5)"
    by (rule absent_room [OF service_store_total _ p1(2)]) (simp add: service_put_secret_def)
  from live_document_store.mutate_live [OF p1(1) this fit(2) [unfolded service_secrets_def], where provenance = "Service Expiry" and now = 1]
  obtain w2 where w2: "op_mutate (document_ops ?E LocalKeyring ''p'') service_put_secret (Service Expiry) 1 w1 = (Inr (), w2)"
    "store_room ?E LocalKeyring ''p'' w2 5" by blast
  have "holds ?E cdoc_view LocalKeyring ''p'' w2 service_secrets"
    using document_store.mutate_ok [OF p1(1) w2(1)] by (simp add: service_secrets_def)
  moreover have "holds ?E cdoc_view Authorization GRANT_DOCUMENT_NAMESPACE w2 (service_grants p)"
    by (rule store_mutate_other(1) [OF g1 service_ids [symmetric]]) (use w2(1) in \<open>simp add: document_ops_def\<close>)
  moreover have "w2 = service_worker p" using w1(1) w2(1) by (simp add: service_worker_def)
  ultimately show "holds reference_service cdoc_view Authorization GRANT_DOCUMENT_NAMESPACE (service_worker p) (service_grants p)"
    "holds reference_service cdoc_view LocalKeyring ''p'' (service_worker p) service_secrets"
    "store_room reference_service LocalKeyring ''p'' (service_worker p) 5" using w2(2) by simp_all
qed


definition service_lease :: UnsealLease where
  "service_lease = \<lparr>l_idle_timeout = 60 * NANOS, idle_deadline = 60, absolute_deadline = 60,
     idle_expires_at = 100, absolute_expires_at = 100\<rparr>"

definition service_state :: "GrantPermission \<Rightarrow> ServiceState" where
  "service_state p = \<lparr>sh_status = \<lparr>ws_sealed = False, ws_deadline = Some 100, ws_shutdown_complete = False\<rparr>,
     sh_worker = service_worker p, sh_ticks = 0, as_valid_until = None, ls_poisoned = False, ls_lease = service_lease,
     ls_replay = replay_new, ls_approvals = approvals_default, ls_granted_permissions = [], ls_last_purge_at = 0, ls_rng = 0\<rparr>"

definition service_request :: VaultRequest where
  "service_request = \<lparr>vr_version = PROTOCOL_VERSION, vr_request_id = replicate 16 (CHR ''q''), vr_application = None,
     vr_action = GetAction ''p'' \<lparr>wa_item = ''svc'', wa_field = None\<rparr>\<rparr>"

lemma service_request_valid: "request_validate reference_service (j_request reference_service) service_request = Inr ()"
  by (simp add: request_validate_def validate_fields_def service_request_def optionally_def validate_namespace_def
      MAX_NAMESPACE_BYTES_def wire_address_validate_def wire_address_resolve_def address_new_def bounded_write_def
      MAX_MESSAGE_BYTES_def reference_service_defs validate_address_component_def MAX_ADDRESS_COMPONENT_BYTES_def)

definition service_requirement :: GrantRequirement where
  "service_requirement = local_requirement LocalKeyring ''p'' (Some (Local ''svc'' None)) GGet"

lemma service_reads: "read_requirement None (vr_action service_request) =
    Some (service_requirement, LocalKeyring, ''p'', Local ''svc'' None)"
  by (simp add: read_requirement_def service_request_def service_requirement_def local_requirement_def namespace_scope_def
      SECRET_SERVICE_NAMESPACE_def NETWORK_MANAGER_NAMESPACE_def)

definition service_address_of :: "GrantPermission \<Rightarrow> GrantTarget \<Rightarrow> SecretAddress" where
  "service_address_of p t = Local (''grant/'' @ fingerprint reference_service reference_caller @ ''/'' @
     grant_target_digest reference_service t @ ''/'' @ permission_name p) None"

lemma service_addresses:
  "grant_address reference_service (fingerprint reference_service reference_caller) (grant_target_digest reference_service t) p =
     Inr (service_address_of p t)"
  by (cases p) (simp_all add: grant_address_ok service_hash fingerprint_def grant_target_digest_def permission_name_def service_address_of_def)

lemma service_keys:
  assumes "p \<in> {GGet, GList}"
    and "t \<in> {Entry LocalKeyring ''p'' (Local ''svc'' None), Namespace LocalKeyring ''p''}"
  shows "storage_key reference_service (service_address_of p t) \<noteq> storage_key reference_service (service_grant_address p)"
  using assms
  by (auto simp: storage_key_def service_hash service_address_of_def service_grant_address_def update_digest_string_def
      update_digest_option_def fingerprint_def grant_target_digest_def GRANT_TARGET_DOMAIN_def tags_def append_digest_bytes_def
      permission_name_def numeral_3_eq_3)

lemma manager_keys:
  "storage_key reference_service (service_address_of GManagePermissions t) \<noteq> storage_key reference_service (service_grant_address GList)"
  by (simp add: storage_key_def service_hash service_address_of_def service_grant_address_def update_digest_string_def
      update_digest_option_def permission_name_def)

lemma service_lookup:
  assumes "p \<in> {GGet, GList}" and "a \<in> {None, Some (Local ''svc'' None)}"
  shows "lookup_grant reference_service reference_codecs (service_grants p) reference_caller (local_requirement LocalKeyring ''p'' a p) now =
    Inr (Reusable None)"
proof -
  have "service_address_of p (Kind LocalKeyring) = service_grant_address p" by (simp add: service_address_of_def service_grant_address_def)
  then have hit: "read_value reference_service (service_grants p) now (service_address_of p (Kind LocalKeyring)) = Inr (Some (service_grant_bytes p))"
    by (simp add: service_grants_def service_put_grant_def read_value_def read_entry_def live_def)
  have miss: "read_value reference_service (service_grants p) now (service_address_of p t) = Inr None"
    if "t \<in> {Entry LocalKeyring ''p'' (Local ''svc'' None), Namespace LocalKeyring ''p''}" for t
    using service_keys [OF assms(1) that] by (simp add: service_grants_def service_put_grant_def read_value_def read_entry_def)
  show ?thesis
    using service_grant_read [of p] assms(2)
    by (auto simp: lookup_grant_def target_digests_def requirement_targets_def local_requirement_def service_addresses hit miss
        grant_satisfies_def service_grant_def live_def)
qed

lemma service_no_manager:
  "lookup_grant reference_service reference_codecs (service_grants GList) reference_caller manager_requirement now = Inr NoGrant"
proof -
  have "read_value reference_service (service_grants GList) now (service_address_of GManagePermissions t) = Inr None" for t
    using manager_keys [of t] by (simp add: service_grants_def service_put_grant_def read_value_def read_entry_def)
  then show ?thesis
    by (simp add: lookup_grant_def target_digests_def requirement_targets_def manager_requirement_def service_addresses)
qed

lemma service_going:
  "going reference_service cdoc_view (request_clock reference_service 7 5 ((service_state p)\<lparr>sh_ticks := n\<rparr>)) 50 (service_grants p)
     LocalKeyring ''p'' service_secrets ((service_state p)\<lparr>sh_ticks := n\<rparr>)"
  using service_worker_holds store_room_less [OF service_worker_holds(3)]
  by (simp add: going_def calm_time_def in_time_def service_state_def handle_holds_def service_lease_def lease_expires_at_def
      sample_n_def sample_at_def request_clock_def request_time_new_def instant_checked_add_def NANOS_def
      system_duration_since_def checked_add64_def as_secs_def saturating_add64_def duration_saturating_add_def DURATION_MAX_def)

section \<open>One request to it\<close>

lemma service_wall: "wall_at reference_service (request_clock reference_service 7 5 s) n = 7"
  by (simp add: wall_at_def request_clock_def sample_at_def request_time_new_def system_duration_since_def NANOS_def
      duration_saturating_add_def DURATION_MAX_def as_secs_def saturating_add64_def)

lemma service_served:
  "\<exists>r s'. handle_at reference_service wakes fuel reference_caller service_request 7 5 ((service_state GGet)\<lparr>sh_ticks := n\<rparr>) = (Some r, s') \<and>
     rs_result r = Inr (SecretBody (Some ''secret''))"
proof (rule handle_read_served [where e = None and e' = None, OF service_going reference_caller_valid service_request_valid])
  show "vr_request_id service_request \<notin> rw_set (ls_replay ((service_state GGet)\<lparr>sh_ticks := n\<rparr>))"
    by (simp add: service_state_def replay_new_def)
  show "read_requirement (vr_application service_request) (vr_action service_request) =
      Some (service_requirement, LocalKeyring, ''p'', Local ''svc'' None)"
    using service_reads by (simp add: service_request_def)
  show "service_secrets (storage_key reference_service (Local ''svc'' None)) = Some (Local ''svc'' None, ''secret'', None)"
    by (simp add: service_secrets_def service_put_secret_def)
qed (simp_all add: service_requirement_def service_lookup live_def)

definition history_request :: VaultRequest where
  "history_request = service_request\<lparr>vr_action := ListHistoryAction ''p'' None None 4\<rparr>"

lemma history_request_valid: "request_validate reference_service (j_request reference_service) history_request = Inr ()"
  by (simp add: request_validate_def validate_fields_def history_request_def service_request_def optionally_def validate_namespace_def
      MAX_NAMESPACE_BYTES_def bounded_write_def MAX_MESSAGE_BYTES_def reference_service_defs validate_history_limit_def
      MAX_HISTORY_PAGE_SIZE_def)

lemma history_served:
  "\<exists>r s' shown next. handle_at reference_service wakes fuel reference_caller history_request 7 5 ((service_state GList)\<lparr>sh_ticks := n\<rparr>) = (Some r, s') \<and>
     rs_result r = Inr (HistoryBody shown next)"
proof -
  let ?s = "(service_state GList)\<lparr>sh_ticks := n\<rparr>" and ?act = "ListHistoryAction ''p'' None None 4"
  let ?c = "request_clock reference_service 7 5 ?s"
  have act: "vr_action history_request = ?act" "vr_application history_request = None" "vr_request_id history_request = vr_request_id service_request"
    by (simp_all add: history_request_def service_request_def)
  have kind: "LocalKeyring = namespace_scope ''p''"
    by (simp add: namespace_scope_def SECRET_SERVICE_NAMESPACE_def NETWORK_MANAGER_NAMESPACE_def)
  have run: "\<exists>body s''. execute_action reference_service reference_caller (vr_action history_request) (lease_deadlines s')
      (provenance_caller reference_caller (vr_application history_request))
      (case vr_application history_request of None \<Rightarrow> None | Some c \<Rightarrow> ac_base_dir c) ?c s' = (Inr (body, True), s'') \<and>
      (\<exists>shown next. body = HistoryBody shown next) \<and> calm_time reference_service ?c 50 s'' \<and> still_valid reference_service ?c s''"
    if "going reference_service cdoc_view ?c 50 (service_grants GList) LocalKeyring ''p'' service_secrets s'"
      "still_valid reference_service ?c s'" for s'
    using execute_history_step [OF that kind, of reference_caller None None 4 "lease_deadlines s'"
        "provenance_caller reference_caller None" None]
    by (auto simp: act service_lookup service_no_manager live_def)
  have fresh: "vr_request_id history_request \<notin> rw_set (ls_replay ?s)" by (simp add: service_state_def replay_new_def)
  have other: "dispatch reference_service wakes fuel reference_caller (vr_application history_request) (vr_action history_request) approval provenance now' c s =
      other_action reference_service reference_caller (vr_application history_request) (vr_action history_request) approval provenance now' c s"
    for approval provenance now' c s
    by (simp add: act dispatch_def)
  from handle_served [where P = "\<lambda>body. \<exists>shown next. body = HistoryBody shown next", OF service_going reference_caller_valid history_request_valid
      fresh other _ run] show ?thesis by auto
qed

end
