(* ===== verification/Approval_Laws.thy ===== *)
theory Approval_Laws
  imports Approvals Vault_Store Grant_Laws
begin

text \<open>
  Laws of the approval queue.  Its operations are the steps of a relation; whatever their
  order, the queue holds only pending requests and stays within its bounds, and no caller
  creates requests faster than the rate allows.  A queue written through to its document is
  restored from it.
\<close>

section \<open>The queue invariant\<close>

definition is_pending :: "ApprovalRecord \<Rightarrow> bool" where
  "is_pending r = (case pm_state (ar_summary r) of Pending _ _ _ _ _ \<Rightarrow> True | Granted _ _ _ \<Rightarrow> False)"

definition of_caller :: "'z hash_env_scheme \<Rightarrow> bytes \<Rightarrow> ApprovalRecord list \<Rightarrow> ApprovalRecord list" where
  "of_caller H fp = filter (\<lambda>r. fingerprint H (ar_caller r) = fp)"

definition created_by :: "bytes \<Rightarrow> (instant \<times> bytes) list \<Rightarrow> (instant \<times> bytes) list" where
  "created_by fp = filter (\<lambda>(_, caller). caller = fp)"

definition queue_wf :: "'z hash_env_scheme \<Rightarrow> PendingApprovals \<Rightarrow> bool" where
  "queue_wf H pa \<longleftrightarrow>
     list_all is_pending (pa_records pa) \<and> length (pa_records pa) \<le> MAX_PENDING_APPROVALS \<and>
     (\<forall>fp. length (of_caller H fp (pa_records pa)) \<le> MAX_PENDING_PER_CALLER) \<and>
     length (pa_resolved pa) \<le> MAX_PENDING_APPROVALS \<and>
     length (pa_recent_creations pa) \<le> MAX_NEW_APPROVALS \<and>
     (\<forall>fp. length (created_by fp (pa_recent_creations pa)) \<le> MAX_NEW_APPROVALS_PER_CALLER)"

lemma queue_wf_default: "queue_wf H approvals_default"
  by (simp add: queue_wf_def approvals_default_def of_caller_def created_by_def)

lemma push_resolved_fields [simp]:
  "pa_records (push_resolved i f st t pa) = pa_records pa"
  "pa_revision (push_resolved i f st t pa) = pa_revision pa"
  "pa_recent_creations (push_resolved i f st t pa) = pa_recent_creations pa"
  "pa_unsaved (push_resolved i f st t pa) = pa_unsaved pa"
  by (simp_all add: push_resolved_def Let_def)

lemma push_resolved_length:
  "length (pa_resolved pa) \<le> MAX_PENDING_APPROVALS \<Longrightarrow>
     length (pa_resolved (push_resolved i f st t pa)) \<le> MAX_PENDING_APPROVALS"
  by (simp add: push_resolved_def Let_def MAX_PENDING_APPROVALS_def)

definition push_expired :: "'z hash_env_scheme \<Rightarrow> u64 \<Rightarrow> ApprovalRecord \<Rightarrow> PendingApprovals \<Rightarrow> PendingApprovals" where
  "push_expired H now r pa = (case newly_expired now r of
      None \<Rightarrow> pa
    | Some expires_at \<Rightarrow> push_resolved (pm_id (ar_summary r)) (fingerprint H (ar_caller r)) WaitExpired
        (saturating_add64 expires_at APPROVAL_TTL_SECONDS) pa)"

lemma push_expired_fields:
  "pa_records (fold (push_expired H now) rs pa) = pa_records pa"
  "pa_recent_creations (fold (push_expired H now) rs pa) = pa_recent_creations pa"
  "pa_revision (fold (push_expired H now) rs pa) = pa_revision pa"
  "pa_unsaved (fold (push_expired H now) rs pa) = pa_unsaved pa"
  by (induction rs arbitrary: pa) (simp_all add: push_expired_def split: option.split)

lemma push_expired_length:
  "length (pa_resolved pa) \<le> MAX_PENDING_APPROVALS \<Longrightarrow>
     length (pa_resolved (fold (push_expired H now) rs pa)) \<le> MAX_PENDING_APPROVALS"
  by (induction rs arbitrary: pa) (auto simp: push_expired_def push_resolved_length split: option.split)

lemma purge_fields:
  "pa_records (approvals_purge_expired H now pa) = filter (still_pending now) (pa_records pa)"
  "pa_recent_creations (approvals_purge_expired H now pa) = pa_recent_creations pa"
  "pa_unsaved (approvals_purge_expired H now pa) \<longleftrightarrow>
     pa_unsaved pa \<or> filter (still_pending now) (pa_records pa) \<noteq> pa_records pa"
  by (auto simp: approvals_purge_expired_def Let_def push_expired_def [symmetric, abs_def] push_expired_fields
      filter_id_conv dest: length_filter_less [of _ _ "still_pending now"])

lemma purge_resolved:
  "length (pa_resolved pa) \<le> MAX_PENDING_APPROVALS \<Longrightarrow>
     length (pa_resolved (approvals_purge_expired H now pa)) \<le> MAX_PENDING_APPROVALS"
  by (auto simp: approvals_purge_expired_def Let_def push_expired_def [symmetric, abs_def]
      intro!: le_trans [OF length_filter_le] push_expired_length)

lemma of_caller_le: "length (of_caller H fp (filter f rs)) \<le> length (of_caller H fp rs)"
  unfolding of_caller_def by (induction rs) auto

lemma queue_wf_records:
  assumes "queue_wf H pa" and "set (pa_records pa') \<subseteq> set (pa_records pa)"
    and "length (pa_records pa') \<le> length (pa_records pa)"
    and "\<And>fp. length (of_caller H fp (pa_records pa')) \<le> length (of_caller H fp (pa_records pa))"
    and "length (pa_resolved pa') \<le> MAX_PENDING_APPROVALS"
    and "pa_recent_creations pa' = pa_recent_creations pa"
  shows "queue_wf H pa'"
  using assms le_trans unfolding queue_wf_def list_all_iff by (metis subsetD)

lemma queue_wf_purge:
  assumes "queue_wf H pa"
  shows "queue_wf H (approvals_purge_expired H now pa)"
  by (rule queue_wf_records [OF assms])
    (use assms in \<open>auto simp: purge_fields purge_resolved queue_wf_def intro: of_caller_le\<close>)

lemma of_caller_split:
  "length (of_caller H fp rs) = length (of_caller H fp (take i rs)) + length (of_caller H fp (drop i rs))"
  unfolding of_caller_def by (metis append_take_drop_id filter_append length_append)

lemma of_caller_remove:
  "length (of_caller H fp (take i rs @ drop (Suc i) rs)) \<le> length (of_caller H fp rs)"
proof (cases "drop i rs")
  case Nil
  then show ?thesis using of_caller_split [of H fp rs i] by (simp add: of_caller_def)
next
  case (Cons x xs)
  then have "drop (Suc i) rs = xs" by (metis drop_Suc drop_tl list.sel(3))
  then show ?thesis using of_caller_split [of H fp rs i] Cons by (simp add: of_caller_def)
qed

lemma queue_wf_resolve:
  assumes "queue_wf H pa"
  shows "queue_wf H (approvals_changed (push_resolved i f st t (remove_record n pa)))"
  by (rule queue_wf_records [OF assms])
    (use assms in \<open>auto simp: approvals_changed_def remove_record_def push_resolved_length queue_wf_def
      dest: in_set_takeD in_set_dropD intro: of_caller_remove\<close>)

lemma of_caller_update:
  assumes "n < length rs" and "ar_caller r' = ar_caller (rs ! n)"
  shows "length (of_caller H fp (rs[n := r'])) = length (of_caller H fp rs)"
proof -
  have "rs = take n rs @ rs ! n # drop (Suc n) rs" using assms(1) by (simp add: id_take_nth_drop)
  then have "length (of_caller H fp rs) = length (of_caller H fp (take n rs @ rs ! n # drop (Suc n) rs))" by simp
  then show ?thesis
    using assms by (simp add: upd_conv_take_nth_drop of_caller_def)
qed

lemma queue_wf_await:
  assumes "queue_wf H pa" and "n < length (pa_records pa)"
  shows "queue_wf H (pa\<lparr>pa_records := (pa_records pa)[n := (pa_records pa ! n)\<lparr>ar_awaited_until := t\<rparr>]\<rparr>)"
proof -
  have "is_pending ((pa_records pa ! n)\<lparr>ar_awaited_until := t\<rparr>)"
    using assms by (simp add: queue_wf_def is_pending_def list_all_iff)
  then show ?thesis
    using assms of_caller_update [OF assms(2), of "(pa_records pa ! n)\<lparr>ar_awaited_until := t\<rparr>" H]
    by (auto simp: queue_wf_def list_all_iff dest!: subsetD [OF set_update_subset_insert])
qed

lemma queue_wf_awaited: "queue_wf H pa \<Longrightarrow> queue_wf H (awaited H caller ident until pa)"
  by (auto simp: awaited_def Let_def split: option.splits dest: position_of_Some intro!: queue_wf_await)

lemma created_by_le: "length (created_by fp (recent_window t rs)) \<le> length (created_by fp rs)"
  unfolding created_by_def recent_window_def by (induction rs) auto

lemma queue_wf_window:
  "queue_wf H pa \<Longrightarrow> queue_wf H (pa\<lparr>pa_recent_creations := recent_window t (pa_recent_creations pa)\<rparr>)"
  unfolding queue_wf_def
  by (auto simp: recent_window_def intro: le_trans [OF length_filter_le] le_trans [OF created_by_le [unfolded recent_window_def]])

text \<open>What an attempt to create a request does to the queue: nothing beyond dropping what has
  expired and what left the rate window, a longer wait for an existing request, or one new
  request within all bounds.\<close>

lemma create_at_cases:
  assumes "create_at H d1 d2 c now t pa = (r, pa')"
  obtains (refused) e where "r = Inl e"
      "pa' = approvals_purge_expired H now pa \<or>
       pa' = (approvals_purge_expired H now pa)\<lparr>pa_recent_creations := recent_window t (pa_recent_creations pa)\<rparr>"
  | (existing) n where "n < length (pa_records (approvals_purge_expired H now pa))"
      "same_request H c (pa_records (approvals_purge_expired H now pa) ! n)"
      "r = Inr \<lparr>ir_id = pm_id (ar_summary (pa_records (approvals_purge_expired H now pa) ! n)),
        ir_expires_at = pending_expires_at (pm_state (ar_summary (pa_records (approvals_purge_expired H now pa) ! n)))\<rparr>"
      "pa' = (approvals_purge_expired H now pa)\<lparr>pa_records :=
        (pa_records (approvals_purge_expired H now pa))[n := (pa_records (approvals_purge_expired H now pa) ! n)\<lparr>
          ar_awaited_until := awaited_max (ar_awaited_until (pa_records (approvals_purge_expired H now pa) ! n))
            (t + REQUESTER_GRACE)\<rparr>]\<rparr>"
  | (new) expires_at address id_bytes challenge where
      "\<forall>q\<in>set (pa_records (approvals_purge_expired H now pa)). \<not> same_request H c q"
      "checked_add64 now APPROVAL_TTL_SECONDS = Some expires_at" "cd_address c = Some address" "cd_operation c \<noteq> ClearOp"
      "\<not> approval_limited H (fingerprint H (cd_caller c)) ((approvals_purge_expired H now pa)
        \<lparr>pa_recent_creations := recent_window t (pa_recent_creations pa)\<rparr>)"
      "d1 = Inr id_bytes" "d2 = Inr challenge"
      "r = Inr \<lparr>ir_id = permission_ident H id_bytes, ir_expires_at = expires_at\<rparr>"
      "pa' = (approvals_purge_expired H now pa)\<lparr>
        pa_records := pa_records (approvals_purge_expired H now pa) @ [\<lparr>ar_summary =
            pending_summary c address (permission_ident H id_bytes) challenge now expires_at,
          ar_caller = cd_caller c, ar_scope = cd_scope c, ar_namespace = cd_namespace c,
          ar_address = cd_address c, ar_permission = cd_permission c,
          ar_awaited_until = Some (t + REQUESTER_GRACE)\<rparr>],
        pa_recent_creations := recent_window t (pa_recent_creations pa) @ [(t, fingerprint H (cd_caller c))],
        pa_revision := pa_revision (approvals_purge_expired H now pa) + 1, pa_unsaved := True\<rparr>"
proof -
  let ?p = "approvals_purge_expired H now pa"
  let ?q = "?p\<lparr>pa_recent_creations := recent_window t (pa_recent_creations pa)\<rparr>"
  show thesis
  proof (cases "position_of (same_request H c) (pa_records ?p)")
    case (Some n)
    with assms show thesis using position_of_Some [OF Some]
      by (auto simp: create_at_def sbind_def slift_def purge_fields guard_def
          split: sum.splits option.splits if_splits intro: refused existing)
  next
    case None
    then have none: "\<forall>q\<in>set (pa_records ?p). \<not> same_request H c q" by (simp add: position_of_None)
    from assms None show thesis
      by (auto simp: create_at_def sbind_def slift_def purge_fields(2) guard_def Let_def map_err_def
          split: sum.splits option.splits if_splits intro: refused new [OF none])
  qed
qed

lemma queue_wf_create:
  assumes "queue_wf H pa" and "create_at H d1 d2 c now t pa = (r, pa')"
  shows "queue_wf H pa'"
  using assms(2)
proof (cases rule: create_at_cases)
  case refused
  then show ?thesis
    using queue_wf_purge [OF assms(1), of now] queue_wf_window [OF queue_wf_purge [OF assms(1), of now], of t]
    by (auto simp: purge_fields)
next
  case (existing n)
  then show ?thesis using queue_wf_await [OF queue_wf_purge [OF assms(1)]] by simp
next
  case (new expires_at address id_bytes challenge)
  let ?p = "approvals_purge_expired H now pa"
  have w: "queue_wf H (?p\<lparr>pa_recent_creations := recent_window t (pa_recent_creations pa)\<rparr>)"
    using queue_wf_window [OF queue_wf_purge [OF assms(1), of now], of t] by (simp add: purge_fields)
  show ?thesis using w new(5,9)
    by (auto simp: queue_wf_def approval_limited_def of_caller_def created_by_def is_pending_def pending_summary_def)
qed

lemma deny_cases:
  assumes "deny H ident now pa = (r, pa')"
  shows "pa' = approvals_purge_expired H now pa \<or>
    (\<exists>n f t. pa' = approvals_changed (push_resolved ident f WaitDenied t (remove_record n (approvals_purge_expired H now pa))))"
  using assms
  by (auto simp: deny_def sbind_def slift_def sread_def split: sum.splits PermissionState.splits)

section \<open>Steps\<close>

text \<open>One operation on the queue: dropping what has expired (as listing and asking for a status
  do), creating, waiting, denying, removing an approved request, a change of the grants, and a
  completed save.\<close>

inductive approval_step :: "'z hash_env_scheme \<Rightarrow> PendingApprovals \<Rightarrow> PendingApprovals \<Rightarrow> bool"
  for H :: "'z hash_env_scheme" where
  purged: "approval_step H pa (approvals_purge_expired H now pa)"
| created: "create_at H d1 d2 c now t pa = (r, pa') \<Longrightarrow> approval_step H pa pa'"
| waited: "approval_step H pa (awaited H caller ident until pa)"
| denied: "deny H ident now pa = (r, pa') \<Longrightarrow> approval_step H pa pa'"
| granted: "approval_step H pa (approvals_changed (push_resolved ident f WaitGranted until (remove_record n pa)))"
| bumped: "approval_step H pa (approvals_changed pa)"
| saved: "approval_step H pa (pa\<lparr>pa_unsaved := False\<rparr>)"

lemma queue_wf_changed: "queue_wf H pa \<Longrightarrow> queue_wf H (approvals_changed pa)"
  by (simp add: queue_wf_def approvals_changed_def)

lemma queue_wf_saved: "queue_wf H pa \<Longrightarrow> queue_wf H (pa\<lparr>pa_unsaved := b\<rparr>)"
  by (simp add: queue_wf_def)

lemma queue_wf_step: "approval_step H pa pa' \<Longrightarrow> queue_wf H pa \<Longrightarrow> queue_wf H pa'"
proof (induction rule: approval_step.induct)
  case (denied ident now pa r pa')
  then show ?case using deny_cases [OF denied(1)] queue_wf_resolve queue_wf_purge by metis
qed (auto intro: queue_wf_purge queue_wf_create queue_wf_awaited queue_wf_resolve queue_wf_changed queue_wf_saved)

lemma queue_wf_steps: "(approval_step H)\<^sup>*\<^sup>* pa pa' \<Longrightarrow> queue_wf H pa \<Longrightarrow> queue_wf H pa'"
  by (induction rule: rtranclp_induct) (auto intro: queue_wf_step)

text \<open>Every operation of the queue is such steps.\<close>

lemma list_at_steps: "list_at H now t pa = (l, pa') \<Longrightarrow> (approval_step H)\<^sup>*\<^sup>* pa pa'"
  by (auto simp: list_at_def Let_def intro: approval_step.purged)

lemma status_steps: "approval_status H caller ident now pa = (st, pa') \<Longrightarrow> (approval_step H)\<^sup>*\<^sup>* pa pa'"
  by (auto simp: approval_status_def Let_def intro: approval_step.purged)

lemma save_steps: "approvals_save S J now pa s = (r, pa', s') \<Longrightarrow> (approval_step H)\<^sup>*\<^sup>* pa pa'"
  by (auto simp: approvals_save_def split: if_splits sum.splits prod.splits intro: approval_step.saved)

lemma approve_steps:
  assumes "approve H S C K ident sig lifetime now provenance pa s = (r, pa', s')"
  shows "(approval_step H)\<^sup>*\<^sup>* pa pa'"
proof -
  have p: "(approval_step H)\<^sup>*\<^sup>* pa (approvals_purge_expired H now pa)"
    by (rule r_into_rtranclp) (rule approval_step.purged)
  from assms show ?thesis
    by (auto simp: approve_def Let_def split: sum.splits prod.splits
        intro: p rtranclp.rtrancl_into_rtrancl [OF p approval_step.granted])
qed

section \<open>The rate of creation\<close>

text \<open>A run of the queue with the list of the requests it created, each with the instant and
  the caller, and the last clock reading.  The clock does not go back.\<close>

inductive approval_run ::
  "'z hash_env_scheme \<Rightarrow> PendingApprovals \<Rightarrow> (instant \<times> bytes) list \<Rightarrow> instant \<Rightarrow> bool"
  for H :: "'z hash_env_scheme" where
  start: "pa_recent_creations pa = [] \<Longrightarrow> approval_run H pa [] t"
| creates: "approval_run H pa created t \<Longrightarrow> t \<le> t' \<Longrightarrow> create_at H d1 d2 c now t' pa = (r, pa') \<Longrightarrow>
    pa_records pa' = pa_records (approvals_purge_expired H now pa) @ [q] \<Longrightarrow>
    approval_run H pa' (created @ [(t', fingerprint H (cd_caller c))]) t'"
| refuses: "approval_run H pa created t \<Longrightarrow> t \<le> t' \<Longrightarrow> create_at H d1 d2 c now t' pa = (r, pa') \<Longrightarrow>
    length (pa_records pa') = length (pa_records (approvals_purge_expired H now pa)) \<Longrightarrow>
    approval_run H pa' created t'"
| other: "approval_run H pa created t \<Longrightarrow> approval_step H pa pa' \<Longrightarrow>
    pa_recent_creations pa' = pa_recent_creations pa \<Longrightarrow> approval_run H pa' created t"

lemma recent_window_twice: "t \<le> t' \<Longrightarrow> recent_window t' (recent_window t rs) = recent_window t' rs"
  unfolding recent_window_def filter_filter by (rule filter_cong) auto

lemma run_recent:
  assumes "approval_run H pa created t"
  shows "(\<exists>u\<le>t. pa_recent_creations pa = recent_window u created) \<and> (\<forall>(c, _)\<in>set created. c \<le> t)"
  using assms
proof (induction rule: approval_run.induct)
  case (creates pa created t t' d1 d2 c now r pa' q)
  then obtain u where u: "u \<le> t" "pa_recent_creations pa = recent_window u created" by blast
  from creates(3) have "pa_recent_creations pa' =
      recent_window t' (pa_recent_creations pa) @ [(t', fingerprint H (cd_caller c))]"
    by (cases rule: create_at_cases) (use creates(4) in \<open>auto simp: purge_fields dest: arg_cong [where f = length]\<close>)
  also have "\<dots> = recent_window t' (created @ [(t', fingerprint H (cd_caller c))])"
    using u creates(2) recent_window_twice [of u t' created]
    by (simp add: recent_window_def APPROVAL_RATE_WINDOW_def NANOS_def)
  finally have "\<exists>u\<le>t'. pa_recent_creations pa' = recent_window u (created @ [(t', fingerprint H (cd_caller c))])"
    by blast
  moreover have "\<forall>(c, _)\<in>set created. c \<le> t'" using creates(2,5) by (auto intro: le_trans)
  ultimately show ?case by auto
next
  case (refuses pa created t t' d1 d2 c now r pa')
  then obtain u where u: "u \<le> t" "pa_recent_creations pa = recent_window u created" by blast
  from refuses(3) have "pa_recent_creations pa' = pa_recent_creations pa \<or>
      pa_recent_creations pa' = recent_window t' (pa_recent_creations pa)"
    by (cases rule: create_at_cases) (use refuses(4) in \<open>auto simp: purge_fields\<close>)
  then have "pa_recent_creations pa' = recent_window u created \<or> pa_recent_creations pa' = recent_window t' created"
    using u refuses(2) recent_window_twice [of u t' created] by auto
  then have "\<exists>u\<le>t'. pa_recent_creations pa' = recent_window u created"
    using u(1) refuses(2) by (elim disjE) (intro exI conjI, auto)+
  moreover have "\<forall>(c, _)\<in>set created. c \<le> t'" using refuses(2,5) by (auto intro: le_trans)
  ultimately show ?case by blast
qed (auto simp: recent_window_def)

definition created_within :: "bytes \<Rightarrow> instant \<Rightarrow> (instant \<times> bytes) list \<Rightarrow> (instant \<times> bytes) list" where
  "created_within fp u = filter (\<lambda>(c, f). f = fp \<and> u \<le> c \<and> c < u + APPROVAL_RATE_WINDOW)"

lemma run_rate:
  assumes "approval_run H pa created t"
  shows "length (created_within fp u created) \<le> MAX_NEW_APPROVALS_PER_CALLER \<and>
    length (filter (\<lambda>(c, _). u \<le> c \<and> c < u + APPROVAL_RATE_WINDOW) created) \<le> MAX_NEW_APPROVALS"
  using assms
proof (induction rule: approval_run.induct)
  case (creates pa created t t' d1 d2 c now r pa' q)
  let ?fp = "fingerprint H (cd_caller c)"
  obtain v where v: "v \<le> t" "pa_recent_creations pa = recent_window v created"
    using run_recent [OF creates(1)] by blast
  have recents: "recent_window t' (pa_recent_creations pa) = recent_window t' created"
    using v creates(2) recent_window_twice [of v t' created] by simp
  from creates(3) have "\<not> approval_limited H ?fp ((approvals_purge_expired H now pa)
      \<lparr>pa_recent_creations := recent_window t' (pa_recent_creations pa)\<rparr>)"
    by (cases rule: create_at_cases) (use creates(4) in \<open>auto simp: purge_fields dest: arg_cong [where f = length]\<close>)
  then have few: "length (filter (\<lambda>(_, f). f = ?fp) (recent_window t' created)) < MAX_NEW_APPROVALS_PER_CALLER"
    "length (recent_window t' created) < MAX_NEW_APPROVALS"
    by (simp_all add: approval_limited_def recents)
  have sub: "length (filter P (filter (\<lambda>(c, _). u \<le> c \<and> c < u + APPROVAL_RATE_WINDOW) created))
      \<le> length (filter P (recent_window t' created))" if "t' < u + APPROVAL_RATE_WINDOW" for P
    using that unfolding recent_window_def by (induction created) auto
  show ?case
  proof (cases "u \<le> t' \<and> t' < u + APPROVAL_RATE_WINDOW")
    case True
    have "created_within ?fp u created = filter (\<lambda>(_, f). f = ?fp)
        (filter (\<lambda>(c, _). u \<le> c \<and> c < u + APPROVAL_RATE_WINDOW) created)"
      unfolding created_within_def filter_filter by (rule filter_cong) auto
    then have a: "length (created_within ?fp u created) < MAX_NEW_APPROVALS_PER_CALLER"
      using few(1) sub [of "\<lambda>(_, f). f = ?fp"] True by simp
    have b: "length (filter (\<lambda>(c, _). u \<le> c \<and> c < u + APPROVAL_RATE_WINDOW) created) < MAX_NEW_APPROVALS"
      using few(2) sub [of "\<lambda>_. True"] True by simp
    show ?thesis using creates.IH a b True by (auto simp: created_within_def)
  qed (use creates.IH in \<open>auto simp: created_within_def\<close>)
qed (simp_all add: created_within_def)

section \<open>Restoring what was saved\<close>

definition expires_at_of :: "ApprovalRecord \<Rightarrow> u64" where
  "expires_at_of r = pending_expires_at (pm_state (ar_summary r))"

lemma pending_expiry:
  assumes "is_pending r"
  shows "(case pm_state (ar_summary r) of Pending _ e _ _ _ \<Rightarrow> Some e | Granted _ _ _ \<Rightarrow> None) = Some (expires_at_of r)"
    and "still_pending now r \<longleftrightarrow> now < expires_at_of r"
  using assms by (auto simp: is_pending_def expires_at_of_def still_pending_def not_le split: PermissionState.splits)

lemma foldl_max_ge: "(e :: 'a :: linorder) \<le> foldl max e es \<and> (\<forall>x\<in>set es. x \<le> foldl max e es)"
proof (induction es arbitrary: e)
  case (Cons y es)
  have "max e y \<le> foldl max (max e y) es" using Cons.IH [of "max e y"] by blast
  then show ?case using Cons.IH [of "max e y"] by auto
qed simp

lemma foldl_max_in: "foldl max (e :: 'a :: linorder) es \<in> set (e # es)"
proof (induction es arbitrary: e)
  case (Cons y es)
  then show ?case using Cons.IH [of "max e y"] by (auto simp: max_def split: if_splits)
qed simp

lemma latest_expiry_pending:
  assumes "list_all is_pending rs"
  shows "latest_expiry rs = (case rs of [] \<Rightarrow> None | r # rs' \<Rightarrow> Some (foldl max (expires_at_of r) (map expires_at_of rs')))"
proof -
  have "List.map_filter (\<lambda>r. case pm_state (ar_summary r) of Pending _ e _ _ _ \<Rightarrow> Some e | Granted _ _ _ \<Rightarrow> None) rs =
      map expires_at_of rs"
    using assms by (induction rs) (simp_all add: map_filter_simps pending_expiry(1))
  then show ?thesis by (simp add: latest_expiry_def split: list.splits)
qed

lemma stored_record_fields [simp]:
  "is_pending (stored_record r) = is_pending r" "still_pending now (stored_record r) = still_pending now r"
  "restorable (stored_record r) = restorable r" "stored_record (stored_record r) = stored_record r"
  by (simp_all add: stored_record_def is_pending_def still_pending_def restorable_def)

lemma restorable_pending: "restorable r \<longleftrightarrow> is_pending r \<and> identity_validate (ar_caller r) = Inr ()"
  by (auto simp: restorable_def is_pending_def is_ok_iff)

lemma restore_saved:
  assumes "list_all restorable rs" and "length rs \<le> MAX_PENDING_APPROVALS"
    and "from_slice J (ss_value v) = Inr \<lparr>sa_version = PENDING_VERSION, sa_records = map stored_record rs\<rparr>"
  shows "pa_records (restore H J now (Inr (Some v))) = filter (still_pending now) (map stored_record rs)"
proof -
  have "filter restorable (map stored_record (map stored_record rs)) = map stored_record rs"
    using assms(1) by (induction rs) simp_all
  then show ?thesis using assms(2,3) by (simp add: restore_def Let_def purge_fields comp_def)
qed

lemma restore_default:
  "pa_records (restore H J now (Inl e)) = []" "pa_records (restore H J now (Inr None)) = []"
  by (simp_all add: restore_def Let_def approvals_default_def)

lemma pending_address_eq: "pending_address = Inr (Local ''pending'' None)"
  by (simp add: pending_address_def address_new_def validate_address_component_def MAX_ADDRESS_COMPONENT_BYTES_def)

context live_record_store
begin

lemma approvals_round_trip:
  assumes "rep s M" and "room s (Suc n)" and "deadlines_fit M" and "json_ok J" and "pa_unsaved pa"
    and "list_all restorable (pa_records pa)" and "length (pa_records pa) \<le> MAX_PENDING_APPROVALS"
    and "\<forall>r\<in>set (pa_records pa). unat (expires_at_of r) < 2 ^ 63"
  shows "\<exists>s1 pa2 s2. approvals_save S J now pa s = (Inr (), pa\<lparr>pa_unsaved := False\<rparr>, s1) \<and> room s1 n \<and>
    approvals_load H S J later s1 = (pa2, s2) \<and>
    pa_records pa2 = filter (still_pending later) (map stored_record (pa_records pa))"
proof -
  let ?rs = "pa_records pa" and ?a = "Local ''pending'' None"
  have pend: "list_all is_pending ?rs" using assms(6) by (auto simp: list_all_iff restorable_pending)
  obtain b where b: "to_vec J \<lparr>sa_version = PENDING_VERSION, sa_records = map stored_record ?rs\<rparr> = Inr b"
    "from_slice J b = Inr \<lparr>sa_version = PENDING_VERSION, sa_records = map stored_record ?rs\<rparr>"
    using assms(4) by (rule json_okE)
  define op where "op = (if ?rs = [] then DocumentOperation.Delete ?a else DocumentOperation.Put ?a b (latest_expiry ?rs))"
  have op: "save_operation J ?rs = Inr op" by (simp add: save_operation_def pending_address_eq b(1) op_def)
  have latest: "?rs \<noteq> [] \<Longrightarrow> \<exists>e. latest_expiry ?rs = Some e \<and> unat e < 2 ^ 63 \<and> (\<forall>r\<in>set ?rs. expires_at_of r \<le> e)"
    using assms(8) latest_expiry_pending [OF pend] foldl_max_in [of "expires_at_of (hd ?rs)" "map expires_at_of (tl ?rs)"]
      foldl_max_ge [of "expires_at_of (hd ?rs)" "map expires_at_of (tl ?rs)"]
    by (cases ?rs) auto
  have fit: "deadlines_fit (fold (apply_entry H) [op] M)"
    using assms(3) latest by (auto simp: deadlines_fit_def op_def)
  from mutate_live [OF assms(1) _ fit, of n "Service GrantStorage" now] assms(2) obtain s1 where
    s1: "op_mutate S [op] (Service GrantStorage) now s = (Inr (), s1)" "room s1 n" by auto
  have saved: "approvals_save S J now pa s = (Inr (), pa\<lparr>pa_unsaved := False\<rparr>, s1)"
    using assms(5) op s1(1) by (simp add: approvals_save_def)
  have h: "rep s1 (fold (apply_entry H) [op] M)" by (rule mutate_ok [OF assms(1) s1(1)])
  obtain r s2 where r: "op_get S ?a later s1 = (r, s2)" by (cases "op_get S ?a later s1")
  have "pa_records (restore H J later r) = filter (still_pending later) (map stored_record ?rs)"
  proof (cases "?rs = [] \<or> (\<exists>e. latest_expiry ?rs = Some e \<and> e \<le> later)")
    case True
    have "\<not> still_pending later r" if r: "r \<in> set ?rs" for r
    proof -
      from r True obtain e where e: "latest_expiry ?rs = Some e" "e \<le> later" by auto
      from r latest e(1) have "expires_at_of r \<le> e" by force
      then have "expires_at_of r \<le> later" using e(2) by (rule order_trans)
      then show ?thesis using pend r by (simp add: pending_expiry(2) list_all_iff)
    qed
    then have none: "filter (still_pending later) (map stored_record ?rs) = []" by (auto simp: filter_empty_conv)
    show ?thesis
    proof (cases r)
      case (Inr v)
      then have "read_entry H (fold (apply_entry H) [op] M) later ?a = Inr v" using get_ok [OF h] r by blast
      then have "v = None" using True by (cases "?rs = []") (auto simp: op_def read_entry_def live_def not_less [symmetric])
      then show ?thesis using Inr none by (simp add: restore_default)
    qed (simp add: none restore_default)
  next
    case False
    then obtain e where e: "?rs \<noteq> []" "latest_expiry ?rs = Some e" "later < e" using latest by fastforce
    have "\<forall>a' v e'. fold (apply_entry H) [op] M (storage_key H ?a) = Some (a', v, e') \<longrightarrow> live later e'"
      using e by (simp add: op_def live_def)
    from get_live [OF h s1(2) this] r have "r = read_entry H (fold (apply_entry H) [op] M) later ?a" by auto
    then have "r = Inr (Some \<lparr>ss_value = b, ss_expires_at = Some e\<rparr>)"
      using e by (simp add: op_def read_entry_def live_def)
    then show ?thesis
      using restore_saved [OF assms(6,7), of J "\<lparr>ss_value = b, ss_expires_at = Some e\<rparr>" H later] b(2) by simp
  qed
  then show ?thesis using saved s1(2) r by (auto simp: approvals_load_def pending_address_eq)
qed

end

end
