(* ===== verification/Service_Invariant.thy ===== *)
theory Service_Invariant
  imports Lifecycle_Laws Approval_Laws
begin

text \<open>The well-formedness of the service's state, which every request keeps: the deadlines of the lease in order and its
  end where the lease was opened, the two halves of the replay window equal and within their bound, and the approval
  queue within its bounds.\<close>

definition replay_ok :: "ReplayWindow \<Rightarrow> bool" where
  "replay_ok w \<longleftrightarrow> distinct (rw_order w) \<and> rw_set w = set (rw_order w) \<and> length (rw_order w) \<le> MAX_REPLAY_IDS"

text \<open>The invariant of the service for a condition \<open>R\<close> on its replay window.\<close>

definition service_inv ::
  "(ReplayWindow \<Rightarrow> bool) \<Rightarrow> ('d, 'r, 'i, 'z) service_env_scheme \<Rightarrow> instant \<Rightarrow> ServiceState \<Rightarrow> bool" where
  "service_inv R E A s \<longleftrightarrow> lease_inv (ls_lease s) \<and> absolute_expires_at (ls_lease s) = A \<and> R (ls_replay s) \<and>
     queue_wf E (ls_approvals s)"

abbreviation service_wf :: "('d, 'r, 'i, 'z) service_env_scheme \<Rightarrow> instant \<Rightarrow> ServiceState \<Rightarrow> bool" where
  "service_wf \<equiv> service_inv replay_ok"

definition window_kept :: "(ReplayWindow \<Rightarrow> bool) \<Rightarrow> RequestId \<Rightarrow> bool" where
  "window_kept R ident \<longleftrightarrow> (\<forall>w. R w \<longrightarrow> R (snd (replay_consume ident w)))"

lemma replay_ok_new: "replay_ok replay_new"
  by (simp add: replay_ok_def replay_new_def)

lemma replay_ok_consume:
  assumes "replay_ok w" and "replay_consume ident w = (r, w')"
  shows "replay_ok w'"
proof (cases "ident \<in> rw_set w")
  case True
  with assms show ?thesis by (simp add: replay_consume_def)
next
  case new: False
  have w: "distinct (rw_order w @ [ident])" "rw_set w = set (rw_order w)" using assms(1) new by (auto simp: replay_ok_def)
  show ?thesis
  proof (cases "length (rw_order w @ [ident]) > MAX_REPLAY_IDS")
    case True
    obtain x xs where x: "rw_order w @ [ident] = x # xs" by (cases "rw_order w @ [ident]") auto
    then have "w' = \<lparr>rw_set = insert ident (rw_set w) - {x}, rw_order = xs\<rparr>"
      using assms(2) new True by (simp add: replay_consume_def Let_def)
    moreover have "insert ident (rw_set w) = insert x (set xs)" using arg_cong [OF x, of set] w(2) by auto
    moreover have "x \<notin> set xs" "distinct xs" using w(1) unfolding x by simp_all
    moreover have "length xs \<le> MAX_REPLAY_IDS" using assms(1) arg_cong [OF x, of length] by (simp add: replay_ok_def)
    ultimately show ?thesis by (simp add: replay_ok_def)
  next
    case False
    then have "w' = \<lparr>rw_set = insert ident (rw_set w), rw_order = rw_order w @ [ident]\<rparr>"
      using assms(2) new by (simp add: replay_consume_def Let_def)
    then show ?thesis using w False by (simp add: replay_ok_def)
  qed
qed

lemma replay_ok_kept: "window_kept replay_ok ident"
  by (auto simp: window_kept_def intro: replay_ok_consume [OF _ surjective_pairing])

lemma wf_tame: "tame (service_inv R E A)"
  by (simp add: tame_def check_stable_def outside_def readable_def service_inv_def)

lemmas wf_facts = wf_tame tameD [OF wf_tame]

lemma wf_touch [preserves_intros]:
  "preserves (service_inv R E A) (touch E' smp)" "preserves (service_inv R E A) (check_and_touch E' rt)"
  "preserves (service_inv R E A) (sample_and_touch E' rt)"
  "window_kept R ident \<Longrightarrow> preserves (service_inv R E A) (consume ident)"
  "preserves (service_inv R E A) (seal_if_over E' t)"
proof -
  have lease: "preserves (service_inv R E A) (\<lambda>s. case lease_touch a b (ls_lease s) of (r, l) \<Rightarrow> (r, s\<lparr>ls_lease := l\<rparr>))" for a b
  proof (rule preservesI)
    fix s r s'
    assume wf: "service_inv R E A s" and run: "(case lease_touch a b (ls_lease s) of (r, l) \<Rightarrow> (r, s\<lparr>ls_lease := l\<rparr>)) = (r, s')"
    then have "s' = s\<lparr>ls_lease := snd (lease_touch a b (ls_lease s))\<rparr>" by (auto split: prod.splits)
    then show "service_inv R E A s'"
      using wf lease_touch_inv [of "ls_lease s" a b] lease_touch_frame(1) [of a b "ls_lease s"] by (simp add: service_inv_def)
  qed
  show over: "preserves (service_inv R E A) (seal_if_over E' t)" for t
    by (simp add: seal_if_over_def lease_over_def preserves_intros wf_facts preserves_seal)
  show touch: "preserves (service_inv R E A) (touch E' smp)" for smp
    by (simp add: touch_def preserves_intros over lease preserves_set_deadline wf_facts)
  show "preserves (service_inv R E A) (check_and_touch E' rt)" "preserves (service_inv R E A) (sample_and_touch E' rt)"
    by (simp_all add: check_and_touch_def sample_and_touch_def preserves_intros wf_facts touch)
  show "preserves (service_inv R E A) (consume ident)" if "window_kept R ident"
    using that by (intro preservesI) (auto simp: consume_def service_inv_def window_kept_def split_beta)
qed

section \<open>The approval queue of the service\<close>

lemma wf_approvals:
  assumes "service_inv R E A s" and "(approval_step E)\<^sup>*\<^sup>* (ls_approvals s) pa"
  shows "service_inv R E A (s\<lparr>ls_approvals := pa\<rparr>)"
  using assms queue_wf_steps [OF assms(2)] by (simp add: service_inv_def)

lemma wf_save:
  assumes "service_inv R E A s"
  shows "service_inv R E A (save_approvals E' now s)"
proof -
  obtain r pa s' where run: "approvals_save (pending_store_ops E') (j_pending E') now (ls_approvals s) s = (r, pa, s')"
    by (metis prod_cases3)
  have out: "outside (\<lambda>s. service_inv R E A s \<and> ls_approvals s = q)" for q by (auto simp: outside_def service_inv_def)
  have call: "preserves (\<lambda>s. service_inv R E A s \<and> ls_approvals s = q) (op_mutate (pending_store_ops E') ops prov now)" for q ops prov
    unfolding pending_store_ops_def service_ops_def
    by (simp add: preserves_store_calls out)
  have "service_inv R E A s' \<and> ls_approvals s' = ls_approvals s"
    using run assms
    by (auto simp: approvals_save_def split: if_splits sum.splits prod.splits dest!: preservesD [OF call])
  then show ?thesis
    using run wf_approvals [of R E A s' pa] save_steps [OF run, of E] by (simp add: save_approvals_def)
qed

lemma wf_saves [preserves_intros]: "preserves (service_inv R E A) (smodify (save_approvals E' now))"
  by (rule preserves_smodify) (rule wf_save)

lemma wf_queue_update:
  assumes "\<And>pa r pa'. f pa = (r, pa') \<Longrightarrow> (approval_step E)\<^sup>*\<^sup>* pa pa'"
  shows "preserves (service_inv R E A) (\<lambda>s. case f (ls_approvals s) of (r, pa) \<Rightarrow> (g r, s\<lparr>ls_approvals := pa\<rparr>))"
  by (rule preservesI) (auto split: prod.splits intro: wf_approvals assms)

lemma wf_create [preserves_intros]: "preserves (service_inv R E A) (create_approval E candidate now)"
proof -
  have "preserves (service_inv R E A) (\<lambda>s. case create_at E (service_entropy E (ls_rng s) 16) (service_entropy E (Suc (ls_rng s)) 32)
       candidate now t (ls_approvals s) of (i, pa) \<Rightarrow>
       (i, if pa_revision pa \<noteq> revision then save_approvals E now (s\<lparr>ls_approvals := pa, ls_rng := ls_rng s + 2\<rparr>)
           else s\<lparr>ls_approvals := pa, ls_rng := ls_rng s + 2\<rparr>))" for t revision
  proof (rule preservesI, goal_cases)
    case (1 s r s')
    obtain i pa where c: "create_at E (service_entropy E (ls_rng s) 16) (service_entropy E (Suc (ls_rng s)) 32)
       candidate now t (ls_approvals s) = (i, pa)" by fastforce
    have "service_inv R E A (s\<lparr>ls_approvals := pa\<rparr>)"
      by (rule wf_approvals [OF 1(1)]) (rule r_into_rtranclp, rule approval_step.created [OF c])
    then have "service_inv R E A (s\<lparr>ls_approvals := pa, ls_rng := ls_rng s + 2\<rparr>)" by (simp add: service_inv_def)
    then show ?case using 1(2) c wf_save by (auto split: if_splits)
  qed
  note core = this
  show ?thesis
    unfolding create_approval_def Let_def
    by (intro preserves_sbind preserves_basic preserves_clock wf_facts core)
qed

lemma wf_list_granted [preserves_intros]:
  "preserves (service_inv R E A) (list_granted_permissions H (grant_store_ops E') C now)"
  "preserves (service_inv R E A) (promote_permission H (grant_store_ops E') C caller target p perm now prov)"
  "preserves (service_inv R E A) (revoke_permission H (grant_store_ops E') C ident now prov)"
  unfolding list_granted_permissions_def promote_permission_def revoke_permission_def Let_def
  by (simp_all add: preserves_intros wf_facts split: PermissionState.split)

lemma wf_list_permissions [preserves_intros]: "preserves (service_inv R E A) (list_permissions E now)"
proof -
  have "preserves (service_inv R E A) (\<lambda>s. case list_at E now t (ls_approvals s) of (l, pa) \<Rightarrow> (Inr (snd l), s\<lparr>ls_approvals := pa\<rparr>))" for t
    by (rule wf_queue_update) (rule list_at_steps)
  moreover have "preserves (service_inv R E A) (smodify (\<lambda>s. if g \<noteq> ls_granted_permissions s
      then s\<lparr>ls_granted_permissions := g, ls_approvals := approvals_changed (ls_approvals s)\<rparr> else s))" for g
    by (rule preserves_smodify) (auto simp: service_inv_def intro: queue_wf_changed)
  ultimately show ?thesis
    unfolding list_permissions_def Let_def
    by (intro preserves_sbind preserves_basic preserves_clock wf_facts wf_saves wf_list_granted) (simp_all add: case_prod_unfold)
qed

lemma wf_deny [preserves_intros]: "preserves (service_inv R E A) (deny_approval E ident now)"
proof -
  have "preserves (service_inv R E A) (\<lambda>s. case deny E ident now (ls_approvals s) of (r, pa) \<Rightarrow> (r, s\<lparr>ls_approvals := pa\<rparr>))"
    by (rule wf_queue_update [where g = "\<lambda>r. r"]) (rule r_into_rtranclp, rule approval_step.denied)
  then show ?thesis by (simp add: deny_approval_def preserves_intros)
qed

lemma wf_revoke [preserves_intros]: "preserves (service_inv R E A) (revoke_granted E ident now prov)"
  unfolding revoke_granted_def
  by (intro preserves_intros preserves_smodify) (simp add: service_inv_def queue_wf_changed)

lemma wf_approve [preserves_intros]: "preserves (service_inv R E A) (approve_pending E ident sig lifetime now prov)"
proof -
  have "preserves (service_inv R E A) (\<lambda>s. case approve E (grant_store_ops E) (codecs E) (signer E) ident sig lifetime now prov
      (ls_approvals s) s of (r, pa, s) \<Rightarrow> (r, s\<lparr>ls_approvals := pa\<rparr>))"
  proof (rule preservesI, goal_cases)
    case (1 s r s')
    obtain pa s1 where a: "approve E (grant_store_ops E) (codecs E) (signer E) ident sig lifetime now prov (ls_approvals s) s = (r, pa, s1)"
      "s' = s1\<lparr>ls_approvals := pa\<rparr>" using 1(2) by (auto split: prod.splits)
    have "service_inv R E A s1"
      using a(1) 1(1) wf_list_granted(2)
      by (auto simp: approve_def Let_def split: sum.splits prod.splits dest: preservesD [OF wf_list_granted(2)])
    moreover have "queue_wf E pa"
      using approve_steps [OF a(1)] 1(1) queue_wf_steps by (auto simp: service_inv_def)
    ultimately show ?case using a(2) by (simp add: service_inv_def)
  qed
  then show ?thesis by (simp add: approve_pending_def preserves_intros)
qed

lemma wf_status [preserves_intros]: "preserves (service_inv R E A) (permission_status E caller ident now)"
  by (rule preservesI) (auto simp: permission_status_def Let_def split: prod.splits intro: wf_approvals status_steps)

section \<open>Every request keeps it\<close>

definition wakes_wf ::
  "(ReplayWindow \<Rightarrow> bool) \<Rightarrow> ('d, 'r, 'i, 'z) service_env_scheme \<Rightarrow> instant \<Rightarrow> (nat \<Rightarrow> ServiceState \<Rightarrow> ServiceState) \<Rightarrow> bool" where
  "wakes_wf R E A wakes \<longleftrightarrow> (\<forall>n s. service_inv R E A s \<longrightarrow> service_inv R E A (wakes n s))"

lemma wf_wake [preserves_intros]: "wakes_wf R E A wakes \<Longrightarrow> preserves (service_inv R E A) (wake wakes n)"
  by (rule preservesI) (auto simp: wakes_wf_def wake_def Let_def service_inv_def)

lemma wf_wait_permission_loop:
  assumes "wakes_wf R E A wakes"
  shows "preserves (service_inv R E A) (wait_permission_loop E wakes caller ident deadline clock fuel)"
  by (induction fuel) (simp_all only: wait_permission_loop.simps preserves_intros wf_facts assms)

lemma wf_wait_permission [preserves_intros]:
  assumes "wakes_wf R E A wakes"
  shows "preserves (service_inv R E A) (wait_for_permission E wakes fuel caller ident timeout clock)"
proof -
  have "preserves (service_inv R E A) (smodify (\<lambda>s. s\<lparr>ls_approvals := awaited E caller ident t (ls_approvals s)\<rparr>))" for t
    by (rule preserves_smodify) (simp add: service_inv_def queue_wf_awaited)
  then show ?thesis
    unfolding wait_for_permission_def
    by (intro preserves_sbind preserves_basic preserves_clock wf_facts wf_wait_permission_loop [OF assms])
qed

lemma wf_wait_approvals_loop:
  assumes "wakes_wf R E A wakes"
  shows "preserves (service_inv R E A) (wait_approvals_loop E wakes caller after_revision deadline clock fuel)"
  by (induction fuel) (simp_all only: wait_approvals_loop.simps manager_deadline_def preserves_intros wf_facts assms)

lemma wf_handlers [preserves_intros]:
  assumes "wakes_wf R E A wakes"
  shows "preserves (service_inv R E A) (export_revision E caller now clock)"
    "preserves (service_inv R E A) (inventory E caller cursor limit clock)"
    "preserves (service_inv R E A) (export_entry E caller entry now clock)"
    "preserves (service_inv R E A) (import_entry E caller entry v evict_at replace_existing provenance now clock)"
    "preserves (service_inv R E A) (write_cache_from_dialog E caller project address v evict_at provenance now clock)"
    "preserves (service_inv R E A) (authorize_secret_input E caller sender now clock)"
    "preserves (service_inv R E A) (list_permission_page E caller continued now clock)"
    "preserves (service_inv R E A) (wait_permissions E wakes fuel caller after_revision timeout_ms clock)"
    "preserves (service_inv R E A) (wait_permission E wakes fuel caller ident timeout_ms clock)"
    "preserves (service_inv R E A) (deny_permission_request E caller ident clock)"
    "preserves (service_inv R E A) (approve_permission_request E caller ident sig lifetime provenance clock)"
    "preserves (service_inv R E A) (revoke_permission_request E caller ident provenance clock)"
    "preserves (service_inv R E A) (keyring_access E wakes fuel caller ko sender service operation action pending now clock)"
    "preserves (service_inv R E A) (other_action E caller application act approval provenance now clock)"
proof -
  note intros = preserves_intros wf_facts assms
  have rng: "preserves (service_inv R E A) (\<lambda>s. (map_err Random (service_entropy E (ls_rng s) n), s\<lparr>ls_rng := Suc (ls_rng s)\<rparr>))" for n
    by (rule preservesI) (auto simp: service_inv_def)
  have item: "preserves (service_inv R E A) (import_secret_service_item E entry v evict_at replace_existing provenance now)"
    by (simp add: import_secret_service_item_def Let_def intros secret_service_index_def vs_get_at_def rng split: prod.split)
  show "preserves (service_inv R E A) (export_revision E caller now clock)"
    by (simp add: export_revision_def intros vs_purge_expired_at_def vs_export_revision_def)
  show "preserves (service_inv R E A) (inventory E caller cursor limit clock)"
    by (simp add: inventory_def intros vs_list_vault_entries_def)
  show "preserves (service_inv R E A) (export_entry E caller entry now clock)"
    by (simp add: export_entry_def intros vs_export_at_def secret_service_index_def vs_get_at_def)
  show "preserves (service_inv R E A) (import_entry E caller entry v evict_at replace_existing provenance now clock)"
    by (simp add: import_entry_def intros vs_get_at_def item split: prod.split)
  show "preserves (service_inv R E A) (write_cache_from_dialog E caller project address v evict_at provenance now clock)"
    by (simp add: write_cache_from_dialog_def intros)
  show "preserves (service_inv R E A) (authorize_secret_input E caller sender now clock)"
    by (simp add: authorize_secret_input_def intros split: prod.split)
  show "preserves (service_inv R E A) (list_permission_page E caller continued now clock)"
    by (simp add: list_permission_page_def intros)
  show "preserves (service_inv R E A) (wait_permissions E wakes fuel caller after_revision timeout_ms clock)"
    by (simp add: wait_permissions_def wait_for_approvals_def intros wf_wait_approvals_loop settled_def)
  show "preserves (service_inv R E A) (wait_permission E wakes fuel caller ident timeout_ms clock)"
    by (simp add: wait_permission_def intros settled_def)
  show "preserves (service_inv R E A) (deny_permission_request E caller ident clock)"
    by (simp add: deny_permission_request_def intros)
  show "preserves (service_inv R E A) (approve_permission_request E caller ident sig lifetime provenance clock)"
    by (simp add: approve_permission_request_def intros)
  show "preserves (service_inv R E A) (revoke_permission_request E caller ident provenance clock)"
    by (simp add: revoke_permission_request_def intros)
  show "preserves (service_inv R E A) (keyring_access E wakes fuel caller ko sender service operation action pending now clock)"
    by (simp add: keyring_access_def ask_approval_def require_keyring_def Let_def settled_def intros split: option.split prod.split)
  show "preserves (service_inv R E A) (other_action E caller application act approval provenance now clock)"
    by (simp add: other_action_def ask_approval_def intros)
qed

lemma wf_dispatch [preserves_intros]:
  assumes "wakes_wf R E A wakes"
  shows "preserves (service_inv R E A) (dispatch E wakes fuel caller application action approval provenance now clock)"
  by (cases action) (simp_all add: dispatch_def preserves_fallible wf_handlers [OF assms])

lemma wf_handle_inner:
  assumes "wakes_wf R E A wakes" and "window_kept R (vr_request_id request)"
  shows "preserves (service_inv R E A) (handle_inner E wakes fuel caller request clock)"
  unfolding handle_inner_def Let_def
  by (simp add: preserves_intros wf_facts assms preserves_lock_live)

lemma wf_final_check:
  assumes "service_inv R E A s" and "final_check E clock result s = (r, s')"
  shows "service_inv R E A s'"
proof -
  have live: "preserves (service_inv R E A) (sbind (clock_sample E clock) (\<lambda>smp. check_live E (snd smp)))"
    by (simp add: check_live_def preserves_intros wf_facts preserves_lock_live)
  have valid: "preserves (service_inv R E A) (check_valid_until E clock)" by (simp add: preserves_intros wf_facts)
  show ?thesis
    using assms preservesD [OF live] preservesD [OF valid]
    by (auto simp: final_check_def state_seal_def vs_seal_def vs_request_seal_def service_inv_def split: if_splits prod.splits sum.splits)
qed

lemma wf_handle:
  assumes "wakes_wf R E A wakes" and "window_kept R (vr_request_id request)" and "service_inv R E A s" and "handle E wakes fuel caller request now s = (r, s')"
  shows "service_inv R E A s'"
proof -
  let ?s = "s\<lparr>sh_ticks := Suc (sh_ticks s)\<rparr>"
  obtain o1 s1 where i: "handle_inner E wakes fuel caller request (request_clock E now (instants E (sh_ticks s)) ?s) (entered ?s) = (o1, s1)"
    by fastforce
  have "service_inv R E A (entered ?s)" using assms(3) by (simp add: service_inv_def entered_def)
  then have s1: "service_inv R E A s1" using preservesD [OF wf_handle_inner [OF assms(1,2)] i] by blast
  have deliver: "preserves (service_inv R E A) (delivery_deadline E clock x)" for clock x
    unfolding delivery_deadline_def by (cases x) (simp_all add: preserves_intros wf_facts)
  show ?thesis
    using assms(4) i s1
    by (auto simp: handle_def handle_at_unfold Let_def split: sum.splits RequestFailure.splits prod.splits
        dest: wf_final_check preservesD [OF deliver])
qed

lemma wf_expire [preserves_intros]: "preserves (service_inv R E A) (expire_if_needed E now t)"
proof -
  have purge: "preserves (service_inv R E A) (smodify (\<lambda>s. s\<lparr>ls_last_purge_at := n\<rparr>))" for n
    by (rule preserves_smodify) (simp add: service_inv_def)
  show ?thesis
    unfolding expire_if_needed_def vs_purge_expired_at_def
    by (intro preserves_intros wf_facts preserves_seal purge)
qed

text \<open>What happens to the service: requests with identifiers of a set, and the timer.  During a wait the mutex is free,
  and the requests and timer runs of other threads change the state as \<open>wakes\<close> says.\<close>

inductive service_step_in ::
  "('d, 'r, 'i, 'z) service_env_scheme \<Rightarrow> RequestId set \<Rightarrow> (nat \<Rightarrow> ServiceState \<Rightarrow> ServiceState) \<Rightarrow> ServiceState
     \<Rightarrow> ServiceState \<Rightarrow> bool"
  for E :: "('d, 'r, 'i, 'z) service_env_scheme" and X :: "RequestId set" and wakes :: "nat \<Rightarrow> ServiceState \<Rightarrow> ServiceState" where
  request: "handle E wakes fuel caller request now s = (r, s') \<Longrightarrow> vr_request_id request \<in> X \<Longrightarrow> service_step_in E X wakes s s'"
| timer: "expire_if_needed E now t s = (q, s') \<Longrightarrow> service_step_in E X wakes s s'"

abbreviation service_step ::
  "('d, 'r, 'i, 'z) service_env_scheme \<Rightarrow> (nat \<Rightarrow> ServiceState \<Rightarrow> ServiceState) \<Rightarrow> ServiceState \<Rightarrow> ServiceState \<Rightarrow> bool" where
  "service_step E \<equiv> service_step_in E UNIV"

lemma wf_steps:
  assumes "wakes_wf R E A wakes" and "\<And>ident. ident \<in> X \<Longrightarrow> window_kept R ident"
    and "(service_step_in E X wakes)\<^sup>*\<^sup>* s s'" and "service_inv R E A s"
  shows "service_inv R E A s'"
  using assms(3,4)
proof (induction rule: rtranclp_induct)
  case (step t u)
  from step(2) show ?case
    by cases (use step(3) [OF step(4)] wf_handle [OF assms(1) assms(2)] preservesD [OF wf_expire] in blast)+
qed

text \<open>While a request waits for an approval, the lock is free, and other threads run requests and the timer; those may
  wait in turn.\<close>

inductive interleaved_in ::
  "('d, 'r, 'i, 'z) service_env_scheme \<Rightarrow> RequestId set \<Rightarrow> (nat \<Rightarrow> ServiceState \<Rightarrow> ServiceState) \<Rightarrow> bool"
  for E :: "('d, 'r, 'i, 'z) service_env_scheme" and X :: "RequestId set" where
  others: "(\<And>n s. wakes n s = s \<or> (\<exists>w. interleaved_in E X w \<and> (service_step_in E X w)\<^sup>*\<^sup>* s (wakes n s))) \<Longrightarrow>
    interleaved_in E X wakes"

abbreviation interleaved :: "('d, 'r, 'i, 'z) service_env_scheme \<Rightarrow> (nat \<Rightarrow> ServiceState \<Rightarrow> ServiceState) \<Rightarrow> bool" where
  "interleaved E \<equiv> interleaved_in E UNIV"

lemma wf_interleaved:
  assumes "interleaved_in E X wakes" and "\<And>ident. ident \<in> X \<Longrightarrow> window_kept R ident"
  shows "wakes_wf R E A wakes"
  using assms(1)
proof (induction rule: interleaved_in.induct)
  case (others wakes)
  show ?case
    unfolding wakes_wf_def
  proof (intro allI impI)
    fix n s
    assume "service_inv R E A s"
    with others [of n s] wf_steps [of R E A _ X s "wakes n s"] assms(2) show "service_inv R E A (wakes n s)" by auto
  qed
qed

lemma wf_new:
  assumes "service_new E now policy h = Inr s" and "queue_wf E (ls_approvals s)"
  shows "service_wf E (instants E (sh_ticks h) + maximum_lifetime policy) s"
proof -
  from assms(1) have lease: "lease_new_at now (instants E (sh_ticks h)) policy = Inr (ls_lease s)" "ls_replay s = replay_new"
    by (auto simp: service_new_def lease_new_def instant_now_def sbind_def slift_def Let_def split: sum.splits prod.splits)
  then show ?thesis
    using assms(2) lease_new_at_inv [OF lease(1)] lease_new_at_absolute [OF lease(1)] replay_ok_new by (simp add: service_inv_def)
qed

section \<open>Identifiers consumed before\<close>

text \<open>The identifier is in the window, and every identifier accepted after it belongs to the set.\<close>

definition consumed_before :: "RequestId \<Rightarrow> RequestId set \<Rightarrow> ReplayWindow \<Rightarrow> bool" where
  "consumed_before ident X w \<longleftrightarrow> replay_ok w \<and> (\<exists>older newer. rw_order w = older @ ident # newer \<and> set newer \<subseteq> X)"

lemma consumed_before_in: "consumed_before ident X w \<Longrightarrow> ident \<in> rw_set w"
  by (auto simp: consumed_before_def replay_ok_def)

lemma consume_consumed:
  assumes "replay_ok w" and "replay_consume ident w = (Inr u, w')"
  shows "consumed_before ident X w'"
proof -
  have "replay_ok w'" by (rule replay_ok_consume [OF assms])
  moreover obtain older where "rw_order w' = older @ ident # []"
    using assms(2) by (cases "rw_order w") (auto simp: replay_consume_def Let_def MAX_REPLAY_IDS_def split: if_splits)
  moreover have "set [] \<subseteq> X" by simp
  ultimately show ?thesis unfolding consumed_before_def by blast
qed

lemma consumed_before_kept:
  assumes "finite X" and "card (X - {ident}) < MAX_REPLAY_IDS" and "x \<in> X"
  shows "window_kept (consumed_before ident X) x"
  unfolding window_kept_def
proof (intro allI impI)
  fix w
  assume w: "consumed_before ident X w"
  then obtain older newer where order: "rw_order w = older @ ident # newer" "set newer \<subseteq> X" and ok: "replay_ok w"
    by (auto simp: consumed_before_def)
  show "consumed_before ident X (snd (replay_consume x w))"
  proof (cases "x \<in> rw_set w")
    case True
    then show ?thesis using w by (simp add: replay_consume_def)
  next
    case False
    have fresh: "distinct (ident # newer @ [x])" using ok order(1) False by (auto simp: replay_ok_def)
    then have "length (newer @ [x]) \<le> card (X - {ident})"
      using card_mono [of "X - {ident}" "set (newer @ [x])"] distinct_card [of "newer @ [x]"] assms(1,3) order(2) by force
    then have room: "length (ident # newer @ [x]) \<le> MAX_REPLAY_IDS" using assms(2) by simp
    have "\<exists>older'. rw_order (snd (replay_consume x w)) = older' @ ident # newer @ [x]"
      using False order(1) room by (cases older) (auto simp: replay_consume_def Let_def)
    then obtain older' where "rw_order (snd (replay_consume x w)) = older' @ ident # (newer @ [x])" by blast
    moreover have "set (newer @ [x]) \<subseteq> X" using order(2) assms(3) by simp
    moreover have "replay_ok (snd (replay_consume x w))" by (rule replay_ok_consume [OF ok surjective_pairing])
    ultimately show ?thesis unfolding consumed_before_def by blast
  qed
qed

lemma answered_consumed:
  assumes "service_wf E A s" and "wakes_wf (consumed_before (vr_request_id request) X) E A wakes"
    and "handle E wakes fuel caller request now s = (Some r, s')" and "is_ok (rs_result r)"
  shows "service_inv (consumed_before (vr_request_id request) X) E A s'"
proof -
  let ?R = "consumed_before (vr_request_id request) X" and ?s = "s\<lparr>sh_ticks := Suc (sh_ticks s)\<rparr>"
  let ?clock = "request_clock E now (instants E (sh_ticks s)) ?s"
  have s: "service_wf E A (entered ?s)" using assms(1) by (simp add: service_inv_def entered_def)
  obtain o1 s1 where i: "handle_inner E wakes fuel caller request ?clock (entered ?s) = (o1, s1)" by fastforce
  obtain body where o1: "o1 = Inr body"
    using assms(3,4) i
    by (auto simp: handle_def handle_at_unfold Let_def is_ok_iff final_check_def
        split: sum.splits RequestFailure.splits prod.splits if_splits)
  from i [unfolded o1] obtain smp t1 t2 now' t3 t4 where
    pre: "clock_sample E ?clock (entered ?s) = (Inr smp :: VaultError + _, t1)" "lock_live E (snd smp) t1 = (Inr (), t2)"
      "clock_wall E ?clock t2 = (Inr now' :: VaultError + _, t3)" "consume (vr_request_id request) t3 = (Inr (), t4)"
    and d: "dispatch E wakes fuel caller (vr_application request) (vr_action request)
      (for_request caller (vr_application request) (vr_action request))
      (provenance_caller caller (vr_application request)) now' ?clock t4 = (Inr body, s1)" by (rule handle_inner_ok)
  have "service_wf E A t3"
    using preservesD [OF preserves_clocks(2) [OF tameD(4) [OF wf_tame]] pre(1) s]
      preservesD [OF preserves_lock_live [OF tameD(3) [OF wf_tame]] pre(2)]
      preservesD [OF preserves_clocks(3) [OF tameD(4) [OF wf_tame]] pre(3)] by blast
  then have "service_inv ?R E A t4"
    using pre(4) consume_consumed by (auto simp: consume_def service_inv_def split: prod.splits)
  then have s1: "service_inv ?R E A s1" using preservesD [OF wf_dispatch [OF assms(2)] d] by blast
  have deliver: "preserves (service_inv ?R E A) (delivery_deadline E clock x)" for clock x
    unfolding delivery_deadline_def by (cases x) (simp_all add: preserves_intros wf_facts)
  show ?thesis
    using assms(3) i o1 s1
    by (auto simp: handle_def handle_at_unfold Let_def split: prod.splits dest: wf_final_check preservesD [OF deliver])
qed

end
