(* ===== verification/Service_Properties.thy ===== *)
theory Service_Properties
  imports Service_Reference Service_Invariant
begin

text \<open>The properties of the service: what the answer to one request shows of the documents, the caller's grants, the
  lease and the clocks.\<close>

section \<open>Secrets and grants\<close>

text \<open>The clock of a request that arrives in a state.\<close>

abbreviation arriving :: "('d, 'r, 'i, 'z) service_env_scheme \<Rightarrow> u64 \<Rightarrow> ServiceState \<Rightarrow> RequestTime" where
  "arriving E now s \<equiv> request_clock E now (instants E (sh_ticks s)) (s\<lparr>sh_ticks := Suc (sh_ticks s)\<rparr>)"

text \<open>C1: a secret in an answer is the value stored at the address the request names, its caller held a reusable grant
  for exactly that read, and both the grant and the value were still unexpired at the last reading of the clock, the
  one of the final check, after which only the delivery deadline of the answer is computed.  A request through the desktop keyring bridge shows, besides, a grant of the bridge and one of
  the program at the other end of the bus.\<close>

theorem secret_released_under_grant:
  assumes "grants_are E V s M" and "handle E wakes fuel caller request now s = (Some r, s')"
    and "rs_result r = Inr (SecretBody (Some v))"
  shows "\<exists>i q kind part a. sh_ticks s \<le> i \<and> final_reading i s' \<and> case_prod read_requirement (read_action request) = Some (q, kind, part, a) \<and>
    bridged_read E M caller (vr_action request) (\<lambda>who q. granted_live E M who q (wall_at E (arriving E now s) i)) \<and>
    (\<forall>D. handle_holds E V kind part s D \<longrightarrow> released E M D caller q a v (wall_at E (arriving E now s) i))"
proof -
  let ?s = "s\<lparr>sh_ticks := Suc (sh_ticks s)\<rparr>"
  have g: "grants_are E V ?s M" using assms(1) by (simp add: handle_holds_def)
  from handle_at_read [OF g assms(2) [unfolded handle_def] assms(3)] show ?thesis
    by (auto simp: handle_holds_def dest: Suc_leD)
qed

lemma service_answer:
  "\<exists>r s'. handle reference_service wakes fuel reference_caller service_request 7 (service_state GGet) = (Some r, s') \<and>
     rs_result r = Inr (SecretBody (Some ''secret''))"
  using service_served [of wakes fuel 1] by (simp add: handle_def service_state_def)

lemma service_state_holds:
  "grants_are reference_service cdoc_view (service_state p) (service_grants p)"
  "handle_holds reference_service cdoc_view LocalKeyring ''p'' (service_state p) service_secrets"
  using service_worker_holds by (simp_all add: handle_holds_def service_state_def)

theorem secret_released_under_grant_witness:
  "\<exists>r s'. handle reference_service (\<lambda>_ s. s) 1 reference_caller service_request 7 (service_state GGet) = (Some r, s') \<and>
     rs_result r = Inr (SecretBody (Some ''secret'')) \<and>
     released reference_service (service_grants GGet) service_secrets reference_caller service_requirement (Local ''svc'' None) ''secret'' 7"
proof -
  obtain r s' where run: "handle reference_service (\<lambda>_ s. s) 1 reference_caller service_request 7 (service_state GGet) = (Some r, s')"
    "rs_result r = Inr (SecretBody (Some ''secret''))" using service_answer by blast
  have "case_prod read_requirement (read_action service_request) = Some (service_requirement, LocalKeyring, ''p'', Local ''svc'' None)"
    using service_reads by (simp add: read_action_def service_request_def)
  with secret_released_under_grant [OF service_state_holds(1) run] service_state_holds(2) run show ?thesis
    by (auto simp: service_wall)
qed

text \<open>C3: a valid, fresh request of a caller whose grant and whose secret stay unexpired is answered with the secret,
  when the request keeps within the lease and the store meets no failure.\<close>

theorem authorized_read_is_served:
  assumes "going E V (arriving E now s) T M kind part D s" and "identity_validate caller = Inr ()"
    and "request_validate E (j_request E) request = Inr ()" and "vr_request_id request \<notin> rw_set (ls_replay s)"
    and "read_requirement (vr_application request) (vr_action request) = Some (q, kind, part, a)"
    and "\<forall>n \<ge> sh_ticks s. lookup_grant E (codecs E) M caller q (wall_at E (arriving E now s) n) = Inr (Reusable e) \<and>
      live (wall_at E (arriving E now s) n) e"
    and "D (storage_key E a) = Some (a, v, e')" and "\<forall>n \<ge> sh_ticks s. live (wall_at E (arriving E now s) n) e'"
  shows "\<exists>r s'. handle E wakes fuel caller request now s = (Some r, s') \<and> rs_result r = Inr (SecretBody (Some v))"
proof -
  let ?s = "s\<lparr>sh_ticks := Suc (sh_ticks s)\<rparr>"
  have g: "going E V (arriving E now s) T M kind part D ?s"
    using going_valid [OF assms(1), where v = "as_valid_until s" and n = 1] by simp
  show ?thesis
    unfolding handle_def using assms(4,6,8)
    by (intro handle_read_served [OF g assms(2,3) _ assms(5) _ assms(7)]) auto
qed

theorem authorized_read_is_served_witness:
  "\<exists>r s'. handle reference_service (\<lambda>_ s. s) 1 reference_caller service_request 7 (service_state GGet) = (Some r, s') \<and>
     rs_result r = Inr (SecretBody (Some ''secret''))"
proof (rule authorized_read_is_served [where T = 50 and e = None and e' = None])
  show "going reference_service cdoc_view (arriving reference_service 7 (service_state GGet)) 50 (service_grants GGet) LocalKeyring ''p''
      service_secrets (service_state GGet)"
    using service_going [of 0] by (simp add: service_state_def request_clock_def)
  show "read_requirement (vr_application service_request) (vr_action service_request) =
      Some (service_requirement, LocalKeyring, ''p'', Local ''svc'' None)"
    using service_reads by (simp add: service_request_def)
  show "service_secrets (storage_key reference_service (Local ''svc'' None)) = Some (Local ''svc'' None, ''secret'', None)"
    by (simp add: service_secrets_def service_put_secret_def)
qed (simp_all add: reference_caller_valid service_request_valid service_requirement_def service_lookup live_def service_state_def replay_new_def)

text \<open>C2: an action for which the caller has no grant is answered with an error, and no document changes, unless the
  request may become an approval request.  Only the status of the vault and the outcome of an approval request need
  no grant.\<close>

theorem request_without_grant_refused:
  assumes "grants_are E V s M" and "required_grant (vr_application request) (vr_action request) = Some q"
    and "\<forall>t. \<not> permitted E M caller q t"
  shows "\<exists>r s'. handle E wakes fuel caller request now s = (Some r, s') \<and> \<not> is_ok (rs_result r) \<and>
    (for_request caller (vr_application request) (vr_action request) = None \<longrightarrow> same_docs s s')"
proof -
  let ?s = "s\<lparr>sh_ticks := Suc (sh_ticks s)\<rparr>"
  have g: "grants_are E V ?s M" using assms(1) by (simp add: handle_holds_def)
  from handle_at_refused [OF g assms(2,3), of wakes fuel now "instants E (sh_ticks s)"] show ?thesis
    by (simp add: handle_def same_docs_def)
qed

lemma nothing_permitted: "\<not> permitted E Map.empty caller q t"
  by (simp add: permitted_def usable_def read_value_def read_entry_def)

theorem request_without_grant_refused_witness:
  "\<exists>r s'. handle reference_service (\<lambda>_ s. s) 1 reference_caller service_request 7
      ((service_state GGet)\<lparr>sh_worker := empty_worker reference_service\<rparr>) = (Some r, s') \<and> \<not> is_ok (rs_result r) \<and>
    same_docs ((service_state GGet)\<lparr>sh_worker := empty_worker reference_service\<rparr>) s'"
proof -
  let ?s = "(service_state GGet)\<lparr>sh_worker := empty_worker reference_service\<rparr>"
  have g: "grants_are reference_service cdoc_view ?s Map.empty"
    unfolding handle_holds_def by (simp add: empty_worker_holds [OF service_store_ok])
  have q: "required_grant (vr_application service_request) (vr_action service_request) = Some service_requirement"
    by (simp add: required_grant_def service_request_def service_requirement_def local_requirement_def namespace_scope_def
        SECRET_SERVICE_NAMESPACE_def NETWORK_MANAGER_NAMESPACE_def)
  have "for_request reference_caller (vr_application service_request) (vr_action service_request) = None"
    by (simp add: for_request_def service_request_def)
  with request_without_grant_refused [OF g q] nothing_permitted show ?thesis by blast
qed

text \<open>C5: in a history shown to a caller who may not manage permissions, every entry is the caller's own, the vault's own
  or has the identity and the declared context of its writer withheld.\<close>

theorem history_writers_withheld:
  assumes "grants_are E V s M" and "\<forall>t. \<not> permitted E M caller manager_requirement t"
    and "handle E wakes fuel caller request now s = (Some r, s')" and "rs_result r = Inr (HistoryBody shown next)"
  shows "\<forall>entry\<in>set shown. own_or_withheld (principal_of caller) entry"
proof -
  let ?s = "s\<lparr>sh_ticks := Suc (sh_ticks s)\<rparr>"
  have "grants_are E V ?s M" using assms(1) by (simp add: handle_holds_def)
  from handle_at_history_own [OF this assms(2) assms(3) [unfolded handle_def] assms(4)] show ?thesis .
qed

theorem history_writers_withheld_witness:
  "\<exists>r s' shown next. handle reference_service (\<lambda>_ s. s) 1 reference_caller history_request 7 (service_state GList) = (Some r, s') \<and>
     rs_result r = Inr (HistoryBody shown next) \<and> list_all (own_or_withheld (principal_of reference_caller)) shown"
proof -
  obtain r s' shown nxt where run: "handle reference_service (\<lambda>_ s. s) 1 reference_caller history_request 7 (service_state GList) = (Some r, s')"
    "rs_result r = Inr (HistoryBody shown nxt)"
    using history_served [of "\<lambda>_ s. s" 1 1] by (auto simp: handle_def service_state_def)
  have "\<forall>t. \<not> permitted reference_service (service_grants GList) reference_caller manager_requirement t"
    using lookup_none [OF service_no_manager] by (auto simp: permitted_def target_digests_def)
  from history_writers_withheld [OF service_state_holds(1) this run] run show ?thesis by (auto simp: list_all_iff)
qed

section \<open>Leases and repetition\<close>

text \<open>C4: once the vault is sealed, or every further reading of the clock is past the end of the lease, each request is
  answered with the same error, without touching the store, and the vault is sealed afterwards.\<close>

theorem ended_lease_serves_nothing:
  assumes "lease_ended E s"
  shows "\<exists>r s'. handle E wakes fuel caller request now s = (Some r, s') \<and> rs_result r = Inl (response_error Sealed) \<and>
    sh_worker s' = sh_worker s \<and> (\<not> ls_poisoned s \<longrightarrow> ws_sealed (sh_status s'))"
  using handle_at_ended [of E "s\<lparr>sh_ticks := Suc (sh_ticks s)\<rparr>" wakes fuel caller request now "instants E (sh_ticks s)"]
    lease_ended_later(1) [OF assms, of 1] by (simp add: handle_def)

theorem ended_lease_serves_nothing_witness:
  "\<exists>r s'. handle reference_service (\<lambda>_ s. s) 1 reference_caller service_request 7
      ((service_state GGet)\<lparr>ls_lease := service_lease\<lparr>idle_expires_at := 5\<rparr>\<rparr>) = (Some r, s') \<and>
    rs_result r = Inl (response_error Sealed) \<and> ws_sealed (sh_status s')"
proof -
  let ?s = "(service_state GGet)\<lparr>ls_lease := service_lease\<lparr>idle_expires_at := 5\<rparr>\<rparr>"
  have "lease_ended reference_service ?s" by (simp add: lease_ended_def lease_expires_at_def service_lease_def)
  moreover have "\<not> ls_poisoned ?s" by (simp add: service_state_def)
  ultimately show ?thesis using ended_lease_serves_nothing [of reference_service ?s] by blast
qed

text \<open>C11: a request that was answered, repeated by any caller, is answered with an error and changes no document, as long
  as the requests handled meanwhile, however many and also during the waits of others, have fewer than 4096 other
  identifiers; with more, the window has dropped the oldest.\<close>

theorem repeated_request_refused:
  assumes "service_wf E A s" and "handle E wakes fuel caller request now s = (Some r, s1)" and "is_ok (rs_result r)"
    and "interleaved_in E X wakes" and "interleaved_in E X wakes'" and "(service_step_in E X wakes')\<^sup>*\<^sup>* s1 s2"
    and "finite X" and "card (X - {vr_request_id request}) < MAX_REPLAY_IDS" and "vr_request_id again = vr_request_id request"
  shows "\<exists>r' s3. handle E w f anyone again later s2 = (Some r', s3) \<and> \<not> is_ok (rs_result r') \<and> same_docs s2 s3"
proof -
  let ?R = "consumed_before (vr_request_id request) X"
  note kept = consumed_before_kept [OF assms(7,8)]
  have s1: "service_inv ?R E A s1" by (rule answered_consumed [OF assms(1) wf_interleaved [OF assms(4) kept] assms(2,3)])
  have "service_inv ?R E A s2" by (rule wf_steps [OF wf_interleaved [OF assms(5) kept] kept assms(6) s1])
  then have "vr_request_id again \<in> rw_set (ls_replay s2)"
    unfolding assms(9) service_inv_def by (blast intro: consumed_before_in)
  then show ?thesis
    using handle_at_replayed [of again "s2\<lparr>sh_ticks := Suc (sh_ticks s2)\<rparr>" E w f anyone later "instants E (sh_ticks s2)"]
    by (simp add: handle_def same_docs_def)
qed

theorem repeated_request_refused_witness:
  "\<exists>r s1 r' s3. handle reference_service (\<lambda>_ s. s) 1 reference_caller service_request 7 (service_state GGet) = (Some r, s1) \<and>
     rs_result r = Inr (SecretBody (Some ''secret'')) \<and>
     handle reference_service (\<lambda>_ s. s) 1 reference_caller service_request 7 s1 = (Some r', s3) \<and> \<not> is_ok (rs_result r')"
proof -
  obtain r s1 where run: "handle reference_service (\<lambda>_ s. s) 1 reference_caller service_request 7 (service_state GGet) = (Some r, s1)"
    "rs_result r = Inr (SecretBody (Some ''secret''))" using service_answer by blast
  have "service_wf reference_service (absolute_expires_at service_lease) (service_state GGet)"
    by (simp add: service_inv_def service_state_def replay_ok_new service_lease_def lease_inv_def queue_wf_default)
  from repeated_request_refused [OF this run(1) _ _ _ rtranclp.rtrancl_refl, where X = "{}" and wakes' = "\<lambda>_ s. s" and again = service_request]
  show ?thesis using run by (fastforce simp: interleaved_in.others MAX_REPLAY_IDS_def)
qed

end
