(* ===== verification/Permission_Pages.thy ===== *)
theory Permission_Pages
  imports Service
begin

text \<open>The pages of the permission list: the service fills a page up to the message budget
  (\<open>permission_page\<close> in service.rs), and a client follows the cursors until the last page
  (\<open>read_permission_pages\<close> in wire.rs).\<close>

abbreviation page_budget :: nat where
  "page_budget \<equiv> MAX_MESSAGE_BYTES - 4096"

definition fits_page :: "Permission json \<Rightarrow> Permission \<Rightarrow> bool" where
  "fits_page J p \<longleftrightarrow> (case to_vec J p of Inr b \<Rightarrow> length b + 1 \<le> page_budget | Inl _ \<Rightarrow> False)"

definition encoded_size :: "Permission json \<Rightarrow> Permission list \<Rightarrow> nat" where
  "encoded_size J ps = sum_list (map (\<lambda>p. case to_vec J p of Inr b \<Rightarrow> length b + 1 | Inl _ \<Rightarrow> 0) ps)"

lemma fill_page_result:
  assumes "\<forall>p\<in>set qs. fits_page J p" and "page = [] \<Longrightarrow> remaining = page_budget"
  shows "\<exists>k \<le> length qs. fill_page J qs remaining page = Inr (page @ take k qs,
      if k = length qs then None else Some (pm_id (last (page @ take k qs)))) \<and>
    encoded_size J (take k qs) \<le> remaining \<and> (k < length qs \<longrightarrow> page @ take k qs \<noteq> [])"
  using assms
proof (induction qs arbitrary: remaining page)
  case (Cons p qs)
  obtain b where b: "to_vec J p = Inr b" "length b + 1 \<le> page_budget"
    using Cons.prems(1) by (auto simp: fits_page_def split: sum.splits)
  show ?case
  proof (cases "length b + 1 > remaining")
    case True
    then have "page \<noteq> []" using b(2) Cons.prems(2) by force
    with True b show ?thesis by (intro exI [of _ 0]) (simp add: encoded_size_def)
  next
    case False
    obtain k where k: "k \<le> length qs" "fill_page J qs (remaining - (length b + 1)) (page @ [p]) = Inr ((page @ [p]) @ take k qs,
        if k = length qs then None else Some (pm_id (last ((page @ [p]) @ take k qs))))"
      "encoded_size J (take k qs) \<le> remaining - (length b + 1)"
      using Cons.IH [of "page @ [p]" "remaining - (length b + 1)"] Cons.prems(1) by auto
    have "encoded_size J (take (Suc k) (p # qs)) \<le> remaining" using k(3) False b by (simp add: encoded_size_def)
    with k False b show ?thesis by (intro exI [of _ "Suc k"]) simp
  qed
qed (simp add: encoded_size_def)

abbreviation by_id :: "Permission list \<Rightarrow> bool" where
  "by_id \<equiv> sorted_wrt (\<lambda>p q. pm_id p < pm_id q)"

definition after :: "string option \<Rightarrow> Permission list \<Rightarrow> Permission list" where
  "after cursor ps = filter (\<lambda>p. case cursor of None \<Rightarrow> True | Some c \<Rightarrow> pm_id p > c) ps"

lemma by_id_after: "by_id ps \<Longrightarrow> by_id (after cursor ps)"
  by (simp add: after_def sorted_wrt_filter)

lemma after_last:
  assumes "by_id ps" and "0 < k" and "k \<le> length (after cursor ps)"
  shows "after (Some (pm_id (last (take k (after cursor ps))))) ps = drop k (after cursor ps)"
proof -
  let ?qs = "after cursor ps" and ?l = "pm_id (last (take k (after cursor ps)))"
  have ne: "take k ?qs \<noteq> []" using assms(2,3) by auto
  have split: "by_id (take k ?qs @ drop k ?qs)" using by_id_after [OF assms(1)] by simp
  have across: "\<forall>p\<in>set (take k ?qs). \<forall>q\<in>set (drop k ?qs). pm_id p < pm_id q" "by_id (take k ?qs)"
    using split unfolding sorted_wrt_append by blast+
  have mem: "last (take k ?qs) \<in> set ?qs" using last_in_set [OF ne] in_set_takeD by fast
  have "after (Some ?l) ps = filter (\<lambda>p. pm_id p > ?l) ?qs"
    using mem by (auto simp: after_def intro!: filter_cong split: option.splits)
  also have "\<dots> = filter (\<lambda>p. pm_id p > ?l) (take k ?qs) @ filter (\<lambda>p. pm_id p > ?l) (drop k ?qs)"
    by (metis append_take_drop_id filter_append)
  also have "filter (\<lambda>p. pm_id p > ?l) (take k ?qs) = []"
  proof -
    have s: "by_id (butlast (take k ?qs) @ [last (take k ?qs)])" using across(2) ne by simp
    have "pm_id p \<le> ?l" if "p \<in> set (take k ?qs)" for p
    proof -
      have "p \<in> set (butlast (take k ?qs) @ [last (take k ?qs)])" using that ne by simp
      then show ?thesis using s by (auto simp: sorted_wrt_append)
    qed
    then show ?thesis by (auto simp: filter_empty_conv not_less)
  qed
  also have "filter (\<lambda>p. pm_id p > ?l) (drop k ?qs) = drop k ?qs"
    using across(1) last_in_set [OF ne] by (auto intro!: filter_True)
  finally show ?thesis by simp
qed

text \<open>The answers of a service whose permissions do not change meanwhile.\<close>

definition answer_page :: "Permission json \<Rightarrow> u64 \<Rightarrow> Permission list \<Rightarrow> VaultAction \<Rightarrow> VaultResponseBody vault_result" where
  "answer_page J revision ps action = (case action of
      ListPermissionsAction \<Rightarrow> permission_page J revision ps None
    | WaitPermissionsAction _ _ \<Rightarrow> permission_page J revision ps None
    | ListPermissionsPageAction expected cursor \<Rightarrow>
        rbind (guard (revision = expected) VaultError.Conflict) (\<lambda>_. permission_page J revision ps (Some cursor))
    | _ \<Rightarrow> Inl WorkerUnavailable)"

lemma by_id_adjacent: "by_id qs \<Longrightarrow> \<not> list_ex (\<lambda>(p, q). pm_id p \<ge> pm_id q) (zip qs (tl qs))"
proof (induction qs)
  case (Cons p qs)
  then show ?case by (cases qs) (auto simp: not_le)
qed simp

lemma permission_pages_complete:
  assumes "by_id ps" and "\<forall>p\<in>set ps. fits_page J p"
    and "\<And>a s. request a s = (answer_page J revision ps a, step s)"
    and "answer_page J revision ps action = permission_page J revision ps cursor"
    and "expected = None \<or> expected = Some revision"
  shows "\<exists>s'. permission_pages request action expected cursor all s = Some (Inr (revision, all @ after cursor ps), s')"
  using assms(4,5)
proof (induction "length (after cursor ps)" arbitrary: cursor action expected all s rule: less_induct)
  case less
  let ?qs = "after cursor ps"
  have "\<forall>p\<in>set ?qs. fits_page J p" using assms(2) by (simp add: after_def)
  then have "\<exists>k \<le> length ?qs. fill_page J ?qs page_budget [] = Inr ([] @ take k ?qs,
      if k = length ?qs then None else Some (pm_id (last ([] @ take k ?qs)))) \<and>
    encoded_size J (take k ?qs) \<le> page_budget \<and> (k < length ?qs \<longrightarrow> [] @ take k ?qs \<noteq> [])"
    by (rule fill_page_result) simp
  then obtain k where k: "k \<le> length ?qs"
      "fill_page J ?qs page_budget [] = Inr (take k ?qs, if k = length ?qs then None else Some (pm_id (last (take k ?qs))))"
      "k < length ?qs \<Longrightarrow> take k ?qs \<noteq> []" unfolding append_Nil by blast
  let ?next = "if k = length ?qs then None else Some (pm_id (last (take k ?qs)))"
  have req: "request action s = (Inr (PermissionsBody revision (take k ?qs) ?next), step s)"
    using assms(3) less.prems(1) k(2) by (simp add: permission_page_def after_def)
  have sorted: "by_id (take k ?qs)" using by_id_after [OF assms(1)] by (rule sorted_wrt_take)
  have chk: "check_permission_page expected cursor (PermissionsBody revision (take k ?qs) ?next) = Inr (revision, take k ?qs, ?next)"
  proof -
    have "\<not> list_ex (\<lambda>p. case cursor of None \<Rightarrow> False | Some old \<Rightarrow> pm_id p \<le> old) (take k ?qs)"
      by (auto simp: list_ex_iff after_def dest!: in_set_takeD split: option.splits)
    then show ?thesis
      using by_id_adjacent [OF sorted] less.prems(2) k by (auto simp: check_permission_page_def)
  qed
  show ?case
  proof (cases "k = length ?qs")
    case True
    then show ?thesis using req chk by (subst permission_pages.simps) simp
  next
    case False
    then have pos: "0 < k" "k < length ?qs" using k(1,3) by (cases k; simp)+
    have rest: "after (Some (pm_id (last (take k ?qs)))) ps = drop k ?qs" using after_last [OF assms(1) pos(1) k(1)] .
    have "\<exists>s'. permission_pages request (ListPermissionsPageAction revision (pm_id (last (take k ?qs)))) (Some revision)
        (Some (pm_id (last (take k ?qs)))) (all @ take k ?qs) (step s) =
        Some (Inr (revision, (all @ take k ?qs) @ after (Some (pm_id (last (take k ?qs)))) ps), s')"
      by (rule less.hyps) (use pos rest in \<open>simp_all add: answer_page_def\<close>)
    then show ?thesis using req chk False rest by (subst permission_pages.simps) simp
  qed
qed

end
