(* ===== verification/State_Properties.thy ===== *)
theory State_Properties
  imports Service_Reference Service_Invariant Permission_Pages
begin

text \<open>The properties of the approval queue and of the service's state, with concrete runs.\<close>

section \<open>The rate of requests\<close>

text \<open>C12: whatever the callers do, in no window of the rate limit does one caller create more approval requests than it
  may, nor do all callers together.\<close>

theorem approval_rate_bounded:
  assumes "approval_run H pa created t"
  shows "length (created_within fp u created) \<le> MAX_NEW_APPROVALS_PER_CALLER \<and>
    length (filter (\<lambda>(c, _). u \<le> c \<and> c < u + APPROVAL_RATE_WINDOW) created) \<le> MAX_NEW_APPROVALS"
  using assms by (rule run_rate)

definition sample_candidate :: ApprovalCandidate where
  "sample_candidate = \<lparr>cd_caller = reference_caller,
     cd_application = \<lparr>ac_project = Some ''web'', ac_profile = None, ac_base_dir = None, ac_reason = None,
       ac_requested_permission_duration_seconds = None, ac_declared_launch_chain = []\<rparr>,
     cd_scope = SecretSpecProviderCache, cd_namespace = ''web'', cd_address = Some (Local ''svc'' None),
     cd_permission = GGet, cd_operation = GetOp, cd_expiring_write = False\<rparr>"

definition sample_record :: ApprovalRecord where
  "sample_record = \<lparr>ar_summary = pending_summary sample_candidate (Local ''svc'' None) ''prm_i'' ''c'' 7 (7 + APPROVAL_TTL_SECONDS),
     ar_caller = reference_caller, ar_scope = SecretSpecProviderCache, ar_namespace = ''web'',
     ar_address = Some (Local ''svc'' None), ar_permission = GGet, ar_awaited_until = Some (5 + REQUESTER_GRACE)\<rparr>"

definition sample_queue :: PendingApprovals where
  "sample_queue = approvals_default\<lparr>pa_records := [sample_record],
     pa_recent_creations := [(5, fingerprint reference_service reference_caller)],
     pa_revision := pa_revision approvals_default + 1, pa_unsaved := True\<rparr>"

lemma default_purged: "approvals_purge_expired H now approvals_default = approvals_default"
  by (simp add: approvals_purge_expired_def approvals_default_def Let_def)

lemma sample_created:
  "create_at reference_service (Inr ''i'') (Inr ''c'') sample_candidate 7 5 approvals_default =
     (Inr \<lparr>ir_id = ''prm_i'', ir_expires_at = 7 + APPROVAL_TTL_SECONDS\<rparr>, sample_queue)"
proof -
  have add: "checked_add64 7 APPROVAL_TTL_SECONDS = Some (7 + APPROVAL_TTL_SECONDS)"
    by (simp add: checked_add64_def APPROVAL_TTL_SECONDS_def)
  have d: "pa_records approvals_default = []" "pa_recent_creations approvals_default = []"
    by (simp_all add: approvals_default_def)
  have c: "cd_address sample_candidate = Some (Local ''svc'' None)" "cd_operation sample_candidate = GetOp"
    "cd_caller sample_candidate = reference_caller" "cd_scope sample_candidate = SecretSpecProviderCache"
    "cd_namespace sample_candidate = ''web''" "cd_permission sample_candidate = GGet"
    by (simp_all add: sample_candidate_def)
  have h: "permission_ident reference_service ''i'' = ''prm_i''"
    by (simp add: permission_ident_def reference_service_defs)
  show ?thesis
    by (simp add: create_at_def sbind_def slift_def smodify_def sget_def sread_def sret_def ok_or_def guard_def Let_def default_purged add d c h approval_limited_def MAX_PENDING_APPROVALS_def
        MAX_PENDING_PER_CALLER_def MAX_NEW_APPROVALS_def MAX_NEW_APPROVALS_PER_CALLER_def position_of_def recent_window_def
        sample_queue_def sample_record_def)
qed

theorem approval_rate_bounded_witness:
  "length (created_within (fingerprint reference_service reference_caller) 0
     [(5, fingerprint reference_service reference_caller)]) \<le> MAX_NEW_APPROVALS_PER_CALLER"
proof -
  have "approval_run reference_service approvals_default [] 5"
    by (rule approval_run.start) (simp add: approvals_default_def)
  from approval_run.creates [OF this order_refl sample_created, of sample_record]
  have "approval_run reference_service sample_queue [(5, fingerprint reference_service reference_caller)] 5"
    unfolding default_purged by (simp add: sample_queue_def approvals_default_def sample_candidate_def)
  from approval_rate_bounded [OF this] show ?thesis by blast
qed

section \<open>Restarts\<close>

text \<open>C13: a queue written to its document is restored by the next service: every request that has not expired meanwhile,
  in order and as it was, but for who was waiting for it.\<close>

theorem pending_requests_survive_restart:
  assumes "handle_holds E V Authorization PENDING_DOCUMENT_NAMESPACE s M"
    and "handle_room E Authorization PENDING_DOCUMENT_NAMESPACE s (Suc n)" and "deadlines_fit M"
    and "json_ok (j_pending E)" and "pa_unsaved pa" and "list_all restorable (pa_records pa)"
    and "length (pa_records pa) \<le> MAX_PENDING_APPROVALS" and "\<forall>r\<in>set (pa_records pa). unat (expires_at_of r) < 2 ^ 63"
  shows "\<exists>s1 pa2 s2. approvals_save (pending_store_ops E) (j_pending E) now pa s = (Inr (), pa\<lparr>pa_unsaved := False\<rparr>, s1) \<and>
    approvals_load E (pending_store_ops E) (j_pending E) later s1 = (pa2, s2) \<and>
    pa_records pa2 = filter (still_pending later) (map stored_record (pa_records pa))"
  using live_service_store.approvals_round_trip [OF assms] unfolding pending_store_ops_def by blast

definition empty_handle :: StoreHandle where
  "empty_handle = \<lparr>sh_status = \<lparr>ws_sealed = False, ws_deadline = Some 100, ws_shutdown_complete = False\<rparr>,
     sh_worker = empty_worker reference_service, sh_ticks = 0\<rparr>"

lemma empty_handle_holds:
  "handle_holds reference_service cdoc_view Authorization PENDING_DOCUMENT_NAMESPACE empty_handle Map.empty"
  "n < 2 ^ 62 \<Longrightarrow> handle_room reference_service Authorization PENDING_DOCUMENT_NAMESPACE empty_handle n"
  using empty_worker_holds [OF service_store_ok, of Authorization PENDING_DOCUMENT_NAMESPACE]
    empty_worker_room [OF service_store_ok service_store_total service_calm, of n Authorization PENDING_DOCUMENT_NAMESPACE]
  by (simp_all add: handle_holds_def handle_room_def empty_handle_def unsealed_def)

theorem pending_requests_survive_restart_witness:
  "\<exists>s1 pa2 s2. approvals_save (pending_store_ops reference_service) (j_pending reference_service) 7 sample_queue empty_handle =
      (Inr (), sample_queue\<lparr>pa_unsaved := False\<rparr>, s1) \<and>
    approvals_load reference_service (pending_store_ops reference_service) (j_pending reference_service) 8 s1 = (pa2, s2) \<and>
    map (pm_id \<circ> ar_summary) (pa_records pa2) = [''prm_i'']"
proof -
  have r: "list_all restorable (pa_records sample_queue)"
    using reference_caller_valid
    by (simp add: sample_queue_def approvals_default_def restorable_def sample_record_def pending_summary_def)
  have e: "\<forall>r\<in>set (pa_records sample_queue). unat (expires_at_of r) < 2 ^ 63"
    by (simp add: sample_queue_def approvals_default_def expires_at_of_def sample_record_def pending_summary_def
        APPROVAL_TTL_SECONDS_def)
  have p: "filter (still_pending 8) (map stored_record (pa_records sample_queue)) = [stored_record sample_record]"
    by (simp add: sample_queue_def approvals_default_def stored_record_def still_pending_def sample_record_def
        pending_summary_def APPROVAL_TTL_SECONDS_def)
  have j: "json_ok (j_pending reference_service)" by (simp add: reference_service_defs)
  from pending_requests_survive_restart [OF empty_handle_holds(1) empty_handle_holds(2) _ j _ r _ e, of 0 7 8] p
  show ?thesis
    by (auto simp: sample_queue_def approvals_default_def MAX_PENDING_APPROVALS_def stored_record_def sample_record_def
        pending_summary_def deadlines_fit_def)
qed

section \<open>The state of the service\<close>

text \<open>All but the limit per caller holds of a restored queue, whatever its document contains.\<close>

lemma restored_wf:
  assumes "\<forall>fp. length (of_caller H fp (pa_records (restore H J now found))) \<le> MAX_PENDING_PER_CALLER"
  shows "queue_wf H (restore H J now found)"
proof -
  have default: ?thesis if "restore H J now found = approvals_default" using that queue_wf_default by simp
  have stored: ?thesis if r: "restore H J now found = approvals_purge_expired H now (approvals_default
      \<lparr>pa_records := take MAX_PENDING_APPROVALS (filter restorable rs), pa_unsaved := u\<rparr>)" for rs u
  proof -
    let ?q = "approvals_default\<lparr>pa_records := take MAX_PENDING_APPROVALS (filter restorable rs), pa_unsaved := u\<rparr>"
    have kept: "list_all is_pending (pa_records ?q)"
      by (auto simp: list_all_iff restorable_pending dest!: in_set_takeD)
    have len: "length (pa_resolved (approvals_purge_expired H now ?q)) \<le> MAX_PENDING_APPROVALS"
      by (rule purge_resolved) (simp add: approvals_default_def)
    have fields: "pa_records (approvals_purge_expired H now ?q) = filter (still_pending now) (pa_records ?q)"
      "pa_recent_creations (approvals_purge_expired H now ?q) = []"
      by (simp_all add: purge_fields approvals_default_def)
    have short: "length (filter (still_pending now) (pa_records ?q)) \<le> MAX_PENDING_APPROVALS"
      by (rule order_trans [OF length_filter_le]) simp
    show ?thesis
      using assms kept len short unfolding r queue_wf_def fields
      by (auto simp: list_all_iff created_by_def)
  qed
  show ?thesis using default stored by (auto simp: restore_def Let_def split: sum.splits option.splits if_splits)
qed

text \<open>C10: a service started on a store whose restored queue holds no more requests of a caller than it may keeps a
  well-formed state through every request, whether it is answered or refused, through every run of its timer and
  through whatever other threads do while a request waits: the
  lease never outlives the maximum lifetime it started with, the replay window holds no identifier twice and no more
  than its capacity, and the queue keeps its limits.\<close>

theorem service_state_well_formed:
  assumes "service_new E now policy h = Inr s"
    and "\<forall>fp. length (of_caller E fp (pa_records (ls_approvals s))) \<le> MAX_PENDING_PER_CALLER"
    and "interleaved E wakes"
    and "(service_step E wakes)\<^sup>*\<^sup>* s s'"
  shows "service_wf E (instants E (sh_ticks h) + maximum_lifetime policy) s'"
proof -
  have "\<exists>found. ls_approvals s = restore E (j_pending E) now found"
    using assms(1)
    by (auto simp: service_new_def approvals_load_def Let_def split: sum.splits prod.splits)
  then have "queue_wf E (ls_approvals s)" using assms(2) restored_wf by force
  from wf_steps [OF wf_interleaved [OF assms(3) replay_ok_kept] replay_ok_kept assms(4) wf_new [OF assms(1) this]] show ?thesis .
qed

lemma no_document_loaded:
  assumes "approvals_load E (pending_store_ops E) J now h = (pa, h')"
    and "handle_holds E V Authorization PENDING_DOCUMENT_NAMESPACE h Map.empty"
  shows "pa = approvals_default"
proof -
  obtain found where found: "op_get (pending_store_ops E) (Local ''pending'' None) now h = (found, h')"
    "pa = restore E J now found"
    using assms(1) by (auto simp: approvals_load_def pending_address_eq split: prod.splits)
  have "v = None" if "found = Inr v" for v
    using service_store.get_ok [OF assms(2), of "Local ''pending'' None" now v h'] found(1) that
    by (simp add: pending_store_ops_def read_entry_def)
  then show ?thesis using found(2) by (cases found) (auto simp: restore_def)
qed

definition first_handle :: StoreHandle where
  "first_handle = snd (vs_set_deadline reference_service (5 + idle_timeout policy_default) (empty_handle\<lparr>sh_ticks := 1\<rparr>))"

theorem service_state_well_formed_witness:
  "\<exists>s. service_new reference_service 7 policy_default empty_handle = Inr s \<and>
     service_wf reference_service (5 + maximum_lifetime policy_default)
       (snd (handle reference_service (\<lambda>_ s. s) 3 reference_caller service_request 7 s))"
proof -
  obtain pa h where load: "approvals_load reference_service (pending_store_ops reference_service)
      (j_pending reference_service) 7 first_handle = (pa, h)" by fastforce
  have clock: "instants reference_service n = 5" for n by (simp add: reference_service_defs)
  obtain s where s: "service_new reference_service 7 policy_default empty_handle = Inr s" "ls_approvals s = pa"
    using load by (simp add: service_new_def lease_new_def instant_now_def sbind_def slift_def clock lease_new_at_def
        policy_validate_def policy_default_def NANOS_def checked_add64_def as_secs_def instant_checked_add_def
        lease_expires_at_def vs_set_deadline_def first_handle_def empty_handle_def set_deadline_def sret_def)
  have "handle_holds reference_service cdoc_view Authorization PENDING_DOCUMENT_NAMESPACE first_handle Map.empty"
    using empty_handle_holds(1) by (simp add: handle_holds_def first_handle_def vs_set_deadline_def Let_def split: prod.splits)
  then have "ls_approvals s = approvals_default" using no_document_loaded [OF load] s(2) by simp
  then have few: "\<forall>fp. length (of_caller reference_service fp (pa_records (ls_approvals s))) \<le> MAX_PENDING_PER_CALLER"
    by (simp add: approvals_default_def of_caller_def)
  have "service_step reference_service (\<lambda>_ s. s) s
      (snd (handle reference_service (\<lambda>_ s. s) 3 reference_caller service_request 7 s))"
    by (rule service_step_in.request [OF surjective_pairing UNIV_I])
  then have "(service_step reference_service (\<lambda>_ s. s))\<^sup>*\<^sup>* s
      (snd (handle reference_service (\<lambda>_ s. s) 3 reference_caller service_request 7 s))" by blast
  from service_state_well_formed [OF s(1) few _ this] s(1) show ?thesis by (simp add: clock interleaved_in.others)
qed

section \<open>The permission list\<close>

text \<open>C14: a client that follows the cursors of the permission list ends, with every permission in order and once,
  as long as each alone fits into a message; and every page it was sent fits into one.\<close>

theorem permission_list_read_completely:
  assumes "by_id ps" and "\<forall>p\<in>set ps. fits_page J p"
  shows "(\<exists>s'. read_permission_pages (\<lambda>a s. (answer_page J revision ps a, step s)) after_revision s =
      Some (Inr (revision, ps), s')) \<and>
    (\<exists>shown next. permission_page J revision ps cursor = Inr (PermissionsBody revision shown next) \<and>
      encoded_size J shown \<le> MAX_MESSAGE_BYTES - 4096)"
proof
  have all: "after None ps = ps" by (simp add: after_def)
  have first: "answer_page J revision ps (first_permission_page after_revision) = permission_page J revision ps None"
    by (simp add: first_permission_page_def answer_page_def split: option.splits)
  from permission_pages_complete [OF assms, where request = "\<lambda>a s. (answer_page J revision ps a, step s)" and all = "[]", OF refl first]
  show "\<exists>s'. read_permission_pages (\<lambda>a s. (answer_page J revision ps a, step s)) after_revision s =
      Some (Inr (revision, ps), s')"
    unfolding read_permission_pages_def by (simp add: all)
  have "\<forall>p\<in>set (after cursor ps). fits_page J p" using assms(2) by (simp add: after_def)
  from fill_page_result [OF this, of "[]" page_budget]
  show "\<exists>shown next. permission_page J revision ps cursor = Inr (PermissionsBody revision shown next) \<and>
      encoded_size J shown \<le> MAX_MESSAGE_BYTES - 4096"
    by (auto simp: permission_page_def after_def)
qed

theorem permission_list_read_completely_witness:
  "\<exists>s'. read_permission_pages (\<lambda>a s. (answer_page (j_permission reference_service) 3 [ar_summary sample_record] a, Suc s)) None 0 =
      Some (Inr (3, [ar_summary sample_record]), s')"
proof -
  have fits: "\<forall>p\<in>set [ar_summary sample_record]. fits_page (j_permission reference_service) p"
    by (simp add: fits_page_def reference_service_defs sample_record_def pending_summary_def MAX_MESSAGE_BYTES_def)
  from permission_list_read_completely [OF _ fits, of 3 Suc None 0] show ?thesis by simp
qed

end
