(* ===== verification/Archive.thy ===== *)
theory Archive
  imports Service
begin

text \<open>
  Portable backups (\<open>src/src/vault/archive.rs\<close>): the archive and its validation, the encrypted file, the
  upgrade of version 1 archives, the export loop of a client, and the import loop of
  \<open>src/src/transfer/import_plan.rs\<close>.  Argon2id, base64, AES-256-GCM, serde_json, the password estimator and the
  random source are arguments; the policy on new passwords is \<open>src/src/security/password.rs\<close>.
\<close>

section \<open>Archives\<close>

definition ARCHIVE_FORMAT :: string where "ARCHIVE_FORMAT = ''factorseal-vault-archive''"
definition ARCHIVE_VERSION :: nat where "ARCHIVE_VERSION = 2"
definition SALT_BYTES :: nat where "SALT_BYTES = 16"
definition MAX_ARCHIVE_FILE_BYTES :: nat where "MAX_ARCHIVE_FILE_BYTES = 256 * 1024 * 1024"
definition MAX_ARCHIVE_PAYLOAD_BYTES :: nat where "MAX_ARCHIVE_PAYLOAD_BYTES = 192 * 1024 * 1024"
definition MAX_ARCHIVE_ENTRIES :: nat where "MAX_ARCHIVE_ENTRIES = 100000"
definition ARGON2_MEMORY_KIB :: nat where "ARGON2_MEMORY_KIB = 128 * 1024"
definition ARGON2_ITERATIONS :: nat where "ARGON2_ITERATIONS = 3"
definition ARGON2_PARALLELISM :: nat where "ARGON2_PARALLELISM = 1"
definition MAX_ARGON2_MEMORY_KIB :: nat where "MAX_ARGON2_MEMORY_KIB = 256 * 1024"
definition MAX_ARGON2_ITERATIONS :: nat where "MAX_ARGON2_ITERATIONS = 10"
definition MAX_ARGON2_PARALLELISM :: nat where "MAX_ARGON2_PARALLELISM = 16"

record VaultArchiveEntry =
  ae_metadata :: VaultEntryMetadata
  ae_value :: bytes
  ae_evict_at :: "u64 option"

record VaultArchive =
  va_format :: string
  va_version :: nat
  va_created_at :: u64
  va_entries :: "VaultArchiveEntry list"

definition without_labels :: "VaultArchiveEntry \<Rightarrow> VaultArchiveEntry" where
  "without_labels entry = entry\<lparr>ae_metadata := (ae_metadata entry)\<lparr>vm_display_name := None, vm_display_type := None,
     vm_display_username := None, vm_display_website := None, vm_updated_at := None, vm_favorite := False\<rparr>\<rparr>"

definition archive_new :: "u64 \<Rightarrow> VaultArchiveEntry list \<Rightarrow> VaultArchive" where
  "archive_new created_at entries = \<lparr>va_format = ARCHIVE_FORMAT, va_version = ARCHIVE_VERSION,
     va_created_at = created_at, va_entries = map without_labels entries\<rparr>"

definition validate_archive_entry :: "PortableItem json \<Rightarrow> VaultArchiveEntry \<Rightarrow> unit vault_result" where
  "validate_archive_entry J entry =
     rbind (validate_transfer (ae_metadata entry)) (\<lambda>_.
     if vm_document_kind (ae_metadata entry) = LinuxSecretService then
       rbind (guard (\<not> (vm_partition (ae_metadata entry) \<noteq> SECRET_SERVICE_NAMESPACE \<or> ae_evict_at entry \<noteq> None))
         (InvalidData ''unsupported portable keyring partition or expiry'')) (\<lambda>_.
       rbind (portable_decode J (ae_value entry) (vm_address (ae_metadata entry))) (\<lambda>_.
       Inr ()))
     else Inr ())"

definition archive_validate :: "PortableItem json \<Rightarrow> VaultArchive \<Rightarrow> unit vault_result" where
  "archive_validate J archive =
     rbind (guard (\<not> (va_format archive \<noteq> ARCHIVE_FORMAT \<or> va_version archive \<noteq> ARCHIVE_VERSION))
       (InvalidData ''unsupported FactorSeal archive format or version'')) (\<lambda>_.
     rbind (guard (\<not> length (va_entries archive) > MAX_ARCHIVE_ENTRIES)
       (InvalidData ''FactorSeal archive contains too many entries'')) (\<lambda>_.
     rforM (validate_archive_entry J) (va_entries archive)))"

section \<open>Version 1 archives\<close>

text \<open>Version 1 kept the index of the desktop keyring as an entry of its own.  One pass separates it from the values,
  a second joins each value to its item.\<close>

definition split_legacy ::
  "Index json \<Rightarrow> VaultArchiveEntry \<Rightarrow> Index option \<times> VaultArchiveEntry list \<times> VaultArchiveEntry list
     \<Rightarrow> (Index option \<times> VaultArchiveEntry list \<times> VaultArchiveEntry list) vault_result" where
  "split_legacy J entry = (\<lambda>(index, ordinary, keyring).
     if vm_document_kind (ae_metadata entry) \<noteq> LinuxSecretService then Inr (index, ordinary @ [entry], keyring)
     else rbind (guard (\<not> (vm_partition (ae_metadata entry) \<noteq> SECRET_SERVICE_NAMESPACE \<or> ae_evict_at entry \<noteq> None))
         (InvalidData ''invalid legacy keyring entry'')) (\<lambda>_.
       if as_local (vm_address (ae_metadata entry)) = Some (INDEX_ITEM, None) then
         rbind (guard (index = None) (InvalidData ''duplicate legacy keyring index'')) (\<lambda>_.
         rbind (index_decode J (Some (ae_value entry))) (\<lambda>decoded.
         Inr (Some decoded, ordinary, keyring)))
       else Inr (index, ordinary, keyring @ [entry])))"

definition join_legacy ::
  "(nat \<Rightarrow> unit vault_result) \<Rightarrow> PortableItem json \<Rightarrow> VaultArchiveEntry
     \<Rightarrow> (SecretAddress \<rightharpoonup> IndexItem) \<times> VaultArchiveEntry list
     \<Rightarrow> ((SecretAddress \<rightharpoonup> IndexItem) \<times> VaultArchiveEntry list) vault_result" where
  "join_legacy lock J entry = (\<lambda>(items, ordinary).
     rbind (ok_or (items (vm_address (ae_metadata entry)))
       (InvalidData ''legacy keyring value has no unique index entry'')) (\<lambda>item.
     rbind (portable_encode lock J (portable_new item (ae_value entry))) (\<lambda>v.
     Inr (items(vm_address (ae_metadata entry) := None), ordinary @ [entry\<lparr>ae_value := v\<rparr>]))))"

definition upgrade_legacy_keyring ::
  "(nat \<Rightarrow> unit vault_result) \<Rightarrow> Index json \<Rightarrow> PortableItem json \<Rightarrow> VaultArchive \<Rightarrow> VaultArchive vault_result" where
  "upgrade_legacy_keyring lock JI JP archive =
     rbind (rfold (split_legacy JI) (va_entries archive) (None, [], [])) (\<lambda>(index, ordinary, keyring).
     rbind (rmapM (\<lambda>item. rbind (item_address item) (\<lambda>address. Inr (address, item)))
       (ix_items (case index of None \<Rightarrow> index_default | Some i \<Rightarrow> i))) (\<lambda>items.
     rbind (rfold (join_legacy lock JP) keyring (fold (\<lambda>(a, i) m. m(a \<mapsto> i)) items Map.empty, ordinary)) (\<lambda>(left, entries).
     rbind (guard (list_all (\<lambda>(a, _). left a = None) items) (InvalidData ''legacy keyring index has missing values'')) (\<lambda>_.
     Inr (archive\<lparr>va_entries := entries, va_version := ARCHIVE_VERSION\<rparr>)))))"

section \<open>The encrypted file\<close>

record ArchiveKdf =
  kd_algorithm :: string
  kd_version :: nat
  kd_memory_kib :: nat
  kd_iterations :: nat
  kd_parallelism :: nat
  kd_salt :: string

record ArchiveHeader =
  ah_format :: string
  ah_version :: nat
  ah_kdf :: ArchiveKdf
  ah_cipher :: string

record EncryptedArchive =
  ea_header :: ArchiveHeader
  ea_nonce :: string
  ea_ciphertext :: string

text \<open>What the file format uses of other packages.  \<open>argon_params\<close> is \<open>Params::new\<close> with an output of 32 bytes,
  \<open>argon_hash\<close> hashes under memory, iterations and parallelism, a salt and the passphrase; \<open>j_file\<close> writes with
  \<open>to_vec_pretty\<close>; \<open>estimate\<close> is the estimator's score with its feedback.\<close>

record archive_env =
  std_encode :: "bytes \<Rightarrow> string"
  std_decode :: "string \<Rightarrow> bytes option"
  argon_params :: "nat \<Rightarrow> nat \<Rightarrow> nat \<Rightarrow> string + unit"
  argon_hash :: "nat \<Rightarrow> nat \<Rightarrow> nat \<Rightarrow> bytes \<Rightarrow> bytes \<Rightarrow> string + bytes"
  av_cipher :: aead
  av_lock :: "nat \<Rightarrow> unit vault_result"
  j_header :: "ArchiveHeader json"
  j_archive :: "VaultArchive json"
  j_file :: "EncryptedArchive json"
  j_item :: "PortableItem json"
  j_index :: "Index json"
  from_utf8 :: "bytes \<Rightarrow> string option"
  estimate :: "string \<Rightarrow> nat \<times> string option"

definition validate_new_password :: "'z archive_env_scheme \<Rightarrow> bytes \<Rightarrow> string + unit" where
  "validate_new_password A password =
     rbind (guard (\<not> length password > 64 * 1024) ''password must not exceed 64 KiB'') (\<lambda>_.
     rbind (ok_or (from_utf8 A password) ''new passwords must be valid UTF-8'') (\<lambda>text.
     let (score, feedback) = estimate A text in
     if score \<ge> 3 then Inr ()
     else Inl (''Choose a stronger password. '' @ (case feedback of
         None \<Rightarrow> ''Use a few uncommon words that are easy to remember.''
       | Some f \<Rightarrow> if f = '''' then ''Use a few uncommon words that are easy to remember.'' else f))))"

definition validate_passphrase :: "bytes \<Rightarrow> unit vault_result" where
  "validate_passphrase passphrase = guard (passphrase \<noteq> []) (Protection ''archive passphrase must not be empty'')"

definition unsafe_parameters :: "ArchiveHeader \<Rightarrow> bool" where
  "unsafe_parameters h \<longleftrightarrow> kd_algorithm (ah_kdf h) \<noteq> ''argon2id'' \<or> kd_version (ah_kdf h) \<noteq> 19 \<or>
     kd_memory_kib (ah_kdf h) = 0 \<or> kd_memory_kib (ah_kdf h) > MAX_ARGON2_MEMORY_KIB \<or>
     kd_iterations (ah_kdf h) = 0 \<or> kd_iterations (ah_kdf h) > MAX_ARGON2_ITERATIONS \<or>
     kd_parallelism (ah_kdf h) = 0 \<or> kd_parallelism (ah_kdf h) > MAX_ARGON2_PARALLELISM \<or>
     ah_cipher h \<noteq> ''aes-256-gcm''"

definition validate_header :: "ArchiveHeader \<Rightarrow> unit vault_result" where
  "validate_header h =
     rbind (guard (\<not> (ah_format h \<noteq> ARCHIVE_FORMAT \<or> ah_version h \<notin> {1, ARCHIVE_VERSION}))
       (InvalidData ''unsupported FactorSeal archive format or version'')) (\<lambda>_.
     guard (\<not> unsafe_parameters h) (InvalidData ''unsupported or unsafe archive encryption parameters''))"

definition decode_array :: "'z archive_env_scheme \<Rightarrow> nat \<Rightarrow> string \<Rightarrow> string \<Rightarrow> bytes vault_result" where
  "decode_array A n label encoded =
     rbind (ok_or (std_decode A encoded) (InvalidData (''invalid '' @ label))) (\<lambda>decoded.
     rbind (guard (length decoded = n) (InvalidData (''invalid '' @ label @ '' length''))) (\<lambda>_.
     Inr decoded))"

definition derive_key :: "'z archive_env_scheme \<Rightarrow> bytes \<Rightarrow> ArchiveKdf \<Rightarrow> bytes vault_result" where
  "derive_key A passphrase kdf =
     rbind (validate_header \<lparr>ah_format = ARCHIVE_FORMAT, ah_version = ARCHIVE_VERSION, ah_kdf = kdf,
       ah_cipher = ''aes-256-gcm''\<rparr>) (\<lambda>_.
     rbind (decode_array A SALT_BYTES ''archive salt'' (kd_salt kdf)) (\<lambda>salt.
     rbind (map_err (\<lambda>e. Protection (''invalid archive KDF: '' @ e))
       (argon_params A (kd_memory_kib kdf) (kd_iterations kdf) (kd_parallelism kdf))) (\<lambda>_.
     rbind (av_lock A KEY_BYTES) (\<lambda>_.
     map_err (\<lambda>e. Protection (''archive KDF failed: '' @ e))
       (argon_hash A (kd_memory_kib kdf) (kd_iterations kdf) (kd_parallelism kdf) salt passphrase)))))"

definition archive_header :: "'z archive_env_scheme \<Rightarrow> VaultArchive \<Rightarrow> bytes \<Rightarrow> ArchiveHeader" where
  "archive_header A archive salt = \<lparr>ah_format = ARCHIVE_FORMAT, ah_version = va_version archive,
     ah_kdf = \<lparr>kd_algorithm = ''argon2id'', kd_version = 19, kd_memory_kib = ARGON2_MEMORY_KIB,
       kd_iterations = ARGON2_ITERATIONS, kd_parallelism = ARGON2_PARALLELISM, kd_salt = std_encode A salt\<rparr>,
     ah_cipher = ''aes-256-gcm''\<rparr>"

definition encrypt_archive ::
  "'z archive_env_scheme \<Rightarrow> string + bytes \<Rightarrow> string + bytes \<Rightarrow> VaultArchive \<Rightarrow> bytes \<Rightarrow> bytes vault_result" where
  "encrypt_archive A drawn_salt drawn_nonce archive passphrase =
     rbind (map_err Random drawn_salt) (\<lambda>salt.
     let header = archive_header A archive salt in
     rbind (map_err InvalidData (to_vec (j_header A) header)) (\<lambda>aad.
     rbind (serialize_locked (av_lock A) (j_archive A) archive MAX_ARCHIVE_PAYLOAD_BYTES) (\<lambda>plaintext.
     rbind (derive_key A passphrase (ah_kdf header)) (\<lambda>key.
     rbind (map_err (\<lambda>_. Crypto) (crypto_encrypt (av_cipher A) drawn_nonce key aad plaintext)) (\<lambda>encrypted.
     map_err InvalidData (to_vec (j_file A) \<lparr>ea_header = header, ea_nonce = std_encode A (ep_nonce encrypted),
       ea_ciphertext = std_encode A (ep_ciphertext encrypted)\<rparr>))))))"

definition encrypt_vault_archive ::
  "'z archive_env_scheme \<Rightarrow> string + bytes \<Rightarrow> string + bytes \<Rightarrow> VaultArchive \<Rightarrow> bytes \<Rightarrow> bytes vault_result" where
  "encrypt_vault_archive A drawn_salt drawn_nonce archive passphrase =
     rbind (archive_validate (j_item A) archive) (\<lambda>_.
     rbind (map_err Protection (validate_new_password A passphrase)) (\<lambda>_.
     encrypt_archive A drawn_salt drawn_nonce archive passphrase))"

definition decrypt_vault_archive :: "'z archive_env_scheme \<Rightarrow> bytes \<Rightarrow> bytes \<Rightarrow> VaultArchive vault_result" where
  "decrypt_vault_archive A b passphrase =
     rbind (guard (\<not> length b > MAX_ARCHIVE_FILE_BYTES) (InvalidData ''FactorSeal archive is too large'')) (\<lambda>_.
     rbind (validate_passphrase passphrase) (\<lambda>_.
     rbind (map_err (\<lambda>e. InvalidData (''invalid archive: '' @ e)) (from_slice (j_file A) b)) (\<lambda>envelope.
     rbind (validate_header (ea_header envelope)) (\<lambda>_.
     rbind (decode_array A NONCE_BYTES ''archive nonce'' (ea_nonce envelope)) (\<lambda>nonce.
     rbind (ok_or (std_decode A (ea_ciphertext envelope)) (InvalidData ''invalid archive ciphertext'')) (\<lambda>ciphertext.
     rbind (guard (\<not> length ciphertext > MAX_ARCHIVE_PAYLOAD_BYTES + 16)
       (InvalidData ''FactorSeal archive is too large'')) (\<lambda>_.
     rbind (map_err InvalidData (to_vec (j_header A) (ea_header envelope))) (\<lambda>aad.
     rbind (derive_key A passphrase (ah_kdf (ea_header envelope))) (\<lambda>key.
     rbind (map_err (\<lambda>_. Protection ''incorrect passphrase or damaged archive'')
       (crypto_decrypt (av_cipher A) Aes256Gcm key nonce aad ciphertext)) (\<lambda>plaintext.
     rbind (av_lock A (length plaintext)) (\<lambda>_.
     rbind (map_err (\<lambda>e. InvalidData (''invalid archive contents: '' @ e)) (from_slice (j_archive A) plaintext)) (\<lambda>archive.
     rbind (if va_version archive = 1 then upgrade_legacy_keyring (av_lock A) (j_index A) (j_item A) archive
            else Inr archive) (\<lambda>archive.
     rbind (archive_validate (j_item A) archive) (\<lambda>_.
     Inr archive))))))))))))))"

section \<open>Export\<close>

text \<open>One request of a client: \<open>next_id\<close> draws the request identifier, \<open>client\<close> sends the request and receives the
  response.\<close>

definition client_request ::
  "('s, VaultError, RequestId) action \<Rightarrow> (VaultRequest \<Rightarrow> ('s, VaultError, VaultResponse) action) \<Rightarrow> VaultAction
     \<Rightarrow> ('s, VaultError, VaultResponseBody) action" where
  "client_request next_id client action =
     sbind next_id (\<lambda>ident.
     sbind (client (request_with_id ident action)) (\<lambda>response.
     slift (map_err (\<lambda>e. Protocol (re_message e)) (rs_result response))))"

definition export_revision_request ::
  "(VaultAction \<Rightarrow> ('s, VaultError, VaultResponseBody) action) \<Rightarrow> ('s, VaultError, bytes option) action" where
  "export_revision_request request =
     sbind (request ExportRevisionAction) (\<lambda>body. slift (case body of
       ExportRevisionBody revision \<Rightarrow> Inr revision
     | _ \<Rightarrow> Inl (Protocol ''unexpected export revision response'')))"

definition exported_kind :: "VaultEntryMetadata \<Rightarrow> bool" where
  "exported_kind entry \<longleftrightarrow> vm_document_kind entry \<notin> {Authorization, SecretSpecProviderCache}"

fun export_entries ::
  "(VaultAction \<Rightarrow> ('s, VaultError, VaultResponseBody) action) \<Rightarrow> VaultEntryMetadata list
     \<Rightarrow> ('s, VaultError, VaultArchiveEntry list) action" where
  "export_entries request [] = sret []"
| "export_entries request (entry # entries) =
     sbind (request (ExportVaultEntryAction entry)) (\<lambda>body.
     sbind (slift (case body of
         VaultEntrySecretBody v evict_at \<Rightarrow> Inr \<lparr>ae_metadata = entry, ae_value = v, ae_evict_at = evict_at\<rparr>
       | _ \<Rightarrow> Inl (Protocol ''unexpected export entry response''))) (\<lambda>archived.
     sbind (export_entries request entries) (\<lambda>rest.
     sret (archived # rest))))"

partial_function (option) export_pages ::
  "(VaultAction \<Rightarrow> ('s, VaultError, VaultResponseBody) action) \<Rightarrow> (VaultEntryMetadata \<Rightarrow> bool) \<Rightarrow> string option
     \<Rightarrow> VaultArchiveEntry list \<Rightarrow> 's \<Rightarrow> (VaultArchiveEntry list vault_result \<times> 's) option" where
  "export_pages request wanted cursor archived s =
     (case request (ListVaultEntriesAction cursor MAX_LIST_PAGE_SIZE) s of
        (Inr (VaultEntriesBody entries next_cursor), s) \<Rightarrow>
          (case export_entries request (filter (\<lambda>e. exported_kind e \<and> wanted e) entries) s of
             (Inl e, s) \<Rightarrow> Some (Inl e, s)
           | (Inr page, s) \<Rightarrow>
               (case next_cursor of
                  None \<Rightarrow> Some (Inr (archived @ page), s)
                | Some next \<Rightarrow>
                    if (case cursor of None \<Rightarrow> False | Some old \<Rightarrow> old \<ge> next)
                    then Some (Inl (Protocol ''export inventory cursor did not advance''), s)
                    else export_pages request wanted (Some next) (archived @ page) s))
      | (Inl e, s) \<Rightarrow> Some (Inl e, s)
      | (_, s) \<Rightarrow> Some (Inl (Protocol ''unexpected export inventory response''), s))"

definition read_vault_export ::
  "(VaultAction \<Rightarrow> ('s, VaultError, VaultResponseBody) action) \<Rightarrow> (VaultEntryMetadata \<Rightarrow> bool) \<Rightarrow> 's
     \<Rightarrow> (VaultArchiveEntry list vault_result \<times> 's) option" where
  "read_vault_export request wanted s =
     (case export_revision_request request s of
        (Inl e, s) \<Rightarrow> Some (Inl e, s)
      | (Inr expected, s) \<Rightarrow>
          (case export_pages request wanted None [] s of
             None \<Rightarrow> None
           | Some (Inl e, s) \<Rightarrow> Some (Inl e, s)
           | Some (Inr archived, s) \<Rightarrow>
               Some (sbind (export_revision_request request) (\<lambda>revision.
                 slift (if revision \<noteq> expected then Inl (Protocol ''vault changed during export; retry the export'')
                        else Inr archived)) s)))"

section \<open>Import\<close>

record ImportSummary =
  is_added :: nat
  is_replaced :: nat
  is_kept_existing :: nat
  is_preserved_only :: nat

definition processed :: "ImportSummary \<Rightarrow> nat" where
  "processed s = is_added s + is_replaced s + is_kept_existing s"

record PreparedImport =
  pi_entries :: "VaultArchiveEntry list"
  pi_preserved_only :: nat

datatype ImportError =
    BeforeEpoch
  | ExpiredWhileWaiting
  | Interrupted ImportSummary VaultError
  | UnexpectedReply ImportSummary

definition count_status :: "VaultEntryImportStatus \<Rightarrow> ImportSummary \<Rightarrow> ImportSummary" where
  "count_status status s = (case status of
      Added \<Rightarrow> s\<lparr>is_added := is_added s + 1\<rparr>
    | Replaced \<Rightarrow> s\<lparr>is_replaced := is_replaced s + 1\<rparr>
    | KeptExisting \<Rightarrow> s\<lparr>is_kept_existing := is_kept_existing s + 1\<rparr>)"

fun import_entries ::
  "(VaultAction \<Rightarrow> ('s, VaultError, VaultResponseBody) action) \<Rightarrow> bool \<Rightarrow> VaultArchiveEntry list \<Rightarrow> ImportSummary
     \<Rightarrow> ('s, ImportError, ImportSummary) action" where
  "import_entries request replace_existing [] summary = sret summary"
| "import_entries request replace_existing (entry # entries) summary = (\<lambda>s.
     case request (ImportVaultEntryAction (ae_metadata entry) (ae_value entry) (ae_evict_at entry) replace_existing) s of
       (Inl e, s) \<Rightarrow> (Inl (Interrupted summary e), s)
     | (Inr (VaultEntryImportedBody status), s) \<Rightarrow>
         import_entries request replace_existing entries (count_status status summary) s
     | (Inr _, s) \<Rightarrow> (Inl (UnexpectedReply summary), s))"

definition import_commit ::
  "(VaultAction \<Rightarrow> ('s, VaultError, VaultResponseBody) action) \<Rightarrow> u64 option \<Rightarrow> PreparedImport \<Rightarrow> bool
     \<Rightarrow> ('s, ImportError, ImportSummary) action" where
  "import_commit request system_seconds plan replace_existing =
     sbind (slift (ok_or system_seconds BeforeEpoch)) (\<lambda>now.
     sbind (slift (guard (\<not> list_ex (\<lambda>entry. case ae_evict_at entry of None \<Rightarrow> False | Some deadline \<Rightarrow> deadline < now)
       (pi_entries plan)) ExpiredWhileWaiting)) (\<lambda>_.
     import_entries request replace_existing (pi_entries plan)
       \<lparr>is_added = 0, is_replaced = 0, is_kept_existing = 0, is_preserved_only = pi_preserved_only plan\<rparr>))"

end
