(* ===== verification/Archive_Properties.thy ===== *)
theory Archive_Properties
  imports Service_Reference Archive
begin

text \<open>The properties of portable backups: a file written is read back, up to a size the writer does not respect.\<close>

section \<open>Reading a file back\<close>

text \<open>The documented contracts: codecs that round-trip, an AEAD that opens what it sealed and takes every payload of an
  archive, padded base64, a file that contains the text of its ciphertext, and a key derivation and locked memory that
  succeed under the parameters written.\<close>

definition archive_env_ok :: "'z archive_env_scheme \<Rightarrow> bool" where
  "archive_env_ok A \<longleftrightarrow> json_ok (j_header A) \<and> json_ok (j_archive A) \<and> json_ok (j_file A) \<and>
     aead_ok (av_cipher A) \<and>
     (\<forall>k n a p. length p \<le> MAX_ARCHIVE_PAYLOAD_BYTES \<longrightarrow> aead_seal (av_cipher A) k n a p \<noteq> None) \<and>
     (\<forall>b. std_decode A (std_encode A b) = Some b \<and> length (std_encode A b) = 4 * ((length b + 2) div 3)) \<and>
     (\<forall>e b. to_vec (j_file A) e = Inr b \<longrightarrow> length (ea_ciphertext e) \<le> length b) \<and>
     argon_params A ARGON2_MEMORY_KIB ARGON2_ITERATIONS ARGON2_PARALLELISM = Inr () \<and>
     (\<forall>salt passphrase. is_ok (argon_hash A ARGON2_MEMORY_KIB ARGON2_ITERATIONS ARGON2_PARALLELISM salt passphrase)) \<and>
     (\<forall>n. av_lock A n = Inr ())"

lemma archive_env_okD:
  assumes "archive_env_ok A"
  shows "json_ok (j_header A)" "json_ok (j_archive A)" "json_ok (j_file A)" "aead_ok (av_cipher A)"
    "length p \<le> MAX_ARCHIVE_PAYLOAD_BYTES \<Longrightarrow> \<exists>c. aead_seal (av_cipher A) k n a p = Some c"
    "std_decode A (std_encode A b) = Some b" "length (std_encode A b) = 4 * ((length b + 2) div 3)"
    "to_vec (j_file A) e = Inr b \<Longrightarrow> length (ea_ciphertext e) \<le> length b"
    "argon_params A ARGON2_MEMORY_KIB ARGON2_ITERATIONS ARGON2_PARALLELISM = Inr ()"
    "\<exists>key. argon_hash A ARGON2_MEMORY_KIB ARGON2_ITERATIONS ARGON2_PARALLELISM salt passphrase = Inr key"
    "av_lock A n' = Inr ()"
  using assms unfolding archive_env_ok_def is_ok_iff by blast+

lemma archive_current: "archive_validate J archive = Inr u \<Longrightarrow> va_version archive = ARCHIVE_VERSION"
  by (auto simp: archive_validate_def res_simps)

lemma archive_kdf_valid:
  "\<not> unsafe_parameters (archive_header A archive salt)"
  "archive_validate J archive = Inr u \<Longrightarrow> validate_header (archive_header A archive salt) = Inr ()"
  by (auto simp: archive_header_def unsafe_parameters_def MAX_ARGON2_MEMORY_KIB_def MAX_ARGON2_ITERATIONS_def
      MAX_ARGON2_PARALLELISM_def ARGON2_MEMORY_KIB_def ARGON2_ITERATIONS_def ARGON2_PARALLELISM_def validate_header_def
      dest: archive_current)

lemma derived:
  assumes "archive_env_ok A" and "length salt = SALT_BYTES"
  obtains key where "derive_key A passphrase (ah_kdf (archive_header A archive salt)) = Inr key"
proof -
  obtain key where "argon_hash A ARGON2_MEMORY_KIB ARGON2_ITERATIONS ARGON2_PARALLELISM salt passphrase = Inr key"
    using archive_env_okD(10) [OF assms(1)] by blast
  moreover have "decode_array A SALT_BYTES ''archive salt'' (std_encode A salt) = Inr salt"
    using assms(2) archive_env_okD(6) [OF assms(1)] by (simp add: decode_array_def)
  ultimately have "derive_key A passphrase (ah_kdf (archive_header A archive salt)) = Inr key"
    using archive_env_okD(9,11) [OF assms(1)] archive_kdf_valid(1) [of A archive salt]
    by (simp add: derive_key_def validate_header_def unsafe_parameters_def archive_header_def)
  then show ?thesis by (rule that)
qed

lemma archive_file:
  assumes ok: "archive_env_ok A" and valid: "archive_validate (j_item A) archive = Inr ()"
    and strong: "validate_new_password A passphrase = Inr ()" and "passphrase \<noteq> []"
    and "length salt = SALT_BYTES" and "length nonce = NONCE_BYTES"
    and payload: "to_vec (j_archive A) archive = Inr payload" "length payload \<le> MAX_ARCHIVE_PAYLOAD_BYTES"
  shows "\<exists>file. encrypt_vault_archive A (Inr salt) (Inr nonce) archive passphrase = Inr file \<and>
    decrypt_vault_archive A file passphrase =
      (if length file \<le> MAX_ARCHIVE_FILE_BYTES then Inr archive else Inl (InvalidData ''FactorSeal archive is too large'')) \<and>
    4 * ((length payload + 18) div 3) \<le> length file"
proof -
  let ?h = "archive_header A archive salt"
  obtain aad where aad: "to_vec (j_header A) ?h = Inr aad" using archive_env_okD(1) [OF ok] by (rule json_okE)
  obtain key where key: "derive_key A passphrase (ah_kdf ?h) = Inr key" by (rule derived [OF ok assms(5)])
  obtain c where c: "aead_seal (av_cipher A) key nonce aad payload = Some c"
    using archive_env_okD(5) [OF ok payload(2)] by blast
  then have o: "aead_open (av_cipher A) key nonce aad c = Some payload" "length c = length payload + 16"
    using archive_env_okD(4) [OF ok] by (auto simp: aead_ok_def)
  let ?e = "\<lparr>ea_header = ?h, ea_nonce = std_encode A nonce, ea_ciphertext = std_encode A c\<rparr>"
  obtain f where f: "to_vec (j_file A) ?e = Inr f" "from_slice (j_file A) f = Inr ?e"
    using archive_env_okD(3) [OF ok] by (rule json_okE)
  have contents: "from_slice (j_archive A) payload = Inr archive"
    using archive_env_okD(2) [OF ok] payload(1) by (metis json_okE sum.inject(2))
  have lock: "av_lock A n = Inr ()" "std_decode A (std_encode A b) = Some b" for n b
    using archive_env_okD(6,11) [OF ok] by simp_all
  have enc: "encrypt_vault_archive A (Inr salt) (Inr nonce) archive passphrase = Inr f"
    using valid strong aad key c f payload lock
    by (simp add: encrypt_vault_archive_def encrypt_archive_def Let_def serialize_locked_def bounded_write_def crypto_encrypt_def)
  have dec: "decrypt_vault_archive A f passphrase = Inr archive" if "length f \<le> MAX_ARCHIVE_FILE_BYTES"
    using that valid assms(4,6) aad key o f payload(2) contents lock archive_kdf_valid(2) [OF valid, of A salt] archive_current [OF valid]
    by (simp add: decrypt_vault_archive_def validate_passphrase_def decode_array_def crypto_decrypt_def provider_for_def
        ARCHIVE_VERSION_def)
  have "length (std_encode A c) \<le> length f" using archive_env_okD(8) [OF ok f(1)] by simp
  moreover have "length (std_encode A c) = 4 * ((length payload + 18) div 3)"
    using archive_env_okD(7) [OF ok, of c] o(2) by simp
  ultimately show ?thesis using enc dec by (auto simp: decrypt_vault_archive_def)
qed

section \<open>A concrete file format\<close>

instance VaultEntryMetadata_ext :: (countable) countable
proof (rule countable_classI)
  fix x y :: "'a VaultEntryMetadata_scheme"
  let ?f = "\<lambda>c :: 'a VaultEntryMetadata_scheme. to_nat
    (vm_access_project c, vm_display_name c, vm_display_type c, vm_display_username c, vm_display_website c,
     vm_updated_at c, vm_favorite c, vm_document_kind c, vm_partition c, vm_address c, VaultEntryMetadata.more c)"
  assume "?f x = ?f y"
  then show "x = y" by simp
qed

instance VaultArchiveEntry_ext :: (countable) countable
proof (rule countable_classI)
  fix x y :: "'a VaultArchiveEntry_scheme"
  let ?f = "\<lambda>c :: 'a VaultArchiveEntry_scheme. to_nat (ae_metadata c, ae_value c, ae_evict_at c, VaultArchiveEntry.more c)"
  assume "?f x = ?f y"
  then show "x = y" by simp
qed

instance VaultArchive_ext :: (countable) countable
proof (rule countable_classI)
  fix x y :: "'a VaultArchive_scheme"
  let ?f = "\<lambda>c :: 'a VaultArchive_scheme. to_nat (va_format c, va_version c, va_created_at c, va_entries c, VaultArchive.more c)"
  assume "?f x = ?f y"
  then show "x = y" by simp
qed

instance ArchiveKdf_ext :: (countable) countable
proof (rule countable_classI)
  fix x y :: "'a ArchiveKdf_scheme"
  let ?f = "\<lambda>c :: 'a ArchiveKdf_scheme. to_nat
    (kd_algorithm c, kd_version c, kd_memory_kib c, kd_iterations c, kd_parallelism c, kd_salt c, ArchiveKdf.more c)"
  assume "?f x = ?f y"
  then show "x = y" by simp
qed

instance ArchiveHeader_ext :: (countable) countable
proof (rule countable_classI)
  fix x y :: "'a ArchiveHeader_scheme"
  let ?f = "\<lambda>c :: 'a ArchiveHeader_scheme. to_nat (ah_format c, ah_version c, ah_kdf c, ah_cipher c, ArchiveHeader.more c)"
  assume "?f x = ?f y"
  then show "x = y" by simp
qed

instance EncryptedArchive_ext :: (countable) countable
proof (rule countable_classI)
  fix x y :: "'a EncryptedArchive_scheme"
  let ?f = "\<lambda>c :: 'a EncryptedArchive_scheme. to_nat (ea_header c, ea_nonce c, ea_ciphertext c, EncryptedArchive.more c)"
  assume "?f x = ?f y"
  then show "x = y" by simp
qed

text \<open>A codec that writes one chosen value to a chosen number of bytes.\<close>

definition sized_json :: "nat \<Rightarrow> 'a :: countable \<Rightarrow> 'a json" where
  "sized_json n x = \<lparr>
     to_vec = (\<lambda>y. if y = x then Inr (replicate (Suc n) (CHR ''a'')) else map_sum (\<lambda>e. e) (Cons (CHR ''b'')) (to_vec count_json y)),
     from_slice = (\<lambda>b. if b \<noteq> [] \<and> hd b = CHR ''a'' then Inr x else from_slice count_json (tl b))\<rparr>"

lemma sized_json_ok: "json_ok (sized_json n (x :: 'a :: countable))"
  unfolding json_ok_def
proof
  fix y :: 'a
  obtain b where "to_vec count_json y = Inr b" "from_slice count_json b = Inr y" by (rule json_okE [OF count_json_ok])
  then show "\<exists>b. to_vec (sized_json n x) y = Inr b \<and> from_slice (sized_json n x) b = Inr y"
    by (cases "y = x") (simp_all add: sized_json_def)
qed

definition file_json :: "EncryptedArchive \<Rightarrow> EncryptedArchive json" where
  "file_json x = \<lparr>
     to_vec = (\<lambda>y. map_sum (\<lambda>e. e) (\<lambda>b. replicate (length (ea_ciphertext y)) (CHR ''c'') @ b) (to_vec (sized_json 0 x) y)),
     from_slice = (\<lambda>b. from_slice (sized_json 0 x) (dropWhile (\<lambda>c. c = CHR ''c'') b))\<rparr>"

lemma file_json_ok: "json_ok (file_json x)" "to_vec (file_json x) e = Inr b \<Longrightarrow> length (ea_ciphertext e) \<le> length b"
proof -
  have first: "dropWhile (\<lambda>c. c = CHR ''c'') (replicate n (CHR ''c'') @ b) = b"
    if "to_vec (sized_json 0 x) y = Inr b" for n b y
  proof -
    have "b \<noteq> []" "hd b \<noteq> CHR ''c''" using that by (auto simp: sized_json_def map_sum_def split: if_splits sum.splits)
    then have "dropWhile (\<lambda>c. c = CHR ''c'') b = b" by (cases b) simp_all
    then show ?thesis by (simp add: dropWhile_append)
  qed
  show "json_ok (file_json x)"
    unfolding json_ok_def
  proof
    fix y
    obtain b where b: "to_vec (sized_json 0 x) y = Inr b" "from_slice (sized_json 0 x) b = Inr y" by (rule json_okE [OF sized_json_ok])
    then show "\<exists>b. to_vec (file_json x) y = Inr b \<and> from_slice (file_json x) b = Inr y"
      using first [OF b(1)] by (simp add: file_json_def)
  qed
  show "to_vec (file_json x) e = Inr b \<Longrightarrow> length (ea_ciphertext e) \<le> length b"
    by (auto simp: file_json_def map_sum_def split: sum.splits)
qed

text \<open>A padded encoding of three bytes in four characters that marks the length in its last one.\<close>

definition padded_encode :: "bytes \<Rightarrow> string" where
  "padded_encode b = (if b = [] then [] else b @ replicate (4 * ((length b + 2) div 3) - length b - 1) (CHR 0x00) @
     [char_of (length b mod 3)])"

definition padded_decode :: "string \<Rightarrow> bytes option" where
  "padded_decode s = Some (if s = [] then []
     else take (3 * (length s div 4) - (if of_char (last s) = (0 :: nat) then 0 else 3 - of_char (last s))) s)"

lemma padded_length: "3 * ((n + 2) div 3) - (if n mod 3 = 0 then 0 else 3 - n mod 3) = (n :: nat)"
proof -
  have "3 * ((3 * q + r + 2) div 3) - (if r = 0 then 0 else 3 - r) = 3 * q + r" if "r < 3" for q r :: nat
  proof -
    have "(3 * q + r + 2) div 3 = q + (r + 2) div 3" by (metis add.assoc div_mult_self4 zero_neq_numeral)
    moreover from that consider "r = 0" | "r = 1" | "r = 2" by linarith
    then have "3 * (q + (r + 2) div 3) - (if r = 0 then 0 else 3 - r) = 3 * q + r" by cases simp_all
    ultimately show ?thesis by simp
  qed
  from this [of "n mod 3" "n div 3"] show ?thesis by simp
qed

lemma padded_code: "padded_decode (padded_encode b) = Some b" "length (padded_encode b) = 4 * ((length b + 2) div 3)"
proof -
  have len: "length (padded_encode b) = 4 * ((length b + 2) div 3)"
  proof (cases "b = []")
    case False
    then have "0 < length b" by simp
    then have "length b + 1 \<le> 4 * ((length b + 2) div 3)" by presburger
    with False show ?thesis by (simp add: padded_encode_def)
  qed (simp add: padded_encode_def)
  have "of_char (last (padded_encode b)) = length b mod 3" if "b \<noteq> []"
    using that by (simp add: padded_encode_def of_char_of)
  moreover have "3 * ((length b + 2) div 3) - (if length b mod 3 = 0 then 0 else 3 - length b mod 3) = length b"
    by (rule padded_length)
  ultimately show "padded_decode (padded_encode b) = Some b"
    using len by (cases "b = []") (auto simp: padded_decode_def, simp_all add: padded_encode_def)
  show "length (padded_encode b) = 4 * ((length b + 2) div 3)" by (rule len)
qed

definition sample_archive :: VaultArchive where
  "sample_archive = archive_new 7 [\<lparr>ae_metadata = \<lparr>vm_access_project = None, vm_display_name = None, vm_display_type = None,
     vm_display_username = None, vm_display_website = None, vm_updated_at = None, vm_favorite = False,
     vm_document_kind = LocalKeyring, vm_partition = ''p'', vm_address = Local ''svc'' None\<rparr>, ae_value = ''secret'', ae_evict_at = None\<rparr>]"

definition sample_salt :: bytes where "sample_salt = replicate 16 (CHR ''s'')"
definition sample_nonce :: bytes where "sample_nonce = replicate 12 (CHR ''n'')"

definition unwritten_env :: "nat \<Rightarrow> EncryptedArchive \<Rightarrow> archive_env" where
  "unwritten_env n x = \<lparr>std_encode = padded_encode, std_decode = padded_decode, argon_params = (\<lambda>_ _ _. Inr ()),
     argon_hash = (\<lambda>_ _ _ salt p. Inr (salt @ p)), av_cipher = reference_aead, av_lock = (\<lambda>_. Inr ()), j_header = count_json,
     j_archive = sized_json n sample_archive, j_file = file_json x,
     j_item = \<lparr>to_vec = (\<lambda>_. Inl []), from_slice = (\<lambda>_. Inl [])\<rparr>,
     j_index = \<lparr>to_vec = (\<lambda>_. Inl []), from_slice = (\<lambda>_. Inl [])\<rparr>, from_utf8 = Some, estimate = (\<lambda>_. (4, None))\<rparr>"

definition sample_file :: EncryptedArchive where
  "sample_file = \<lparr>ea_header = archive_header (unwritten_env 0 undefined) sample_archive sample_salt,
     ea_nonce = padded_encode sample_nonce, ea_ciphertext = padded_encode (CHR ''a'' # replicate 16 (CHR 0x00))\<rparr>"

lemma written_env_ok: "archive_env_ok (unwritten_env n x)"
  by (auto simp: archive_env_ok_def unwritten_env_def sized_json_ok file_json_ok padded_code aead_ok_def reference_aead_def)

lemma sample_archive_valid:
  "archive_validate J sample_archive = Inr ()" "validate_new_password (unwritten_env n x) ''pw'' = Inr ()"
  by (simp_all add: archive_validate_def sample_archive_def archive_new_def without_labels_def MAX_ARCHIVE_ENTRIES_def
      validate_archive_entry_def validate_transfer_def validate_namespace_def MAX_NAMESPACE_BYTES_def
      validate_address_component_def MAX_ADDRESS_COMPONENT_BYTES_def validate_new_password_def unwritten_env_def)

lemma sample_sizes: "length sample_salt = SALT_BYTES" "length sample_nonce = NONCE_BYTES"
    "to_vec (j_archive (unwritten_env n x)) sample_archive = Inr (replicate (Suc n) (CHR ''a''))"
  by (simp_all add: sample_salt_def sample_nonce_def SALT_BYTES_def NONCE_BYTES_def unwritten_env_def sized_json_def)

lemma sample_encrypted:
  "encrypt_vault_archive (unwritten_env 0 sample_file) (Inr sample_salt) (Inr sample_nonce) sample_archive ''pw'' =
     Inr (replicate 24 (CHR ''c'') @ ''a'')"
proof -
  let ?A = "unwritten_env 0 sample_file"
  have salt: "length sample_salt = SALT_BYTES" by (rule sample_sizes)
  obtain key where key: "derive_key ?A ''pw'' (ah_kdf (archive_header ?A sample_archive sample_salt)) = Inr key"
    by (rule derived [OF written_env_ok salt])
  obtain aad where aad: "to_vec count_json (archive_header ?A sample_archive sample_salt) = Inr aad"
    by (rule json_okE [OF count_json_ok])
  have header: "archive_header ?A sample_archive sample_salt = archive_header (unwritten_env 0 undefined) sample_archive sample_salt"
    by (simp add: archive_header_def unwritten_env_def)
  have written: "to_vec (j_file ?A) \<lparr>ea_header = archive_header ?A sample_archive sample_salt, ea_nonce = padded_encode sample_nonce,
      ea_ciphertext = padded_encode (CHR ''a'' # replicate 16 (CHR 0x00))\<rparr> = Inr (replicate 24 (CHR ''c'') @ ''a'')"
  proof -
    have "j_file ?A = file_json sample_file" by (simp add: unwritten_env_def)
    moreover have "\<lparr>ea_header = archive_header ?A sample_archive sample_salt, ea_nonce = padded_encode sample_nonce,
      ea_ciphertext = padded_encode (CHR ''a'' # replicate 16 (CHR 0x00))\<rparr> = sample_file"
      by (subst header) (simp only: sample_file_def)
    moreover have "length (ea_ciphertext sample_file) = 24" by (simp add: sample_file_def padded_code)
    moreover have "to_vec (sized_json 0 sample_file) sample_file = Inr ''a''" by (simp add: sized_json_def)
    ultimately show ?thesis by (simp add: file_json_def)
  qed
  have env: "j_header ?A = count_json" "std_encode ?A = padded_encode" "av_lock ?A n = Inr ()"
      "aead_seal (av_cipher ?A) k m a p = Some (p @ replicate 16 (CHR 0x00))" for n k m a p
    by (simp_all add: unwritten_env_def reference_aead_def)
  have size: "length (replicate (Suc 0) (CHR ''a'')) \<le> MAX_ARCHIVE_PAYLOAD_BYTES" by (simp add: MAX_ARCHIVE_PAYLOAD_BYTES_def)
  show ?thesis
    using key aad written size env sample_archive_valid(1) [of "j_item ?A"] sample_archive_valid(2) [of 0 sample_file]
      sample_sizes(3) [of 0 sample_file]
    by (simp add: encrypt_vault_archive_def encrypt_archive_def Let_def serialize_locked_def bounded_write_def crypto_encrypt_def)
qed

section \<open>Properties\<close>

text \<open>C15: a valid archive within the payload bound, under a passphrase the policy accepts, is written to a file, and the
  file is read back as the archive exactly when it is within the reader's bound.\<close>

theorem archive_round_trip:
  assumes "archive_env_ok A" and "archive_validate (j_item A) archive = Inr ()"
    and "validate_new_password A passphrase = Inr ()" and "passphrase \<noteq> []"
    and "length salt = SALT_BYTES" and "length nonce = NONCE_BYTES"
    and "to_vec (j_archive A) archive = Inr payload" and "length payload \<le> MAX_ARCHIVE_PAYLOAD_BYTES"
  shows "\<exists>file. encrypt_vault_archive A (Inr salt) (Inr nonce) archive passphrase = Inr file \<and>
    decrypt_vault_archive A file passphrase =
      (if length file \<le> MAX_ARCHIVE_FILE_BYTES then Inr archive else Inl (InvalidData ''FactorSeal archive is too large''))"
  using archive_file [OF assms] by blast

theorem archive_round_trip_witness:
  "\<exists>f. encrypt_vault_archive (unwritten_env 0 sample_file) (Inr sample_salt) (Inr sample_nonce) sample_archive ''pw'' = Inr f \<and>
     decrypt_vault_archive (unwritten_env 0 sample_file) f ''pw'' = Inr sample_archive"
proof -
  obtain f where f: "encrypt_vault_archive (unwritten_env 0 sample_file) (Inr sample_salt) (Inr sample_nonce) sample_archive ''pw'' = Inr f"
      "decrypt_vault_archive (unwritten_env 0 sample_file) f ''pw'' =
         (if length f \<le> MAX_ARCHIVE_FILE_BYTES then Inr sample_archive else Inl (InvalidData ''FactorSeal archive is too large''))"
    using archive_round_trip [OF written_env_ok sample_archive_valid _ sample_sizes, of 0 sample_file]
    by (auto simp: MAX_ARCHIVE_PAYLOAD_BYTES_def)
  moreover have "length f = 25" using f(1) unfolding sample_encrypted by auto
  ultimately show ?thesis by (simp add: MAX_ARCHIVE_FILE_BYTES_def)
qed

text \<open>C16: the payload bound of the writer does not keep its files within the bound of the reader: a payload within
  fifteen bytes of it gives a file that is written without an error and that no reader accepts.\<close>

theorem archive_payload_bound_too_large:
  assumes "archive_env_ok A" and "archive_validate (j_item A) archive = Inr ()"
    and "validate_new_password A passphrase = Inr ()" and "passphrase \<noteq> []"
    and "length salt = SALT_BYTES" and "length nonce = NONCE_BYTES"
    and "to_vec (j_archive A) archive = Inr payload" and "length payload \<le> MAX_ARCHIVE_PAYLOAD_BYTES"
    and "MAX_ARCHIVE_PAYLOAD_BYTES - 15 \<le> length payload"
  shows "\<exists>file. encrypt_vault_archive A (Inr salt) (Inr nonce) archive passphrase = Inr file \<and>
    decrypt_vault_archive A file passphrase = Inl (InvalidData ''FactorSeal archive is too large'')"
proof -
  have "MAX_ARCHIVE_FILE_BYTES < 4 * ((length payload + 18) div 3)"
    using assms(9) by (simp add: MAX_ARCHIVE_PAYLOAD_BYTES_def MAX_ARCHIVE_FILE_BYTES_def)
  with archive_file [OF assms(1-8)] show ?thesis by fastforce
qed

theorem archive_payload_bound_too_large_witness:
  "\<exists>f. encrypt_vault_archive (unwritten_env (MAX_ARCHIVE_PAYLOAD_BYTES - 1) sample_file) (Inr sample_salt) (Inr sample_nonce)
       sample_archive ''pw'' = Inr f \<and>
     decrypt_vault_archive (unwritten_env (MAX_ARCHIVE_PAYLOAD_BYTES - 1) sample_file) f ''pw'' =
       Inl (InvalidData ''FactorSeal archive is too large'')"
  by (rule archive_payload_bound_too_large [OF written_env_ok sample_archive_valid _ sample_sizes])
    (simp_all add: MAX_ARCHIVE_PAYLOAD_BYTES_def)

end
