(* ===== verification/Export_Properties.thy ===== *)
theory Export_Properties
  imports Paging Archive_Properties
begin

text \<open>Exporting an inventory that does not change meanwhile reads it completely.\<close>

type_synonym inventory_row = "string \<times> VaultEntryMetadata"

text \<open>The answers of a service that lists the rows \<open>es\<close> by key and holds \<open>held e\<close> for the entry \<open>e\<close>.\<close>

definition answer_export ::
  "inventory_row list \<Rightarrow> (VaultEntryMetadata \<Rightarrow> bytes \<times> u64 option) \<Rightarrow> bytes option \<Rightarrow> VaultAction \<Rightarrow> VaultResponseBody vault_result" where
  "answer_export es held revision action = (case action of
      ExportRevisionAction \<Rightarrow> Inr (ExportRevisionBody revision)
    | ListVaultEntriesAction cursor limit \<Rightarrow>
        (let page = paginate es cursor limit in Inr (VaultEntriesBody (pg_items page) (pg_next_cursor page)))
    | ExportVaultEntryAction entry \<Rightarrow> Inr (VaultEntrySecretBody (fst (held entry)) (snd (held entry)))
    | _ \<Rightarrow> Inl WorkerUnavailable)"

definition archived_entry :: "(VaultEntryMetadata \<Rightarrow> bytes \<times> u64 option) \<Rightarrow> VaultEntryMetadata \<Rightarrow> VaultArchiveEntry" where
  "archived_entry held e = \<lparr>ae_metadata = e, ae_value = fst (held e), ae_evict_at = snd (held e)\<rparr>"

lemma export_entries_answered:
  assumes "\<And>a s. request a s = (answer_export es held revision a, step s)"
  shows "\<exists>s'. export_entries request entries s = (Inr (map (archived_entry held) entries), s')"
proof (induction entries arbitrary: s)
  case (Cons e entries)
  have "request (ExportVaultEntryAction e) s = (Inr (VaultEntrySecretBody (fst (held e)) (snd (held e))), step s)"
    using assms by (simp add: answer_export_def)
  moreover obtain s' where "export_entries request entries (step s) = (Inr (map (archived_entry held) entries), s')"
    using Cons.IH [of "step s"] by blast
  ultimately show ?case by (simp add: archived_entry_def)
qed simp

lemma export_pages_answered:
  assumes request: "\<And>a s. request a s = (answer_export es held revision a, step s)"
    and sorted: "sorted_wrt (<) (map fst es)"
  shows "\<exists>s'. export_pages request wanted cursor archived s = Some (Inr (archived @ map (archived_entry held)
    (filter (\<lambda>e. exported_kind e \<and> wanted e) (map snd (key_rest (es, MAX_LIST_PAGE_SIZE) cursor)))), s')"
proof (induction "length (key_rest (es, MAX_LIST_PAGE_SIZE) cursor)" arbitrary: cursor archived s rule: less_induct)
  case less
  let ?rest = "key_rest (es, MAX_LIST_PAGE_SIZE) cursor" and ?n = MAX_LIST_PAGE_SIZE
  let ?W = "\<lambda>e. exported_kind e \<and> wanted e"
  have pos: "0 < ?n" by (simp add: MAX_LIST_PAGE_SIZE_def)
  have req: "request (ListVaultEntriesAction cursor ?n) s = (Inr (VaultEntriesBody (map snd (take ?n ?rest))
      (if length ?rest \<le> ?n then None else Some (fst (last (take ?n ?rest))))), step s)"
    using request paginate_page [of es cursor ?n] by (simp add: answer_export_def Let_def)
  obtain s1 where page: "export_entries request (filter ?W (map snd (take ?n ?rest))) (step s) =
      (Inr (map (archived_entry held) (filter ?W (map snd (take ?n ?rest)))), s1)"
    using export_entries_answered [where request = request, OF request] by blast
  show ?case
  proof (cases "length ?rest \<le> ?n")
    case True
    then show ?thesis using req page by (subst export_pages.simps) simp
  next
    case False
    let ?c = "fst (last (take ?n ?rest))"
    have next': "key_rest (es, ?n) (Some ?c) = drop ?n ?rest"
      using key_rest_next [of "(es, ?n)" ?n cursor] sorted pos False by simp
    then have "length (key_rest (es, ?n) (Some ?c)) < length ?rest" using False pos by simp
    from less.hyps [OF this] obtain s2 where
      "export_pages request wanted (Some ?c) (archived @ map (archived_entry held) (filter ?W (map snd (take ?n ?rest)))) s1 =
        Some (Inr ((archived @ map (archived_entry held) (filter ?W (map snd (take ?n ?rest)))) @
          map (archived_entry held) (filter ?W (map snd (drop ?n ?rest)))), s2)"
      unfolding next' by blast
    moreover have "map (archived_entry held) (filter ?W (map snd (take ?n ?rest))) @ map (archived_entry held) (filter ?W (map snd (drop ?n ?rest)))
      = map (archived_entry held) (filter ?W (map snd ?rest))"
      by (metis append_take_drop_id filter_append map_append)
    moreover have "last (take ?n ?rest) \<in> set ?rest" using False pos by (metis in_set_takeD last_in_set length_0_conv less_nat_zero_code not_le take_eq_Nil)
    then have "after_cursor cursor ?c" unfolding key_rest_def by (auto split: option.splits)
    then have "\<not> (case cursor of None \<Rightarrow> False | Some old \<Rightarrow> ?c \<le> old)" by (auto split: option.splits)
    ultimately show ?thesis using req page False by (subst export_pages.simps) simp
  qed
qed

text \<open>C17: reading an inventory for export ends with every exportable entry the caller wants exactly once, in key order, with
  the value and the deadline the vault holds.\<close>

theorem export_reads_every_entry:
  assumes "\<And>a s. request a s = (answer_export es held revision a, step s)" and "sorted_wrt (<) (map fst es)"
  shows "\<exists>s'. read_vault_export request wanted s = Some (Inr (map (archived_entry held)
    (filter (\<lambda>e. exported_kind e \<and> wanted e) (map snd es))), s')"
proof -
  have rev: "export_revision_request request s = (Inr revision, step s)" for s
    using assms(1) by (simp add: export_revision_request_def answer_export_def)
  obtain s1 where "export_pages request wanted None [] (step s) = Some (Inr (map (archived_entry held)
      (filter (\<lambda>e. exported_kind e \<and> wanted e) (map snd es))), s1)"
    using export_pages_answered [where request = request, OF assms, of wanted None "[]" "step s"] by (auto simp: key_rest_def)
  with rev show ?thesis by (simp add: read_vault_export_def)
qed

theorem export_reads_every_entry_witness:
  "\<exists>s'. read_vault_export (\<lambda>a s. (answer_export [(''k'', ae_metadata (hd (va_entries sample_archive)))] (\<lambda>_. (''v'', Some 9)) None a, Suc s))
     (\<lambda>_. True) 0 = Some (Inr [\<lparr>ae_metadata = ae_metadata (hd (va_entries sample_archive)), ae_value = ''v'', ae_evict_at = Some 9\<rparr>], s')"
  using export_reads_every_entry [of "\<lambda>a s. (answer_export [(''k'', ae_metadata (hd (va_entries sample_archive)))] (\<lambda>_. (''v'', Some 9)) None a, Suc s)"
      "[(''k'', ae_metadata (hd (va_entries sample_archive)))]" "\<lambda>_. (''v'', Some 9)" None Suc "\<lambda>_. True" 0]
  by (simp add: sample_archive_def archive_new_def without_labels_def exported_kind_def archived_entry_def)

end
