(* ===== verification/Spec2Isabelle.thy ===== *)
theory Spec2Isabelle
  imports Lease History Document_Properties Grant_Properties Store_Properties Service_Properties State_Properties Export_Properties
begin

text \<open>
  A verification development for factorseal, a local secret vault: a service that keeps
  encrypted documents of secrets, unsealed for a bounded time, and that releases a secret
  to an authenticated local application only under a stored, user-approved permission.

  \<^bold>\<open>The program and its models.\<close>  A request comes in over a transport, with the identity the
  operating system vouches for.  The service validates it, checks that the vault is
  unsealed, refuses repeated identifiers, dispatches the action, and checks the lease and
  the validity of the answer once more before it is delivered.  An action looks up the
  caller's grant, reads or writes through a handle on the store, and a refused request may
  become an approval request.  The store is one worker thread over a database of encrypted
  snapshots, every generation of which is signed.

  \<^item> \<open>Prelude\<close>: results, actions over a state, 64-bit words and byte strings.
  \<^item> \<open>Vault_Types\<close> (\<open>vault/mod.rs\<close>, identities of \<open>protocol/wire.rs\<close>), \<open>Lease\<close>
    (\<open>protocol/lease.rs\<close>, \<open>service/time.rs\<close>), \<open>History\<close> (\<open>vault/history.rs\<close>).
  \<^item> \<open>Automerge_Api\<close>, \<open>Document\<close> (\<open>vault/document.rs\<close>, the hooks of \<open>document/personal.rs\<close> and
    \<open>document/replicas.rs\<close>): one document of records.
  \<^item> \<open>Sealing\<close> (\<open>crypto.rs\<close>, \<open>vault/keys.rs\<close>, \<open>vault/envelope.rs\<close>), \<open>Manifest\<close> (\<open>store/chain.rs\<close>,
    \<open>store/manifest.rs\<close>, \<open>vault/signature.rs\<close>), \<open>Secret_Service_Data\<close>
    (\<open>vault/secret_service_data.rs\<close>).
  \<^item> \<open>Store\<close>, \<open>Store_Worker\<close> (\<open>store/worker.rs\<close>, \<open>worker/mutation.rs\<close>, \<open>worker/state.rs\<close>,
    \<open>worker/integrity.rs\<close>, \<open>store/database.rs\<close>): loading, committing, startup, commands, the
    loop.  \<open>Record_Store\<close> is the interface of one document, \<open>Vault_Store\<close> (\<open>vault/store.rs\<close>) the
    handle of the service.
  \<^item> \<open>Grants\<close> (\<open>protocol/grant.rs\<close>), \<open>Wire\<close> (\<open>protocol/wire.rs\<close>), \<open>Approvals\<close>
    (\<open>service/approvals.rs\<close>), \<open>Actions\<close> (\<open>service/actions.rs\<close>), \<open>Service_State\<close>
    (\<open>service/state.rs\<close>), \<open>Service\<close> (\<open>protocol/service.rs\<close>, \<open>service/authorization.rs\<close>).
  \<^item> \<open>Archive\<close> (\<open>vault/archive.rs\<close>, \<open>security/password.rs\<close>, the commit of
    \<open>transfer/import_plan.rs\<close>).

  A struct is a record, an enum a datatype, a \<open>Result\<close> a sum with the error on the left, and
  a method that changes its receiver an action, a function from the state to a result and
  the next state.  Names are those of the code, with a prefix where HOL has the name.
  Readings of the clocks, random bytes and the outcome of each database statement are
  indexed by a counter of the state, so that a theorem quantifies over all of them.

  \<^bold>\<open>What is a parameter.\<close>  The crates the code calls are fields of environment records:
  digests, the cipher, signatures, base64, Argon2, serde codecs, Automerge and the random
  source.  Their documented contracts are the hypotheses \<open>hash_env_ok\<close>, \<open>doc_env_ok\<close>,
  \<open>store_env_ok\<close>, \<open>grant_codecs_ok\<close> and \<open>archive_env_ok\<close>.  \<open>Reference_Env\<close>, \<open>Store_Reference\<close>,
  \<open>Service_Reference\<close> and the last part of \<open>Archive_Properties\<close> give functions that meet them
  together; the concrete applications of the properties run there.

  \<^bold>\<open>What is proved.\<close>
  \<^item> \<open>Document_Laws\<close>, \<open>Document_Properties\<close>: batches refine updates of a map of records, a
    rejected batch leaves nothing behind, a snapshot holds the current records only.
  \<^item> \<open>Store_Laws\<close>, \<open>Store_Refinement\<close>, \<open>Store_Progress\<close>, \<open>Worker_Laws\<close>, \<open>Startup_Laws\<close>, \<open>Paging\<close>,
    \<open>Store_Properties\<close>: a load returns authentic data, a commit is all or nothing, the worker
    implements the locales of \<open>Record_Store\<close>, its rows match the verified state or it is
    sealed, a start accepts one state, and listings are complete.
  \<^item> \<open>Grant_Laws\<close>, \<open>Grant_Properties\<close>: proved once in the locales of \<open>Record_Store\<close> and applied to
    the store: the narrowest grant is found, approved permissions are usable, spent,
    revoked and superseded ones are not, and the grant document stays well formed.
  \<^item> \<open>Service_Laws\<close>, \<open>Request_Laws\<close>, \<open>Refusal_Laws\<close>, \<open>Redaction_Laws\<close>, \<open>Lifecycle_Laws\<close>,
    \<open>Service_Progress\<close>, \<open>Service_Properties\<close>: what an answered request shows of documents, grants,
    lease and clock; refusals; repeated requests; and that authorized reads are served.
  \<^item> \<open>Approval_Laws\<close>, \<open>Service_Invariant\<close>, \<open>Permission_Pages\<close>, \<open>State_Properties\<close>: the limits of the
    approval queue, its restart, the invariant of the service under requests, timer runs and
    other threads, and the paged permission list.
  \<^item> \<open>Archive_Properties\<close>, \<open>Export_Properties\<close>: archives are read back, up to a bound the writer
    does not respect, and an export reads every entry.

  \<^bold>\<open>Loops and fuel.\<close>  Loops over data are structural.  The loops of a client over pages are
  partial functions into \<open>option\<close>, and their return is proved.  A wait for an approval ends
  when a reading of the clock is past its deadline; the readings are arbitrary, so a wait
  takes the number of its wake-ups as fuel, and a request that has used it up is still
  waiting and has no answer.  Theorems about answers are about requests that returned; refusals and served
  reads are shown to return for every fuel.

  \<^bold>\<open>Where the model is coarser than the code.\<close>  The requests of other threads run between the
  wake-ups of a wait; between the action of a request and its final check only a seal can
  come in, while the code has released the mutex by then.  A violated UNIQUE constraint of a
  table is not a case of its own: it is one of the failures that any statement may have, and
  the liveness theorems assume statements that do not fail.  The mutex of the lease deadline
  is not poisoned.  The paging theorems of clients are about a listing that does not change
  meanwhile, ordered as the service orders it.

  \<^bold>\<open>Not modelled.\<close>  The migrations of earlier store, document and key formats; the browser
  bridge; the items behind the personal document and their synchronisation; the sealing of
  the installation key by factors and hardware; the parsers of foreign export formats; the
  D-Bus service; sockets, pipes and peer credentials; process isolation, locked memory and
  hardware keys; and the command line, desktop and mobile applications.  They are drivers of
  operating-system or network services, conversions that run once, or user interfaces over
  the modelled protocol.
\<close>

end
